(* ===== verification/Prelude.thy ===== *)
theory Prelude
  imports Main "HOL-Library.Multiset" "HOL-Library.List_Lexorder" "HOL-Library.Char_ord"
    "HOL-Library.Product_Lexorder" "HOL-Library.AList"
begin

text \<open>
  What every component of the development shares.  Go strings are byte strings, ordered
  byte by byte, which is the lexicographic order on \<^typ>\<open>string\<close>; a Go map that is
  iterated is an association list with distinct keys, in some insertion order; a Go slice
  sorted by \<open>sort.Slice\<close> or \<open>sort.Strings\<close> is \<^const>\<open>sort_key\<close> or
  \<^const>\<open>sort\<close>; \<open>sort.Search\<close> is the binary search of the standard library.
  A pointer is an \<open>option\<close>, a fallible function returns a sum with the error on the left.
\<close>

named_theorems wire_simps \<open>the wire spellings of the enumerated types\<close>

section \<open>Fallible computations\<close>

text \<open>A fallible step over a list stops at the first error, as a \<open>for\<close> loop with an
  early \<open>return err\<close> does.\<close>

fun map_err :: "('a \<Rightarrow> 'e + 'b) \<Rightarrow> 'a list \<Rightarrow> 'e + 'b list" where
  "map_err f [] = Inr []"
| "map_err f (x # xs) =
     (case f x of Inl e \<Rightarrow> Inl e
      | Inr y \<Rightarrow> (case map_err f xs of Inl e \<Rightarrow> Inl e | Inr ys \<Rightarrow> Inr (y # ys)))"

lemma map_err_Inr_iff:
  "map_err f xs = Inr ys \<longleftrightarrow> list_all2 (\<lambda>x y. f x = Inr y) xs ys"
proof (induction xs arbitrary: ys)
  case (Cons x xs)
  show ?case
  proof (cases "f x")
    case (Inr y)
    show ?thesis
    proof (cases "map_err f xs")
      case (Inl e)
      with Inr Cons.IH show ?thesis by (auto simp: list_all2_Cons1)
    next
      case M: (Inr zs)
      then have "list_all2 (\<lambda>x y. f x = Inr y) xs us \<longleftrightarrow> us = zs" for us
        using Cons.IH [of us] by auto
      with Inr M show ?thesis by (auto simp: list_all2_Cons1)
    qed
  qed (auto simp: list_all2_Cons1)
qed auto

lemma map_err_Inl_ex: "map_err f xs = Inl e \<Longrightarrow> \<exists>x \<in> set xs. f x = Inl e"
  by (induction xs) (auto split: sum.splits)

lemma map_err_total:
  "\<forall>x \<in> set xs. f x = Inr (g x) \<Longrightarrow> map_err f xs = Inr (map g xs)"
  by (induction xs) auto

lemma map_err_length: "map_err f xs = Inr ys \<Longrightarrow> length ys = length xs"
  by (auto simp: map_err_Inr_iff dest: list_all2_lengthD)

lemma map_err_set:
  assumes "map_err f xs = Inr ys" and "y \<in> set ys"
  obtains x where "x \<in> set xs" and "f x = Inr y"
proof -
  obtain i where i: "i < length ys" "y = ys ! i" using assms(2) by (auto simp: in_set_conv_nth)
  have L: "list_all2 (\<lambda>x y. f x = Inr y) xs ys" using assms(1) by (simp only: map_err_Inr_iff)
  show thesis
  proof (rule that)
    show "xs ! i \<in> set xs" using i list_all2_lengthD [OF L] by simp
    show "f (xs ! i) = Inr y" using list_all2_nthD2 [OF L i(1)] i(2) by simp
  qed
qed

lemma map_err_ok_iff: "(\<exists>ys. map_err f xs = Inr ys) \<longleftrightarrow> (\<forall>x \<in> set xs. \<exists>y. f x = Inr y)"
proof
  assume "\<forall>x \<in> set xs. \<exists>y. f x = Inr y"
  then have "\<forall>x \<in> set xs. f x = Inr (projr (f x))" by force
  then have "map_err f xs = Inr (map (\<lambda>x. projr (f x)) xs)" by (rule map_err_total)
  then show "\<exists>ys. map_err f xs = Inr ys" by (rule exI)
qed (auto simp: map_err_Inr_iff list_all2_conv_all_nth in_set_conv_nth)

lemma map_err_inj_on:
  assumes "map_err f xs = Inr ys" and "inj_on g (set xs)" and "\<And>x y. f x = Inr y \<Longrightarrow> h y = g x"
  shows "inj_on h (set ys)"
proof (rule inj_onI)
  fix a b assume "a \<in> set ys" "b \<in> set ys" and eq: "h a = h b"
  then obtain x y where "x \<in> set xs" "f x = Inr a" "y \<in> set xs" "f y = Inr b"
    using assms(1) by (metis map_err_set)
  with assms(2,3) eq show "a = b" by (metis Inr_inject inj_onD)
qed

lemma map_err_mset:
  assumes "map_err f xs = Inr ys" and "mset xs = mset xs'"
  shows "\<exists>ys'. map_err f xs' = Inr ys' \<and> mset ys' = mset ys"
proof -
  have ok: "\<forall>x \<in> set xs. \<exists>y. f x = Inr y"
    using assms(1) by (auto simp: map_err_Inr_iff list_all2_conv_all_nth in_set_conv_nth)
  have "set xs' = set xs" using assms(2) by (metis set_mset_mset)
  then have "\<forall>x \<in> set xs \<union> set xs'. f x = Inr (projr (f x))" using ok by force
  then have "map_err f xs = Inr (map (projr \<circ> f) xs)"
    and "map_err f xs' = Inr (map (projr \<circ> f) xs')"
    by (auto intro!: map_err_total)
  with assms show ?thesis by auto
qed

text \<open>A fallible loop that threads a state and stops at the first error.\<close>

fun fold_err :: "('a \<Rightarrow> 's \<Rightarrow> 'e + 's) \<Rightarrow> 'a list \<Rightarrow> 's \<Rightarrow> 'e + 's" where
  "fold_err f [] s = Inr s"
| "fold_err f (x # xs) s = (case f x s of Inl e \<Rightarrow> Inl e | Inr t \<Rightarrow> fold_err f xs t)"

lemma fold_err_append:
  "fold_err f (xs @ ys) s = (case fold_err f xs s of Inl e \<Rightarrow> Inl e | Inr t \<Rightarrow> fold_err f ys t)"
  by (induction xs arbitrary: s) (auto split: sum.splits)

lemma fold_err_total:
  "(\<And>x s. x \<in> set xs \<Longrightarrow> f x s = Inr (g x s)) \<Longrightarrow> fold_err f xs s = Inr (fold g xs s)"
  by (induction xs arbitrary: s) auto

text \<open>An invariant of every step is one of the loop.\<close>

lemma fold_err_invariant:
  assumes "fold_err f xs s = Inr t" and "P s"
    and "\<And>x s t. x \<in> set xs \<Longrightarrow> P s \<Longrightarrow> f x s = Inr t \<Longrightarrow> P t"
  shows "P t"
  using assms
proof (induction xs arbitrary: s)
  case (Cons x xs)
  obtain u where u: "f x s = Inr u" using Cons.prems(1) by (auto split: sum.splits)
  have "P u" using Cons.prems(3) [OF _ Cons.prems(2) u] by simp
  show ?case
  proof (rule Cons.IH [OF _ \<open>P u\<close>])
    show "fold_err f xs u = Inr t" using Cons.prems(1) u by simp
    show "P b" if "y \<in> set xs" "P a" "f y a = Inr b" for y a b
      using Cons.prems(3) [of y a b] that by simp
  qed
qed simp

text \<open>A store that is only appended to: what an operation finds it keeps, so whole histories of
  operations keep it.\<close>

locale append_only =
  fixes get :: "'s \<Rightarrow> 'k \<Rightarrow> 'v option" and run :: "'op \<Rightarrow> 's \<Rightarrow> 'e + 's"
  assumes run_keeps: "run x s = Inr t \<Longrightarrow> get s k = Some v \<Longrightarrow> get t k = Some v"
begin

lemma history_keeps: "fold_err run xs s = Inr t \<Longrightarrow> get s k = Some v \<Longrightarrow> get t k = Some v"
proof (induction xs arbitrary: s)
  case (Cons x xs)
  then obtain u where "run x s = Inr u" "fold_err run xs u = Inr t" by (auto split: sum.splits)
  with Cons.IH [of u] Cons.prems(2) run_keeps show ?case by blast
qed simp

end

section \<open>Binary search\<close>

text \<open>\<open>sort.Search(n, f)\<close> of the Go standard library: the loop over
  \<open>i, j := 0, n\<close> that halves the interval.\<close>

function search_loop :: "(nat \<Rightarrow> bool) \<Rightarrow> nat \<Rightarrow> nat \<Rightarrow> nat" where
  "search_loop f i j =
     (if i < j
      then (let h = (i + j) div 2 in
            if \<not> f h then search_loop f (h + 1) j else search_loop f i h)
      else i)"
  by pat_completeness auto
termination
  by (relation "measure (\<lambda>(f, i, j). j - i)") auto

declare search_loop.simps [simp del]

definition sort_Search :: "nat \<Rightarrow> (nat \<Rightarrow> bool) \<Rightarrow> nat" where
  "sort_Search n f = search_loop f 0 n"

lemma search_loop_correct:
  assumes "i \<le> j" and "j \<le> n"
    and "\<forall>a b. a \<le> b \<longrightarrow> b < n \<longrightarrow> f a \<longrightarrow> f b"
    and "\<forall>a < i. \<not> f a" and "\<forall>a. j \<le> a \<longrightarrow> a < n \<longrightarrow> f a"
  shows "search_loop f i j \<le> n \<and> (\<forall>a < search_loop f i j. \<not> f a)
     \<and> (\<forall>a. search_loop f i j \<le> a \<longrightarrow> a < n \<longrightarrow> f a)"
  using assms
proof (induction f i j rule: search_loop.induct)
  case (1 f i j)
  show ?case
  proof (cases "i < j")
    case False
    then have "search_loop f i j = i" by (simp add: search_loop.simps [of f i j])
    with False "1.prems" show ?thesis by auto
  next
    case True
    define h where "h = (i + j) div 2"
    have h: "i \<le> h" "h < j" using True by (auto simp: h_def)
    show ?thesis
    proof (cases "f h")
      case False
      have below: "\<forall>a < h + 1. \<not> f a"
      proof (intro allI impI)
        fix a assume "a < h + 1"
        then have "a \<le> h" by simp
        moreover have "h < n" using h "1.prems"(2) by simp
        ultimately show "\<not> f a" using "1.prems"(3) False by blast
      qed
      have "search_loop f i j = search_loop f (h + 1) j"
        using True False by (simp add: search_loop.simps [of f i j] h_def Let_def)
      then show ?thesis
        using "1.IH"(1) [OF True h_def False] h below "1.prems" by auto
    next
      case f_h: True
      have above: "\<forall>a. h \<le> a \<longrightarrow> a < n \<longrightarrow> f a" using "1.prems"(3) f_h by blast
      have "search_loop f i j = search_loop f i h"
        using True f_h by (simp add: search_loop.simps [of f i j] h_def Let_def)
      then show ?thesis
        using "1.IH"(2) [OF True h_def] f_h h above "1.prems" by auto
    qed
  qed
qed

lemma sort_Search_correct:
  assumes "\<forall>a b. a \<le> b \<longrightarrow> b < n \<longrightarrow> f a \<longrightarrow> f b"
  shows "sort_Search n f \<le> n" and "a < sort_Search n f \<Longrightarrow> \<not> f a"
    and "sort_Search n f \<le> a \<Longrightarrow> a < n \<Longrightarrow> f a"
  using search_loop_correct [of 0 n n f] assms by (auto simp: sort_Search_def)

text \<open>On a slice sorted by an integer key, dropping up to the found index keeps exactly the
  elements above the bound: the binary search is a filter.\<close>

lemma drop_sort_Search:
  fixes k :: "'a \<Rightarrow> int"
  assumes "sorted (map k xs)"
  shows "drop (sort_Search (length xs) (\<lambda>i. k (xs ! i) > b)) xs = filter (\<lambda>x. k x > b) xs"
proof -
  let ?f = "\<lambda>i. k (xs ! i) > b"
  let ?r = "sort_Search (length xs) ?f"
  have mono: "\<forall>a c. a \<le> c \<longrightarrow> c < length xs \<longrightarrow> ?f a \<longrightarrow> ?f c"
    using assms by (auto simp: sorted_iff_nth_mono) (meson le_less_trans less_le_trans)
  note S = sort_Search_correct [OF mono]
  have "filter (\<lambda>x. k x > b) (take ?r xs) = []"
    using S(1,2) by (auto simp: filter_empty_conv in_set_conv_nth)
  moreover have "filter (\<lambda>x. k x > b) (drop ?r xs) = drop ?r xs"
    using S(1,3) by (auto simp: filter_id_conv in_set_conv_nth)
  ultimately show ?thesis
    by (metis append_take_drop_id filter_append self_append_conv2)
qed

section \<open>Sorted lists\<close>

lemma sorted_key_last:
  assumes "sorted (map f xs)" and "x \<in> set xs"
  shows "f x \<le> f (last xs)"
  using assms by (induction xs) auto

lemma sorted_filter_self: "sorted xs \<Longrightarrow> sorted (filter P xs)"
  using sorted_filter [of "\<lambda>x. x" xs P] by simp

text \<open>An index loop that compares two slices element by element is a prefix test.\<close>

lemma prefix_loop:
  "(if length hs < length bs then False else list_all (\<lambda>i. bs ! i = hs ! i) [0..<length bs])
     \<longleftrightarrow> take (length bs) hs = bs"
proof (cases "length hs < length bs")
  case True
  then have "length (take (length bs) hs) \<noteq> length bs" by simp
  with True show ?thesis by (metis (full_types))
next
  case False
  have "take (length bs) hs = bs \<longleftrightarrow> (\<forall>i < length bs. bs ! i = hs ! i)"
  proof
    assume "take (length bs) hs = bs"
    then show "\<forall>i < length bs. bs ! i = hs ! i" by (metis nth_take)
  next
    assume "\<forall>i < length bs. bs ! i = hs ! i"
    with False show "take (length bs) hs = bs" by (intro nth_equalityI) simp_all
  qed
  with False show ?thesis by (simp add: list_all_iff Ball_def)
qed

lemma count_list_distinct: "distinct xs \<Longrightarrow> count_list xs x = (if x \<in> set xs then 1 else 0)"
  by (induction xs) auto

text \<open>Lists of keys that each name the entry they came from.\<close>

lemma distinct_concat_keyed:
  assumes "distinct (map f vs)" and "\<And>v. v \<in> set vs \<Longrightarrow> distinct (g v)"
    and "\<And>v k. v \<in> set vs \<Longrightarrow> k \<in> set (g v) \<Longrightarrow> h k = f v"
  shows "distinct (concat (map g vs))"
  using assms
proof (induction vs)
  case (Cons v vs)
  have "set (g v) \<inter> set (concat (map g vs)) = {}"
  proof (rule ccontr)
    assume "set (g v) \<inter> set (concat (map g vs)) \<noteq> {}"
    then obtain k w where "k \<in> set (g v)" "w \<in> set vs" "k \<in> set (g w)" by auto
    then have "f v = f w" using Cons.prems(3) [of v k] Cons.prems(3) [of w k] by simp
    with Cons.prems(1) \<open>w \<in> set vs\<close> show False by auto
  qed
  then show ?case using Cons by auto
qed simp

section \<open>Strings\<close>

text \<open>\<open>strings.TrimSpace\<close>: the UTF-8 encodings of the runes \<open>unicode.IsSpace\<close>
  accepts are cut from both ends.\<close>

definition space_runes :: "string list" where
  "space_runes =
     [[CHR 0x09], [CHR 0x0A], [CHR 0x0B], [CHR 0x0C], [CHR 0x0D], [CHR 0x20], [CHR 0xC2, CHR 0x85],
      [CHR 0xC2, CHR 0xA0], [CHR 0xE1, CHR 0x9A, CHR 0x80], [CHR 0xE2, CHR 0x80, CHR 0x80],
      [CHR 0xE2, CHR 0x80, CHR 0x81], [CHR 0xE2, CHR 0x80, CHR 0x82],
      [CHR 0xE2, CHR 0x80, CHR 0x83], [CHR 0xE2, CHR 0x80, CHR 0x84],
      [CHR 0xE2, CHR 0x80, CHR 0x85], [CHR 0xE2, CHR 0x80, CHR 0x86],
      [CHR 0xE2, CHR 0x80, CHR 0x87], [CHR 0xE2, CHR 0x80, CHR 0x88],
      [CHR 0xE2, CHR 0x80, CHR 0x89], [CHR 0xE2, CHR 0x80, CHR 0x8A],
      [CHR 0xE2, CHR 0x80, CHR 0xA8], [CHR 0xE2, CHR 0x80, CHR 0xA9],
      [CHR 0xE2, CHR 0x80, CHR 0xAF], [CHR 0xE2, CHR 0x81, CHR 0x9F],
      [CHR 0xE3, CHR 0x80, CHR 0x80]]"

definition leading_rune :: "string list \<Rightarrow> string \<Rightarrow> string option" where
  "leading_rune runes s = find (\<lambda>r. r \<noteq> [] \<and> take (length r) s = r) runes"

lemma leading_rune_shorter:
  "leading_rune runes s \<noteq> None \<Longrightarrow> length (drop (length (the (leading_rune runes s))) s) < length s"
proof -
  assume "leading_rune runes s \<noteq> None"
  then obtain r where "leading_rune runes s = Some r" "r \<noteq> []" "take (length r) s = r"
    by (auto simp: leading_rune_def find_Some_iff)
  then show ?thesis by (cases s) auto
qed

function trim_left :: "string list \<Rightarrow> string \<Rightarrow> string" where
  "trim_left runes s =
     (if leading_rune runes s = None then s
      else trim_left runes (drop (length (the (leading_rune runes s))) s))"
  by pat_completeness auto
termination
  by (relation "measure (\<lambda>(runes, s). length s)") (use leading_rune_shorter in auto)

declare trim_left.simps [simp del]

definition TrimSpace :: "string \<Rightarrow> string" where
  "TrimSpace s = rev (trim_left (map rev space_runes) (rev (trim_left space_runes s)))"

text \<open>\<open>strings.ToLower\<close> on ASCII text.\<close>

definition lower_char :: "char \<Rightarrow> char" where
  "lower_char c = (if 65 \<le> (of_char c :: nat) \<and> of_char c \<le> (90 :: nat) then char_of (of_char c + 32 :: nat) else c)"

definition ToLower :: "string \<Rightarrow> string" where
  "ToLower s = map lower_char s"

section \<open>Go maps as association lists\<close>

lemma map_of_update [simp]: "map_of (AList.update k v m) = (map_of m)(k \<mapsto> v)"
  by (rule update_conv')

lemma keys_update: "fst ` set (AList.update k v m) = insert k (fst ` set m)"
proof -
  have "fst ` set (AList.update k v m) = set (map fst (AList.update k v m))" by simp
  also have "\<dots> = insert k (fst ` set m)" by (simp only: update_keys) auto
  finally show ?thesis .
qed

lemma distinct_keys_update:
  "distinct (map fst m) \<Longrightarrow> distinct (map fst (AList.update k v m))"
  by (rule distinct_update)

lemma set_update_subset: "set (AList.update k v m) \<subseteq> insert (k, v) (set m)"
  by (induction m) auto

lemma update_fresh: "k \<notin> fst ` set m \<Longrightarrow> AList.update k v m = m @ [(k, v)]"
  by (induction m) auto

text \<open>\<open>m[k]++\<close> on a \<open>map[K]int\<close>, over a list of keys.\<close>

definition incr :: "'k \<Rightarrow> ('k \<times> int) list \<Rightarrow> ('k \<times> int) list" where
  "incr k m = AList.update k (case map_of m k of None \<Rightarrow> 1 | Some c \<Rightarrow> c + 1) m"

definition counts :: "'k list \<Rightarrow> ('k \<times> int) list" where
  "counts ks = fold incr ks []"

lemma counts_Nil [simp]: "counts [] = []"
  by (simp add: counts_def)

lemma counts_snoc [simp]: "counts (ks @ [k]) = incr k (counts ks)"
  by (simp add: counts_def)

lemma map_of_incr [simp]:
  "map_of (incr k m) = (map_of m)(k \<mapsto> (case map_of m k of None \<Rightarrow> 1 | Some c \<Rightarrow> c + 1))"
  by (simp add: incr_def)

lemma map_of_counts:
  "map_of (counts ks) k = (if k \<in> set ks then Some (int (count_list ks k)) else None)"
  by (induction ks rule: rev_induct) auto

lemma distinct_counts: "distinct (map fst (counts ks))"
  by (induction ks rule: rev_induct) (auto simp: incr_def intro: distinct_keys_update)

lemma keys_counts: "fst ` set (counts ks) = set ks"
  by (induction ks rule: rev_induct) (auto simp: incr_def keys_update)

lemma sum_incr:
  "distinct (map fst m) \<Longrightarrow> sum_list (map snd (incr k m)) = sum_list (map snd m) + 1"
proof (induction m)
  case Nil
  then show ?case by (simp add: incr_def)
next
  case (Cons p m)
  then show ?case by (cases p) (auto simp: incr_def split: option.splits)
qed

lemma sum_counts: "sum_list (map snd (counts ks)) = int (length ks)"
  by (induction ks rule: rev_induct) (auto simp: sum_incr distinct_counts)

text \<open>\<open>m[k] = append(m[k], v)\<close> on a \<open>map[string][]T\<close>, over a list of rows.\<close>

definition append_row :: "('r \<Rightarrow> 'k) \<Rightarrow> 'r \<Rightarrow> ('k \<times> 'r list) list \<Rightarrow> ('k \<times> 'r list) list" where
  "append_row own v m =
     AList.update (own v) ((case map_of m (own v) of None \<Rightarrow> [] | Some l \<Rightarrow> l) @ [v]) m"

definition group_rows :: "('r \<Rightarrow> 'k) \<Rightarrow> 'r list \<Rightarrow> ('k \<times> 'r list) list" where
  "group_rows own rows = fold (append_row own) rows []"

definition lookup_rows :: "('k \<times> 'r list) list \<Rightarrow> 'k \<Rightarrow> 'r list" where
  "lookup_rows m k = (case map_of m k of None \<Rightarrow> [] | Some l \<Rightarrow> l)"

lemma lookup_group_rows: "lookup_rows (group_rows own rows) k = filter (\<lambda>v. own v = k) rows"
proof (induction rows rule: rev_induct)
  case (snoc v rows)
  have "group_rows own (rows @ [v]) = append_row own v (group_rows own rows)"
    by (simp add: group_rows_def)
  with snoc show ?case by (auto simp: append_row_def lookup_rows_def split: option.splits)
qed (simp add: group_rows_def lookup_rows_def)

text \<open>\<open>m[k] = append(m[k], x)\<close> with a value that is not the row itself.\<close>

definition append_at :: "'k \<Rightarrow> 'r \<Rightarrow> ('k \<times> 'r list) list \<Rightarrow> ('k \<times> 'r list) list" where
  "append_at k x m = AList.update k (lookup_rows m k @ [x]) m"

lemma lookup_append_at [simp]:
  "lookup_rows (append_at k x m) j = (if j = k then lookup_rows m k @ [x] else lookup_rows m j)"
  by (simp add: append_at_def lookup_rows_def)

lemma lookup_rows_Nil [simp]: "lookup_rows [] k = []"
  by (simp add: lookup_rows_def)

lemma map_of_map_snd: "map_of (map (\<lambda>(k, v). (k, f v)) m) k = map_option f (map_of m k)"
  by (induction m) auto

end
