(* ===== verification/Json.thy ===== *)
theory Json
  imports Prelude
begin

text \<open>
  The part of \<open>encoding/json\<close> the research-state packages use, and
  \<open>manifest.CanonicalJSON\<close> (internal/rsg/manifest/manifest.go), which they all go
  through.  A JSON text is its token sequence (type \<open>raw\<close>): insignificant whitespace
  is dropped and string escapes are decoded, so two compact texts written by the same encoder
  are equal as bytes exactly when their token sequences are equal.  Numbers keep their literal
  (\<open>Decoder.UseNumber\<close>).  An input that does not lex is a text with the token
  \<open>TBad\<close>, which no value contains.  The nesting limit of the Go decoder (10000) is
  not modelled.

  The decoder takes fuel; \<open>parse_value_enough\<close> shows that the fuel \<open>decode\<close>
  gives it always suffices, so fuel never decides an outcome.
\<close>

section \<open>Values, texts, decoding and encoding\<close>

datatype jval =
    JNull
  | JBool bool
  | JNum string
  | JStr string
  | JArr "jval list"
  | JObj "(string \<times> jval) list"

datatype jtok =
    TNull | TTrue | TFalse | TNum string | TStr string
  | TLBrace | TRBrace | TLBrack | TRBrack | TComma | TColon | TBad

type_synonym raw = "jtok list"

text \<open>Decoding an object into a Go map: a repeated key keeps its last value.\<close>

definition mkobj :: "(string \<times> 'v) list \<Rightarrow> (string \<times> 'v) list" where
  "mkobj ms = fold (\<lambda>(k, v) m. AList.update k v m) ms []"

fun scalar :: "jtok \<Rightarrow> jval option" where
  "scalar TNull = Some JNull"
| "scalar TTrue = Some (JBool True)"
| "scalar TFalse = Some (JBool False)"
| "scalar (TNum s) = Some (JNum s)"
| "scalar (TStr s) = Some (JStr s)"
| "scalar _ = None"

definition starts :: "jtok \<Rightarrow> raw \<Rightarrow> bool" where
  "starts t ts \<longleftrightarrow> ts \<noteq> [] \<and> hd ts = t"

fun parse_value :: "nat \<Rightarrow> raw \<Rightarrow> (jval \<times> raw) option"
and parse_elems :: "nat \<Rightarrow> raw \<Rightarrow> (jval list \<times> raw) option"
and parse_members :: "nat \<Rightarrow> raw \<Rightarrow> ((string \<times> jval) list \<times> raw) option"
where
  "parse_value 0 ts = None"
| "parse_value (Suc n) ts =
     (case ts of
        [] \<Rightarrow> None
      | t # r \<Rightarrow>
          if t = TLBrack then
            if starts TRBrack r then Some (JArr [], tl r)
            else map_option (\<lambda>(vs, r'). (JArr vs, r')) (parse_elems n r)
          else if t = TLBrace then
            if starts TRBrace r then Some (JObj [], tl r)
            else map_option (\<lambda>(ms, r'). (JObj (mkobj ms), r')) (parse_members n r)
          else map_option (\<lambda>v. (v, r)) (scalar t))"
| "parse_elems 0 ts = None"
| "parse_elems (Suc n) ts =
     (case parse_value n ts of
        None \<Rightarrow> None
      | Some (v, r) \<Rightarrow>
          if starts TComma r then map_option (\<lambda>(vs, r'). (v # vs, r')) (parse_elems n (tl r))
          else if starts TRBrack r then Some ([v], tl r)
          else None)"
| "parse_members 0 ts = None"
| "parse_members (Suc n) ts =
     (case ts of
        TStr k # r0 \<Rightarrow>
          if starts TColon r0 then
            (case parse_value n (tl r0) of
               None \<Rightarrow> None
             | Some (v, r) \<Rightarrow>
                 if starts TComma r
                 then map_option (\<lambda>(ms, r'). ((k, v) # ms, r')) (parse_members n (tl r))
                 else if starts TRBrace r then Some ([(k, v)], tl r)
                 else None)
          else None
      | _ \<Rightarrow> None)"

text \<open>One \<open>Decoder.Decode\<close>: the first value of the text and what is left.\<close>

definition decode :: "raw \<Rightarrow> (jval \<times> raw) option" where
  "decode ts = parse_value (2 * length ts + 1) ts"

fun join_toks :: "raw list \<Rightarrow> raw" where
  "join_toks [] = []"
| "join_toks [x] = x"
| "join_toks (x # y # xs) = x @ TComma # join_toks (y # xs)"

primrec print_value :: "jval \<Rightarrow> raw" where
  "print_value JNull = [TNull]"
| "print_value (JBool b) = [if b then TTrue else TFalse]"
| "print_value (JNum s) = [TNum s]"
| "print_value (JStr s) = [TStr s]"
| "print_value (JArr vs) = TLBrack # join_toks (map print_value vs) @ [TRBrack]"
| "print_value (JObj kvs) =
     TLBrace # join_toks (map (\<lambda>(k, ts). TStr k # TColon # ts) (map (map_prod id print_value) kvs))
       @ [TRBrace]"

text \<open>\<open>json.Marshal\<close> of a decoded value writes every object with its keys sorted.\<close>

primrec canon :: "jval \<Rightarrow> jval" where
  "canon JNull = JNull"
| "canon (JBool b) = JBool b"
| "canon (JNum s) = JNum s"
| "canon (JStr s) = JStr s"
| "canon (JArr vs) = JArr (map canon vs)"
| "canon (JObj kvs) = JObj (sort_key fst (map (map_prod id canon) kvs))"

definition marshal :: "jval \<Rightarrow> raw" where
  "marshal v = print_value (canon v)"

datatype json_error = DecodeError | TrailingValue | TrailingContent

definition CanonicalJSON :: "raw \<Rightarrow> json_error + raw" where
  "CanonicalJSON r =
     (case decode r of
        None \<Rightarrow> Inl DecodeError
      | Some (v, rest) \<Rightarrow>
          if rest = [] then Inr (marshal v)
          else (case decode rest of
                  Some _ \<Rightarrow> Inl TrailingValue
                | None \<Rightarrow> Inl TrailingContent))"

text \<open>\<open>json.Unmarshal\<close> first checks that the text is exactly one value.\<close>

definition unmarshal_doc :: "raw \<Rightarrow> jval option" where
  "unmarshal_doc r = (case decode r of Some (v, []) \<Rightarrow> Some v | _ \<Rightarrow> None)"

text \<open>Into a \<open>[]json.RawMessage\<close>: each element keeps its own text.  \<open>Inl\<close> is the
  error, \<open>Inr None\<close> the nil slice a JSON null leaves.\<close>

fun raw_elems :: "nat \<Rightarrow> raw \<Rightarrow> raw list" where
  "raw_elems 0 ts = []"
| "raw_elems (Suc n) ts =
     (case decode ts of
        None \<Rightarrow> []
      | Some (v, r) \<Rightarrow>
          take (length ts - length r) ts
            # (if starts TComma r then raw_elems n (tl r) else []))"

definition unmarshal_slice :: "raw \<Rightarrow> unit + raw list option" where
  "unmarshal_slice r =
     (case unmarshal_doc r of
        Some (JArr vs) \<Rightarrow> Inr (Some (if vs = [] then [] else raw_elems (length r) (tl r)))
      | Some JNull \<Rightarrow> Inr None
      | _ \<Rightarrow> Inl ())"

text \<open>Into a \<open>map[string]json.RawMessage\<close>, likewise.\<close>

fun raw_members :: "nat \<Rightarrow> raw \<Rightarrow> (string \<times> raw) list" where
  "raw_members 0 ts = []"
| "raw_members (Suc n) ts =
     (case ts of
        TStr k # r0 \<Rightarrow>
          (case decode (tl r0) of
             None \<Rightarrow> []
           | Some (v, r) \<Rightarrow>
               (k, take (length (tl r0) - length r) (tl r0))
                 # (if starts TComma r then raw_members n (tl r) else []))
      | _ \<Rightarrow> [])"

definition unmarshal_object :: "raw \<Rightarrow> unit + (string \<times> raw) list option" where
  "unmarshal_object r =
     (case unmarshal_doc r of
        Some (JObj kvs) \<Rightarrow> Inr (Some (if kvs = [] then [] else mkobj (raw_members (length r) (tl r))))
      | Some JNull \<Rightarrow> Inr None
      | _ \<Rightarrow> Inl ())"

text \<open>Into a struct: a field is matched with letter case folded, on top of ASCII also for the two
  characters outside it that fold to a letter; a repeated key is decoded again into the same
  field, a null leaves it as it is, and a value of the wrong kind is an error.\<close>

fun fold_key :: "string \<Rightarrow> string" where
  "fold_key [] = []"
| "fold_key [a] = [lower_char a]"
| "fold_key [a, b] = (if a = CHR 0xC5 \<and> b = CHR 0xBF then ''s'' else [lower_char a, lower_char b])"
| "fold_key (a # b # c # s) =
     (if a = CHR 0xC5 \<and> b = CHR 0xBF then CHR ''s'' # fold_key (c # s)
      else if a = CHR 0xE2 \<and> b = CHR 0x84 \<and> c = CHR 0xAA then CHR ''k'' # fold_key s
      else lower_char a # fold_key (b # c # s))"

definition string_field :: "raw \<Rightarrow> string \<Rightarrow> string \<times> bool" where
  "string_field r cur =
     (case unmarshal_doc r of
        Some (JStr s) \<Rightarrow> (s, False)
      | Some JNull \<Rightarrow> (cur, False)
      | _ \<Rightarrow> (cur, True))"

definition decode_struct :: "(string \<times> (raw \<Rightarrow> 'a \<Rightarrow> 'a \<times> bool)) list \<Rightarrow> raw \<Rightarrow> 'a \<Rightarrow> 'a \<times> bool" where
  "decode_struct into r cur =
     (case unmarshal_doc r of
        Some (JObj kvs) \<Rightarrow>
          fold (\<lambda>(k, v) (a, err). case map_of into (fold_key k) of
                  None \<Rightarrow> (a, err)
                | Some f \<Rightarrow> (let (a', err') = f v a in (a', err \<or> err')))
            (if kvs = [] then [] else raw_members (length r) (tl r)) (cur, False)
      | Some JNull \<Rightarrow> (cur, False)
      | _ \<Rightarrow> (cur, True))"

text \<open>A field of type \<open>int\<close>: the literal must be an integer that fits 64 bits.\<close>

fun digits_value :: "nat \<Rightarrow> string \<Rightarrow> nat option" where
  "digits_value n [] = Some n"
| "digits_value n (c # s) =
     (if 48 \<le> (of_char c :: nat) \<and> of_char c \<le> (57 :: nat) then digits_value (10 * n + (of_char c - 48)) s else None)"

definition int_literal :: "string \<Rightarrow> int option" where
  "int_literal s =
     (let neg = (s \<noteq> [] \<and> hd s = CHR ''-''); ds = (if neg then tl s else s)
      in if ds = [] then None
         else case digits_value 0 ds of
                None \<Rightarrow> None
              | Some n \<Rightarrow> let i = (if neg then - int n else int n) in
                  if - (2 ^ 63) \<le> i \<and> i < 2 ^ 63 then Some i else None)"

definition int_field :: "raw \<Rightarrow> int \<Rightarrow> int \<times> bool" where
  "int_field r cur =
     (case unmarshal_doc r of
        Some (JNum s) \<Rightarrow> (case int_literal s of Some i \<Rightarrow> (i, False) | None \<Rightarrow> (cur, True))
      | Some JNull \<Rightarrow> (cur, False)
      | _ \<Rightarrow> (cur, True))"

text \<open>Values a decoder can produce: no object repeats a key.\<close>

primrec wf_json :: "jval \<Rightarrow> bool" where
  "wf_json JNull = True"
| "wf_json (JBool b) = True"
| "wf_json (JNum s) = True"
| "wf_json (JStr s) = True"
| "wf_json (JArr vs) = list_all (\<lambda>x. x) (map wf_json vs)"
| "wf_json (JObj kvs) =
     (distinct (map fst kvs) \<and> list_all (\<lambda>x. snd x) (map (map_prod id wf_json) kvs))"

section \<open>The decoder\<close>

lemma starts_Cons [simp]: "starts t (u # ts) \<longleftrightarrow> u = t" "\<not> starts t []"
  by (auto simp: starts_def)

lemma starts_length: "starts t ts \<Longrightarrow> length (tl ts) < length ts"
  by (cases ts) auto

lemma parse_consumes:
  "parse_value n ts = Some (v, r) \<Longrightarrow> length r < length ts"
  "parse_elems n ts = Some (vs, r) \<Longrightarrow> length r < length ts"
  "parse_members n ts = Some (ms, r) \<Longrightarrow> length r < length ts"
proof (induction n ts and n ts and n ts arbitrary: v r and vs r and ms r
    rule: parse_value_parse_elems_parse_members.induct)
qed (fastforce split: list.splits jtok.splits option.splits if_splits dest: starts_length)+

lemma parse_fuel_step:
  "2 * length ts < n \<Longrightarrow> parse_value (Suc n) ts = parse_value n ts"
  "2 * length ts + 1 < n \<Longrightarrow> parse_elems (Suc n) ts = parse_elems n ts"
  "2 * length ts + 1 < n \<Longrightarrow> parse_members (Suc n) ts = parse_members n ts"
proof (induction n ts and n ts and n ts rule: parse_value_parse_elems_parse_members.induct)
  case (2 n ts)
  show ?case
  proof (cases ts)
    case (Cons t r)
    with "2.prems" have "2 * length r + 1 < n" by simp
    with "2.IH" Cons have "t = TLBrack \<Longrightarrow> \<not> starts TRBrack r \<Longrightarrow> parse_elems (Suc n) r = parse_elems n r"
      and "t \<noteq> TLBrack \<Longrightarrow> t = TLBrace \<Longrightarrow> \<not> starts TRBrace r \<Longrightarrow> parse_members (Suc n) r = parse_members n r"
      by auto
    then show ?thesis unfolding Cons by (subst (1 2) parse_value.simps) (auto simp del: parse_elems.simps parse_members.simps)
  qed simp
next
  case (4 n ts)
  have V: "parse_value (Suc n) ts = parse_value n ts" using "4.prems" by (intro "4.IH") simp
  show ?case
  proof (cases "parse_value n ts")
    case None
    with V show ?thesis by (subst (1 2) parse_elems.simps) (simp del: parse_value.simps)
  next
    case (Some p)
    obtain v r where p: "p = (v, r)" by (cases p)
    have "length r < length ts" using Some p by (auto dest: parse_consumes)
    then have "starts TComma r \<Longrightarrow> 2 * length (tl r) + 1 < n"
      using "4.prems" starts_length [of TComma r] by linarith
    then have "starts TComma r \<Longrightarrow> parse_elems (Suc n) (tl r) = parse_elems n (tl r)"
      using "4.IH"(2) Some p by auto
    with V Some p show ?thesis
      by (subst (1 2) parse_elems.simps) (auto simp del: parse_value.simps parse_elems.simps)
  qed
next
  case (6 n ts)
  show ?case
  proof (cases "\<exists>k r0. ts = TStr k # r0 \<and> starts TColon r0")
    case False
    then show ?thesis
      by (subst (1 2) parse_members.simps) (auto split: list.splits jtok.splits)
  next
    case True
    then obtain k r0 where ts: "ts = TStr k # r0" and c: "starts TColon r0" by blast
    have l: "length (tl r0) < length r0" using c by (rule starts_length)
    have V: "parse_value (Suc n) (tl r0) = parse_value n (tl r0)"
      using "6.prems" ts l by (intro "6.IH"(1) [OF ts refl c]) simp
    show ?thesis
    proof (cases "parse_value n (tl r0)")
      case None
      with V ts c show ?thesis
        by (subst (1 2) parse_members.simps) (simp del: parse_value.simps)
    next
      case (Some p)
      obtain v r where p: "p = (v, r)" by (cases p)
      have "length r < length (tl r0)" using Some p by (auto dest: parse_consumes)
      then have "starts TComma r \<Longrightarrow> 2 * length (tl r) + 1 < n"
        using "6.prems" ts l starts_length [of TComma r] by simp
      then have "starts TComma r \<Longrightarrow> parse_members (Suc n) (tl r) = parse_members n (tl r)"
        using "6.IH"(2) ts c Some p by auto
      with V Some p ts c show ?thesis
        by (subst (1 2) parse_members.simps) (auto simp del: parse_value.simps parse_members.simps)
    qed
  qed
qed simp_all

lemma parse_value_enough:
  assumes "2 * length ts < n"
  shows "parse_value n ts = decode ts"
proof -
  have "parse_value (2 * length ts + 1 + m) ts = decode ts" for m
    by (induction m) (simp_all add: decode_def parse_fuel_step(1) del: parse_value.simps)
  from this [of "n - (2 * length ts + 1)"] assms show ?thesis by simp
qed

lemma decode_consumes: "decode ts = Some (v, r) \<Longrightarrow> length r < length ts"
  unfolding decode_def by (rule parse_consumes)

section \<open>Well-formedness and printing\<close>

lemma wf_json_JArr [simp]: "wf_json (JArr vs) \<longleftrightarrow> (\<forall>v \<in> set vs. wf_json v)"
  by (simp add: list_all_iff)

lemma wf_json_JObj [simp]:
  "wf_json (JObj kvs) \<longleftrightarrow> distinct (map fst kvs) \<and> (\<forall>v \<in> snd ` set kvs. wf_json v)"
  by (auto simp: list_all_iff)

declare wf_json.simps(5,6) [simp del]

lemma mkobj_snoc: "mkobj (ms @ [(k, v)]) = AList.update k v (mkobj ms)"
  by (simp add: mkobj_def)

lemma distinct_mkobj: "distinct (map fst (mkobj ms))"
  by (induction ms rule: rev_induct)
    (auto simp: mkobj_def intro: distinct_keys_update)

lemma values_mkobj: "snd ` set (mkobj ms) \<subseteq> snd ` set ms"
proof (induction ms rule: rev_induct)
  case (snoc p ms)
  obtain k v where p: "p = (k, v)" by (cases p)
  have "snd ` set (AList.update k v (mkobj ms)) \<subseteq> insert v (snd ` set (mkobj ms))"
    using image_mono [OF set_update_subset [of k v "mkobj ms"], of snd] by simp
  also have "\<dots> \<subseteq> insert v (snd ` set ms)" using snoc by blast
  finally show ?case by (simp add: p mkobj_snoc)
qed (simp add: mkobj_def)

lemma mkobj_distinct: "distinct (map fst ms) \<Longrightarrow> mkobj ms = ms"
proof (induction ms rule: rev_induct)
  case (snoc p ms)
  obtain k v where p: "p = (k, v)" by (cases p)
  have "AList.update k v ms = ms @ [(k, v)]"
    using snoc.prems p by (intro update_fresh) auto
  with snoc p show ?case by (simp add: mkobj_snoc)
qed (simp add: mkobj_def)

lemma parse_wf:
  "parse_value n ts = Some (v, r) \<Longrightarrow> wf_json v"
  "parse_elems n ts = Some (vs, r) \<Longrightarrow> \<forall>v \<in> set vs. wf_json v"
  "parse_members n ts = Some (ms, r) \<Longrightarrow> \<forall>v \<in> snd ` set ms. wf_json v"
proof (induction n ts and n ts and n ts arbitrary: v r and vs r and ms r
    rule: parse_value_parse_elems_parse_members.induct)
  case (2 n ts)
  have S: "scalar t = Some v \<Longrightarrow> wf_json v" for t by (cases t) auto
  show ?case
  proof (cases ts)
    case (Cons t r0)
    show ?thesis
    proof (cases "t = TLBrace \<and> \<not> starts TRBrace r0")
      case True
      with "2.prems" Cons obtain ms where ms: "parse_members n r0 = Some (ms, r)"
        and v: "v = JObj (mkobj ms)" by auto
      have "\<forall>u \<in> snd ` set ms. wf_json u" 
        by (rule "2.IH"(2) [OF Cons _ _ _ ms]) (use True in auto)
      then have "\<forall>u \<in> snd ` set (mkobj ms). wf_json u"
        by (intro ballI) (drule subsetD [OF values_mkobj], blast)
      with v show ?thesis by (simp add: distinct_mkobj)
    next
      case F: False
      show ?thesis
      proof (cases "t = TLBrack \<and> \<not> starts TRBrack r0")
        case True
        with "2.prems" Cons obtain vs where vs: "parse_elems n r0 = Some (vs, r)"
          and v: "v = JArr vs" by auto
        have "\<forall>u \<in> set vs. wf_json u" 
          by (rule "2.IH"(1) [OF Cons _ _ vs]) (use True in auto)
        with v show ?thesis by simp
      next
        case False
        with "2.prems" Cons F S show ?thesis by (auto split: if_splits)
      qed
    qed
  qed (use "2.prems" in simp)
qed (fastforce split: list.splits jtok.splits option.splits if_splits)+

lemma decode_wf: "decode ts = Some (v, r) \<Longrightarrow> wf_json v"
  unfolding decode_def by (rule parse_wf)

definition print_members :: "(string \<times> jval) list \<Rightarrow> raw" where
  "print_members kvs = join_toks (map (\<lambda>(k, v). TStr k # TColon # print_value v) kvs)"

lemma print_JObj [simp]: "print_value (JObj kvs) = TLBrace # print_members kvs @ [TRBrace]"
  by (simp add: print_members_def comp_def map_prod_def case_prod_unfold)

declare print_value.simps(6) [simp del]

lemma print_members_simps [simp]:
  "print_members [] = []"
  "print_members [(k, v)] = TStr k # TColon # print_value v"
  "print_members ((k, v) # p # kvs) = TStr k # TColon # print_value v @ TComma # print_members (p # kvs)"
  by (simp_all add: print_members_def)

text \<open>A printed value starts with a token that opens a value, never with a separator or a
  closing bracket.\<close>

lemma print_nonempty: "\<exists>t ts. print_value v = t # ts \<and> t \<notin> {TRBrack, TRBrace, TComma, TColon}"
  by (cases v) auto

lemma join_print_start:
  "\<not> starts TRBrack (join_toks (map print_value (v # vs)) @ TRBrack # r)"
  using print_nonempty [of v] by (cases vs) auto

section \<open>Round trip\<close>

text \<open>Decoding what was printed gives the value back, whatever follows it.\<close>

lemma parse_print_elems:
  assumes "\<And>v n rest. v \<in> set vs \<Longrightarrow> 2 * length (print_value v) \<le> n \<Longrightarrow>
      parse_value n (print_value v @ rest) = Some (v, rest)"
    and "vs \<noteq> []" and "2 * length (join_toks (map print_value vs)) + 1 \<le> n"
  shows "parse_elems n (join_toks (map print_value vs) @ TRBrack # rest) = Some (vs, rest)"
  using assms
proof (induction vs arbitrary: n)
  case (Cons v vs)
  obtain m where n: "n = Suc m" using Cons.prems(3) by (cases n) auto
  show ?case
  proof (cases vs)
    case Nil
    have "parse_value m (print_value v @ TRBrack # rest) = Some (v, TRBrack # rest)"
      using Cons.prems n Nil by (intro Cons.prems(1)) auto
    with n Nil show ?thesis by simp
  next
    case (Cons w ws)
    let ?r = "join_toks (map print_value vs) @ TRBrack # rest"
    have j: "join_toks (map print_value (v # vs)) = print_value v @ TComma # join_toks (map print_value vs)"
      using Cons by simp
    have "parse_value m (print_value v @ TComma # ?r) = Some (v, TComma # ?r)"
      using Cons.prems(3) n j by (intro Cons.prems(1)) auto
    moreover have "parse_elems m ?r = Some (vs, rest)"
      using Cons.prems n j Cons by (intro Cons.IH) auto
    ultimately show ?thesis using n j by simp
  qed
qed simp

lemma parse_print_members:
  assumes "\<And>k v n rest. (k, v) \<in> set kvs \<Longrightarrow> 2 * length (print_value v) \<le> n \<Longrightarrow>
      parse_value n (print_value v @ rest) = Some (v, rest)"
    and "kvs \<noteq> []" and "2 * length (print_members kvs) + 1 \<le> n"
  shows "parse_members n (print_members kvs @ TRBrace # rest) = Some (kvs, rest)"
  using assms
proof (induction kvs arbitrary: n)
  case (Cons p kvs)
  obtain k v where p: "p = (k, v)" by (cases p)
  obtain m where n: "n = Suc m" using Cons.prems(3) by (cases n) auto
  show ?case
  proof (cases kvs)
    case Nil
    have "parse_value m (print_value v @ TRBrace # rest) = Some (v, TRBrace # rest)"
      using Cons.prems n Nil p by (intro Cons.prems(1)) auto
    with n Nil p show ?thesis by simp
  next
    case (Cons q qs)
    let ?r = "print_members kvs @ TRBrace # rest"
    have j: "print_members (p # kvs) = TStr k # TColon # print_value v @ TComma # print_members kvs"
      using Cons p by simp
    have "parse_value m (print_value v @ TComma # ?r) = Some (v, TComma # ?r)"
      using Cons.prems(3) n j p by (intro Cons.prems(1)) auto
    moreover have "parse_members m ?r = Some (kvs, rest)"
      using Cons.prems n j Cons by (intro Cons.IH) auto
    ultimately show ?thesis using n j p by simp
  qed
qed simp

lemma parse_print:
  "wf_json v \<Longrightarrow> 2 * length (print_value v) \<le> n \<Longrightarrow>
     parse_value n (print_value v @ rest) = Some (v, rest)"
proof (induction v arbitrary: n rest)
  case (JArr vs)
  obtain m where n: "n = Suc m" using JArr.prems(2) by (cases n) auto
  show ?case
  proof (cases vs)
    case (Cons w ws)
    have "parse_elems m (join_toks (map print_value vs) @ TRBrack # rest) = Some (vs, rest)"
      using JArr n Cons by (intro parse_print_elems) auto
    then show ?thesis using n Cons join_print_start [of w ws rest] by simp
  qed (simp add: n)
next
  case (JObj kvs)
  obtain m where n: "n = Suc m" using JObj.prems(2) by (cases n) auto
  have IH: "parse_value n (print_value v @ rest) = Some (v, rest)"
    if "(k, v) \<in> set kvs" "2 * length (print_value v) \<le> n" for k v n rest
    by (rule JObj.IH [of "(k, v)"]) (use that JObj.prems(1) in \<open>auto simp: image_iff\<close>)
  show ?case
  proof (cases kvs)
    case (Cons q qs)
    have "parse_members m (print_members kvs @ TRBrace # rest) = Some (kvs, rest)"
      using JObj.prems n Cons by (intro parse_print_members IH) auto
    moreover have "\<not> starts TRBrace (print_members kvs @ TRBrace # rest)"
      using Cons by (cases q; cases qs) auto
    moreover have "mkobj kvs = kvs" using JObj.prems(1) by (simp add: mkobj_distinct)
    ultimately show ?thesis using n by simp
  qed (simp add: n)
qed (auto simp: le_iff_add)

lemma decode_print: "wf_json v \<Longrightarrow> decode (print_value v @ rest) = Some (v, rest)"
  unfolding decode_def by (rule parse_print) auto

lemma decode_print_Nil [simp]: "wf_json v \<Longrightarrow> decode (print_value v) = Some (v, [])"
  using decode_print [of v "[]"] by simp

lemma print_inject: "wf_json v \<Longrightarrow> wf_json w \<Longrightarrow> print_value v = print_value w \<longleftrightarrow> v = w"
  by (metis decode_print_Nil option.inject prod.inject)

section \<open>Canonical form\<close>

lemma insort_key_map_prod:
  "insort_key fst (map_prod id f x) (map (map_prod id f) xs) = map (map_prod id f) (insort_key fst x xs)"
  by (induction xs) auto

lemma sort_key_map_prod:
  "sort_key fst (map (map_prod id f) xs) = map (map_prod id f) (sort_key fst xs)"
  by (induction xs) (simp_all add: insort_key_map_prod [unfolded id_def])

lemma map_fst_map_prod [simp]: "map fst (map (map_prod id f) xs) = map fst xs"
  by (induction xs) auto

lemma canon_JObj: "canon (JObj kvs) = JObj (map (map_prod id canon) (sort_key fst kvs))"
  by (simp add: sort_key_map_prod)

lemma distinct_sort_key_fst: "distinct (map fst (sort_key fst xs)) \<longleftrightarrow> distinct (map fst xs)"
  by (metis distinct_map distinct_sort inj_on_cong set_sort)

lemma canon_wf: "wf_json v \<Longrightarrow> wf_json (canon v)"
proof (induction v)
  case (JObj kvs)
  then show ?case
    by (auto simp: canon_JObj distinct_sort_key_fst simp del: canon.simps)
qed auto

lemma canon_idem: "wf_json v \<Longrightarrow> canon (canon v) = canon v"
proof (induction v)
  case (JObj kvs)
  have "map (map_prod id canon) (map (map_prod id canon) (sort_key fst kvs))
      = map (map_prod id canon) (sort_key fst kvs)"
    using JObj by (auto simp: image_iff)
  moreover have "sort_key fst (map (map_prod id canon) (sort_key fst kvs))
      = map (map_prod id canon) (sort_key fst kvs)"
    by (simp add: sort_key_map_prod sort_key_id_if_sorted)
  ultimately show ?case by (simp add: canon_JObj sort_key_map_prod del: canon.simps(6))
qed auto

text \<open>The texts \<open>CanonicalJSON\<close> writes.\<close>

definition canonical_text :: "raw \<Rightarrow> bool" where
  "canonical_text c \<longleftrightarrow> (\<exists>v. wf_json v \<and> canon v = v \<and> c = print_value v)"

lemma CanonicalJSON_Inr_iff:
  "CanonicalJSON r = Inr c \<longleftrightarrow> (\<exists>v. decode r = Some (v, []) \<and> c = marshal v)"
  by (auto simp: CanonicalJSON_def split: option.splits if_splits)

lemma CanonicalJSON_canonical: "CanonicalJSON r = Inr c \<Longrightarrow> canonical_text c"
  unfolding CanonicalJSON_Inr_iff canonical_text_def marshal_def
  by (metis canon_idem canon_wf decode_wf)

lemma CanonicalJSON_of_canonical: "canonical_text c \<Longrightarrow> CanonicalJSON c = Inr c"
  by (auto simp: CanonicalJSON_Inr_iff canonical_text_def marshal_def)

text \<open>Two texts get the same canonical form exactly when they decode to the same value up to
  the order of object keys.\<close>

lemma CanonicalJSON_eq_iff:
  assumes "decode r = Some (v, [])" and "decode s = Some (w, [])"
  shows "CanonicalJSON r = CanonicalJSON s \<longleftrightarrow> canon v = canon w"
  using assms decode_wf [OF assms(1)] decode_wf [OF assms(2)]
  by (simp add: CanonicalJSON_def marshal_def print_inject canon_wf)

lemma canon_key_order:
  assumes "mset kvs = mset kvs'" and "distinct (map fst kvs)"
  shows "canon (JObj kvs) = canon (JObj kvs')"
proof -
  have "sort_key fst kvs = sort_key fst kvs'"
    by (rule sort_key_eq_sort_key) (use assms in \<open>auto simp: distinct_map\<close>)
  then show ?thesis by (simp add: canon_JObj del: canon.simps)
qed

section \<open>Splitting a text into the texts of its parts\<close>

lemma raw_elems_print:
  assumes "\<forall>v \<in> set vs. wf_json v" and "vs \<noteq> []" and "length vs \<le> n"
  shows "raw_elems n (join_toks (map print_value vs) @ TRBrack # rest) = map print_value vs"
  using assms
proof (induction vs arbitrary: n)
  case (Cons v vs)
  obtain m where n: "n = Suc m" using Cons.prems(3) by (cases n) auto
  show ?case
  proof (cases vs)
    case Nil
    with Cons.prems(1) n show ?thesis by (simp add: decode_print)
  next
    case (Cons w ws)
    have "raw_elems m (join_toks (map print_value vs) @ TRBrack # rest) = map print_value vs"
      using Cons.prems n Cons by (intro Cons.IH) auto
    with Cons.prems(1) n Cons show ?thesis by (simp add: decode_print)
  qed
qed simp

lemma length_join_toks: "\<forall>x \<in> set xs. x \<noteq> [] \<Longrightarrow> length xs \<le> length (join_toks xs)"
  by (induction xs rule: join_toks.induct) (auto simp: Suc_le_eq add_strict_increasing)

lemma print_value_ne [simp]: "print_value v \<noteq> []"
  using print_nonempty [of v] by auto

lemma unmarshal_slice_print:
  assumes "wf_json (JArr vs)"
  shows "unmarshal_slice (print_value (JArr vs)) = Inr (Some (map print_value vs))"
proof (cases "vs = []")
  case True
  have "decode [TLBrack, TRBrack] = Some (JArr [], [])"
    using decode_print_Nil [of "JArr []"] by simp
  with True show ?thesis by (simp add: unmarshal_slice_def unmarshal_doc_def)
next
  case False
  have "length vs \<le> length (join_toks (map print_value vs))"
    using length_join_toks [of "map print_value vs"] by simp
  then have "raw_elems (length (print_value (JArr vs))) (join_toks (map print_value vs) @ [TRBrack])
      = map print_value vs"
    using assms False by (intro raw_elems_print) auto
  moreover have "unmarshal_doc (print_value (JArr vs)) = Some (JArr vs)"
    using assms by (simp add: unmarshal_doc_def del: print_value.simps)
  ultimately show ?thesis using False by (simp add: unmarshal_slice_def)
qed

lemma raw_members_print:
  assumes "\<forall>v \<in> snd ` set kvs. wf_json v" and "kvs \<noteq> []" and "length kvs \<le> n"
  shows "raw_members n (print_members kvs @ TRBrace # rest) = map (map_prod id print_value) kvs"
  using assms
proof (induction kvs arbitrary: n)
  case (Cons p kvs)
  obtain k v where p: "p = (k, v)" by (cases p)
  obtain m where n: "n = Suc m" using Cons.prems(3) by (cases n) auto
  show ?case
  proof (cases kvs)
    case Nil
    with Cons.prems(1) n p show ?thesis by (simp add: decode_print)
  next
    case (Cons w ws)
    have "raw_members m (print_members kvs @ TRBrace # rest) = map (map_prod id print_value) kvs"
      using Cons.prems n Cons by (intro Cons.IH) auto
    with Cons.prems(1) n p Cons show ?thesis by (simp add: decode_print id_def)
  qed
qed simp

lemma unmarshal_object_print:
  assumes "wf_json (JObj kvs)"
  shows "unmarshal_object (print_value (JObj kvs)) = Inr (Some (map (map_prod id print_value) kvs))"
proof (cases "kvs = []")
  case True
  have "decode [TLBrace, TRBrace] = Some (JObj [], [])"
    using decode_print_Nil [of "JObj []"] by simp
  with True show ?thesis by (simp add: unmarshal_object_def unmarshal_doc_def)
next
  case False
  have "length kvs \<le> length (print_members kvs)"
    using length_join_toks [of "map (\<lambda>(k, v). TStr k # TColon # print_value v) kvs"]
    by (simp add: print_members_def split: prod.splits)
  then have "raw_members (length (print_value (JObj kvs))) (print_members kvs @ [TRBrace])
      = map (map_prod id print_value) kvs"
    using assms False by (intro raw_members_print) auto
  moreover have "unmarshal_doc (print_value (JObj kvs)) = Some (JObj kvs)"
    using assms by (simp add: unmarshal_doc_def del: print_JObj)
  moreover have "mkobj (map (map_prod id print_value) kvs) = map (map_prod id print_value) kvs"
    using assms by (intro mkobj_distinct) (simp only: map_fst_map_prod wf_json_JObj)
  ultimately show ?thesis using False by (simp add: unmarshal_object_def)
qed

section \<open>One value is recognised whatever follows it\<close>

lemma starts_append: "r \<noteq> [] \<Longrightarrow> starts t (r @ s) \<longleftrightarrow> starts t r"
  by (cases r) auto

lemma starts_ne: "starts t r \<Longrightarrow> r \<noteq> []"
  by (cases r) auto

lemma parse_Nil [simp]:
  "parse_value n [] = None" "parse_elems n [] = None" "parse_members n [] = None"
  by (induction n) auto

lemma parse_append:
  "parse_value n ts = Some (v, r) \<Longrightarrow> parse_value n (ts @ s) = Some (v, r @ s)"
  "parse_elems n ts = Some (vs, r) \<Longrightarrow> parse_elems n (ts @ s) = Some (vs, r @ s)"
  "parse_members n ts = Some (ms, r) \<Longrightarrow> parse_members n (ts @ s) = Some (ms, r @ s)"
proof (induction n ts and n ts and n ts arbitrary: v r and vs r and ms r
    rule: parse_value_parse_elems_parse_members.induct)
  case (2 n ts)
  show ?case
  proof (cases ts)
    case (Cons t r0)
    show ?thesis
    proof (cases "r0 = []")
      case True
      with "2.prems" Cons show ?thesis by (auto split: if_splits)
    next
      case False
      with "2.prems" "2.IH" Cons show ?thesis
        by (auto simp: starts_append split: if_splits)
    qed
  qed (use "2.prems" in simp)
next
  case (4 n ts)
  then obtain v r0 where v: "parse_value n ts = Some (v, r0)" by (auto split: option.splits)
  then have V: "parse_value n (ts @ s) = Some (v, r0 @ s)" by (rule "4.IH"(1))
  have "r0 \<noteq> []" using "4.prems" v by auto
  with "4.prems" "4.IH"(2) v V show ?case
    by (auto simp: starts_append split: if_splits)
next
  case (6 n ts)
  from "6.prems" obtain k r0 where ts: "ts = TStr k # r0" and c: "starts TColon r0"
    by (auto split: list.splits jtok.splits if_splits)
  from "6.prems" ts c obtain v r1 where v: "parse_value n (tl r0) = Some (v, r1)"
    by (auto split: option.splits)
  then have V: "parse_value n (tl r0 @ s) = Some (v, r1 @ s)" by (rule "6.IH"(1) [OF ts refl c])
  have "r1 \<noteq> []" using "6.prems" v ts c by auto
  moreover have "tl (r0 @ s) = tl r0 @ s" "starts TColon (r0 @ s)"
    using c starts_ne [OF c] by (simp_all add: starts_append)
  ultimately show ?case using "6.prems" "6.IH"(2) [OF ts refl c v refl] v V ts c
    by (auto simp: starts_append split: if_splits)
qed simp_all

lemma decode_append: "decode ts = Some (v, r) \<Longrightarrow> decode (ts @ s) = Some (v, r @ s)"
proof -
  assume "decode ts = Some (v, r)"
  then have "parse_value (2 * length (ts @ s) + 1) ts = Some (v, r)"
    by (subst parse_value_enough) auto
  then have "parse_value (2 * length (ts @ s) + 1) (ts @ s) = Some (v, r @ s)"
    by (rule parse_append)
  then show ?thesis by (simp add: decode_def)
qed

text \<open>The texts of single JSON values form a prefix code.\<close>

lemma single_value_split:
  assumes "unmarshal_doc a \<noteq> None" and "unmarshal_doc b \<noteq> None" and "a @ x = b @ y"
  shows "a = b \<and> x = y"
proof -
  from assms(1,2) obtain v w where "decode a = Some (v, [])" "decode b = Some (w, [])"
    by (auto simp: unmarshal_doc_def split: option.splits list.splits)
  then have "decode (a @ x) = Some (v, x)" "decode (b @ y) = Some (w, y)"
    by (auto dest: decode_append)
  with assms(3) have "x = y" by simp
  with assms(3) show ?thesis by simp
qed

lemma single_value_start:
  assumes "unmarshal_doc a \<noteq> None"
  shows "a \<noteq> []" and "\<not> starts TRBrack (a @ x)"
proof -
  from assms obtain v where v: "decode a = Some (v, [])"
    by (auto simp: unmarshal_doc_def split: option.splits list.splits)
  then show ne: "a \<noteq> []" by (auto simp: decode_def)
  show "\<not> starts TRBrack (a @ x)"
    using v ne by (cases a) (auto simp: decode_def)
qed

section \<open>Properties\<close>

text \<open>C40: the canonical form is a fixed point, is stable under re-encoding, and decodes to the
  value it was made from with the object keys sorted; nothing else of the value changes.\<close>

theorem canonical_form_roundtrip:
  assumes "CanonicalJSON r = Inr c"
  shows "CanonicalJSON c = Inr c \<and> (\<exists>v. decode r = Some (v, []) \<and> decode c = Some (canon v, []))"
proof -
  from assms obtain v where v: "decode r = Some (v, [])" "c = marshal v"
    by (auto simp: CanonicalJSON_Inr_iff)
  have "decode c = Some (canon v, [])"
    using decode_wf [OF v(1)] by (simp add: v(2) marshal_def canon_wf)
  moreover have "CanonicalJSON c = Inr c"
    using CanonicalJSON_canonical [OF assms] by (rule CanonicalJSON_of_canonical)
  ultimately show ?thesis using v(1) by blast
qed

theorem canonical_form_roundtrip_witness:
  "CanonicalJSON [TLBrace, TStr ''a'', TColon, TNull, TComma, TStr ''b'', TColon, TTrue, TRBrace]
   = Inr [TLBrace, TStr ''a'', TColon, TNull, TComma, TStr ''b'', TColon, TTrue, TRBrace]"
proof -
  have "CanonicalJSON [TLBrace, TStr ''b'', TColon, TTrue, TComma, TStr ''a'', TColon, TNull, TRBrace]
   = Inr [TLBrace, TStr ''a'', TColon, TNull, TComma, TStr ''b'', TColon, TTrue, TRBrace]"
    by code_simp
  from canonical_form_roundtrip [OF this] show ?thesis by simp
qed

text \<open>Two stored payloads have the same canonical form exactly when they denote the same value
  up to the order of object keys; a text that is not exactly one value has none.\<close>

theorem canonical_form_decides_equality:
  assumes "CanonicalJSON r = Inr c" and "CanonicalJSON s = Inr d"
  shows "c = d \<longleftrightarrow> canon (fst (the (decode r))) = canon (fst (the (decode s)))"
proof -
  from assms obtain v w where "decode r = Some (v, [])" "decode s = Some (w, [])"
    by (auto simp: CanonicalJSON_Inr_iff)
  with CanonicalJSON_eq_iff [OF this] assms show ?thesis by simp
qed

theorem canonical_form_decides_equality_witness:
  "canon (fst (the (decode [TLBrace, TStr ''b'', TColon, TTrue, TComma, TStr ''a'', TColon, TNull, TRBrace])))
   = canon (fst (the (decode [TLBrace, TStr ''a'', TColon, TNull, TComma, TStr ''b'', TColon, TTrue, TRBrace])))"
proof -
  have "CanonicalJSON [TLBrace, TStr ''b'', TColon, TTrue, TComma, TStr ''a'', TColon, TNull, TRBrace]
      = Inr [TLBrace, TStr ''a'', TColon, TNull, TComma, TStr ''b'', TColon, TTrue, TRBrace]"
    "CanonicalJSON [TLBrace, TStr ''a'', TColon, TNull, TComma, TStr ''b'', TColon, TTrue, TRBrace]
      = Inr [TLBrace, TStr ''a'', TColon, TNull, TComma, TStr ''b'', TColon, TTrue, TRBrace]"
    by code_simp+
  from canonical_form_decides_equality [OF this] show ?thesis by simp
qed

end
