(* ===== verification/Manifest.thy ===== *)
theory Manifest
  imports Json
begin

text \<open>
  The canonical export of one research state (internal/rsg/manifest/manifest.go): the version
  rows, the snapshot they are read as, \<open>Build\<close>, the content the state hash is computed
  over, and \<open>VerifyHash\<close>.

  Two pieces of the Go standard library are arguments of the definitions that use them:
  \<open>sha256\<close> is the rendered SHA-256 digest of a text and \<open>rfc3339\<close> the text
  \<open>time.Time\<close> marshals to.  Nothing is assumed of them unless a lemma says so.
  A \<open>time.Time\<close> is its instant and its zone offset; \<open>UTC\<close> drops the offset.
\<close>

section \<open>Rows and snapshots\<close>

record gotime =
  instant :: int
  zone :: int

definition utc :: "gotime \<Rightarrow> gotime" where
  "utc t = t\<lparr>zone := 0\<rparr>"

lemma utc_idem [simp]: "utc (utc t) = utc t"
  by (simp add: utc_def)

record SchemaRef =
  sr_ID :: string
  sr_Version :: string

record ObjectVersion =
  ov_ID :: string
  ov_ObjectID :: string
  ov_ObjectType :: string
  ov_VersionNo :: int
  ov_StateID :: string
  ov_BranchID :: "string option"
  ov_SchemaRef :: SchemaRef
  ov_Title :: string
  ov_LifecycleState :: string
  ov_Payload :: raw
  ov_VisibilityPolicyID :: "string option"
  ov_IntegrityHash :: string
  ov_CreatedBy :: string
  ov_CreatedAt :: gotime

record RelationVersion =
  rv_ID :: string
  rv_RelationID :: string
  rv_VersionNo :: int
  rv_StateID :: string
  rv_RelationType :: string
  rv_SourceObjectVersionID :: string
  rv_TargetObjectVersionID :: string
  rv_Payload :: raw
  rv_IntegrityHash :: string
  rv_CreatedBy :: string
  rv_CreatedAt :: gotime

record BlobRef =
  br_ID :: string
  br_Hash :: string

record Snapshot =
  sn_ObjectVersions :: "ObjectVersion list"
  sn_RelationVersions :: "RelationVersion list"
  sn_BlobRefs :: "BlobRef list"

text \<open>The state row (internal/domain/state.go) as far as the manifest reads it.\<close>

record ProjectState =
  ps_ID :: string
  ps_ProjectID :: string
  ps_BranchID :: "string option"
  ps_ParentStateID :: "string option"
  ps_StateHash :: string
  ps_GitCommitSHA :: "string option"
  ps_ManifestVersion :: string
  ps_CreatedAt :: gotime

record content =
  ct_FormatVersion :: string
  ct_ProjectID :: string
  ct_StateID :: string
  ct_ObjectVersions :: "ObjectVersion list"
  ct_RelationVersions :: "RelationVersion list"
  ct_SchemaRefs :: "string list"
  ct_PolicyRefs :: "string list"
  ct_BlobRefs :: "BlobRef list"
  ct_GitRef :: "string option"

record Manifest =
  mf_FormatVersion :: string
  mf_ProjectID :: string
  mf_StateID :: string
  mf_GeneratedAt :: gotime
  mf_ObjectVersions :: "ObjectVersion list"
  mf_RelationVersions :: "RelationVersion list"
  mf_SchemaRefs :: "string list"
  mf_PolicyRefs :: "string list"
  mf_BlobRefs :: "BlobRef list"
  mf_GitRef :: "string option"
  mf_StateHash :: string

datatype manifest_error =
    ManifestFormat string
  | ObjectPayload string json_error
  | RelationPayload string json_error
  | MarshalPayload

definition FormatV1 :: string where
  "FormatV1 = ''v1''"

section \<open>Marshalling the hashed content\<close>

text \<open>Struct fields in declaration order, slices, strings, nullable strings and integers.\<close>

definition obj_toks :: "(string \<times> raw) list \<Rightarrow> raw" where
  "obj_toks fs = TLBrace # join_toks (map (\<lambda>(k, r). TStr k # TColon # r) fs) @ [TRBrace]"

definition arr_toks :: "raw list \<Rightarrow> raw" where
  "arr_toks xs = TLBrack # join_toks xs @ [TRBrack]"

definition str_tok :: "string \<Rightarrow> raw" where
  "str_tok s = [TStr s]"

definition opt_tok :: "string option \<Rightarrow> raw" where
  "opt_tok s = (case s of None \<Rightarrow> [TNull] | Some t \<Rightarrow> [TStr t])"

fun show_nat :: "nat \<Rightarrow> string" where
  "show_nat n = (if n < 10 then [char_of (48 + n)] else show_nat (n div 10) @ [char_of (48 + n mod 10)])"

declare show_nat.simps [simp del]

definition int_tok :: "int \<Rightarrow> raw" where
  "int_tok n = [TNum (if n < 0 then CHR ''-'' # show_nat (nat (- n)) else show_nat (nat n))]"

definition schemaRef_toks :: "SchemaRef \<Rightarrow> raw" where
  "schemaRef_toks s = obj_toks [(''id'', str_tok (sr_ID s)), (''version'', str_tok (sr_Version s))]"

definition objectVersion_toks :: "(gotime \<Rightarrow> string) \<Rightarrow> ObjectVersion \<Rightarrow> raw" where
  "objectVersion_toks rfc3339 v = obj_toks
     [(''id'', str_tok (ov_ID v)),
      (''object_id'', str_tok (ov_ObjectID v)),
      (''object_type'', str_tok (ov_ObjectType v)),
      (''version_no'', int_tok (ov_VersionNo v)),
      (''state_id'', str_tok (ov_StateID v)),
      (''branch_id'', opt_tok (ov_BranchID v)),
      (''schema_ref'', schemaRef_toks (ov_SchemaRef v)),
      (''title'', str_tok (ov_Title v)),
      (''lifecycle_state'', str_tok (ov_LifecycleState v)),
      (''payload'', ov_Payload v),
      (''visibility_policy_id'', opt_tok (ov_VisibilityPolicyID v)),
      (''integrity_hash'', str_tok (ov_IntegrityHash v)),
      (''created_by'', str_tok (ov_CreatedBy v)),
      (''created_at'', str_tok (rfc3339 (ov_CreatedAt v)))]"

definition relationVersion_toks :: "(gotime \<Rightarrow> string) \<Rightarrow> RelationVersion \<Rightarrow> raw" where
  "relationVersion_toks rfc3339 v = obj_toks
     [(''id'', str_tok (rv_ID v)),
      (''relation_id'', str_tok (rv_RelationID v)),
      (''version_no'', int_tok (rv_VersionNo v)),
      (''state_id'', str_tok (rv_StateID v)),
      (''relation_type'', str_tok (rv_RelationType v)),
      (''source_object_version_id'', str_tok (rv_SourceObjectVersionID v)),
      (''target_object_version_id'', str_tok (rv_TargetObjectVersionID v)),
      (''payload'', rv_Payload v),
      (''integrity_hash'', str_tok (rv_IntegrityHash v)),
      (''created_by'', str_tok (rv_CreatedBy v)),
      (''created_at'', str_tok (rfc3339 (rv_CreatedAt v)))]"

definition blobRef_toks :: "BlobRef \<Rightarrow> raw" where
  "blobRef_toks b = obj_toks [(''id'', str_tok (br_ID b)), (''hash'', str_tok (br_Hash b))]"

definition content_toks :: "(gotime \<Rightarrow> string) \<Rightarrow> content \<Rightarrow> raw" where
  "content_toks rfc3339 c = obj_toks
     [(''format_version'', str_tok (ct_FormatVersion c)),
      (''project_id'', str_tok (ct_ProjectID c)),
      (''state_id'', str_tok (ct_StateID c)),
      (''object_versions'', arr_toks (map (objectVersion_toks rfc3339) (ct_ObjectVersions c))),
      (''relation_versions'', arr_toks (map (relationVersion_toks rfc3339) (ct_RelationVersions c))),
      (''schema_refs'', arr_toks (map str_tok (ct_SchemaRefs c))),
      (''policy_refs'', arr_toks (map str_tok (ct_PolicyRefs c))),
      (''blob_refs'', arr_toks (map blobRef_toks (ct_BlobRefs c))),
      (''git_ref'', opt_tok (ct_GitRef c))]"

text \<open>\<open>json.Marshal\<close> refuses a \<open>json.RawMessage\<close> that is not one JSON value.\<close>

definition payloads_valid :: "ObjectVersion list \<Rightarrow> RelationVersion list \<Rightarrow> bool" where
  "payloads_valid os rs \<longleftrightarrow>
     list_all (\<lambda>v. unmarshal_doc (ov_Payload v) \<noteq> None) os
     \<and> list_all (\<lambda>v. unmarshal_doc (rv_Payload v) \<noteq> None) rs"

definition content_of :: "Manifest \<Rightarrow> content" where
  "content_of m =
     \<lparr>ct_FormatVersion = mf_FormatVersion m, ct_ProjectID = mf_ProjectID m,
      ct_StateID = mf_StateID m, ct_ObjectVersions = mf_ObjectVersions m,
      ct_RelationVersions = mf_RelationVersions m, ct_SchemaRefs = mf_SchemaRefs m,
      ct_PolicyRefs = mf_PolicyRefs m, ct_BlobRefs = mf_BlobRefs m, ct_GitRef = mf_GitRef m\<rparr>"

definition ContentCanonicalJSON :: "(gotime \<Rightarrow> string) \<Rightarrow> Manifest \<Rightarrow> manifest_error + raw" where
  "ContentCanonicalJSON rfc3339 m =
     (if payloads_valid (mf_ObjectVersions m) (mf_RelationVersions m)
      then Inr (content_toks rfc3339 (content_of m)) else Inl MarshalPayload)"

definition HashAlgorithm :: string where
  "HashAlgorithm = ''sha256''"

definition Digest :: "(raw \<Rightarrow> string) \<Rightarrow> raw \<Rightarrow> string" where
  "Digest sha256 c = HashAlgorithm @ '':'' @ sha256 c"

definition digest :: "(raw \<Rightarrow> string) \<Rightarrow> (gotime \<Rightarrow> string) \<Rightarrow> Manifest \<Rightarrow> manifest_error + string" where
  "digest sha256 rfc3339 m =
     (case ContentCanonicalJSON rfc3339 m of Inl e \<Rightarrow> Inl e | Inr b \<Rightarrow> Inr (Digest sha256 b))"

definition VerifyHash :: "(raw \<Rightarrow> string) \<Rightarrow> (gotime \<Rightarrow> string) \<Rightarrow> Manifest \<Rightarrow> bool" where
  "VerifyHash sha256 rfc3339 m =
     (case digest sha256 rfc3339 m of Inl _ \<Rightarrow> False | Inr d \<Rightarrow> mf_StateHash m = d)"

section \<open>Building the manifest\<close>

fun uniq :: "string list \<Rightarrow> string list \<Rightarrow> string list" where
  "uniq seen [] = []"
| "uniq seen (r # rs) = (if r \<in> set seen then uniq seen rs else r # uniq (r # seen) rs)"

definition deriveSchemaRefs :: "ObjectVersion list \<Rightarrow> string list" where
  "deriveSchemaRefs objs =
     sort (uniq [] (map (\<lambda>o'. sr_ID (ov_SchemaRef o') @ ''@'' @ sr_Version (ov_SchemaRef o')) objs))"

definition derivePolicyRefs :: "ObjectVersion list \<Rightarrow> string list" where
  "derivePolicyRefs objs = sort (uniq [] (List.map_filter ov_VisibilityPolicyID objs))"

definition objectKey :: "ObjectVersion \<Rightarrow> string \<times> int \<times> string" where
  "objectKey v = (ov_ObjectID v, ov_VersionNo v, ov_ID v)"

definition relationKey :: "RelationVersion \<Rightarrow> string \<times> int \<times> string" where
  "relationKey v = (rv_RelationID v, rv_VersionNo v, rv_ID v)"

definition canonObject :: "ObjectVersion \<Rightarrow> manifest_error + ObjectVersion" where
  "canonObject v =
     (case CanonicalJSON (ov_Payload v) of
        Inl e \<Rightarrow> Inl (ObjectPayload (ov_ID v) e)
      | Inr p \<Rightarrow> Inr (v\<lparr>ov_Payload := p, ov_CreatedAt := utc (ov_CreatedAt v)\<rparr>))"

definition canonRelation :: "RelationVersion \<Rightarrow> manifest_error + RelationVersion" where
  "canonRelation v =
     (case CanonicalJSON (rv_Payload v) of
        Inl e \<Rightarrow> Inl (RelationPayload (rv_ID v) e)
      | Inr p \<Rightarrow> Inr (v\<lparr>rv_Payload := p, rv_CreatedAt := utc (rv_CreatedAt v)\<rparr>))"

definition assemble :: "ProjectState \<Rightarrow> ObjectVersion list \<Rightarrow> RelationVersion list \<Rightarrow>
    BlobRef list \<Rightarrow> gotime \<Rightarrow> Manifest" where
  "assemble state os rs bs generatedAt =
     (let objs = sort_key objectKey os in
      \<lparr>mf_FormatVersion = FormatV1, mf_ProjectID = ps_ProjectID state, mf_StateID = ps_ID state,
       mf_GeneratedAt = utc generatedAt, mf_ObjectVersions = objs,
       mf_RelationVersions = sort_key relationKey rs,
       mf_SchemaRefs = deriveSchemaRefs objs, mf_PolicyRefs = derivePolicyRefs objs,
       mf_BlobRefs = sort_key br_ID bs,
       mf_GitRef = (case ps_GitCommitSHA state of
           None \<Rightarrow> None | Some g \<Rightarrow> if g \<noteq> [] then Some g else None),
       mf_StateHash = []\<rparr>)"

definition Build :: "(raw \<Rightarrow> string) \<Rightarrow> (gotime \<Rightarrow> string) \<Rightarrow> ProjectState \<Rightarrow> Snapshot \<Rightarrow> gotime \<Rightarrow>
    manifest_error + Manifest" where
  "Build sha256 rfc3339 state snap generatedAt =
     (if ps_ManifestVersion state \<noteq> [] \<and> ps_ManifestVersion state \<noteq> FormatV1
      then Inl (ManifestFormat (ps_ManifestVersion state))
      else
        (case map_err canonObject (sn_ObjectVersions snap) of
           Inl e \<Rightarrow> Inl e
         | Inr os \<Rightarrow>
             (case map_err canonRelation (sn_RelationVersions snap) of
                Inl e \<Rightarrow> Inl e
              | Inr rs \<Rightarrow>
                  (let m = assemble state os rs (sn_BlobRefs snap) generatedAt in
                   case digest sha256 rfc3339 m of
                     Inl e \<Rightarrow> Inl e
                   | Inr d \<Rightarrow> Inr (m\<lparr>mf_StateHash := d\<rparr>)))))"

section \<open>The hash of a built manifest verifies\<close>

lemma content_of_hash [simp]: "content_of (m\<lparr>mf_StateHash := h\<rparr>) = content_of m"
  by (simp add: content_of_def)

lemma digest_hash [simp]:
  "digest sha256 rfc3339 (m\<lparr>mf_StateHash := h\<rparr>) = digest sha256 rfc3339 m"
  by (simp add: digest_def ContentCanonicalJSON_def)

lemma BuildD:
  assumes "Build sha256 rfc3339 state snap t = Inr m"
  obtains os rs d where "map_err canonObject (sn_ObjectVersions snap) = Inr os"
    and "map_err canonRelation (sn_RelationVersions snap) = Inr rs"
    and "digest sha256 rfc3339 (assemble state os rs (sn_BlobRefs snap) t) = Inr d"
    and "m = (assemble state os rs (sn_BlobRefs snap) t)\<lparr>mf_StateHash := d\<rparr>"
    and "ps_ManifestVersion state \<in> {[], FormatV1}"
  using assms by (auto simp: Build_def Let_def split: if_splits sum.splits)

lemma Build_verifies: "Build sha256 rfc3339 state snap t = Inr m \<Longrightarrow> VerifyHash sha256 rfc3339 m"
  by (auto simp: VerifyHash_def elim!: BuildD)

section \<open>The hashed text determines the content\<close>

text \<open>An encoder whose texts can be told apart whatever follows them.\<close>

locale prefix_code =
  fixes enc :: "'a \<Rightarrow> raw" and dom :: "'a \<Rightarrow> bool"
  assumes enc_split: "dom a \<Longrightarrow> dom b \<Longrightarrow> enc a @ x = enc b @ y \<Longrightarrow> a = b \<and> x = y"
    and enc_start: "dom a \<Longrightarrow> enc a \<noteq> [] \<and> \<not> starts TRBrack (enc a @ x)"
begin

lemma join_split:
  assumes "\<forall>a \<in> set xs. dom a" and "\<forall>b \<in> set ys. dom b"
    and "join_toks (map enc xs) @ TRBrack # x = join_toks (map enc ys) @ TRBrack # y"
  shows "xs = ys \<and> x = y"
  using assms
proof (induction xs arbitrary: ys)
  case Nil
  show ?case
  proof (cases ys)
    case (Cons b bs)
    have "starts TRBrack (join_toks (map enc ys) @ TRBrack # y)"
      using Nil.prems(3) by (simp flip: Nil.prems(3))
    moreover have "\<not> starts TRBrack (join_toks (map enc ys) @ TRBrack # y)"
      using Nil.prems(2) Cons enc_start [of b] by (cases bs) auto
    ultimately show ?thesis by simp
  qed (use Nil in simp)
next
  case (Cons a as)
  obtain b bs where ys: "ys = b # bs"
  proof (cases ys)
    case Nil
    then have "starts TRBrack (join_toks (map enc (a # as)) @ TRBrack # x)"
      using Cons.prems(3) by simp
    moreover have "\<not> starts TRBrack (join_toks (map enc (a # as)) @ TRBrack # x)"
      using Cons.prems(1) enc_start [of a] by (cases as) auto
    ultimately show ?thesis by simp
  qed (rule that)
  define tail where "tail xs z =
    (case xs of [] \<Rightarrow> TRBrack # z | _ \<Rightarrow> TComma # join_toks (map enc xs) @ TRBrack # z)" for xs z
  have J: "join_toks (map enc (c # cs)) @ TRBrack # z = enc c @ tail cs z" for c cs z
    by (cases cs) (auto simp: tail_def)
  have "a = b \<and> tail as x = tail bs y"
    using Cons.prems ys by (intro enc_split) (simp_all add: J del: list.map join_toks.simps)
  then have a: "a = b" and T: "tail as x = tail bs y" by simp_all
  have "as = bs \<and> x = y"
  proof (cases "as = [] \<or> bs = []")
    case True
    with T show ?thesis by (auto simp: tail_def split: list.splits)
  next
    case False
    then have "join_toks (map enc as) @ TRBrack # x = join_toks (map enc bs) @ TRBrack # y"
      using T by (simp add: tail_def del: list.map join_toks.simps split: list.splits)
    then show ?thesis using Cons.prems ys by (intro Cons.IH) simp_all
  qed
  with a ys show ?case by simp
qed

lemma arr_split:
  assumes "\<forall>a \<in> set xs. dom a" and "\<forall>b \<in> set ys. dom b"
    and "arr_toks (map enc xs) @ x = arr_toks (map enc ys) @ y"
  shows "xs = ys \<and> x = y"
  using assms join_split [of xs ys x y] by (simp add: arr_toks_def)

end

lemma show_nat_inject: "show_nat m = show_nat n \<longleftrightarrow> m = n"
proof
  have ne: "show_nat k \<noteq> []" for k by (subst show_nat.simps) auto
  have digit: "char_of (48 + a) = (char_of (48 + b) :: char) \<longleftrightarrow> a = b" if "a < 10" "b < 10" for a b :: nat
    using that by (simp add: char_of_eq_iff take_bit_eq_mod)
  show "show_nat m = show_nat n \<Longrightarrow> m = n"
  proof (induction m arbitrary: n rule: show_nat.induct)
    case (1 m)
    show ?case
    proof (cases "m < 10 \<or> n < 10")
      case True
      then show ?thesis using "1.prems" ne digit
        by (simp add: show_nat.simps [of m] show_nat.simps [of n] append_eq_Cons_conv Cons_eq_append_conv
            split: if_splits)
    next
      case False
      then have "show_nat (m div 10) = show_nat (n div 10)" and "m mod 10 = n mod 10"
        using "1.prems" digit [of "m mod 10" "n mod 10"]
        by (simp_all add: show_nat.simps [of m] show_nat.simps [of n])
      moreover from this have "m div 10 = n div 10" using "1.IH" False by simp
      ultimately show ?thesis by (metis div_mult_mod_eq)
    qed
  qed
qed simp

lemma int_tok_inject: "int_tok m = int_tok n \<longleftrightarrow> m = n"
proof -
  have "show_nat a \<noteq> CHR ''-'' # show_nat b" for a b
  proof
    assume A: "show_nat a = CHR ''-'' # show_nat b"
    have "hd (show_nat a) \<noteq> CHR ''-''"
    proof (induction a rule: show_nat.induct)
      case (1 a)
      show ?case
      proof (cases "a < 10")
        case True
        then show ?thesis
          by (subst show_nat.simps) (simp add: char_of_eq_iff take_bit_eq_mod)
      next
        case False
        have "show_nat (a div 10) \<noteq> []" by (subst show_nat.simps) auto
        with False "1.IH" show ?thesis by (subst show_nat.simps) simp
      qed
    qed
    with A show False by simp
  qed
  from this this [symmetric] show ?thesis by (auto simp: int_tok_def show_nat_inject)
qed

lemma opt_tok_inject: "opt_tok a = opt_tok b \<longleftrightarrow> a = b"
  by (auto simp: opt_tok_def split: option.splits)

text \<open>The rows a stored manifest can hold: a valid payload and a UTC timestamp.\<close>

definition row_object :: "ObjectVersion \<Rightarrow> bool" where
  "row_object v \<longleftrightarrow> unmarshal_doc (ov_Payload v) \<noteq> None \<and> zone (ov_CreatedAt v) = 0"

definition row_relation :: "RelationVersion \<Rightarrow> bool" where
  "row_relation v \<longleftrightarrow> unmarshal_doc (rv_Payload v) \<noteq> None \<and> zone (rv_CreatedAt v) = 0"

lemmas toks_defs = obj_toks_def str_tok_def schemaRef_toks_def objectVersion_toks_def
  relationVersion_toks_def blobRef_toks_def

lemma len1_toks: "\<exists>t. opt_tok a = [t]" "\<exists>t. int_tok n = [t]"
  by (auto simp: opt_tok_def int_tok_def split: option.splits)

lemma tok_split:
  "opt_tok a @ x = opt_tok b @ y \<longleftrightarrow> a = b \<and> x = y"
  "int_tok m @ x = int_tok n @ y \<longleftrightarrow> m = n \<and> x = y"
  using opt_tok_inject [of a b] int_tok_inject [of m n]
  by (auto simp: opt_tok_def int_tok_def split: option.splits)

interpretation str_code: prefix_code str_tok "\<lambda>_. True"
  by unfold_locales (auto simp: str_tok_def)

interpretation blob_code: prefix_code blobRef_toks "\<lambda>_. True"
  by unfold_locales (auto simp: toks_defs)

lemma object_code:
  assumes "inj_on rfc3339 {t. zone t = 0}"
  shows "prefix_code (objectVersion_toks rfc3339) row_object"
proof
  fix v w x y
  assume V: "row_object v" and W: "row_object w"
    and eq: "objectVersion_toks rfc3339 v @ x = objectVersion_toks rfc3339 w @ y"
  have P: "ov_Payload v @ r = ov_Payload w @ s \<longleftrightarrow> ov_Payload v = ov_Payload w \<and> r = s" for r s
    using V W single_value_split [of "ov_Payload v" "ov_Payload w" r s] by (auto simp: row_object_def)
  have T: "rfc3339 (ov_CreatedAt v) = rfc3339 (ov_CreatedAt w) \<longleftrightarrow> ov_CreatedAt v = ov_CreatedAt w"
    using V W assms by (auto simp: row_object_def inj_on_def)
  from eq show "v = w \<and> x = y"
    by (simp add: toks_defs tok_split P T)
qed (auto simp: toks_defs)

lemma relation_code:
  assumes "inj_on rfc3339 {t. zone t = 0}"
  shows "prefix_code (relationVersion_toks rfc3339) row_relation"
proof
  fix v w x y
  assume V: "row_relation v" and W: "row_relation w"
    and eq: "relationVersion_toks rfc3339 v @ x = relationVersion_toks rfc3339 w @ y"
  have P: "rv_Payload v @ r = rv_Payload w @ s \<longleftrightarrow> rv_Payload v = rv_Payload w \<and> r = s" for r s
    using V W single_value_split [of "rv_Payload v" "rv_Payload w" r s] by (auto simp: row_relation_def)
  have T: "rfc3339 (rv_CreatedAt v) = rfc3339 (rv_CreatedAt w) \<longleftrightarrow> rv_CreatedAt v = rv_CreatedAt w"
    using V W assms by (auto simp: row_relation_def inj_on_def)
  from eq show "v = w \<and> x = y"
    by (simp add: toks_defs tok_split P T)
qed (auto simp: toks_defs)

lemma content_toks_inject:
  assumes "inj_on rfc3339 {t. zone t = 0}"
    and "\<forall>v \<in> set (ct_ObjectVersions c) \<union> set (ct_ObjectVersions d). row_object v"
    and "\<forall>v \<in> set (ct_RelationVersions c) \<union> set (ct_RelationVersions d). row_relation v"
    and "content_toks rfc3339 c = content_toks rfc3339 d"
  shows "c = d"
proof -
  have O: "arr_toks (map (objectVersion_toks rfc3339) (ct_ObjectVersions c)) @ x
        = arr_toks (map (objectVersion_toks rfc3339) (ct_ObjectVersions d)) @ y
      \<longleftrightarrow> ct_ObjectVersions c = ct_ObjectVersions d \<and> x = y" for x y
    using prefix_code.arr_split [OF object_code [OF assms(1)],
        of "ct_ObjectVersions c" "ct_ObjectVersions d" x y] assms(2) by auto
  have R: "arr_toks (map (relationVersion_toks rfc3339) (ct_RelationVersions c)) @ x
        = arr_toks (map (relationVersion_toks rfc3339) (ct_RelationVersions d)) @ y
      \<longleftrightarrow> ct_RelationVersions c = ct_RelationVersions d \<and> x = y" for x y
    using prefix_code.arr_split [OF relation_code [OF assms(1)],
        of "ct_RelationVersions c" "ct_RelationVersions d" x y] assms(3) by auto
  have S: "arr_toks (map str_tok as) @ x = arr_toks (map str_tok bs) @ y \<longleftrightarrow> as = bs \<and> x = y" for as bs x y
    using str_code.arr_split [of as bs x y] by auto
  have B: "arr_toks (map blobRef_toks as) @ x = arr_toks (map blobRef_toks bs) @ y \<longleftrightarrow> as = bs \<and> x = y" for as bs x y
    using blob_code.arr_split [of as bs x y] by auto
  from assms(4) show ?thesis
    by (simp add: content_toks_def obj_toks_def str_tok_def [of "ct_FormatVersion _"]
        str_tok_def [of "ct_ProjectID _"] str_tok_def [of "ct_StateID _"] O R S B tok_split
        opt_tok_inject)
qed

section \<open>Building: success, order independence, canonical rows\<close>

lemma canonObject_Inr:
  "canonObject v = Inr w \<longleftrightarrow> (\<exists>p. CanonicalJSON (ov_Payload v) = Inr p
     \<and> w = v\<lparr>ov_Payload := p, ov_CreatedAt := utc (ov_CreatedAt v)\<rparr>)"
  by (auto simp: canonObject_def split: sum.splits)

lemma canonRelation_Inr:
  "canonRelation v = Inr w \<longleftrightarrow> (\<exists>p. CanonicalJSON (rv_Payload v) = Inr p
     \<and> w = v\<lparr>rv_Payload := p, rv_CreatedAt := utc (rv_CreatedAt v)\<rparr>)"
  by (auto simp: canonRelation_def split: sum.splits)

lemma canonical_text_valid: "canonical_text c \<Longrightarrow> unmarshal_doc c \<noteq> None"
  by (auto simp: canonical_text_def unmarshal_doc_def)

lemma canon_rows:
  shows "map_err canonObject os = Inr os' \<Longrightarrow>
      \<forall>v \<in> set os'. row_object v \<and> canonical_text (ov_Payload v)"
    and "map_err canonRelation rs = Inr rs' \<Longrightarrow>
      \<forall>v \<in> set rs'. row_relation v \<and> canonical_text (rv_Payload v)"
proof -
  have O: "canonObject v = Inr w \<Longrightarrow> row_object w \<and> canonical_text (ov_Payload w)" for v w
    using CanonicalJSON_canonical canonical_text_valid
    by (fastforce simp: canonObject_Inr row_object_def utc_def)
  have R: "canonRelation v = Inr w \<Longrightarrow> row_relation w \<and> canonical_text (rv_Payload w)" for v w
    using CanonicalJSON_canonical canonical_text_valid
    by (fastforce simp: canonRelation_Inr row_relation_def utc_def)
  show "map_err canonObject os = Inr os' \<Longrightarrow>
      \<forall>v \<in> set os'. row_object v \<and> canonical_text (ov_Payload v)"
    by (meson O map_err_set)
  show "map_err canonRelation rs = Inr rs' \<Longrightarrow>
      \<forall>v \<in> set rs'. row_relation v \<and> canonical_text (rv_Payload v)"
    by (meson R map_err_set)
qed

lemma assemble_digest:
  assumes "map_err canonObject os = Inr os'" and "map_err canonRelation rs = Inr rs'"
  shows "\<exists>d. digest sha256 rfc3339 (assemble state os' rs' bs t) = Inr d"
  using canon_rows(1) [OF assms(1)] canon_rows(2) [OF assms(2)]
  by (auto simp: digest_def ContentCanonicalJSON_def payloads_valid_def assemble_def Let_def
      list_all_iff row_object_def row_relation_def)

text \<open>\<open>Build\<close> fails only on a foreign format or a payload that is not one JSON value.\<close>

lemma Build_succeeds_iff:
  "(\<exists>m. Build sha256 rfc3339 state snap t = Inr m) \<longleftrightarrow>
     ps_ManifestVersion state \<in> {[], FormatV1}
     \<and> (\<forall>v \<in> set (sn_ObjectVersions snap). \<exists>p. CanonicalJSON (ov_Payload v) = Inr p)
     \<and> (\<forall>v \<in> set (sn_RelationVersions snap). \<exists>p. CanonicalJSON (rv_Payload v) = Inr p)"
proof -
  have "(\<exists>m. Build sha256 rfc3339 state snap t = Inr m) \<longleftrightarrow>
     ps_ManifestVersion state \<in> {[], FormatV1}
     \<and> (\<exists>os. map_err canonObject (sn_ObjectVersions snap) = Inr os)
     \<and> (\<exists>rs. map_err canonRelation (sn_RelationVersions snap) = Inr rs)" (is "?L \<longleftrightarrow> ?R")
  proof
    assume ?L
    then show ?R by (auto elim: BuildD)
  next
    assume ?R
    then obtain os rs where "map_err canonObject (sn_ObjectVersions snap) = Inr os"
      and "map_err canonRelation (sn_RelationVersions snap) = Inr rs" by blast
    moreover from assemble_digest [OF this] obtain d where
      "digest sha256 rfc3339 (assemble state os rs (sn_BlobRefs snap) t) = Inr d" by blast
    ultimately show ?L using \<open>?R\<close> by (auto simp: Build_def Let_def)
  qed
  then show ?thesis by (simp only: map_err_ok_iff canonObject_Inr canonRelation_Inr) auto
qed

lemma set_uniq: "set (uniq seen rs) = set rs - set seen"
  by (induction seen rs rule: uniq.induct) auto

lemma distinct_uniq: "distinct (uniq seen rs)"
  by (induction seen rs rule: uniq.induct) (auto simp: set_uniq)

lemma canonObject_keys:
  "canonObject v = Inr w \<Longrightarrow> objectKey w = objectKey v \<and> ov_ID w = ov_ID v"
  by (auto simp: canonObject_Inr objectKey_def)

lemma canonRelation_keys:
  "canonRelation v = Inr w \<Longrightarrow> relationKey w = relationKey v \<and> rv_ID w = rv_ID v"
  by (auto simp: canonRelation_Inr relationKey_def)

lemma sort_key_rows_eq:
  assumes "map_err f xs = Inr us" and "map_err f ys = Inr vs" and "mset xs = mset ys"
    and "inj_on g (set xs)" and "\<And>x y. f x = Inr y \<Longrightarrow> h y = g x"
  shows "sort_key h us = sort_key h vs"
proof (rule sort_key_eq_sort_key)
  show "mset us = mset vs" using map_err_mset [OF assms(1,3)] assms(2) by auto
  show "inj_on h (set us)" using assms(1,4,5) by (rule map_err_inj_on)
qed

text \<open>The manifest does not depend on the order the store returned the rows in.\<close>

lemma assemble_order:
  assumes "map_err canonObject os = Inr os'" and "map_err canonObject us = Inr us'"
    and "map_err canonRelation rs = Inr rs'" and "map_err canonRelation ws = Inr ws'"
    and "mset os = mset us" and "mset rs = mset ws" and "mset bs = mset cs"
    and "inj_on objectKey (set os)" and "inj_on relationKey (set rs)" and "inj_on br_ID (set bs)"
  shows "assemble state os' rs' bs t = assemble state us' ws' cs t"
  using sort_key_rows_eq [OF assms(1,2,5,8), of objectKey]
    sort_key_rows_eq [OF assms(3,4,6,9), of relationKey]
    sort_key_eq_sort_key [OF assms(7,10)] canonObject_keys canonRelation_keys
  by (simp add: assemble_def)

text \<open>Only the semantic fields enter the hash: the export time does not.\<close>

lemma digest_generatedAt:
  "digest sha256 rfc3339 (assemble state os rs bs t) = digest sha256 rfc3339 (assemble state os rs bs t')"
  by (simp add: digest_def ContentCanonicalJSON_def assemble_def Let_def content_of_def)

section \<open>Properties\<close>

definition sample_row :: "string \<Rightarrow> int \<Rightarrow> raw \<Rightarrow> ObjectVersion" where
  "sample_row row no payload =
     \<lparr>ov_ID = row, ov_ObjectID = ''o1'', ov_ObjectType = ''claim'', ov_VersionNo = no, ov_StateID = ''s'',
      ov_BranchID = None, ov_SchemaRef = \<lparr>sr_ID = ''claim'', sr_Version = ''1''\<rparr>, ov_Title = ''T'',
      ov_LifecycleState = ''draft'', ov_Payload = payload, ov_VisibilityPolicyID = None,
      ov_IntegrityHash = ''h'', ov_CreatedBy = ''u'', ov_CreatedAt = \<lparr>instant = 0, zone = 1\<rparr>\<rparr>"

definition sample_state :: ProjectState where
  "sample_state =
     \<lparr>ps_ID = ''s'', ps_ProjectID = ''p'', ps_BranchID = None, ps_ParentStateID = None, ps_StateHash = [],
      ps_GitCommitSHA = None, ps_ManifestVersion = ''v1'', ps_CreatedAt = \<lparr>instant = 0, zone = 0\<rparr>\<rparr>"

definition sample_rows :: "ObjectVersion list \<Rightarrow> Snapshot" where
  "sample_rows os = \<lparr>sn_ObjectVersions = os, sn_RelationVersions = [], sn_BlobRefs = []\<rparr>"

definition sample_manifest :: Manifest where
  "sample_manifest = projr (Build (\<lambda>r. ''d'') (\<lambda>t. ''t'') sample_state
     (sample_rows [sample_row ''v2'' 2 [TNull], sample_row ''v1'' 1 [TNull]]) \<lparr>instant = 5, zone = 0\<rparr>)"

lemma sample_manifest_built:
  "Build (\<lambda>r. ''d'') (\<lambda>t. ''t'') sample_state
     (sample_rows [sample_row ''v2'' 2 [TNull], sample_row ''v1'' 1 [TNull]]) \<lparr>instant = 5, zone = 0\<rparr>
   = Inr sample_manifest"
proof -
  let ?b = "Build (\<lambda>r. ''d'') (\<lambda>t. ''t'') sample_state
     (sample_rows [sample_row ''v2'' 2 [TNull], sample_row ''v1'' 1 [TNull]]) \<lparr>instant = 5, zone = 0\<rparr>"
  have "isl ?b = False" by code_simp
  then show ?thesis by (cases ?b) (auto simp: sample_manifest_def)
qed

text \<open>An export is a function of the stored rows, not of the order the store returned them in,
  and its state hash does not depend on the export time.  With distinct row keys and blob ids,
  any reordering of the rows exported at any time gives the same manifest up to the recorded
  export time, with the same state hash.\<close>

theorem export_reproducible:
  assumes "Build sha256 rfc3339 state snap t = Inr m"
    and "mset (sn_ObjectVersions snap) = mset (sn_ObjectVersions snap')"
    and "mset (sn_RelationVersions snap) = mset (sn_RelationVersions snap')"
    and "mset (sn_BlobRefs snap) = mset (sn_BlobRefs snap')"
    and "inj_on objectKey (set (sn_ObjectVersions snap))"
    and "inj_on relationKey (set (sn_RelationVersions snap))" and "inj_on br_ID (set (sn_BlobRefs snap))"
  shows "Build sha256 rfc3339 state snap' t' = Inr (m\<lparr>mf_GeneratedAt := utc t'\<rparr>)"
proof -
  from assms(1) obtain os rs d where B: "map_err canonObject (sn_ObjectVersions snap) = Inr os"
    "map_err canonRelation (sn_RelationVersions snap) = Inr rs"
    "digest sha256 rfc3339 (assemble state os rs (sn_BlobRefs snap) t) = Inr d"
    "m = (assemble state os rs (sn_BlobRefs snap) t)\<lparr>mf_StateHash := d\<rparr>"
    "ps_ManifestVersion state \<in> {[], FormatV1}"
    by (rule BuildD)
  from map_err_mset [OF B(1) assms(2)] map_err_mset [OF B(2) assms(3)] obtain os' rs' where
    B': "map_err canonObject (sn_ObjectVersions snap') = Inr os'"
    "map_err canonRelation (sn_RelationVersions snap') = Inr rs'" by blast
  have A: "assemble state os' rs' (sn_BlobRefs snap') t' = assemble state os rs (sn_BlobRefs snap) t'"
    using assemble_order [OF B(1) B'(1) B(2) B'(2) assms(2-7), of state t'] by simp
  have G: "assemble state os rs (sn_BlobRefs snap) t'
      = (assemble state os rs (sn_BlobRefs snap) t)\<lparr>mf_GeneratedAt := utc t'\<rparr>"
    by (simp add: assemble_def Let_def)
  have "digest sha256 rfc3339 (assemble state os' rs' (sn_BlobRefs snap') t') = Inr d"
    using B(3) digest_generatedAt [of sha256 rfc3339 state os rs "sn_BlobRefs snap" t' t] by (simp add: A)
  then have "Build sha256 rfc3339 state snap' t'
      = Inr ((assemble state os rs (sn_BlobRefs snap) t')\<lparr>mf_StateHash := d\<rparr>)"
    using B' B(5) A by (auto simp: Build_def Let_def)
  then show ?thesis by (simp add: G B(4))
qed

theorem export_reproducible_witness:
  "Build (\<lambda>r. ''d'') (\<lambda>t. ''t'') sample_state
     (sample_rows [sample_row ''v1'' 1 [TNull], sample_row ''v2'' 2 [TNull]]) \<lparr>instant = 9, zone = 0\<rparr>
   = Inr (sample_manifest\<lparr>mf_GeneratedAt := \<lparr>instant = 9, zone = 0\<rparr>\<rparr>)"
proof -
  have "Build (\<lambda>r. ''d'') (\<lambda>t. ''t'') sample_state
     (sample_rows [sample_row ''v1'' 1 [TNull], sample_row ''v2'' 2 [TNull]]) \<lparr>instant = 9, zone = 0\<rparr>
   = Inr (sample_manifest\<lparr>mf_GeneratedAt := utc \<lparr>instant = 9, zone = 0\<rparr>\<rparr>)"
    by (rule export_reproducible [OF sample_manifest_built])
      (simp_all add: sample_rows_def sample_row_def objectKey_def)
  then show ?thesis by (simp add: utc_def)
qed

text \<open>C39: the state hash is tamper-evident.  Take a manifest that \<open>Build\<close> produced and any
  manifest with valid payloads and normalized times that carries the same state hash and verifies.
  Unless the two content texts are a collision of the digest, the two agree on every semantic
  field; only the export time can differ.\<close>

theorem state_hash_tamper_evident:
  assumes "Build sha256 rfc3339 state snap t = Inr m" and "VerifyHash sha256 rfc3339 m'"
    and "mf_StateHash m' = mf_StateHash m"
    and "\<forall>v \<in> set (mf_ObjectVersions m'). row_object v" and "\<forall>v \<in> set (mf_RelationVersions m'). row_relation v"
    and "inj_on rfc3339 {t. zone t = 0}"
    and "sha256 (content_toks rfc3339 (content_of m)) = sha256 (content_toks rfc3339 (content_of m'))
      \<longrightarrow> content_toks rfc3339 (content_of m) = content_toks rfc3339 (content_of m')"
  shows "content_of m' = content_of m"
proof -
  from assms(1) obtain os rs d where B: "map_err canonObject (sn_ObjectVersions snap) = Inr os"
    "map_err canonRelation (sn_RelationVersions snap) = Inr rs"
    "m = (assemble state os rs (sn_BlobRefs snap) t)\<lparr>mf_StateHash := d\<rparr>"
    by (rule BuildD)
  have rows: "\<forall>v \<in> set (mf_ObjectVersions m). row_object v" "\<forall>v \<in> set (mf_RelationVersions m). row_relation v"
    using canon_rows(1) [OF B(1)] canon_rows(2) [OF B(2)] by (simp_all add: B(3) assemble_def Let_def)
  have "VerifyHash sha256 rfc3339 m" using assms(1) by (rule Build_verifies)
  with assms(2,3) have "sha256 (content_toks rfc3339 (content_of m)) = sha256 (content_toks rfc3339 (content_of m'))"
    by (auto simp: VerifyHash_def digest_def ContentCanonicalJSON_def Digest_def split: if_splits)
  with assms(7) have "content_toks rfc3339 (content_of m') = content_toks rfc3339 (content_of m)" by simp
  then show ?thesis
    using assms(4-6) rows by (intro content_toks_inject [of rfc3339]) (auto simp: content_of_def)
qed

definition sample_time :: "gotime \<Rightarrow> string" where
  "sample_time t = (if instant t < 0 then CHR ''-'' # show_nat (nat (- instant t)) else show_nat (nat (instant t)))"

lemma sample_time_inj: "inj_on sample_time {t. zone t = 0}"
proof (rule inj_onI)
  fix s t :: gotime
  assume z: "s \<in> {t. zone t = 0}" "t \<in> {t. zone t = 0}" and "sample_time s = sample_time t"
  then have "int_tok (instant s) = int_tok (instant t)" by (simp add: sample_time_def int_tok_def)
  then have "instant s = instant t" by (simp add: int_tok_inject)
  with z show "s = t" by simp
qed

theorem state_hash_tamper_evident_witness:
  "\<exists>m m'. Build (\<lambda>r. ''d'') sample_time sample_state (sample_rows [sample_row ''v1'' 1 [TNull]])
        \<lparr>instant = 5, zone = 0\<rparr> = Inr m
      \<and> mf_GeneratedAt m' \<noteq> mf_GeneratedAt m \<and> content_of m' = content_of m"
proof -
  let ?b = "Build (\<lambda>r. ''d'') sample_time sample_state (sample_rows [sample_row ''v1'' 1 [TNull]])
        \<lparr>instant = 5, zone = 0\<rparr>"
  have "isl ?b = False" by code_simp
  then obtain m where m: "?b = Inr m" by (cases ?b) auto
  let ?m' = "m\<lparr>mf_GeneratedAt := \<lparr>instant = 6, zone = 0\<rparr>\<rparr>"
  from m have v: "VerifyHash (\<lambda>r. ''d'') sample_time m" by (rule Build_verifies)
  have same: "content_of ?m' = content_of m" by (simp add: content_of_def)
  then have v': "VerifyHash (\<lambda>r. ''d'') sample_time ?m'"
    using v by (auto simp: VerifyHash_def digest_def ContentCanonicalJSON_def split: if_splits)
  from m obtain os rs d where B:
    "map_err canonObject (sn_ObjectVersions (sample_rows [sample_row ''v1'' 1 [TNull]])) = Inr os"
    "map_err canonRelation (sn_RelationVersions (sample_rows [sample_row ''v1'' 1 [TNull]])) = Inr rs"
    "m = (assemble sample_state os rs (sn_BlobRefs (sample_rows [sample_row ''v1'' 1 [TNull]]))
        \<lparr>instant = 5, zone = 0\<rparr>)\<lparr>mf_StateHash := d\<rparr>"
    by (rule BuildD)
  have rows: "\<forall>v \<in> set (mf_ObjectVersions ?m'). row_object v" "\<forall>v \<in> set (mf_RelationVersions ?m'). row_relation v"
    using canon_rows(1) [OF B(1)] canon_rows(2) [OF B(2)] by (simp_all add: B(3) assemble_def Let_def)
  have "content_of ?m' = content_of m"
    by (rule state_hash_tamper_evident [OF m v' _ rows sample_time_inj]) (simp_all add: same)
  moreover have "mf_GeneratedAt m = \<lparr>instant = 5, zone = 0\<rparr>" by (simp add: B(3) assemble_def Let_def utc_def)
  ultimately show ?thesis using m by (intro exI [of _ m] exI [of _ ?m']) simp
qed

text \<open>An export succeeds exactly when the state was written in this format (or in none) and
  every stored payload is one JSON value, and then the hash it records verifies.\<close>

theorem export_total:
  "(\<exists>m. Build sha256 rfc3339 state snap t = Inr m \<and> VerifyHash sha256 rfc3339 m) \<longleftrightarrow>
     ps_ManifestVersion state \<in> {[], ''v1''}
     \<and> (\<forall>v \<in> set (sn_ObjectVersions snap). \<exists>p. CanonicalJSON (ov_Payload v) = Inr p)
     \<and> (\<forall>v \<in> set (sn_RelationVersions snap). \<exists>p. CanonicalJSON (rv_Payload v) = Inr p)"
  unfolding Build_succeeds_iff [unfolded FormatV1_def, of sha256 rfc3339 state snap t, symmetric]
  using Build_verifies by blast

theorem export_total_witness:
  "\<exists>m. Build (\<lambda>r. ''d'') (\<lambda>t. ''t'') sample_state (sample_rows [sample_row ''v1'' 1 [TNull]])
     \<lparr>instant = 5, zone = 0\<rparr> = Inr m \<and> VerifyHash (\<lambda>r. ''d'') (\<lambda>t. ''t'') m"
proof -
  have "isl (CanonicalJSON [TNull]) = False" by code_simp
  then have "\<exists>p. CanonicalJSON [TNull] = Inr p" by (cases "CanonicalJSON [TNull]") auto
  then show ?thesis
    unfolding export_total by (simp add: sample_state_def sample_rows_def sample_row_def)
qed

end
