(* ===== verification/VersionLog.thy ===== *)
theory VersionLog
  imports Prelude
begin

text \<open>
  The interface of an append-only version log: rows that belong to an entity (an object or a
  relation), carry a version number and a row id.  Three pieces of the Go code build the same
  head index over such rows, each with its own copy (\<open>headObjects\<close> and
  \<open>headRelations\<close> of the diff engine, \<open>headObjects\<close> of the conflict detector),
  and two build the same sorted version trails.  The locales state what each copy promises;
  their lemmas are proved once here and reach every copy through an interpretation.
\<close>

locale version_log =
  fixes owner :: "'r \<Rightarrow> string" and vno :: "'r \<Rightarrow> int" and rid :: "'r \<Rightarrow> string"
    and heads :: "'r list \<Rightarrow> (string \<times> 'r) list"
  assumes heads_Nil: "heads [] = []"
    and heads_snoc: "heads (rows @ [v]) =
      (case map_of (heads rows) (owner v) of
         None \<Rightarrow> AList.update (owner v) v (heads rows)
       | Some cur \<Rightarrow>
           if vno v > vno cur \<or> (vno v = vno cur \<and> rid v > rid cur)
           then AList.update (owner v) v (heads rows) else heads rows)"
begin

lemma heads_keys: "fst ` set (heads rows) = owner ` set rows"
proof (induction rows rule: rev_induct)
  case Nil
  then show ?case by (simp add: heads_Nil)
next
  case (snoc v rows)
  show ?case
  proof (cases "map_of (heads rows) (owner v)")
    case None
    then show ?thesis using snoc by (simp add: heads_snoc keys_update)
  next
    case (Some cur)
    then have "owner v \<in> fst ` set (heads rows)" by (metis domI dom_map_of_conv_image_fst)
    with Some snoc show ?thesis by (auto simp: heads_snoc keys_update)
  qed
qed

lemma heads_distinct: "distinct (map fst (heads rows))"
  by (induction rows rule: rev_induct)
    (auto simp: heads_Nil heads_snoc distinct_keys_update split: option.splits)

lemma heads_None_iff: "map_of (heads rows) k = None \<longleftrightarrow> (\<forall>v \<in> set rows. owner v \<noteq> k)"
  by (metis (no_types, lifting) heads_keys image_iff map_of_eq_None_iff set_map)

text \<open>The head of an entity is one of its rows, and no row of the entity is above it in
  (version number, row id).\<close>

lemma heads_SomeD:
  assumes "map_of (heads rows) k = Some v"
  shows "v \<in> set rows" and "owner v = k"
    and "\<And>w. w \<in> set rows \<Longrightarrow> owner w = k \<Longrightarrow> (vno w, rid w) \<le> (vno v, rid v)"
proof -
  have "v \<in> set rows \<and> owner v = k
    \<and> (\<forall>w \<in> set rows. owner w = k \<longrightarrow> (vno w, rid w) \<le> (vno v, rid v))"
    using assms
  proof (induction rows arbitrary: k v rule: rev_induct)
    case Nil
    then show ?case by (simp add: heads_Nil)
  next
    case (snoc x rows)
    show ?case
    proof (cases "map_of (heads rows) (owner x)")
      case None
      then have "\<forall>w \<in> set rows. owner w \<noteq> owner x" by (simp add: heads_None_iff)
      with None snoc show ?thesis by (auto simp: heads_snoc split: if_splits)
    next
      case (Some cur)
      note IH = snoc.IH [OF Some]
      show ?thesis
      proof (cases "vno x > vno cur \<or> (vno x = vno cur \<and> rid x > rid cur)")
        case True
        then have lt: "(vno cur, rid cur) \<le> (vno x, rid x)" by auto
        have le: "(vno w, rid w) \<le> (vno x, rid x)" if "w \<in> set rows" "owner w = owner x" for w
        proof (rule order.trans [OF _ lt])
          show "(vno w, rid w) \<le> (vno cur, rid cur)" using IH that by blast
        qed
        have upd: "map_of (heads (rows @ [x])) = (map_of (heads rows))(owner x \<mapsto> x)"
          using True Some by (auto simp: heads_snoc)
        show ?thesis
        proof (cases "k = owner x")
          case True
          with upd snoc.prems have "v = x" by simp
          with True le show ?thesis by auto
        next
          case False
          with upd snoc.prems have "map_of (heads rows) k = Some v" by simp
          with snoc.IH [OF this] False show ?thesis by auto
        qed
      next
        case False
        then have le: "(vno x, rid x) \<le> (vno cur, rid cur)" by auto
        have same: "map_of (heads rows) k = Some v"
          using False Some snoc.prems by (auto simp: heads_snoc split: if_splits)
        have "(vno x, rid x) \<le> (vno v, rid v)" if "owner x = k"
          using same Some that le by simp
        with snoc.IH [OF same] show ?thesis by (auto simp del: less_eq_prod_simp)
      qed
    qed
  qed
  then show "v \<in> set rows" and "owner v = k"
    and "\<And>w. w \<in> set rows \<Longrightarrow> owner w = k \<Longrightarrow> (vno w, rid w) \<le> (vno v, rid v)"
    by auto
qed

lemma heads_SomeI:
  assumes "v \<in> set rows" and "owner v = k" and "inj_on rid (set rows)"
    and "\<And>w. w \<in> set rows \<Longrightarrow> owner w = k \<Longrightarrow> (vno w, rid w) \<le> (vno v, rid v)"
  shows "map_of (heads rows) k = Some v"
proof (cases "map_of (heads rows) k")
  case None
  with assms(1,2) show ?thesis by (auto simp: heads_None_iff)
next
  case (Some u)
  note U = heads_SomeD [OF Some]
  have "(vno u, rid u) = (vno v, rid v)"
    using assms(4) [OF U(1,2)] U(3) [OF assms(1,2)] by (rule antisym)
  then have "u = v" using U(1) assms(1,3) by (auto dest: inj_onD)
  with Some show ?thesis by simp
qed

text \<open>The index does not depend on the order the store returned the rows in.\<close>

lemma heads_perm:
  assumes "set rows = set rows'" and "inj_on rid (set rows)"
  shows "map_of (heads rows) = map_of (heads rows')"
proof
  fix k
  show "map_of (heads rows) k = map_of (heads rows') k"
  proof (cases "map_of (heads rows') k")
    case None
    then have "map_of (heads rows) k = None" using assms(1) by (simp add: heads_None_iff)
    with None show ?thesis by simp
  next
    case (Some v)
    note V = heads_SomeD [OF Some]
    have "map_of (heads rows) k = Some v"
      using V assms by (intro heads_SomeI) auto
    with Some show ?thesis by simp
  qed
qed

text \<open>Rewriting the rows without touching owner, version number and id rewrites the heads.\<close>

lemma heads_map:
  assumes "\<forall>v \<in> set rows. owner (f v) = owner v \<and> vno (f v) = vno v \<and> rid (f v) = rid v"
  shows "map_of (heads (map f rows)) = (\<lambda>k. map_option f (map_of (heads rows) k))"
  using assms
proof (induction rows rule: rev_induct)
  case Nil
  then show ?case by (simp add: heads_Nil)
next
  case (snoc x rows)
  have IH: "map_of (heads (map f rows)) = (\<lambda>k. map_option f (map_of (heads rows) k))"
    using snoc by simp
  have x: "owner (f x) = owner x" "vno (f x) = vno x" "rid (f x) = rid x"
    using snoc.prems by auto
  show ?case
  proof (cases "map_of (heads rows) (owner x)")
    case None
    with x IH show ?thesis by (auto simp: heads_snoc fun_eq_iff)
  next
    case (Some cur)
    then have "cur \<in> set rows" by (rule heads_SomeD)
    then have "vno (f cur) = vno cur" "rid (f cur) = rid cur" using snoc.prems by auto
    with Some x IH show ?thesis by (auto simp: heads_snoc fun_eq_iff)
  qed
qed

lemma heads_map_ids:
  assumes "\<forall>v \<in> set rows. owner (f v) = owner v \<and> vno (f v) = vno v \<and> rid (f v) = rid v"
  shows "map_option rid (map_of (heads (map f rows)) k) = map_option rid (map_of (heads rows) k)"
proof (cases "map_of (heads rows) k")
  case (Some v)
  then have "v \<in> set rows" by (rule heads_SomeD)
  with assms Some show ?thesis by (simp add: heads_map)
qed (simp add: heads_map assms)

end

text \<open>Version trails: the rows of one entity in ascending version order, and the suffix of
  them beyond a base version, found by binary search.\<close>

locale version_trails = version_log owner vno rid heads
  for owner :: "'r \<Rightarrow> string" and vno :: "'r \<Rightarrow> int" and rid :: "'r \<Rightarrow> string"
    and heads :: "'r list \<Rightarrow> (string \<times> 'r) list" +
  fixes trails :: "'r list \<Rightarrow> (string \<times> 'r list) list"
    and trail :: "(string \<times> 'r list) list \<Rightarrow> string \<Rightarrow> 'r option \<Rightarrow> 'r list"
  assumes trail_None: "trail (trails rows) k None =
      sort_key (\<lambda>v. (vno v, rid v)) (filter (\<lambda>v. owner v = k) rows)"
    and trail_Some: "trail (trails rows) k (Some b) =
      (let t = sort_key (\<lambda>v. (vno v, rid v)) (filter (\<lambda>v. owner v = k) rows);
           from = sort_Search (length t) (\<lambda>i. vno (t ! i) > vno b)
       in if from = length t then [] else drop from t)"
begin

lemma sorted_vno: "sorted (map vno (sort_key (\<lambda>v. (vno v, rid v)) rows))"
proof -
  let ?xs = "sort_key (\<lambda>v. (vno v, rid v)) rows"
  have "sorted_wrt (\<lambda>v w. (vno v, rid v) \<le> (vno w, rid w)) ?xs"
    using sorted_sort_key [of "\<lambda>v. (vno v, rid v)" rows] by (simp add: sorted_map)
  then have "sorted_wrt (\<lambda>v w. vno v \<le> vno w) ?xs"
    by (rule sorted_wrt_mono_rel [rotated]) auto
  then show ?thesis by (simp add: sorted_map)
qed

lemma trail_Some_filter:
  "trail (trails rows) k (Some b) =
     sort_key (\<lambda>v. (vno v, rid v)) (filter (\<lambda>v. owner v = k \<and> vno v > vno b) rows)"
proof -
  let ?t = "sort_key (\<lambda>v. (vno v, rid v)) (filter (\<lambda>v. owner v = k) rows)"
  have "trail (trails rows) k (Some b) = filter (\<lambda>v. vno v > vno b) ?t"
    by (simp add: trail_Some Let_def drop_sort_Search [OF sorted_vno, symmetric])
  then show ?thesis by (simp add: filter_sort)
qed

text \<open>The trail holds exactly the rows of the entity beyond the base head, ascending.\<close>

lemma trail_set:
  "set (trail (trails rows) k base) =
     {v \<in> set rows. owner v = k \<and> (\<forall>b. base = Some b \<longrightarrow> vno v > vno b)}"
  by (cases base) (auto simp: trail_None trail_Some_filter)

lemma trail_sorted: "sorted (map vno (trail (trails rows) k base))"
  by (cases base) (auto simp: trail_None trail_Some_filter sorted_vno)

lemma trail_perm:
  assumes "mset rows = mset rows'" and "inj_on rid (set rows)"
  shows "trail (trails rows) k base = trail (trails rows') k base"
proof -
  have *: "sort_key (\<lambda>v. (vno v, rid v)) (filter P rows)
      = sort_key (\<lambda>v. (vno v, rid v)) (filter P rows')" for P
    by (rule sort_key_eq_sort_key) (use assms in \<open>auto simp: inj_on_def\<close>)
  show ?thesis by (cases base) (simp_all add: trail_None trail_Some_filter *)
qed

text \<open>When the head lies beyond the base, the trail ends in the head.\<close>

lemma trail_last:
  assumes "map_of (heads rows) k = Some v" and "inj_on rid (set rows)"
    and "\<And>b. base = Some b \<Longrightarrow> vno v > vno b"
  shows "trail (trails rows) k base \<noteq> []" and "last (trail (trails rows) k base) = v"
proof -
  let ?key = "\<lambda>v. (vno v, rid v)"
  let ?t = "trail (trails rows) k base"
  note V = heads_SomeD [OF assms(1)]
  have v: "v \<in> set ?t" using V assms(3) by (auto simp: trail_set)
  then show ne: "?t \<noteq> []" by auto
  have "sorted (map ?key ?t)" by (cases base) (simp_all add: trail_None trail_Some_filter)
  then have "?key v \<le> ?key (last ?t)"
    using v by (rule sorted_key_last)
  moreover have "last ?t \<in> set rows" "owner (last ?t) = k"
    using last_in_set [OF ne] by (auto simp: trail_set)
  then have "?key (last ?t) \<le> ?key v" by (rule V(3))
  ultimately have "?key (last ?t) = ?key v" by (rule antisym [rotated])
  then show "last ?t = v"
    using assms(2) V(1) \<open>last ?t \<in> set rows\<close> by (auto dest: inj_onD)
qed

end

end
