(* ===== verification/Diff.thy ===== *)
theory Diff
  imports Manifest VersionLog
begin

text \<open>
  The three-way Research State Diff (internal/rsg/diff/diff.go): what the source branch
  proposes against the base, with the target's concurrent state recorded on each change.

  A Go map from entity id to head row is an association list; the loops that range over such
  a map collect the keys and sort them, as the code does, so no result depends on the order of
  the association list.  The \<open>nil\<close> head of an absent entity is \<open>None\<close>, and the
  empty change kind \<open>""\<close> that means ``not listed'' is \<open>None\<close>.  Counters are
  integers; they are bounded by the number of rows, far below the range of a Go \<open>int\<close>.
\<close>

section \<open>Inputs and results\<close>

record StateRef =
  st_ID :: string
  st_GitRef :: "string option"

record DiffInputs =
  in_ProjectID :: string
  in_Base :: StateRef
  in_Source :: StateRef
  in_Target :: StateRef
  in_BaseSnapshot :: Snapshot
  in_SourceSnapshot :: Snapshot
  in_TargetSnapshot :: Snapshot

datatype ChangeKind = ChangeCreated | ChangeUpdated | ChangeAborted | ChangeReopened

record ObjectChange =
  oc_ObjectID :: string
  oc_ObjectType :: string
  oc_Kind :: ChangeKind
  oc_BaseVersion :: "ObjectVersion option"
  oc_SourceVersion :: ObjectVersion
  oc_TargetVersion :: "ObjectVersion option"
  oc_TargetMoved :: bool
  oc_ChangedFields :: "string list"
  oc_TargetChangedFields :: "string list"
  oc_NewVersions :: "ObjectVersion list"

record RelationChange =
  rc_RelationID :: string
  rc_Kind :: ChangeKind
  rc_BaseVersion :: "RelationVersion option"
  rc_SourceVersion :: RelationVersion
  rc_TargetVersion :: "RelationVersion option"
  rc_TargetMoved :: bool
  rc_ChangedFields :: "string list"
  rc_TargetChangedFields :: "string list"
  rc_NewVersions :: "RelationVersion list"

record FileDiffRef =
  fd_Kind :: string
  fd_BaseGitRef :: string
  fd_HeadGitRef :: string

record TypeCount =
  tc_Type :: string
  tc_Count :: int

record DiffSummary =
  ds_ObjectsCreated :: int
  ds_ObjectsUpdated :: int
  ds_ObjectsAborted :: int
  ds_ObjectsReopened :: int
  ds_RelationsCreated :: int
  ds_RelationsUpdated :: int
  ds_SchemaChanged :: int
  ds_VisibilityChanged :: int
  ds_ObjectTypes :: "TypeCount list"
  ds_RelationTypes :: "TypeCount list"

record Diff =
  df_FormatVersion :: string
  df_ProjectID :: string
  df_Base :: StateRef
  df_Source :: StateRef
  df_Target :: StateRef
  df_ObjectChanges :: "ObjectChange list"
  df_RelationChanges :: "RelationChange list"
  df_FileDiffRefs :: "FileDiffRef list"
  df_Summary :: DiffSummary

datatype diff_error =
    ProjectIDRequired | BaseStateIDRequired | SourceStateIDRequired | TargetStateIDRequired
  | DiffObjectPayload string json_error
  | DiffRelationPayload string json_error

section \<open>Validation and canonical snapshots\<close>

definition validateInputs :: "DiffInputs \<Rightarrow> diff_error option" where
  "validateInputs i =
     (if in_ProjectID i = [] then Some ProjectIDRequired
      else if st_ID (in_Base i) = [] then Some BaseStateIDRequired
      else if st_ID (in_Source i) = [] then Some SourceStateIDRequired
      else if st_ID (in_Target i) = [] then Some TargetStateIDRequired
      else None)"

record snapshot =
  objects :: "ObjectVersion list"
  relations :: "RelationVersion list"

definition canonPayloadObject :: "ObjectVersion \<Rightarrow> diff_error + ObjectVersion" where
  "canonPayloadObject v =
     (case CanonicalJSON (ov_Payload v) of
        Inl e \<Rightarrow> Inl (DiffObjectPayload (ov_ID v) e)
      | Inr c \<Rightarrow> Inr (v\<lparr>ov_Payload := c\<rparr>))"

definition canonPayloadRelation :: "RelationVersion \<Rightarrow> diff_error + RelationVersion" where
  "canonPayloadRelation v =
     (case CanonicalJSON (rv_Payload v) of
        Inl e \<Rightarrow> Inl (DiffRelationPayload (rv_ID v) e)
      | Inr c \<Rightarrow> Inr (v\<lparr>rv_Payload := c\<rparr>))"

definition canonicalizeSnapshot :: "Snapshot \<Rightarrow> diff_error + snapshot" where
  "canonicalizeSnapshot s =
     (case map_err canonPayloadObject (sn_ObjectVersions s) of
        Inl e \<Rightarrow> Inl e
      | Inr os \<Rightarrow>
          (case map_err canonPayloadRelation (sn_RelationVersions s) of
             Inl e \<Rightarrow> Inl e
           | Inr rs \<Rightarrow> Inr \<lparr>objects = os, relations = rs\<rparr>))"

section \<open>Heads\<close>

definition headObject_step ::
    "ObjectVersion \<Rightarrow> (string \<times> ObjectVersion) list \<Rightarrow> (string \<times> ObjectVersion) list" where
  "headObject_step v heads =
     (case map_of heads (ov_ObjectID v) of
        None \<Rightarrow> AList.update (ov_ObjectID v) v heads
      | Some cur \<Rightarrow>
          if ov_VersionNo v > ov_VersionNo cur
             \<or> (ov_VersionNo v = ov_VersionNo cur \<and> ov_ID v > ov_ID cur)
          then AList.update (ov_ObjectID v) v heads else heads)"

definition headObjects :: "ObjectVersion list \<Rightarrow> (string \<times> ObjectVersion) list" where
  "headObjects rows = fold headObject_step rows []"

definition headRelation_step ::
    "RelationVersion \<Rightarrow> (string \<times> RelationVersion) list \<Rightarrow> (string \<times> RelationVersion) list" where
  "headRelation_step v heads =
     (case map_of heads (rv_RelationID v) of
        None \<Rightarrow> AList.update (rv_RelationID v) v heads
      | Some cur \<Rightarrow>
          if rv_VersionNo v > rv_VersionNo cur
             \<or> (rv_VersionNo v = rv_VersionNo cur \<and> rv_ID v > rv_ID cur)
          then AList.update (rv_RelationID v) v heads else heads)"

definition headRelations :: "RelationVersion list \<Rightarrow> (string \<times> RelationVersion) list" where
  "headRelations rows = fold headRelation_step rows []"

definition objectHeadMoved :: "ObjectVersion option \<Rightarrow> ObjectVersion option \<Rightarrow> bool" where
  "objectHeadMoved base head \<longleftrightarrow>
     (base = None) \<noteq> (head = None)
     \<or> (case (base, head) of (Some b, Some h) \<Rightarrow> ov_ID b \<noteq> ov_ID h | _ \<Rightarrow> False)"

definition relationHeadMoved :: "RelationVersion option \<Rightarrow> RelationVersion option \<Rightarrow> bool" where
  "relationHeadMoved base head \<longleftrightarrow>
     (base = None) \<noteq> (head = None)
     \<or> (case (base, head) of (Some b, Some h) \<Rightarrow> rv_ID b \<noteq> rv_ID h | _ \<Rightarrow> False)"

section \<open>Trails\<close>

definition versionTrails :: "ObjectVersion list \<Rightarrow> (string \<times> ObjectVersion list) list" where
  "versionTrails rows =
     map (\<lambda>(id, trail). (id, sort_key (\<lambda>v. (ov_VersionNo v, ov_ID v)) trail))
       (group_rows ov_ObjectID rows)"

definition objectTrail :: "(string \<times> ObjectVersion list) list \<Rightarrow> string \<Rightarrow> ObjectVersion option \<Rightarrow>
    ObjectVersion list" where
  "objectTrail t objectID base =
     (let trail = lookup_rows t objectID in
      case base of
        None \<Rightarrow> trail
      | Some b \<Rightarrow>
          (let from = sort_Search (length trail) (\<lambda>i. ov_VersionNo (trail ! i) > ov_VersionNo b)
           in if from = length trail then [] else drop from trail))"

definition relationVersionTrails :: "RelationVersion list \<Rightarrow> (string \<times> RelationVersion list) list" where
  "relationVersionTrails rows =
     map (\<lambda>(id, trail). (id, sort_key (\<lambda>v. (rv_VersionNo v, rv_ID v)) trail))
       (group_rows rv_RelationID rows)"

definition relationTrail :: "(string \<times> RelationVersion list) list \<Rightarrow> string \<Rightarrow>
    RelationVersion option \<Rightarrow> RelationVersion list" where
  "relationTrail t relationID base =
     (let trail = lookup_rows t relationID in
      case base of
        None \<Rightarrow> trail
      | Some b \<Rightarrow>
          (let from = sort_Search (length trail) (\<lambda>i. rv_VersionNo (trail ! i) > rv_VersionNo b)
           in if from = length trail then [] else drop from trail))"

section \<open>Field differences and change kinds\<close>

definition LifecycleAborted :: string where
  "LifecycleAborted = ''aborted''"

definition ptrStringEqual :: "string option \<Rightarrow> string option \<Rightarrow> bool" where
  "ptrStringEqual a b =
     (if a = None \<or> b = None then a = None \<and> b = None else the a = the b)"

definition objectFieldDiff :: "ObjectVersion option \<Rightarrow> ObjectVersion option \<Rightarrow> string list" where
  "objectFieldDiff base head =
     (case (base, head) of
        (Some b, Some h) \<Rightarrow>
          (if ov_Title b \<noteq> ov_Title h then [''title''] else [])
          @ (if ov_Payload b \<noteq> ov_Payload h then [''payload''] else [])
          @ (if ov_LifecycleState b \<noteq> ov_LifecycleState h then [''lifecycle_state''] else [])
          @ (if ov_SchemaRef b \<noteq> ov_SchemaRef h then [''schema_ref''] else [])
          @ (if \<not> ptrStringEqual (ov_VisibilityPolicyID b) (ov_VisibilityPolicyID h)
             then [''visibility_policy_id''] else [])
      | _ \<Rightarrow> [])"

definition relationFieldDiff :: "RelationVersion option \<Rightarrow> RelationVersion option \<Rightarrow> string list" where
  "relationFieldDiff base head =
     (case (base, head) of
        (Some b, Some h) \<Rightarrow>
          (if rv_RelationType b \<noteq> rv_RelationType h then [''relation_type''] else [])
          @ (if rv_SourceObjectVersionID b \<noteq> rv_SourceObjectVersionID h
             then [''source_object_version_id''] else [])
          @ (if rv_TargetObjectVersionID b \<noteq> rv_TargetObjectVersionID h
             then [''target_object_version_id''] else [])
          @ (if rv_Payload b \<noteq> rv_Payload h then [''payload''] else [])
      | _ \<Rightarrow> [])"

definition classifyObject :: "ObjectVersion option \<Rightarrow> ObjectVersion option \<Rightarrow>
    (ChangeKind \<times> string list) option" where
  "classifyObject base source =
     (case source of
        None \<Rightarrow> None
      | Some s \<Rightarrow>
          (case base of
             None \<Rightarrow> Some (ChangeCreated, [])
           | Some b \<Rightarrow>
               if ov_ID b = ov_ID s then None
               else
                 (let diff = objectFieldDiff base source in
                  if ov_LifecycleState s = LifecycleAborted \<and> ov_LifecycleState b \<noteq> LifecycleAborted
                  then Some (ChangeAborted, diff)
                  else if ov_LifecycleState b = LifecycleAborted \<and> ov_LifecycleState s \<noteq> LifecycleAborted
                  then Some (ChangeReopened, diff)
                  else Some (ChangeUpdated, diff))))"

definition classifyRelation :: "RelationVersion option \<Rightarrow> RelationVersion option \<Rightarrow>
    (ChangeKind \<times> string list) option" where
  "classifyRelation base source =
     (case source of
        None \<Rightarrow> None
      | Some s \<Rightarrow>
          (case base of
             None \<Rightarrow> Some (ChangeCreated, [])
           | Some b \<Rightarrow>
               if rv_ID b = rv_ID s then None
               else Some (ChangeUpdated, relationFieldDiff base source)))"

section \<open>Change lists\<close>

text \<open>The ids of the base heads, then those of the source heads not seen yet, sorted.\<close>

definition changeIDs :: "(string \<times> 'r) list \<Rightarrow> (string \<times> 'r) list \<Rightarrow> string list" where
  "changeIDs baseHeads sourceHeads =
     (let ids = map fst baseHeads in
      sort (ids @ filter (\<lambda>id. id \<notin> set ids) (map fst sourceHeads)))"

text \<open>The loop body.  A listed change has a source head; \<open>classifyObject\<close> already answered
  ``not listed'' for an absent one, so the inner \<open>None\<close> never happens.\<close>

definition objectChange :: "(string \<times> ObjectVersion) list \<Rightarrow> (string \<times> ObjectVersion) list \<Rightarrow>
    (string \<times> ObjectVersion) list \<Rightarrow> (string \<times> ObjectVersion list) list \<Rightarrow> string \<Rightarrow>
    ObjectChange option" where
  "objectChange baseHeads sourceHeads targetHeads sourceTrails oid =
     (let base = map_of baseHeads oid; source = map_of sourceHeads oid; target = map_of targetHeads oid in
      case classifyObject base source of
        None \<Rightarrow> None
      | Some (kind, changed) \<Rightarrow>
          (case source of
             None \<Rightarrow> None
           | Some s \<Rightarrow> Some
               \<lparr>oc_ObjectID = oid, oc_ObjectType = ov_ObjectType s, oc_Kind = kind,
                oc_BaseVersion = base, oc_SourceVersion = s, oc_TargetVersion = target,
                oc_TargetMoved = objectHeadMoved base target, oc_ChangedFields = changed,
                oc_TargetChangedFields = objectFieldDiff base target,
                oc_NewVersions = objectTrail sourceTrails oid base\<rparr>))"

definition objectChanges :: "snapshot \<Rightarrow> snapshot \<Rightarrow> snapshot \<Rightarrow> ObjectChange list" where
  "objectChanges base source target =
     (let baseHeads = headObjects (objects base); sourceHeads = headObjects (objects source);
          targetHeads = headObjects (objects target); sourceTrails = versionTrails (objects source) in
      List.map_filter (objectChange baseHeads sourceHeads targetHeads sourceTrails)
        (changeIDs baseHeads sourceHeads))"

definition relationChange :: "(string \<times> RelationVersion) list \<Rightarrow> (string \<times> RelationVersion) list \<Rightarrow>
    (string \<times> RelationVersion) list \<Rightarrow> (string \<times> RelationVersion list) list \<Rightarrow> string \<Rightarrow>
    RelationChange option" where
  "relationChange baseHeads sourceHeads targetHeads sourceTrails oid =
     (let base = map_of baseHeads oid; source = map_of sourceHeads oid; target = map_of targetHeads oid in
      case classifyRelation base source of
        None \<Rightarrow> None
      | Some (kind, changed) \<Rightarrow>
          (case source of
             None \<Rightarrow> None
           | Some s \<Rightarrow> Some
               \<lparr>rc_RelationID = oid, rc_Kind = kind, rc_BaseVersion = base, rc_SourceVersion = s,
                rc_TargetVersion = target, rc_TargetMoved = relationHeadMoved base target,
                rc_ChangedFields = changed, rc_TargetChangedFields = relationFieldDiff base target,
                rc_NewVersions = relationTrail sourceTrails oid base\<rparr>))"

definition relationChanges :: "snapshot \<Rightarrow> snapshot \<Rightarrow> snapshot \<Rightarrow> RelationChange list" where
  "relationChanges base source target =
     (let baseHeads = headRelations (relations base); sourceHeads = headRelations (relations source);
          targetHeads = headRelations (relations target);
          sourceTrails = relationVersionTrails (relations source) in
      List.map_filter (relationChange baseHeads sourceHeads targetHeads sourceTrails)
        (changeIDs baseHeads sourceHeads))"

section \<open>File refs, summary, the computation\<close>

definition fileDiffRefs :: "StateRef \<Rightarrow> StateRef \<Rightarrow> StateRef \<Rightarrow> FileDiffRef list" where
  "fileDiffRefs base source target =
     concat (map (\<lambda>(kind, head).
         (let baseRef = (case st_GitRef base of None \<Rightarrow> [] | Some g \<Rightarrow> g);
              headRef = (case st_GitRef head of None \<Rightarrow> [] | Some g \<Rightarrow> g) in
          if baseRef = [] \<and> headRef = [] then []
          else [\<lparr>fd_Kind = kind, fd_BaseGitRef = baseRef, fd_HeadGitRef = headRef\<rparr>]))
       [(''source'', source), (''target'', target)])"

definition sortedTypeCounts :: "(string \<times> int) list \<Rightarrow> TypeCount list" where
  "sortedTypeCounts m = sort_key tc_Type (map (\<lambda>(t, n). \<lparr>tc_Type = t, tc_Count = n\<rparr>) m)"

text \<open>The two counting loops: one iteration per change, on the summary and the map from
  type to count.\<close>

definition count_field :: "string \<Rightarrow> DiffSummary \<Rightarrow> DiffSummary" where
  "count_field f s =
     (if f = ''schema_ref'' then s\<lparr>ds_SchemaChanged := ds_SchemaChanged s + 1\<rparr>
      else if f = ''visibility_policy_id'' then s\<lparr>ds_VisibilityChanged := ds_VisibilityChanged s + 1\<rparr>
      else s)"

definition summarize_object :: "ObjectChange \<Rightarrow> DiffSummary \<times> (string \<times> int) list \<Rightarrow>
    DiffSummary \<times> (string \<times> int) list" where
  "summarize_object c st =
     (let s = fst st;
          s1 = (case oc_Kind c of
                  ChangeCreated \<Rightarrow> s\<lparr>ds_ObjectsCreated := ds_ObjectsCreated s + 1\<rparr>
                | ChangeUpdated \<Rightarrow> s\<lparr>ds_ObjectsUpdated := ds_ObjectsUpdated s + 1\<rparr>
                | ChangeAborted \<Rightarrow> s\<lparr>ds_ObjectsAborted := ds_ObjectsAborted s + 1\<rparr>
                | ChangeReopened \<Rightarrow> s\<lparr>ds_ObjectsReopened := ds_ObjectsReopened s + 1\<rparr>)
      in (fold count_field (oc_ChangedFields c) s1, incr (oc_ObjectType c) (snd st)))"

definition summarize_relation :: "RelationChange \<Rightarrow> DiffSummary \<times> (string \<times> int) list \<Rightarrow>
    DiffSummary \<times> (string \<times> int) list" where
  "summarize_relation c st =
     (let s = fst st;
          s1 = (case rc_Kind c of
                  ChangeCreated \<Rightarrow> s\<lparr>ds_RelationsCreated := ds_RelationsCreated s + 1\<rparr>
                | ChangeUpdated \<Rightarrow> s\<lparr>ds_RelationsUpdated := ds_RelationsUpdated s + 1\<rparr>
                | _ \<Rightarrow> s)
      in (s1, incr (rv_RelationType (rc_SourceVersion c)) (snd st)))"

definition zero_summary :: DiffSummary where
  "zero_summary =
     \<lparr>ds_ObjectsCreated = 0, ds_ObjectsUpdated = 0, ds_ObjectsAborted = 0, ds_ObjectsReopened = 0,
      ds_RelationsCreated = 0, ds_RelationsUpdated = 0, ds_SchemaChanged = 0,
      ds_VisibilityChanged = 0, ds_ObjectTypes = [], ds_RelationTypes = []\<rparr>"

definition summarize :: "ObjectChange list \<Rightarrow> RelationChange list \<Rightarrow> DiffSummary" where
  "summarize ocs rcs =
     (let (s1, objTypes) = fold summarize_object ocs (zero_summary, []);
          (s2, relTypes) = fold summarize_relation rcs (s1, [])
      in s2\<lparr>ds_ObjectTypes := sortedTypeCounts objTypes,
            ds_RelationTypes := sortedTypeCounts relTypes\<rparr>)"

definition Compute :: "DiffInputs \<Rightarrow> diff_error + Diff" where
  "Compute i =
     (case validateInputs i of
        Some e \<Rightarrow> Inl e
      | None \<Rightarrow>
     (case canonicalizeSnapshot (in_BaseSnapshot i) of
        Inl e \<Rightarrow> Inl e
      | Inr base \<Rightarrow>
     (case canonicalizeSnapshot (in_SourceSnapshot i) of
        Inl e \<Rightarrow> Inl e
      | Inr source \<Rightarrow>
     (case canonicalizeSnapshot (in_TargetSnapshot i) of
        Inl e \<Rightarrow> Inl e
      | Inr target \<Rightarrow>
          (let ocs = objectChanges base source target; rcs = relationChanges base source target in
           Inr \<lparr>df_FormatVersion = FormatV1, df_ProjectID = in_ProjectID i, df_Base = in_Base i,
                df_Source = in_Source i, df_Target = in_Target i,
                df_ObjectChanges = ocs, df_RelationChanges = rcs,
                df_FileDiffRefs = fileDiffRefs (in_Base i) (in_Source i) (in_Target i),
                df_Summary = summarize ocs rcs\<rparr>)))))"

section \<open>The copies of the version-log code implement the interface\<close>

interpretation obj_log: version_log ov_ObjectID ov_VersionNo ov_ID headObjects
  by unfold_locales (simp_all add: headObjects_def headObject_step_def split: option.split)

interpretation rel_log: version_log rv_RelationID rv_VersionNo rv_ID headRelations
  by unfold_locales (simp_all add: headRelations_def headRelation_step_def split: option.split)

interpretation obj_trails: version_trails ov_ObjectID ov_VersionNo ov_ID headObjects
    versionTrails objectTrail
proof
  have L: "lookup_rows (versionTrails rows) k =
      sort_key (\<lambda>v. (ov_VersionNo v, ov_ID v)) (filter (\<lambda>v. ov_ObjectID v = k) rows)" for rows k
    using lookup_group_rows [of ov_ObjectID rows k]
    by (auto simp: versionTrails_def lookup_rows_def map_of_map_snd split: option.splits)
  fix rows k b
  show "objectTrail (versionTrails rows) k None =
      sort_key (\<lambda>v. (ov_VersionNo v, ov_ID v)) (filter (\<lambda>v. ov_ObjectID v = k) rows)"
    by (simp add: objectTrail_def L)
  show "objectTrail (versionTrails rows) k (Some b) =
      (let t = sort_key (\<lambda>v. (ov_VersionNo v, ov_ID v)) (filter (\<lambda>v. ov_ObjectID v = k) rows);
           from = sort_Search (length t) (\<lambda>i. ov_VersionNo (t ! i) > ov_VersionNo b)
       in if from = length t then [] else drop from t)"
    by (simp add: objectTrail_def L Let_def)
qed

interpretation rel_trails: version_trails rv_RelationID rv_VersionNo rv_ID headRelations
    relationVersionTrails relationTrail
proof
  have L: "lookup_rows (relationVersionTrails rows) k =
      sort_key (\<lambda>v. (rv_VersionNo v, rv_ID v)) (filter (\<lambda>v. rv_RelationID v = k) rows)" for rows k
    using lookup_group_rows [of rv_RelationID rows k]
    by (auto simp: relationVersionTrails_def lookup_rows_def map_of_map_snd split: option.splits)
  fix rows k b
  show "relationTrail (relationVersionTrails rows) k None =
      sort_key (\<lambda>v. (rv_VersionNo v, rv_ID v)) (filter (\<lambda>v. rv_RelationID v = k) rows)"
    by (simp add: relationTrail_def L)
  show "relationTrail (relationVersionTrails rows) k (Some b) =
      (let t = sort_key (\<lambda>v. (rv_VersionNo v, rv_ID v)) (filter (\<lambda>v. rv_RelationID v = k) rows);
           from = sort_Search (length t) (\<lambda>i. rv_VersionNo (t ! i) > rv_VersionNo b)
       in if from = length t then [] else drop from t)"
    by (simp add: relationTrail_def L Let_def)
qed

section \<open>The contract of a change list\<close>

lemma set_changeIDs: "set (changeIDs b s) = fst ` set b \<union> fst ` set s"
  by (auto simp: changeIDs_def Let_def)

lemma sorted_changeIDs: "sorted (changeIDs b s)"
  by (simp add: changeIDs_def Let_def)

lemma distinct_changeIDs:
  "distinct (map fst b) \<Longrightarrow> distinct (map fst s) \<Longrightarrow> distinct (changeIDs b s)"
  by (auto simp: changeIDs_def Let_def)

lemma map_filter_keys:
  assumes "\<And>k c. f k = Some c \<Longrightarrow> cid c = k"
  shows "map cid (List.map_filter f ks) = filter (\<lambda>k. f k \<noteq> None) ks"
  using assms by (induction ks) (auto simp: List.map_filter_def)

text \<open>What the object and the relation change list share: every entity whose source head is
  not its base head is listed once, ascending by id, with the three heads and the trail.\<close>

locale change_log = version_trails owner vno rid heads trails trail
  for owner :: "'r \<Rightarrow> string" and vno :: "'r \<Rightarrow> int" and rid :: "'r \<Rightarrow> string"
    and heads :: "'r list \<Rightarrow> (string \<times> 'r) list"
    and trails :: "'r list \<Rightarrow> (string \<times> 'r list) list"
    and trail :: "(string \<times> 'r list) list \<Rightarrow> string \<Rightarrow> 'r option \<Rightarrow> 'r list" +
  fixes change :: "(string \<times> 'r) list \<Rightarrow> (string \<times> 'r) list \<Rightarrow> (string \<times> 'r) list \<Rightarrow>
      (string \<times> 'r list) list \<Rightarrow> string \<Rightarrow> 'c option"
    and cid :: "'c \<Rightarrow> string" and cbase :: "'c \<Rightarrow> 'r option" and csource :: "'c \<Rightarrow> 'r"
    and ctarget :: "'c \<Rightarrow> 'r option" and cnew :: "'c \<Rightarrow> 'r list"
    and changes :: "'r list \<Rightarrow> 'r list \<Rightarrow> 'r list \<Rightarrow> 'c list"
  assumes change_None_iff: "change B S T R k = None \<longleftrightarrow>
      (case map_of S k of None \<Rightarrow> True | Some s \<Rightarrow>
         (case map_of B k of None \<Rightarrow> False | Some b \<Rightarrow> rid b = rid s))"
    and change_Some: "change B S T R k = Some c \<Longrightarrow>
      cid c = k \<and> cbase c = map_of B k \<and> map_of S k = Some (csource c) \<and> ctarget c = map_of T k
      \<and> cnew c = trail R k (map_of B k)"
    and change_cong: "map_of B = map_of B' \<Longrightarrow> map_of S = map_of S' \<Longrightarrow> map_of T = map_of T' \<Longrightarrow>
      trail R k = trail R' k \<Longrightarrow> change B S T R k = change B' S' T' R' k"
    and changes: "changes bs ss ts =
      List.map_filter (change (heads bs) (heads ss) (heads ts) (trails ss))
        (changeIDs (heads bs) (heads ss))"
begin

lemma changes_ids:
  "map cid (changes bs ss ts) =
     filter (\<lambda>k. change (heads bs) (heads ss) (heads ts) (trails ss) k \<noteq> None)
       (changeIDs (heads bs) (heads ss))"
  by (simp only: changes) (rule map_filter_keys, simp add: change_Some)

lemma changes_sorted: "sorted (map cid (changes bs ss ts))"
  using sorted_filter [of "\<lambda>x. x" "changeIDs (heads bs) (heads ss)"]
  by (simp add: changes_ids sorted_changeIDs)

lemma changes_distinct: "distinct (map cid (changes bs ss ts))"
  by (simp add: changes_ids distinct_changeIDs heads_distinct)

lemma changes_listed:
  "k \<in> cid ` set (changes bs ss ts) \<longleftrightarrow>
     (\<exists>s. map_of (heads ss) k = Some s \<and> (\<forall>b. map_of (heads bs) k = Some b \<longrightarrow> rid b \<noteq> rid s))"
proof -
  have "k \<in> cid ` set (changes bs ss ts) \<longleftrightarrow> k \<in> set (map cid (changes bs ss ts))" by simp
  also have "\<dots> \<longleftrightarrow> k \<in> fst ` set (heads bs) \<union> fst ` set (heads ss)
      \<and> change (heads bs) (heads ss) (heads ts) (trails ss) k \<noteq> None"
    by (simp only: changes_ids set_filter mem_Collect_eq set_changeIDs)
  also have "\<dots> \<longleftrightarrow> (\<exists>s. map_of (heads ss) k = Some s
      \<and> (\<forall>b. map_of (heads bs) k = Some b \<longrightarrow> rid b \<noteq> rid s))"
  proof (cases "map_of (heads ss) k")
    case None
    then show ?thesis by (simp add: change_None_iff)
  next
    case (Some s)
    then have "k \<in> fst ` set (heads ss)" by (metis domI dom_map_of_conv_image_fst)
    with Some show ?thesis by (auto simp: change_None_iff split: option.splits)
  qed
  finally show ?thesis .
qed

lemma changes_member:
  assumes "c \<in> set (changes bs ss ts)"
  shows "change (heads bs) (heads ss) (heads ts) (trails ss) (cid c) = Some c"
    and "cbase c = map_of (heads bs) (cid c)" and "map_of (heads ss) (cid c) = Some (csource c)"
    and "ctarget c = map_of (heads ts) (cid c)" and "cnew c = trail (trails ss) (cid c) (cbase c)"
proof -
  from assms obtain k where k: "change (heads bs) (heads ss) (heads ts) (trails ss) k = Some c"
    by (auto simp: changes List.map_filter_def)
  with change_Some [OF k]
  show "change (heads bs) (heads ss) (heads ts) (trails ss) (cid c) = Some c" by simp
  from change_Some [OF k]
  show "cbase c = map_of (heads bs) (cid c)" and "map_of (heads ss) (cid c) = Some (csource c)"
    and "ctarget c = map_of (heads ts) (cid c)" and "cnew c = trail (trails ss) (cid c) (cbase c)"
    by simp_all
qed

lemma changes_perm:
  assumes "mset bs = mset bs'" and "mset ss = mset ss'" and "mset ts = mset ts'"
    and "inj_on rid (set bs)" and "inj_on rid (set ss)" and "inj_on rid (set ts)"
  shows "changes bs ss ts = changes bs' ss' ts'"
proof -
  have sets: "set bs = set bs'" "set ss = set ss'" "set ts = set ts'"
    using assms(1-3) by (metis set_mset_mset)+
  have H: "map_of (heads bs) = map_of (heads bs')" "map_of (heads ss) = map_of (heads ss')"
    "map_of (heads ts) = map_of (heads ts')"
    using heads_perm [OF sets(1) assms(4)] heads_perm [OF sets(2) assms(5)]
      heads_perm [OF sets(3) assms(6)] by simp_all
  have T: "trail (trails ss) k = trail (trails ss') k" for k
    by (rule ext) (rule trail_perm [OF assms(2,5)])
  have "set (changeIDs (heads bs) (heads ss)) = set (changeIDs (heads bs') (heads ss'))"
    using sets by (simp add: set_changeIDs heads_keys)
  then have "changeIDs (heads bs) (heads ss) = changeIDs (heads bs') (heads ss')"
    by (intro sorted_distinct_set_unique)
      (simp_all add: sorted_changeIDs distinct_changeIDs heads_distinct)
  moreover have "change (heads bs) (heads ss) (heads ts) (trails ss)
      = change (heads bs') (heads ss') (heads ts') (trails ss')"
    by (rule ext) (rule change_cong [OF H T])
  ultimately show ?thesis by (simp only: changes)
qed

lemma changes_self: "inj_on rid (set bs) \<Longrightarrow> set ss = set bs \<Longrightarrow> changes bs ss ts = []"
proof -
  assume "inj_on rid (set bs)" and "set ss = set bs"
  then have "map_of (heads ss) = map_of (heads bs)" by (metis heads_perm)
  then have "k \<notin> cid ` set (changes bs ss ts)" for k by (auto simp: changes_listed)
  then show ?thesis by (metis image_eqI last_in_set)
qed

end

lemma classifyObject_None_iff:
  "classifyObject base source = None \<longleftrightarrow>
     (case source of None \<Rightarrow> True | Some s \<Rightarrow>
        (case base of None \<Rightarrow> False | Some b \<Rightarrow> ov_ID b = ov_ID s))"
  by (auto simp: classifyObject_def Let_def split: option.splits)

lemma classifyRelation_None_iff:
  "classifyRelation base source = None \<longleftrightarrow>
     (case source of None \<Rightarrow> True | Some s \<Rightarrow>
        (case base of None \<Rightarrow> False | Some b \<Rightarrow> rv_ID b = rv_ID s))"
  by (auto simp: classifyRelation_def split: option.splits)

definition object_changes :: "ObjectVersion list \<Rightarrow> ObjectVersion list \<Rightarrow> ObjectVersion list \<Rightarrow>
    ObjectChange list" where
  "object_changes bs ss ts =
     objectChanges \<lparr>objects = bs, relations = []\<rparr> \<lparr>objects = ss, relations = []\<rparr>
       \<lparr>objects = ts, relations = []\<rparr>"

definition relation_changes :: "RelationVersion list \<Rightarrow> RelationVersion list \<Rightarrow>
    RelationVersion list \<Rightarrow> RelationChange list" where
  "relation_changes bs ss ts =
     relationChanges \<lparr>objects = [], relations = bs\<rparr> \<lparr>objects = [], relations = ss\<rparr>
       \<lparr>objects = [], relations = ts\<rparr>"

lemma objectChanges_rows:
  "objectChanges b s t = object_changes (objects b) (objects s) (objects t)"
  by (simp add: object_changes_def objectChanges_def)

lemma relationChanges_rows:
  "relationChanges b s t = relation_changes (relations b) (relations s) (relations t)"
  by (simp add: relation_changes_def relationChanges_def)

interpretation obj_changes: change_log ov_ObjectID ov_VersionNo ov_ID headObjects versionTrails
    objectTrail objectChange oc_ObjectID oc_BaseVersion oc_SourceVersion oc_TargetVersion
    oc_NewVersions object_changes
proof
  fix B S T R k c B' S' T' R' bs ss ts
  show "objectChange B S T R k = None \<longleftrightarrow>
      (case map_of S k of None \<Rightarrow> True | Some s \<Rightarrow>
         (case map_of B k of None \<Rightarrow> False | Some b \<Rightarrow> ov_ID b = ov_ID s))"
    using classifyObject_None_iff [of "map_of B k" "map_of S k"]
    by (auto simp: objectChange_def Let_def split: option.splits)
  show "oc_ObjectID c = k \<and> oc_BaseVersion c = map_of B k \<and> map_of S k = Some (oc_SourceVersion c)
      \<and> oc_TargetVersion c = map_of T k \<and> oc_NewVersions c = objectTrail R k (map_of B k)"
    if "objectChange B S T R k = Some c"
    using that by (auto simp: objectChange_def Let_def split: option.splits)
  show "objectChange B S T R k = objectChange B' S' T' R' k"
    if "map_of B = map_of B'" "map_of S = map_of S'" "map_of T = map_of T'"
      "objectTrail R k = objectTrail R' k"
    using that by (simp only: objectChange_def)
  show "object_changes bs ss ts =
      List.map_filter (objectChange (headObjects bs) (headObjects ss) (headObjects ts) (versionTrails ss))
        (changeIDs (headObjects bs) (headObjects ss))"
    by (simp add: object_changes_def objectChanges_def Let_def)
qed

interpretation rel_changes: change_log rv_RelationID rv_VersionNo rv_ID headRelations
    relationVersionTrails relationTrail relationChange rc_RelationID rc_BaseVersion
    rc_SourceVersion rc_TargetVersion rc_NewVersions relation_changes
proof
  fix B S T R k c B' S' T' R' bs ss ts
  show "relationChange B S T R k = None \<longleftrightarrow>
      (case map_of S k of None \<Rightarrow> True | Some s \<Rightarrow>
         (case map_of B k of None \<Rightarrow> False | Some b \<Rightarrow> rv_ID b = rv_ID s))"
    using classifyRelation_None_iff [of "map_of B k" "map_of S k"]
    by (auto simp: relationChange_def Let_def split: option.splits)
  show "rc_RelationID c = k \<and> rc_BaseVersion c = map_of B k \<and> map_of S k = Some (rc_SourceVersion c)
      \<and> rc_TargetVersion c = map_of T k \<and> rc_NewVersions c = relationTrail R k (map_of B k)"
    if "relationChange B S T R k = Some c"
    using that by (auto simp: relationChange_def Let_def split: option.splits)
  show "relationChange B S T R k = relationChange B' S' T' R' k"
    if "map_of B = map_of B'" "map_of S = map_of S'" "map_of T = map_of T'"
      "relationTrail R k = relationTrail R' k"
    using that by (simp only: relationChange_def)
  show "relation_changes bs ss ts =
      List.map_filter (relationChange (headRelations bs) (headRelations ss) (headRelations ts)
        (relationVersionTrails ss)) (changeIDs (headRelations bs) (headRelations ss))"
    by (simp add: relation_changes_def relationChanges_def Let_def)
qed

section \<open>From stored rows to canonical rows\<close>

text \<open>A computation that succeeds has valid payloads only; the canonical rows are the stored
  rows with the payload replaced, so ids, owners and version numbers are those of the store.\<close>

lemma canonPayloadObject_Inr:
  "canonPayloadObject v = Inr w \<longleftrightarrow> (\<exists>c. CanonicalJSON (ov_Payload v) = Inr c \<and> w = v\<lparr>ov_Payload := c\<rparr>)"
  by (auto simp: canonPayloadObject_def split: sum.splits)

lemma canonPayloadRelation_Inr:
  "canonPayloadRelation v = Inr w \<longleftrightarrow> (\<exists>c. CanonicalJSON (rv_Payload v) = Inr c \<and> w = v\<lparr>rv_Payload := c\<rparr>)"
  by (auto simp: canonPayloadRelation_def split: sum.splits)

lemma canonicalizeSnapshot_Inr:
  "canonicalizeSnapshot s = Inr c \<longleftrightarrow>
     map_err canonPayloadObject (sn_ObjectVersions s) = Inr (objects c)
     \<and> map_err canonPayloadRelation (sn_RelationVersions s) = Inr (relations c)"
  by (auto simp: canonicalizeSnapshot_def split: sum.splits)

text \<open>Two snapshots hold the same rows, in any order.\<close>

definition same_rows :: "Snapshot \<Rightarrow> Snapshot \<Rightarrow> bool" where
  "same_rows s s' \<longleftrightarrow> mset (sn_ObjectVersions s) = mset (sn_ObjectVersions s')
     \<and> mset (sn_RelationVersions s) = mset (sn_RelationVersions s')"

text \<open>Row ids are primary keys: no two rows of a snapshot share one.\<close>

definition unique_ids :: "Snapshot \<Rightarrow> bool" where
  "unique_ids s \<longleftrightarrow> distinct (map ov_ID (sn_ObjectVersions s)) \<and> distinct (map rv_ID (sn_RelationVersions s))"

lemma canonicalizeSnapshot_inj:
  assumes "canonicalizeSnapshot s = Inr c" and "unique_ids s"
  shows "inj_on ov_ID (set (objects c))" and "inj_on rv_ID (set (relations c))"
proof -
  have O: "map_err canonPayloadObject (sn_ObjectVersions s) = Inr (objects c)"
    and R: "map_err canonPayloadRelation (sn_RelationVersions s) = Inr (relations c)"
    using assms(1) by (simp_all add: canonicalizeSnapshot_Inr)
  show "inj_on ov_ID (set (objects c))"
    by (rule map_err_inj_on [OF O, of ov_ID])
      (use assms(2) in \<open>auto simp: unique_ids_def distinct_map canonPayloadObject_Inr\<close>)
  show "inj_on rv_ID (set (relations c))"
    by (rule map_err_inj_on [OF R, of rv_ID])
      (use assms(2) in \<open>auto simp: unique_ids_def distinct_map canonPayloadRelation_Inr\<close>)
qed

lemma canonicalizeSnapshot_perm:
  assumes "canonicalizeSnapshot s = Inr c" and "same_rows s s'"
  obtains c' where "canonicalizeSnapshot s' = Inr c'" and "mset (objects c') = mset (objects c)"
    and "mset (relations c') = mset (relations c)"
proof -
  have O: "map_err canonPayloadObject (sn_ObjectVersions s) = Inr (objects c)"
    and R: "map_err canonPayloadRelation (sn_RelationVersions s) = Inr (relations c)"
    using assms(1) by (simp_all add: canonicalizeSnapshot_Inr)
  from map_err_mset [OF O, of "sn_ObjectVersions s'"] map_err_mset [OF R, of "sn_RelationVersions s'"]
    assms(2)
  obtain os rs where "map_err canonPayloadObject (sn_ObjectVersions s') = Inr os"
    "mset os = mset (objects c)" "map_err canonPayloadRelation (sn_RelationVersions s') = Inr rs"
    "mset rs = mset (relations c)"
    by (auto simp: same_rows_def)
  then show thesis by (intro that [of "\<lparr>objects = os, relations = rs\<rparr>"]) (simp_all add: canonicalizeSnapshot_Inr)
qed

text \<open>The head ids of the canonical rows are the head ids of the stored rows.\<close>

lemma canonical_object_head_ids:
  assumes "canonicalizeSnapshot s = Inr c"
  shows "map_option ov_ID (map_of (headObjects (objects c)) k)
       = map_option ov_ID (map_of (headObjects (sn_ObjectVersions s)) k)"
proof -
  define f where "f = (\<lambda>v. projr (canonPayloadObject v))"
  have O: "map_err canonPayloadObject (sn_ObjectVersions s) = Inr (objects c)"
    using assms by (simp add: canonicalizeSnapshot_Inr)
  have ok: "\<forall>v \<in> set (sn_ObjectVersions s). canonPayloadObject v = Inr (f v)"
    using map_err_ok_iff [of canonPayloadObject "sn_ObjectVersions s"] O by (force simp: f_def)
  then have keep: "\<forall>v \<in> set (sn_ObjectVersions s). ov_ObjectID (f v) = ov_ObjectID v
      \<and> ov_VersionNo (f v) = ov_VersionNo v \<and> ov_ID (f v) = ov_ID v"
    by (auto simp: canonPayloadObject_Inr)
  have "objects c = map f (sn_ObjectVersions s)"
    using map_err_total [OF ok] O by simp
  then show ?thesis by (simp only: obj_log.heads_map_ids [OF keep])
qed

lemma canonical_relation_head_ids:
  assumes "canonicalizeSnapshot s = Inr c"
  shows "map_option rv_ID (map_of (headRelations (relations c)) k)
       = map_option rv_ID (map_of (headRelations (sn_RelationVersions s)) k)"
proof -
  define f where "f = (\<lambda>v. projr (canonPayloadRelation v))"
  have O: "map_err canonPayloadRelation (sn_RelationVersions s) = Inr (relations c)"
    using assms by (simp add: canonicalizeSnapshot_Inr)
  have ok: "\<forall>v \<in> set (sn_RelationVersions s). canonPayloadRelation v = Inr (f v)"
    using map_err_ok_iff [of canonPayloadRelation "sn_RelationVersions s"] O by (force simp: f_def)
  then have keep: "\<forall>v \<in> set (sn_RelationVersions s). rv_RelationID (f v) = rv_RelationID v
      \<and> rv_VersionNo (f v) = rv_VersionNo v \<and> rv_ID (f v) = rv_ID v"
    by (auto simp: canonPayloadRelation_Inr)
  have "relations c = map f (sn_RelationVersions s)"
    using map_err_total [OF ok] O by simp
  then show ?thesis by (simp only: rel_log.heads_map_ids [OF keep])
qed

section \<open>Field differences\<close>

lemma ptrStringEqual_iff: "ptrStringEqual a b \<longleftrightarrow> a = b"
  by (cases a; cases b) (auto simp: ptrStringEqual_def)

lemma objectFieldDiff_iff:
  "''title'' \<in> set (objectFieldDiff (Some b) (Some h)) \<longleftrightarrow> ov_Title b \<noteq> ov_Title h"
  "''payload'' \<in> set (objectFieldDiff (Some b) (Some h)) \<longleftrightarrow> ov_Payload b \<noteq> ov_Payload h"
  "''lifecycle_state'' \<in> set (objectFieldDiff (Some b) (Some h)) \<longleftrightarrow>
     ov_LifecycleState b \<noteq> ov_LifecycleState h"
  "''schema_ref'' \<in> set (objectFieldDiff (Some b) (Some h)) \<longleftrightarrow> ov_SchemaRef b \<noteq> ov_SchemaRef h"
  "''visibility_policy_id'' \<in> set (objectFieldDiff (Some b) (Some h)) \<longleftrightarrow>
     ov_VisibilityPolicyID b \<noteq> ov_VisibilityPolicyID h"
  by (auto simp: objectFieldDiff_def ptrStringEqual_def)

lemma relationFieldDiff_iff:
  "''relation_type'' \<in> set (relationFieldDiff (Some b) (Some h)) \<longleftrightarrow>
     rv_RelationType b \<noteq> rv_RelationType h"
  "''source_object_version_id'' \<in> set (relationFieldDiff (Some b) (Some h)) \<longleftrightarrow>
     rv_SourceObjectVersionID b \<noteq> rv_SourceObjectVersionID h"
  "''target_object_version_id'' \<in> set (relationFieldDiff (Some b) (Some h)) \<longleftrightarrow>
     rv_TargetObjectVersionID b \<noteq> rv_TargetObjectVersionID h"
  "''payload'' \<in> set (relationFieldDiff (Some b) (Some h)) \<longleftrightarrow> rv_Payload b \<noteq> rv_Payload h"
  by (auto simp: relationFieldDiff_def)

lemma FieldDiff_None [simp]:
  "objectFieldDiff None h = []" "objectFieldDiff b None = []"
  "relationFieldDiff None r = []" "relationFieldDiff q None = []"
  by (auto simp: objectFieldDiff_def relationFieldDiff_def split: option.splits)

lemma distinct_objectFieldDiff: "distinct (objectFieldDiff b h)"
  by (auto simp: objectFieldDiff_def split: option.splits)

lemma distinct_relationFieldDiff: "distinct (relationFieldDiff b h)"
  by (auto simp: relationFieldDiff_def split: option.splits)

lemma objectFieldDiff_fields:
  "set (objectFieldDiff b h) \<subseteq>
     {''title'', ''payload'', ''lifecycle_state'', ''schema_ref'', ''visibility_policy_id''}"
  by (auto simp: objectFieldDiff_def split: option.splits)

section \<open>Inverting the computation\<close>

lemma ComputeE:
  assumes "Compute i = Inr d"
  obtains base source target where
    "canonicalizeSnapshot (in_BaseSnapshot i) = Inr base"
    "canonicalizeSnapshot (in_SourceSnapshot i) = Inr source"
    "canonicalizeSnapshot (in_TargetSnapshot i) = Inr target"
    "df_ObjectChanges d = object_changes (objects base) (objects source) (objects target)"
    "df_RelationChanges d = relation_changes (relations base) (relations source) (relations target)"
    "df_Summary d = summarize (df_ObjectChanges d) (df_RelationChanges d)"
    "validateInputs i = None"
  using assms
  by (auto simp: Compute_def Let_def objectChanges_rows relationChanges_rows
      split: option.splits sum.splits)

lemma objectChange_fields:
  assumes "objectChange B S T R k = Some c"
  shows "oc_ChangedFields c = objectFieldDiff (oc_BaseVersion c) (Some (oc_SourceVersion c))"
    and "oc_TargetChangedFields c = objectFieldDiff (oc_BaseVersion c) (oc_TargetVersion c)"
    and "oc_TargetMoved c = objectHeadMoved (oc_BaseVersion c) (oc_TargetVersion c)"
    and "classifyObject (oc_BaseVersion c) (Some (oc_SourceVersion c)) = Some (oc_Kind c, oc_ChangedFields c)"
    and "oc_ObjectType c = ov_ObjectType (oc_SourceVersion c)"
proof -
  obtain kind changed s where
    K: "classifyObject (map_of B k) (Some s) = Some (kind, changed)" and
    c: "c = \<lparr>oc_ObjectID = k, oc_ObjectType = ov_ObjectType s, oc_Kind = kind,
                oc_BaseVersion = map_of B k, oc_SourceVersion = s, oc_TargetVersion = map_of T k,
                oc_TargetMoved = objectHeadMoved (map_of B k) (map_of T k), oc_ChangedFields = changed,
                oc_TargetChangedFields = objectFieldDiff (map_of B k) (map_of T k),
                oc_NewVersions = objectTrail R k (map_of B k)\<rparr>"
    using assms by (auto simp: objectChange_def Let_def split: option.splits prod.splits)
  from K have "changed = objectFieldDiff (map_of B k) (Some s)"
    by (auto simp: classifyObject_def Let_def split: option.splits if_splits)
  with c K show "oc_ChangedFields c = objectFieldDiff (oc_BaseVersion c) (Some (oc_SourceVersion c))"
    and "oc_TargetChangedFields c = objectFieldDiff (oc_BaseVersion c) (oc_TargetVersion c)"
    and "oc_TargetMoved c = objectHeadMoved (oc_BaseVersion c) (oc_TargetVersion c)"
    and "classifyObject (oc_BaseVersion c) (Some (oc_SourceVersion c)) = Some (oc_Kind c, oc_ChangedFields c)"
    and "oc_ObjectType c = ov_ObjectType (oc_SourceVersion c)"
    by simp_all
qed

lemmas object_change_fields = objectChange_fields [OF obj_changes.changes_member(1)]

lemma relationChange_fields:
  assumes "relationChange B S T R k = Some c"
  shows "rc_ChangedFields c = relationFieldDiff (rc_BaseVersion c) (Some (rc_SourceVersion c))"
    and "rc_TargetChangedFields c = relationFieldDiff (rc_BaseVersion c) (rc_TargetVersion c)"
    and "rc_TargetMoved c = relationHeadMoved (rc_BaseVersion c) (rc_TargetVersion c)"
    and "classifyRelation (rc_BaseVersion c) (Some (rc_SourceVersion c)) = Some (rc_Kind c, rc_ChangedFields c)"
proof -
  obtain kind changed s where
    K: "classifyRelation (map_of B k) (Some s) = Some (kind, changed)" and
    c: "c = \<lparr>rc_RelationID = k, rc_Kind = kind,
                rc_BaseVersion = map_of B k, rc_SourceVersion = s, rc_TargetVersion = map_of T k,
                rc_TargetMoved = relationHeadMoved (map_of B k) (map_of T k), rc_ChangedFields = changed,
                rc_TargetChangedFields = relationFieldDiff (map_of B k) (map_of T k),
                rc_NewVersions = relationTrail R k (map_of B k)\<rparr>"
    using assms by (auto simp: relationChange_def Let_def split: option.splits prod.splits)
  from K have "changed = relationFieldDiff (map_of B k) (Some s)"
    by (auto simp: classifyRelation_def Let_def split: option.splits if_splits)
  with c K show "rc_ChangedFields c = relationFieldDiff (rc_BaseVersion c) (Some (rc_SourceVersion c))"
    and "rc_TargetChangedFields c = relationFieldDiff (rc_BaseVersion c) (rc_TargetVersion c)"
    and "rc_TargetMoved c = relationHeadMoved (rc_BaseVersion c) (rc_TargetVersion c)"
    and "classifyRelation (rc_BaseVersion c) (Some (rc_SourceVersion c)) = Some (rc_Kind c, rc_ChangedFields c)"
    by simp_all
qed

lemmas relation_change_fields = relationChange_fields [OF rel_changes.changes_member(1)]

lemma relation_kinds:
  "c \<in> set (relation_changes bs ss ts) \<Longrightarrow> rc_Kind c = ChangeCreated \<or> rc_Kind c = ChangeUpdated"
  using relation_change_fields(4) [of c bs ss ts]
  by (auto simp: classifyRelation_def split: option.splits if_splits)

section \<open>The counting loops\<close>

lemma fold_count_field:
  "fold count_field fs s =
     s\<lparr>ds_SchemaChanged := ds_SchemaChanged s + int (count_list fs ''schema_ref''),
       ds_VisibilityChanged := ds_VisibilityChanged s + int (count_list fs ''visibility_policy_id'')\<rparr>"
  by (induction fs arbitrary: s) (auto simp: count_field_def)

definition kind_count :: "ChangeKind \<Rightarrow> ChangeKind list \<Rightarrow> int" where
  "kind_count k ks = int (count_list ks k)"

lemma kind_count_simps [simp]:
  "kind_count k [] = 0" "kind_count k (j # ks) = kind_count k ks + (if j = k then 1 else 0)"
  by (simp_all add: kind_count_def)

lemma kind_count_total:
  "kind_count ChangeCreated ks + kind_count ChangeUpdated ks + kind_count ChangeAborted ks
     + kind_count ChangeReopened ks = int (length ks)"
proof (induction ks)
  case (Cons k ks)
  then show ?case by (cases k) auto
qed simp

lemma fold_summarize_object:
  "fold summarize_object cs (s, m) =
     (s\<lparr>ds_ObjectsCreated := ds_ObjectsCreated s + kind_count ChangeCreated (map oc_Kind cs),
        ds_ObjectsUpdated := ds_ObjectsUpdated s + kind_count ChangeUpdated (map oc_Kind cs),
        ds_ObjectsAborted := ds_ObjectsAborted s + kind_count ChangeAborted (map oc_Kind cs),
        ds_ObjectsReopened := ds_ObjectsReopened s + kind_count ChangeReopened (map oc_Kind cs),
        ds_SchemaChanged := ds_SchemaChanged s
          + int (count_list (concat (map oc_ChangedFields cs)) ''schema_ref''),
        ds_VisibilityChanged := ds_VisibilityChanged s
          + int (count_list (concat (map oc_ChangedFields cs)) ''visibility_policy_id'')\<rparr>,
      fold incr (map oc_ObjectType cs) m)"
proof (induction cs arbitrary: s m)
  case (Cons c cs)
  show ?case
    by (cases "oc_Kind c") (simp_all add: Cons.IH summarize_object_def [of c] fold_count_field Let_def)
qed simp

lemma fold_summarize_relation:
  "fold summarize_relation cs (s, m) =
     (s\<lparr>ds_RelationsCreated := ds_RelationsCreated s + kind_count ChangeCreated (map rc_Kind cs),
        ds_RelationsUpdated := ds_RelationsUpdated s + kind_count ChangeUpdated (map rc_Kind cs)\<rparr>,
      fold incr (map (\<lambda>c. rv_RelationType (rc_SourceVersion c)) cs) m)"
proof (induction cs arbitrary: s m)
  case (Cons c cs)
  show ?case by (cases "rc_Kind c") (simp_all add: Cons.IH summarize_relation_def [of c] Let_def)
qed simp

lemma summarize_closed:
  "summarize ocs rcs =
     \<lparr>ds_ObjectsCreated = kind_count ChangeCreated (map oc_Kind ocs),
      ds_ObjectsUpdated = kind_count ChangeUpdated (map oc_Kind ocs),
      ds_ObjectsAborted = kind_count ChangeAborted (map oc_Kind ocs),
      ds_ObjectsReopened = kind_count ChangeReopened (map oc_Kind ocs),
      ds_RelationsCreated = kind_count ChangeCreated (map rc_Kind rcs),
      ds_RelationsUpdated = kind_count ChangeUpdated (map rc_Kind rcs),
      ds_SchemaChanged = int (count_list (concat (map oc_ChangedFields ocs)) ''schema_ref''),
      ds_VisibilityChanged = int (count_list (concat (map oc_ChangedFields ocs)) ''visibility_policy_id''),
      ds_ObjectTypes = sortedTypeCounts (counts (map oc_ObjectType ocs)),
      ds_RelationTypes = sortedTypeCounts (counts (map (\<lambda>c. rv_RelationType (rc_SourceVersion c)) rcs))\<rparr>"
  by (simp add: summarize_def fold_summarize_object fold_summarize_relation zero_summary_def counts_def)

lemma sortedTypeCounts_total:
  "sum_list (map tc_Count (sortedTypeCounts (counts ks))) = int (length ks)"
proof -
  have "mset (map tc_Count (sortedTypeCounts (counts ks))) = mset (map snd (counts ks))"
    by (simp add: sortedTypeCounts_def multiset.map_comp comp_def case_prod_unfold)
  then have "sum_list (map tc_Count (sortedTypeCounts (counts ks))) = sum_list (map snd (counts ks))"
    by (metis sum_mset_sum_list)
  then show ?thesis by (simp add: sum_counts)
qed

lemma sortedTypeCounts_sorted: "sorted (map tc_Type (sortedTypeCounts m))"
  by (simp add: sortedTypeCounts_def)

lemma count_concat_distinct:
  "(\<And>x. x \<in> set xs \<Longrightarrow> distinct (g x)) \<Longrightarrow>
   count_list (concat (map g xs)) f = length (filter (\<lambda>x. f \<in> set (g x)) xs)"
proof (induction xs)
  case (Cons x xs)
  have "count_list (g x) f = (if f \<in> set (g x) then 1 else 0)"
    using Cons.prems [of x] by (simp add: count_list_distinct)
  with Cons show ?case by simp
qed simp

section \<open>Sample rows\<close>

text \<open>Concrete rows the witnesses below evaluate on: object \<open>o1\<close> of type
  \<open>claim\<close>, with one version in the base, a second one on each branch.\<close>

definition sample_object :: "string \<Rightarrow> string \<Rightarrow> int \<Rightarrow> string \<Rightarrow> raw \<Rightarrow> ObjectVersion" where
  "sample_object row oid no title payload =
     \<lparr>ov_ID = row, ov_ObjectID = oid, ov_ObjectType = ''claim'', ov_VersionNo = no, ov_StateID = ''s'',
      ov_BranchID = None, ov_SchemaRef = \<lparr>sr_ID = ''claim'', sr_Version = ''1''\<rparr>, ov_Title = title,
      ov_LifecycleState = ''draft'', ov_Payload = payload, ov_VisibilityPolicyID = None,
      ov_IntegrityHash = ''h'', ov_CreatedBy = ''u'', ov_CreatedAt = \<lparr>instant = 0, zone = 0\<rparr>\<rparr>"

definition sample_relation :: "string \<Rightarrow> string \<Rightarrow> int \<Rightarrow> string \<Rightarrow> string \<Rightarrow> string \<Rightarrow> RelationVersion" where
  "sample_relation row rid no typ src tgt =
     \<lparr>rv_ID = row, rv_RelationID = rid, rv_VersionNo = no, rv_StateID = ''s'', rv_RelationType = typ,
      rv_SourceObjectVersionID = src, rv_TargetObjectVersionID = tgt, rv_Payload = [TNull],
      rv_IntegrityHash = ''h'', rv_CreatedBy = ''u'', rv_CreatedAt = \<lparr>instant = 0, zone = 0\<rparr>\<rparr>"

definition sample_snapshot :: "ObjectVersion list \<Rightarrow> RelationVersion list \<Rightarrow> Snapshot" where
  "sample_snapshot os rs = \<lparr>sn_ObjectVersions = os, sn_RelationVersions = rs, sn_BlobRefs = []\<rparr>"

definition sample_inputs :: "Snapshot \<Rightarrow> Snapshot \<Rightarrow> Snapshot \<Rightarrow> DiffInputs" where
  "sample_inputs b s t =
     \<lparr>in_ProjectID = ''p'', in_Base = \<lparr>st_ID = ''sb'', st_GitRef = None\<rparr>,
      in_Source = \<lparr>st_ID = ''ss'', st_GitRef = Some ''g''\<rparr>,
      in_Target = \<lparr>st_ID = ''st'', st_GitRef = None\<rparr>,
      in_BaseSnapshot = b, in_SourceSnapshot = s, in_TargetSnapshot = t\<rparr>"

definition sample_b :: ObjectVersion where
  "sample_b = sample_object ''v1'' ''o1'' 1 ''T'' [TLBrace, TStr ''a'', TColon, TNull, TRBrace]"

definition sample_s :: ObjectVersion where
  "sample_s = sample_object ''v2'' ''o1'' 2 ''T source'' [TLBrace, TStr ''a'', TColon, TNull, TRBrace]"

definition sample_t :: ObjectVersion where
  "sample_t = sample_object ''v3'' ''o1'' 2 ''T target'' [TLBrace, TStr ''a'', TColon, TNull, TRBrace]"

definition sample_r :: RelationVersion where
  "sample_r = sample_relation ''w1'' ''r1'' 1 ''supports'' ''v2'' ''v2''"

definition sample_in :: DiffInputs where
  "sample_in = sample_inputs (sample_snapshot [sample_b] []) (sample_snapshot [sample_s, sample_b] [sample_r])
     (sample_snapshot [sample_b, sample_t] [])"

definition sample_change :: ObjectChange where
  "sample_change = \<lparr>oc_ObjectID = ''o1'', oc_ObjectType = ''claim'', oc_Kind = ChangeUpdated,
      oc_BaseVersion = Some sample_b, oc_SourceVersion = sample_s, oc_TargetVersion = Some sample_t,
      oc_TargetMoved = True, oc_ChangedFields = [''title''], oc_TargetChangedFields = [''title''],
      oc_NewVersions = [sample_s]\<rparr>"

definition sample_rchange :: RelationChange where
  "sample_rchange = \<lparr>rc_RelationID = ''r1'', rc_Kind = ChangeCreated,
      rc_BaseVersion = None, rc_SourceVersion = sample_r, rc_TargetVersion = None,
      rc_TargetMoved = False, rc_ChangedFields = [], rc_TargetChangedFields = [],
      rc_NewVersions = [sample_r]\<rparr>"

definition sample_diff :: Diff where
  "sample_diff = \<lparr>df_FormatVersion = ''v1'', df_ProjectID = ''p'',
      df_Base = \<lparr>st_ID = ''sb'', st_GitRef = None\<rparr>, df_Source = \<lparr>st_ID = ''ss'', st_GitRef = Some ''g''\<rparr>,
      df_Target = \<lparr>st_ID = ''st'', st_GitRef = None\<rparr>,
      df_ObjectChanges = [sample_change], df_RelationChanges = [sample_rchange],
      df_FileDiffRefs = [\<lparr>fd_Kind = ''source'', fd_BaseGitRef = '''', fd_HeadGitRef = ''g''\<rparr>],
      df_Summary = \<lparr>ds_ObjectsCreated = 0, ds_ObjectsUpdated = 1, ds_ObjectsAborted = 0,
        ds_ObjectsReopened = 0, ds_RelationsCreated = 1, ds_RelationsUpdated = 0,
        ds_SchemaChanged = 0, ds_VisibilityChanged = 0,
        ds_ObjectTypes = [\<lparr>tc_Type = ''claim'', tc_Count = 1\<rparr>],
        ds_RelationTypes = [\<lparr>tc_Type = ''supports'', tc_Count = 1\<rparr>]\<rparr>\<rparr>"

lemma sample_diff_computed: "Compute sample_in = Inr sample_diff"
  by code_simp

section \<open>Properties\<close>

lemma moved_ids:
  "(\<exists>s. m = Some s \<and> (\<forall>b. n = Some b \<longrightarrow> f b \<noteq> f s)) \<longleftrightarrow>
     map_option f m \<noteq> None \<and> map_option f n \<noteq> map_option f m"
  by (cases m; cases n) auto

text \<open>C38: the diff lists exactly the objects and relations whose head row on the source branch is
  not their head row in the base, each once and in ascending id order; heads are those of the
  stored rows, so an entity only the target moved is not listed and nothing is lost.\<close>

theorem diff_lists_moved_heads:
  assumes "Compute i = Inr d"
  shows "sorted (map oc_ObjectID (df_ObjectChanges d)) \<and> distinct (map oc_ObjectID (df_ObjectChanges d))
    \<and> sorted (map rc_RelationID (df_RelationChanges d)) \<and> distinct (map rc_RelationID (df_RelationChanges d))
    \<and> (\<forall>k. k \<in> oc_ObjectID ` set (df_ObjectChanges d) \<longleftrightarrow>
         (\<exists>s. map_of (headObjects (sn_ObjectVersions (in_SourceSnapshot i))) k = Some s
            \<and> (\<forall>b. map_of (headObjects (sn_ObjectVersions (in_BaseSnapshot i))) k = Some b
                   \<longrightarrow> ov_ID b \<noteq> ov_ID s)))
    \<and> (\<forall>k. k \<in> rc_RelationID ` set (df_RelationChanges d) \<longleftrightarrow>
         (\<exists>s. map_of (headRelations (sn_RelationVersions (in_SourceSnapshot i))) k = Some s
            \<and> (\<forall>b. map_of (headRelations (sn_RelationVersions (in_BaseSnapshot i))) k = Some b
                   \<longrightarrow> rv_ID b \<noteq> rv_ID s)))"
proof -
  from assms obtain base source target :: snapshot where C:
    "canonicalizeSnapshot (in_BaseSnapshot i) = Inr base"
    "canonicalizeSnapshot (in_SourceSnapshot i) = Inr source"
    "df_ObjectChanges d = object_changes (objects base) (objects source) (objects target)"
    "df_RelationChanges d = relation_changes (relations base) (relations source) (relations target)"
    by (rule ComputeE) (rule that, assumption+)
  show ?thesis
    by (simp only: C(3,4) obj_changes.changes_sorted obj_changes.changes_distinct
        rel_changes.changes_sorted rel_changes.changes_distinct obj_changes.changes_listed
        rel_changes.changes_listed moved_ids canonical_object_head_ids [OF C(1)]
        canonical_object_head_ids [OF C(2)] canonical_relation_head_ids [OF C(1)]
        canonical_relation_head_ids [OF C(2)]) simp
qed

theorem diff_lists_moved_heads_witness:
  "Compute sample_in = Inr sample_diff \<and> ''o1'' \<in> oc_ObjectID ` set (df_ObjectChanges sample_diff)"
proof
  have "map_of (headObjects (sn_ObjectVersions (in_SourceSnapshot sample_in))) ''o1'' = Some sample_s"
    "map_of (headObjects (sn_ObjectVersions (in_BaseSnapshot sample_in))) ''o1'' = Some sample_b"
    "ov_ID sample_b \<noteq> ov_ID sample_s"
    by code_simp+
  then show "''o1'' \<in> oc_ObjectID ` set (df_ObjectChanges sample_diff)"
    using diff_lists_moved_heads [OF sample_diff_computed] by auto
qed (rule sample_diff_computed)

text \<open>The diff is a function of the set of stored rows.  Reading the same rows in another
  order, with unique row ids, gives the same diff, byte for byte.\<close>

theorem diff_order_independent:
  assumes "Compute i = Inr d"
    and "same_rows (in_BaseSnapshot i) b" and "same_rows (in_SourceSnapshot i) s"
    and "same_rows (in_TargetSnapshot i) t"
    and "unique_ids (in_BaseSnapshot i)" and "unique_ids (in_SourceSnapshot i)"
    and "unique_ids (in_TargetSnapshot i)"
  shows "Compute (i\<lparr>in_BaseSnapshot := b, in_SourceSnapshot := s, in_TargetSnapshot := t\<rparr>) = Inr d"
proof -
  from assms(1) obtain base source target :: snapshot where C:
    "canonicalizeSnapshot (in_BaseSnapshot i) = Inr base"
    "canonicalizeSnapshot (in_SourceSnapshot i) = Inr source"
    "canonicalizeSnapshot (in_TargetSnapshot i) = Inr target"
    by (rule ComputeE) (rule that, assumption+)
  from canonicalizeSnapshot_perm [OF C(1) assms(2)] obtain b' where B:
    "canonicalizeSnapshot b = Inr b'" "mset (objects b') = mset (objects base)"
    "mset (relations b') = mset (relations base)" .
  from canonicalizeSnapshot_perm [OF C(2) assms(3)] obtain s' where S:
    "canonicalizeSnapshot s = Inr s'" "mset (objects s') = mset (objects source)"
    "mset (relations s') = mset (relations source)" .
  from canonicalizeSnapshot_perm [OF C(3) assms(4)] obtain t' where T:
    "canonicalizeSnapshot t = Inr t'" "mset (objects t') = mset (objects target)"
    "mset (relations t') = mset (relations target)" .
  have "objectChanges base source target = objectChanges b' s' t'"
    unfolding objectChanges_rows
    by (rule obj_changes.changes_perm)
      (simp_all add: B S T canonicalizeSnapshot_inj [OF C(1) assms(5)]
        canonicalizeSnapshot_inj [OF C(2) assms(6)] canonicalizeSnapshot_inj [OF C(3) assms(7)])
  moreover have "relationChanges base source target = relationChanges b' s' t'"
    unfolding relationChanges_rows
    by (rule rel_changes.changes_perm)
      (simp_all add: B S T canonicalizeSnapshot_inj [OF C(1) assms(5)]
        canonicalizeSnapshot_inj [OF C(2) assms(6)] canonicalizeSnapshot_inj [OF C(3) assms(7)])
  ultimately show ?thesis
    using assms(1) C B(1) S(1) T(1)
    by (auto simp: Compute_def validateInputs_def Let_def split: option.splits if_splits)
qed

theorem diff_order_independent_witness:
  "Compute (sample_in\<lparr>in_BaseSnapshot := sample_snapshot [sample_b] [],
      in_SourceSnapshot := sample_snapshot [sample_b, sample_s] [sample_r],
      in_TargetSnapshot := sample_snapshot [sample_t, sample_b] []\<rparr>) = Inr sample_diff"
proof (rule diff_order_independent [OF sample_diff_computed])
  show "same_rows (in_BaseSnapshot sample_in) (sample_snapshot [sample_b] [])"
    "same_rows (in_SourceSnapshot sample_in) (sample_snapshot [sample_b, sample_s] [sample_r])"
    "same_rows (in_TargetSnapshot sample_in) (sample_snapshot [sample_t, sample_b] [])"
    by (simp_all add: same_rows_def sample_in_def sample_inputs_def sample_snapshot_def)
  show "unique_ids (in_BaseSnapshot sample_in)" "unique_ids (in_SourceSnapshot sample_in)"
    "unique_ids (in_TargetSnapshot sample_in)"
    by code_simp+
qed

text \<open>The version trail of a listed object holds exactly the source rows of that object beyond
  the base head (all of them for a created object), in ascending version order, and ends in the
  source head whenever the source head is beyond the base head.\<close>

theorem diff_version_trail:
  assumes "Compute i = Inr d" and "unique_ids (in_SourceSnapshot i)"
    and "canonicalizeSnapshot (in_SourceSnapshot i) = Inr source"
    and "c \<in> set (df_ObjectChanges d)"
  shows "set (oc_NewVersions c) = {v \<in> set (objects source). ov_ObjectID v = oc_ObjectID c
        \<and> (\<forall>b. oc_BaseVersion c = Some b \<longrightarrow> ov_VersionNo v > ov_VersionNo b)}
    \<and> sorted (map ov_VersionNo (oc_NewVersions c))
    \<and> ((\<forall>b. oc_BaseVersion c = Some b \<longrightarrow> ov_VersionNo (oc_SourceVersion c) > ov_VersionNo b)
        \<longrightarrow> oc_NewVersions c \<noteq> [] \<and> last (oc_NewVersions c) = oc_SourceVersion c)"
proof -
  from assms(1,3) obtain base target :: snapshot where
    "df_ObjectChanges d = object_changes (objects base) (objects source) (objects target)"
    by (elim ComputeE) (rule that, simp)
  note M = obj_changes.changes_member [OF assms(4) [unfolded this]]
  note inj = canonicalizeSnapshot_inj(1) [OF assms(3,2)]
  show ?thesis
    unfolding M(5)
    using obj_trails.trail_last [OF M(3) inj, of "oc_BaseVersion c"]
    by (auto simp: obj_trails.trail_set obj_trails.trail_sorted)
qed

theorem diff_version_trail_witness:
  "sample_change \<in> set (df_ObjectChanges sample_diff)
   \<and> oc_NewVersions sample_change \<noteq> [] \<and> last (oc_NewVersions sample_change) = sample_s"
proof -
  have c: "sample_change \<in> set (df_ObjectChanges sample_diff)" by (simp add: sample_diff_def)
  have u: "unique_ids (in_SourceSnapshot sample_in)" by code_simp
  have s: "canonicalizeSnapshot (in_SourceSnapshot sample_in)
      = Inr \<lparr>objects = [sample_s, sample_b], relations = [sample_r]\<rparr>"
    by code_simp
  have "\<forall>b. oc_BaseVersion sample_change = Some b \<longrightarrow>
      ov_VersionNo b < ov_VersionNo (oc_SourceVersion sample_change)"
    by (simp add: sample_change_def sample_b_def sample_s_def sample_object_def)
  moreover have "oc_SourceVersion sample_change = sample_s" by (simp add: sample_change_def)
  ultimately show ?thesis using diff_version_trail [OF sample_diff_computed u s c] c by auto
qed

text \<open>A payload is reported as changed exactly when the JSON values differ: the stored key
  order and layout never produce a difference, and a different value always does.\<close>

theorem payload_diff_semantic:
  assumes "canonPayloadObject b = Inr b'" and "canonPayloadObject h = Inr h'"
    and "decode (ov_Payload b) = Some (v, [])" and "decode (ov_Payload h) = Some (w, [])"
  shows "''payload'' \<in> set (objectFieldDiff (Some b') (Some h')) \<longleftrightarrow> canon v \<noteq> canon w"
proof -
  from assms(1,2) obtain cb ch where
    "CanonicalJSON (ov_Payload b) = Inr cb" "b' = b\<lparr>ov_Payload := cb\<rparr>"
    "CanonicalJSON (ov_Payload h) = Inr ch" "h' = h\<lparr>ov_Payload := ch\<rparr>"
    by (auto simp: canonPayloadObject_Inr)
  with CanonicalJSON_eq_iff [OF assms(3,4)] show ?thesis by (simp add: objectFieldDiff_iff)
qed

definition sample_keys :: "raw \<Rightarrow> ObjectVersion" where
  "sample_keys p = sample_object ''v9'' ''o9'' 1 ''T'' p"

theorem payload_diff_semantic_witness:
  "''payload'' \<notin> set (objectFieldDiff
     (Some (sample_keys [TLBrace, TStr ''a'', TColon, TNull, TComma, TStr ''b'', TColon, TNull, TRBrace]))
     (Some (projr (canonPayloadObject (sample_keys
        [TLBrace, TStr ''b'', TColon, TNull, TComma, TStr ''a'', TColon, TNull, TRBrace])))))"
proof -
  let ?x = "sample_keys [TLBrace, TStr ''a'', TColon, TNull, TComma, TStr ''b'', TColon, TNull, TRBrace]"
  let ?y = "sample_keys [TLBrace, TStr ''b'', TColon, TNull, TComma, TStr ''a'', TColon, TNull, TRBrace]"
  have x: "canonPayloadObject ?x = Inr ?x" by code_simp
  have y: "canonPayloadObject ?y = Inr (projr (canonPayloadObject ?y))" by code_simp
  have dx: "decode (ov_Payload ?x) = Some (JObj [(''a'', JNull), (''b'', JNull)], [])" by code_simp
  have dy: "decode (ov_Payload ?y) = Some (JObj [(''b'', JNull), (''a'', JNull)], [])" by code_simp
  have "canon (JObj [(''a'', JNull), (''b'', JNull)]) = canon (JObj [(''b'', JNull), (''a'', JNull)])"
    by code_simp
  with payload_diff_semantic [OF x y dx dy] show ?thesis by simp
qed

text \<open>A branch that holds exactly the rows of the base proposes nothing, whatever the target
  did meanwhile.\<close>

theorem diff_self_empty:
  assumes "Compute i = Inr d" and "same_rows (in_BaseSnapshot i) (in_SourceSnapshot i)"
    and "unique_ids (in_BaseSnapshot i)"
  shows "df_ObjectChanges d = [] \<and> df_RelationChanges d = []"
proof -
  from assms(1) obtain base source target :: snapshot where C:
    "canonicalizeSnapshot (in_BaseSnapshot i) = Inr base"
    "canonicalizeSnapshot (in_SourceSnapshot i) = Inr source"
    "df_ObjectChanges d = object_changes (objects base) (objects source) (objects target)"
    "df_RelationChanges d = relation_changes (relations base) (relations source) (relations target)"
    by (rule ComputeE) (rule that, assumption+)
  from canonicalizeSnapshot_perm [OF C(1) assms(2)] C(2)
  have "set (objects source) = set (objects base)" "set (relations source) = set (relations base)"
    by (metis Inr_inject set_mset_mset)+
  then show ?thesis
    using obj_changes.changes_self rel_changes.changes_self canonicalizeSnapshot_inj [OF C(1) assms(3)]
    by (simp add: C(3,4))
qed

theorem diff_self_empty_witness:
  "\<exists>d. Compute (sample_inputs (sample_snapshot [sample_b] []) (sample_snapshot [sample_b] [])
        (sample_snapshot [sample_t] [])) = Inr d \<and> df_ObjectChanges d = []"
proof -
  let ?i = "sample_inputs (sample_snapshot [sample_b] []) (sample_snapshot [sample_b] [])
        (sample_snapshot [sample_t] [])"
  have "isl (Compute ?i) = False" by code_simp
  then obtain d where d: "Compute ?i = Inr d" by (cases "Compute ?i") auto
  have r: "same_rows (in_BaseSnapshot ?i) (in_SourceSnapshot ?i)"
    by (simp add: same_rows_def sample_inputs_def)
  have u: "unique_ids (in_BaseSnapshot ?i)" by code_simp
  from diff_self_empty [OF d r u] d show ?thesis by blast
qed

text \<open>The kind of a listed object change says what happened to it: created means the base has
  no row of it, aborted and reopened mean that the lifecycle entered or left the aborted state,
  and updated everything else.\<close>

theorem diff_kind_lifecycle:
  assumes "Compute i = Inr d" and "c \<in> set (df_ObjectChanges d)"
  shows "oc_Kind c =
    (case oc_BaseVersion c of
       None \<Rightarrow> ChangeCreated
     | Some b \<Rightarrow>
         if (ov_LifecycleState b = ''aborted'') = (ov_LifecycleState (oc_SourceVersion c) = ''aborted'')
         then ChangeUpdated
         else if ov_LifecycleState b = ''aborted'' then ChangeReopened else ChangeAborted)"
proof -
  from assms obtain base source target :: snapshot where
    "c \<in> set (object_changes (objects base) (objects source) (objects target))"
    by (elim ComputeE) (rule that, simp)
  from object_change_fields(4) [OF this] show ?thesis
    by (auto simp: classifyObject_def LifecycleAborted_def Let_def split: option.splits if_splits)
qed

theorem diff_kind_lifecycle_witness:
  "sample_change \<in> set (df_ObjectChanges sample_diff) \<and> oc_Kind sample_change = ChangeUpdated"
proof -
  have c: "sample_change \<in> set (df_ObjectChanges sample_diff)" by (simp add: sample_diff_def)
  from diff_kind_lifecycle [OF sample_diff_computed c] c show ?thesis
    by (simp add: sample_change_def sample_b_def sample_s_def sample_object_def)
qed

text \<open>The summary adds up: the kind counts of the objects sum to the number of object changes,
  those of the relations to the number of relation changes, the per-type counts likewise and in
  type order, and the schema and visibility counts are the numbers of changes that moved them.\<close>

theorem diff_summary_adds_up:
  assumes "Compute i = Inr d"
  shows "ds_ObjectsCreated (df_Summary d) + ds_ObjectsUpdated (df_Summary d)
      + ds_ObjectsAborted (df_Summary d) + ds_ObjectsReopened (df_Summary d)
        = int (length (df_ObjectChanges d))
    \<and> ds_RelationsCreated (df_Summary d) + ds_RelationsUpdated (df_Summary d)
        = int (length (df_RelationChanges d))
    \<and> sum_list (map tc_Count (ds_ObjectTypes (df_Summary d))) = int (length (df_ObjectChanges d))
    \<and> sum_list (map tc_Count (ds_RelationTypes (df_Summary d))) = int (length (df_RelationChanges d))
    \<and> sorted (map tc_Type (ds_ObjectTypes (df_Summary d)))
    \<and> sorted (map tc_Type (ds_RelationTypes (df_Summary d)))
    \<and> ds_SchemaChanged (df_Summary d)
        = int (length (filter (\<lambda>c. ''schema_ref'' \<in> set (oc_ChangedFields c)) (df_ObjectChanges d)))
    \<and> ds_VisibilityChanged (df_Summary d)
        = int (length (filter (\<lambda>c. ''visibility_policy_id'' \<in> set (oc_ChangedFields c))
            (df_ObjectChanges d)))"
proof -
  from assms obtain base source target :: snapshot where C:
    "df_ObjectChanges d = object_changes (objects base) (objects source) (objects target)"
    "df_RelationChanges d = relation_changes (relations base) (relations source) (relations target)"
    "df_Summary d = summarize (df_ObjectChanges d) (df_RelationChanges d)"
    by (rule ComputeE) (rule that, assumption+)
  have D: "distinct (oc_ChangedFields c)" if "c \<in> set (df_ObjectChanges d)" for c
    using that by (simp add: C(1) object_change_fields distinct_objectFieldDiff)
  have none: "kind_count k (map rc_Kind (df_RelationChanges d)) = 0"
    if "k = ChangeAborted \<or> k = ChangeReopened" for k
    using that relation_kinds by (force simp: kind_count_def count_list_0_iff C(2))
  show ?thesis
    using kind_count_total [of "map oc_Kind (df_ObjectChanges d)"]
      kind_count_total [of "map rc_Kind (df_RelationChanges d)"] none [of ChangeAborted]
      none [of ChangeReopened]
    by (simp add: C(3) summarize_closed sortedTypeCounts_total sortedTypeCounts_sorted
        count_concat_distinct [of "df_ObjectChanges d", OF D])
qed

theorem diff_summary_adds_up_witness:
  "Compute sample_in = Inr sample_diff
   \<and> sum_list (map tc_Count (ds_ObjectTypes (df_Summary sample_diff))) = 1"
  using diff_summary_adds_up [OF sample_diff_computed] sample_diff_computed
  by (simp add: sample_diff_def)

text \<open>The computation succeeds exactly on inputs that name the project and the three states
  and whose payloads are all single JSON values; otherwise it returns an error, never a partial
  diff.\<close>

theorem diff_succeeds_iff:
  "(\<exists>d. Compute i = Inr d) \<longleftrightarrow>
     in_ProjectID i \<noteq> [] \<and> st_ID (in_Base i) \<noteq> [] \<and> st_ID (in_Source i) \<noteq> [] \<and> st_ID (in_Target i) \<noteq> []
     \<and> (\<forall>s \<in> {in_BaseSnapshot i, in_SourceSnapshot i, in_TargetSnapshot i}.
          (\<forall>v \<in> set (sn_ObjectVersions s). \<exists>c. CanonicalJSON (ov_Payload v) = Inr c)
          \<and> (\<forall>v \<in> set (sn_RelationVersions s). \<exists>c. CanonicalJSON (rv_Payload v) = Inr c))"
proof -
  have S: "(\<exists>c. canonicalizeSnapshot s = Inr c) \<longleftrightarrow>
      (\<forall>v \<in> set (sn_ObjectVersions s). \<exists>c. CanonicalJSON (ov_Payload v) = Inr c)
      \<and> (\<forall>v \<in> set (sn_RelationVersions s). \<exists>c. CanonicalJSON (rv_Payload v) = Inr c)" for s
    using map_err_ok_iff [of canonPayloadObject "sn_ObjectVersions s"]
      map_err_ok_iff [of canonPayloadRelation "sn_RelationVersions s"]
    by (auto simp: canonicalizeSnapshot_def canonPayloadObject_Inr canonPayloadRelation_Inr
        split: sum.splits)
  have "(\<exists>d. Compute i = Inr d) \<longleftrightarrow> validateInputs i = None
      \<and> (\<exists>c. canonicalizeSnapshot (in_BaseSnapshot i) = Inr c)
      \<and> (\<exists>c. canonicalizeSnapshot (in_SourceSnapshot i) = Inr c)
      \<and> (\<exists>c. canonicalizeSnapshot (in_TargetSnapshot i) = Inr c)"
    by (auto simp: Compute_def Let_def split: option.splits sum.splits)
  moreover have "validateInputs i = None \<longleftrightarrow> in_ProjectID i \<noteq> [] \<and> st_ID (in_Base i) \<noteq> []
      \<and> st_ID (in_Source i) \<noteq> [] \<and> st_ID (in_Target i) \<noteq> []"
    by (simp add: validateInputs_def)
  ultimately show ?thesis by (simp add: S)
qed

theorem diff_succeeds_iff_witness:
  "(\<exists>d. Compute sample_in = Inr d) \<and> in_ProjectID sample_in \<noteq> [] \<and> st_ID (in_Base sample_in) \<noteq> []
   \<and> st_ID (in_Source sample_in) \<noteq> [] \<and> st_ID (in_Target sample_in) \<noteq> []"
  using diff_succeeds_iff [of sample_in] sample_diff_computed by blast

end
