(* ===== verification/RelationCatalog.thy ===== *)
theory RelationCatalog
  imports Prelude
begin

text \<open>
  The canonical relation types (internal/rsg/relationcatalog/catalog.go): the catalog, the
  lookup index built over it and the derived type lists.  The one-line \<open>Semantics\<close> text
  of an entry is documentation no operation reads and is left out.  The empty \<open>Endpoint\<close>
  of an undeclared end is \<open>None\<close>; a nil type list is the empty list, which the code tells
  apart from a declared one by its length only.
\<close>

section \<open>The catalog\<close>

datatype Category =
  CategoryProvenanceStructure | CategoryKnowledge | CategoryLineageNetwork | CategoryWeak

datatype Endpoint = EndpointSource | EndpointTarget

record Entry =
  en_Type :: string
  en_Category :: Category
  en_ProvenanceInference :: bool
  en_DependencyInference :: bool
  en_SourceTypes :: "string list"
  en_TargetTypes :: "string list"
  en_ExternalRefTarget :: bool
  en_DependencyEnd :: "Endpoint option"
  en_DependentEnd :: "Endpoint option"

text \<open>An entry literal; no entry declares source types.\<close>

definition entry :: "string \<Rightarrow> Category \<Rightarrow> bool \<Rightarrow> bool \<Rightarrow> string list \<Rightarrow> bool \<Rightarrow> Endpoint option \<Rightarrow>
    Endpoint option \<Rightarrow> Entry" where
  "entry typ cat prov dep targets ext dependency dependent =
     \<lparr>en_Type = typ, en_Category = cat, en_ProvenanceInference = prov, en_DependencyInference = dep,
      en_SourceTypes = [], en_TargetTypes = targets, en_ExternalRefTarget = ext,
      en_DependencyEnd = dependency, en_DependentEnd = dependent\<rparr>"

definition catalog :: "Entry list" where
  "catalog =
    [
     entry ''contains'' CategoryProvenanceStructure True False [] False None None,
     entry ''depends_on'' CategoryProvenanceStructure True True [] True (Some EndpointTarget) (Some EndpointSource),
     entry ''derived_from'' CategoryProvenanceStructure True False [] False None None,
     entry ''follows_protocol'' CategoryProvenanceStructure True False [] False None None,
     entry ''generated_by'' CategoryProvenanceStructure True False [] False None None,
     entry ''parameterized_by'' CategoryProvenanceStructure True False [] False None None,
     entry ''part_of'' CategoryProvenanceStructure True False [] False None None,
     entry ''performed_on'' CategoryProvenanceStructure True False [] False None None,
     entry ''produces'' CategoryProvenanceStructure True False [] False None None,
     entry ''references'' CategoryProvenanceStructure True False [] True None None,
     entry ''supersedes'' CategoryProvenanceStructure True False [] False None None,
     entry ''uses'' CategoryProvenanceStructure True False [] False None None,
     entry ''addresses_question'' CategoryKnowledge False False [''research_question''] False None None,
     entry ''challenges'' CategoryKnowledge False False [] False None None,
     entry ''competes_with'' CategoryKnowledge False False [] False None None,
     entry ''consistent_with'' CategoryKnowledge False False [] False None None,
     entry ''contextualizes'' CategoryKnowledge False False [] False None None,
     entry ''contradicts'' CategoryKnowledge False False [] False None None,
     entry ''fails_to_reproduce'' CategoryKnowledge False False [] False None None,
     entry ''inconsistent_with'' CategoryKnowledge False False [] False None None,
     entry ''refines'' CategoryKnowledge False False [] False None None,
     entry ''reproduces'' CategoryKnowledge False False [] False None None,
     entry ''supports'' CategoryKnowledge False False [] False None None,
     entry ''tests_hypothesis'' CategoryKnowledge False False [''hypothesis''] False None None,
     entry ''validates'' CategoryKnowledge False False [] False None None,
     entry ''derived_asset_from'' CategoryLineageNetwork True False [] False None None,
     entry ''forked_from'' CategoryLineageNetwork True False [] False None None,
     entry ''originates_from'' CategoryLineageNetwork True False [] False None None,
     entry ''published_from'' CategoryLineageNetwork True False [] False None None,
     entry ''used_by'' CategoryLineageNetwork True True [] False (Some EndpointSource) (Some EndpointTarget),
     entry ''related_to'' CategoryWeak False False [] False None None]"

definition lookup :: "(string \<times> Entry) list" where
  "lookup = fold (\<lambda>e m. AList.update (en_Type e) e m) catalog []"

section \<open>Operations\<close>

definition Lookup :: "string \<Rightarrow> Entry option" where
  "Lookup typ = map_of lookup typ"

definition Valid :: "string \<Rightarrow> bool" where
  "Valid typ \<longleftrightarrow> map_of lookup typ \<noteq> None"

definition DependencyDirection :: "string \<Rightarrow> (Endpoint \<times> Endpoint) option" where
  "DependencyDirection typ =
     (case map_of lookup typ of
        None \<Rightarrow> None
      | Some e \<Rightarrow>
          if \<not> en_DependencyInference e then None
          else (case (en_DependencyEnd e, en_DependentEnd e) of
                  (Some dependency, Some dependent) \<Rightarrow>
                    if dependency = dependent then None else Some (dependency, dependent)
                | _ \<Rightarrow> None))"

definition DependentTypes :: "Endpoint \<Rightarrow> string list" where
  "DependentTypes end' =
     sort (map en_Type (filter (\<lambda>e. \<not> (\<not> en_DependencyInference e \<or> en_DependentEnd e \<noteq> Some end')
        \<and> \<not> (en_DependencyEnd e = None \<or> en_DependencyEnd e = en_DependentEnd e)) catalog))"

datatype endpoint_error =
    NotCanonicalType string
  | SourceTypeNotAllowed string string "string list"
  | TargetTypeNotAllowed string string "string list"

text \<open>\<open>None\<close> is \<open>(true, "")\<close>; an error carries the arguments of its message.\<close>

definition EndpointsValid :: "string \<Rightarrow> string \<Rightarrow> string \<Rightarrow> endpoint_error option" where
  "EndpointsValid typ sourceType targetType =
     (case map_of lookup typ of
        None \<Rightarrow> Some (NotCanonicalType typ)
      | Some e \<Rightarrow>
          if length (en_SourceTypes e) > 0 \<and> sourceType \<notin> set (en_SourceTypes e)
          then Some (SourceTypeNotAllowed typ sourceType (en_SourceTypes e))
          else if length (en_TargetTypes e) > 0 \<and> targetType \<notin> set (en_TargetTypes e)
          then Some (TargetTypeNotAllowed typ targetType (en_TargetTypes e))
          else None)"

definition Types :: "Entry list" where
  "Types = sort_key en_Type catalog"

definition TypesOfCategory :: "Category \<Rightarrow> string list" where
  "TypesOfCategory cat = sort (map en_Type (filter (\<lambda>e. en_Category e = cat) catalog))"

definition ProvenanceTypes :: "string list" where
  "ProvenanceTypes = sort (map en_Type (filter en_ProvenanceInference catalog))"

definition DependencyTypes :: "string list" where
  "DependencyTypes = sort (map en_Type (filter en_DependencyInference catalog))"

definition ExternalRefTargetTypes :: "string list" where
  "ExternalRefTargetTypes = sort (map en_Type (filter en_ExternalRefTarget catalog))"

section \<open>Laws of the catalog\<close>

lemma catalog_types_distinct: "distinct (map en_Type catalog)"
  by code_simp

lemma lookup_eq: "lookup = map (\<lambda>e. (en_Type e, e)) catalog"
  by code_simp

lemma Lookup_iff: "Lookup typ = Some e \<longleftrightarrow> e \<in> set catalog \<and> en_Type e = typ"
proof -
  have "distinct (map fst lookup)" using catalog_types_distinct by (simp add: lookup_eq comp_def)
  then show ?thesis by (auto simp: Lookup_def lookup_eq)
qed

text \<open>Every entry that takes part in dependency inference names two different ends, and no
  other entry names any.\<close>

lemma catalog_ends:
  "list_all (\<lambda>e. (en_DependencyEnd e = None) = (\<not> en_DependencyInference e)
      \<and> (en_DependentEnd e = None) = (\<not> en_DependencyInference e)
      \<and> (en_DependencyInference e \<longrightarrow> en_DependencyEnd e \<noteq> en_DependentEnd e)) catalog"
  by code_simp

lemma catalog_endsD:
  assumes "e \<in> set catalog"
  shows "en_DependencyEnd e = None \<longleftrightarrow> \<not> en_DependencyInference e"
    and "en_DependentEnd e = None \<longleftrightarrow> \<not> en_DependencyInference e"
    and "en_DependencyInference e \<Longrightarrow> en_DependencyEnd e \<noteq> en_DependentEnd e"
  using catalog_ends assms by (auto simp: list_all_iff)

lemma DependencyDirection_iff:
  "DependencyDirection typ = Some (a, b) \<longleftrightarrow>
     (\<exists>e. Lookup typ = Some e \<and> en_DependencyInference e \<and> en_DependencyEnd e = Some a
        \<and> en_DependentEnd e = Some b)"
proof (cases "Lookup typ")
  case None
  then show ?thesis by (simp add: DependencyDirection_def Lookup_def)
next
  case (Some e)
  then have "e \<in> set catalog" by (simp add: Lookup_iff)
  note E = catalog_endsD [OF this]
  from Some E show ?thesis
    by (auto simp: DependencyDirection_def Lookup_def split: option.splits)
qed

lemma DependentTypes_iff:
  "typ \<in> set (DependentTypes d) \<longleftrightarrow> (\<exists>a. DependencyDirection typ = Some (a, d))"
proof -
  have "typ \<in> set (DependentTypes d) \<longleftrightarrow> (\<exists>e \<in> set catalog. en_Type e = typ \<and> en_DependencyInference e
      \<and> en_DependentEnd e = Some d \<and> en_DependencyEnd e \<noteq> None \<and> en_DependencyEnd e \<noteq> en_DependentEnd e)"
    by (auto simp: DependentTypes_def)
  also have "\<dots> \<longleftrightarrow> (\<exists>a. DependencyDirection typ = Some (a, d))"
    unfolding DependencyDirection_iff Lookup_iff using catalog_endsD(3) by fastforce
  finally show ?thesis .
qed

section \<open>Properties\<close>

text \<open>The dependency walk sees every type that takes part in dependency inference exactly
  once.  The types downstream at their source and those downstream at their target partition
  them, each with the opposite end as its dependency, and a type with no declared direction, a
  weak one or an unknown one is in neither.\<close>

theorem dependency_types_partition:
  "set (DependentTypes EndpointSource) \<union> set (DependentTypes EndpointTarget) = set DependencyTypes
   \<and> set (DependentTypes EndpointSource) \<inter> set (DependentTypes EndpointTarget) = {}
   \<and> (\<forall>typ a b. DependencyDirection typ = Some (a, b) \<longrightarrow> a \<noteq> b)
   \<and> (\<forall>typ. DependencyDirection typ = None \<longleftrightarrow> typ \<notin> set DependencyTypes)
   \<and> set (TypesOfCategory CategoryWeak) \<inter> (set DependencyTypes \<union> set ProvenanceTypes) = {}"
proof (intro conjI)
  have E: "(\<exists>a b. DependencyDirection ty = Some (a, b)) \<longleftrightarrow> ty \<in> set DependencyTypes" for ty
    unfolding DependencyDirection_iff Lookup_iff using catalog_endsD(1,2)
    by (fastforce simp: DependencyTypes_def)
  show "set (DependentTypes EndpointSource) \<union> set (DependentTypes EndpointTarget) = set DependencyTypes"
  proof (rule set_eqI)
    fix x
    have "(\<exists>a b. DependencyDirection x = Some (a, b)) \<longleftrightarrow> (\<exists>a. DependencyDirection x = Some (a, EndpointSource))
        \<or> (\<exists>a. DependencyDirection x = Some (a, EndpointTarget))"
      by (metis Endpoint.exhaust)
    then show "x \<in> set (DependentTypes EndpointSource) \<union> set (DependentTypes EndpointTarget)
        \<longleftrightarrow> x \<in> set DependencyTypes"
      using E [of x] by (simp add: DependentTypes_iff)
  qed
  show "\<forall>typ. DependencyDirection typ = None \<longleftrightarrow> typ \<notin> set DependencyTypes"
    using E by (metis not_None_eq old.prod.exhaust option.distinct(1))
  show "set (DependentTypes EndpointSource) \<inter> set (DependentTypes EndpointTarget) = {}"
    by (auto simp: DependentTypes_iff)
  show "\<forall>typ a b. DependencyDirection typ = Some (a, b) \<longrightarrow> a \<noteq> b"
    unfolding DependencyDirection_iff Lookup_iff using catalog_endsD(3) by fastforce
  show "set (TypesOfCategory CategoryWeak) \<inter> (set DependencyTypes \<union> set ProvenanceTypes) = {}"
    by code_simp
qed

theorem dependency_types_partition_witness:
  "DependencyDirection ''used_by'' = Some (EndpointSource, EndpointTarget) \<and> EndpointSource \<noteq> EndpointTarget"
proof -
  have "DependencyDirection ''used_by'' = Some (EndpointSource, EndpointTarget)" by code_simp
  with dependency_types_partition show ?thesis by blast
qed

text \<open>Endpoint validation accepts exactly the canonical relation types whose declared end
  types the two objects have; an unknown type is refused, and only the target end of the two
  name-pinned knowledge edges is constrained.\<close>

theorem endpoints_valid_iff:
  "EndpointsValid typ sourceType targetType = None \<longleftrightarrow>
     Valid typ \<and> (typ = ''addresses_question'' \<longrightarrow> targetType = ''research_question'')
     \<and> (typ = ''tests_hypothesis'' \<longrightarrow> targetType = ''hypothesis'')"
proof (cases "Lookup typ")
  case None
  then show ?thesis by (simp add: EndpointsValid_def Valid_def Lookup_def)
next
  case (Some e)
  have A: "list_all (\<lambda>e. en_SourceTypes e = [] \<and> en_TargetTypes e =
      (if en_Type e = ''addresses_question'' then [''research_question'']
       else if en_Type e = ''tests_hypothesis'' then [''hypothesis''] else [])) catalog"
    by code_simp
  from Some have "e \<in> set catalog" "en_Type e = typ" by (simp_all add: Lookup_iff)
  with A Some show ?thesis
    by (auto simp: EndpointsValid_def Valid_def Lookup_def list_all_iff)
qed

theorem endpoints_valid_iff_witness:
  "EndpointsValid ''tests_hypothesis'' ''claim'' ''hypothesis'' = None"
proof -
  have "Valid ''tests_hypothesis''" by code_simp
  then show ?thesis using endpoints_valid_iff [of "''tests_hypothesis''" "''claim''" "''hypothesis''"] by simp
qed

end
