(* ===== verification/Conflict.thy ===== *)
theory Conflict
  imports Diff RelationCatalog
begin

text \<open>
  The semantic conflict detector (internal/rsg/conflict: conflict.go, classify.go, payload.go).
  It classifies every source-side change of a three-way diff: either the change is
  auto-mergeable or it carries conflicts, one per category for the fields both branches moved
  apart, plus the identity and the visibility conflicts.

  Dereferencing a nil head would panic in Go; here it is the error \<open>NilDereference\<close>, so
  that its absence is a theorem and not an assumption of the model.  The human-readable detail
  of a conflict is a datatype of the message templates with their arguments.
\<close>

section \<open>Categories, codes, conflicts\<close>

datatype ConflictCategory =
    CategoryAttribute | CategoryIdentity | CategoryRelation | CategorySchema
  | CategoryKnowledge | CategoryRights | CategoryDependency | CategoryScientific

fun category_wire :: "ConflictCategory \<Rightarrow> string" where
  "category_wire CategoryAttribute = ''attribute''"
| "category_wire CategoryIdentity = ''identity''"
| "category_wire CategoryRelation = ''relation''"
| "category_wire CategorySchema = ''schema''"
| "category_wire ConflictCategory.CategoryKnowledge = ''knowledge''"
| "category_wire CategoryRights = ''rights''"
| "category_wire CategoryDependency = ''dependency''"
| "category_wire CategoryScientific = ''scientific''"

declare category_wire.simps [wire_simps]

lemma category_wire_inject: "category_wire a = category_wire b \<longleftrightarrow> a = b"
  by (cases a; cases b) simp_all

text \<open>Categories are compared by their spelling, as Go compares the string type.\<close>

instantiation ConflictCategory :: linorder
begin

definition less_eq_ConflictCategory :: "ConflictCategory \<Rightarrow> ConflictCategory \<Rightarrow> bool" where
  "less_eq_ConflictCategory a b \<longleftrightarrow> category_wire a \<le> category_wire b"

definition less_ConflictCategory :: "ConflictCategory \<Rightarrow> ConflictCategory \<Rightarrow> bool" where
  "less_ConflictCategory a b \<longleftrightarrow> category_wire a < category_wire b"

instance
proof
  fix a b c :: ConflictCategory
  show "(a < b) = (a \<le> b \<and> \<not> b \<le> a)"
    by (auto simp: less_ConflictCategory_def less_eq_ConflictCategory_def)
  show "a \<le> a" by (simp add: less_eq_ConflictCategory_def)
  show "a \<le> b \<Longrightarrow> b \<le> c \<Longrightarrow> a \<le> c" by (simp add: less_eq_ConflictCategory_def)
  show "a \<le> b \<Longrightarrow> b \<le> a \<Longrightarrow> a = b"
    by (simp add: less_eq_ConflictCategory_def category_wire_inject [symmetric])
  show "a \<le> b \<or> b \<le> a" by (auto simp: less_eq_ConflictCategory_def)
qed

end

definition CodeIdentitySuspectedDuplicate :: string where
  "CodeIdentitySuspectedDuplicate = ''IDENTITY_SUSPECTED_DUPLICATE''"

definition CodeRightsVisibilityChange :: string where
  "CodeRightsVisibilityChange = ''RIGHTS_VISIBILITY_CHANGE''"

fun codeForCategory :: "ConflictCategory \<Rightarrow> string" where
  "codeForCategory CategoryAttribute = ''ATTRIBUTE_FIELD_DIVERGES''"
| "codeForCategory CategoryRelation = ''RELATION_FIELD_DIVERGES''"
| "codeForCategory CategorySchema = ''SCHEMA_FIELD_DIVERGES''"
| "codeForCategory ConflictCategory.CategoryKnowledge = ''KNOWLEDGE_FIELD_DIVERGES''"
| "codeForCategory CategoryRights = ''RIGHTS_FIELD_DIVERGES''"
| "codeForCategory CategoryDependency = ''DEPENDENCY_FIELD_DIVERGES''"
| "codeForCategory CategoryScientific = ''SCIENTIFIC_FIELD_DIVERGES''"
| "codeForCategory CategoryIdentity = ''''"

datatype Detail =
    DetailSuspectedDuplicate string string
  | DetailVisibilityMove
  | DetailSchemaMoved string string
  | DetailRightsMoved string string
  | DetailKnowledgePayload string string
  | DetailScientific "string list" string
  | DetailObjectFields "string list" string string
  | DetailDependencyPins "string list" string
  | DetailKnowledgeRelation "string list" string
  | DetailRelationFields "string list" string

record Conflict =
  cf_Category :: ConflictCategory
  cf_Code :: string
  cf_Fields :: "string list"
  cf_PayloadKeys :: "string list"
  cf_OtherObjectID :: string
  cf_Detail :: Detail

record ObjectVerdict =
  vo_ObjectID :: string
  vo_ObjectType :: string
  vo_Kind :: ChangeKind
  vo_AutoMergeable :: bool
  vo_Conflicts :: "Conflict list"

record RelationVerdict =
  vr_RelationID :: string
  vr_Kind :: ChangeKind
  vr_AutoMergeable :: bool
  vr_Conflicts :: "Conflict list"

record CategoryCount =
  cc_Category :: ConflictCategory
  cc_Count :: int

record ConflictSummary =
  cs_ObjectsAutoMergeable :: int
  cs_ObjectsConflicted :: int
  cs_RelationsAutoMergeable :: int
  cs_RelationsConflicted :: int
  cs_ConflictsByCategory :: "CategoryCount list"

record Report =
  rp_FormatVersion :: string
  rp_ProjectID :: string
  rp_Diff :: Diff
  rp_ObjectVerdicts :: "ObjectVerdict list"
  rp_RelationVerdicts :: "RelationVerdict list"
  rp_AutoMergeable :: bool
  rp_Summary :: ConflictSummary

datatype detect_error = DiffFailed diff_error | NilDereference

section \<open>Payloads\<close>

definition payloadMap :: "raw \<Rightarrow> (string \<times> raw) list" where
  "payloadMap p = (case unmarshal_object p of Inr (Some obj) \<Rightarrow> obj | _ \<Rightarrow> [('''', p)])"

text \<open>A map read \<open>v, ok := m[k]\<close>: the value of an absent key is nil.\<close>

definition raw_of :: "raw option \<Rightarrow> raw" where
  "raw_of m = (case m of None \<Rightarrow> [] | Some r \<Rightarrow> r)"

definition changed :: "raw option \<Rightarrow> raw option \<Rightarrow> bool" where
  "changed b h = (if (b = None) \<noteq> (h = None) then True else raw_of b \<noteq> raw_of h)"

definition appendOnly :: "raw option \<Rightarrow> raw option \<Rightarrow> bool" where
  "appendOnly base head =
     (case (base, head) of
        (Some b, Some h) \<Rightarrow>
          (case (unmarshal_slice b, unmarshal_slice h) of
             (Inr (Some bs), Inr (Some hs)) \<Rightarrow>
               if length hs < length bs then False
               else list_all (\<lambda>i. bs ! i = hs ! i) [0..<length bs]
           | _ \<Rightarrow> False)
      | _ \<Rightarrow> False)"

definition key_diverged :: "bool \<Rightarrow> raw option \<Rightarrow> raw option \<Rightarrow> raw option \<Rightarrow> bool" where
  "key_diverged mergeAppends b s t =
     (if \<not> changed b s \<or> \<not> changed b t then False
      else if s = None \<and> t = None then False
      else if s \<noteq> None \<and> t \<noteq> None \<and> raw_of s = raw_of t then False
      else if mergeAppends \<and> appendOnly b s \<and> appendOnly b t then False
      else True)"

definition divergedPayloadKeys :: "raw \<Rightarrow> raw \<Rightarrow> raw \<Rightarrow> bool \<Rightarrow> string list" where
  "divergedPayloadKeys base source target mergeAppends =
     (let bm = payloadMap base; sm = payloadMap source; tm = payloadMap target;
          keys = sort (uniq [] (map fst bm @ map fst sm @ map fst tm))
      in filter (\<lambda>k. key_diverged mergeAppends (map_of bm k) (map_of sm k) (map_of tm k)) keys)"

section \<open>Conflict groups\<close>

record conflictGroup =
  cg_cat :: ConflictCategory
  cg_fields :: "string list"
  cg_keys :: "string list"

text \<open>The map by category holds the same group pointers as the list, so looking a group up by
  its category finds the list element; the map by field is the set of added fields.\<close>

record conflictGroups =
  gs_list :: "conflictGroup list"
  gs_byField :: "string list"

definition newConflictGroups :: conflictGroups where
  "newConflictGroups = \<lparr>gs_list = [], gs_byField = []\<rparr>"

definition grow_group :: "string \<Rightarrow> string list \<Rightarrow> conflictGroup \<Rightarrow> conflictGroup" where
  "grow_group field payloadKeys g =
     g\<lparr>cg_fields := cg_fields g @ [field], cg_keys := sort (cg_keys g @ payloadKeys)\<rparr>"

definition groups_add :: "conflictGroups \<Rightarrow> ConflictCategory \<Rightarrow> string \<Rightarrow> string list \<Rightarrow> conflictGroups" where
  "groups_add g cat field payloadKeys =
     (let l = (if cat \<in> set (map cg_cat (gs_list g)) then gs_list g
               else gs_list g @ [\<lparr>cg_cat = cat, cg_fields = [], cg_keys = []\<rparr>])
      in \<lparr>gs_list = map (\<lambda>x. if cg_cat x = cat then grow_group field payloadKeys x else x) l,
          gs_byField = field # gs_byField g\<rparr>)"

definition hasField :: "conflictGroups \<Rightarrow> string \<Rightarrow> bool" where
  "hasField g field \<longleftrightarrow> field \<in> set (gs_byField g)"

section \<open>Objects\<close>

definition canonicalObjectFields :: "string list" where
  "canonicalObjectFields =
     [''title'', ''payload'', ''lifecycle_state'', ''schema_ref'', ''visibility_policy_id'']"

definition canonicalRelationFields :: "string list" where
  "canonicalRelationFields =
     [''relation_type'', ''source_object_version_id'', ''target_object_version_id'', ''payload'']"

definition knowledgeObjectTypes :: "string list" where
  "knowledgeObjectTypes = [''claim'', ''hypothesis'', ''research_question'', ''finding'']"

text \<open>The diverging payload keys and whether the field diverged.\<close>

definition objectFieldDiverged :: "ObjectChange \<Rightarrow> string \<Rightarrow> detect_error + (string list \<times> bool)" where
  "objectFieldDiverged c field =
     (case oc_TargetVersion c of
        None \<Rightarrow> Inl NilDereference
      | Some tgt \<Rightarrow>
          (let src = oc_SourceVersion c in
           if field = ''title'' then Inr ([], ov_Title src \<noteq> ov_Title tgt)
           else if field = ''payload'' then
             (case oc_BaseVersion c of
                None \<Rightarrow> Inl NilDereference
              | Some b \<Rightarrow>
                  (let keys = divergedPayloadKeys (ov_Payload b) (ov_Payload src) (ov_Payload tgt)
                         (oc_ObjectType c \<noteq> ''protocol'')
                   in Inr (keys, length keys > 0)))
           else if field = ''lifecycle_state'' then Inr ([], ov_LifecycleState src \<noteq> ov_LifecycleState tgt)
           else if field = ''schema_ref'' then Inr ([], ov_SchemaRef src \<noteq> ov_SchemaRef tgt)
           else if field = ''visibility_policy_id''
             then Inr ([], \<not> ptrStringEqual (ov_VisibilityPolicyID src) (ov_VisibilityPolicyID tgt))
           else Inr ([], False)))"

definition objectFieldCategory :: "string \<Rightarrow> string \<Rightarrow> ConflictCategory" where
  "objectFieldCategory objectType field =
     (if field = ''schema_ref'' then CategorySchema
      else if field = ''visibility_policy_id'' then CategoryRights
      else if field = ''payload'' then
        (if objectType = ''protocol'' then CategoryScientific
         else if objectType \<in> set knowledgeObjectTypes then ConflictCategory.CategoryKnowledge
         else CategoryAttribute)
      else if objectType = ''protocol'' then CategoryScientific
      else CategoryAttribute)"

definition objectConflictDetail :: "ObjectChange \<Rightarrow> ConflictCategory \<Rightarrow> string list \<Rightarrow> Detail" where
  "objectConflictDetail c cat fs =
     (case cat of
        CategorySchema \<Rightarrow> DetailSchemaMoved (oc_ObjectType c) (oc_ObjectID c)
      | CategoryRights \<Rightarrow> DetailRightsMoved (oc_ObjectType c) (oc_ObjectID c)
      | ConflictCategory.CategoryKnowledge \<Rightarrow> DetailKnowledgePayload (oc_ObjectType c) (oc_ObjectID c)
      | CategoryScientific \<Rightarrow> DetailScientific fs (oc_ObjectID c)
      | _ \<Rightarrow> DetailObjectFields fs (oc_ObjectType c) (oc_ObjectID c))"

definition rightsVisibilityChange :: Conflict where
  "rightsVisibilityChange =
     \<lparr>cf_Category = CategoryRights, cf_Code = CodeRightsVisibilityChange,
      cf_Fields = [''visibility_policy_id''], cf_PayloadKeys = [], cf_OtherObjectID = [],
      cf_Detail = DetailVisibilityMove\<rparr>"

definition identityConflicts :: "ObjectChange \<Rightarrow> ObjectVersion list \<Rightarrow> Conflict list" where
  "identityConflicts c targetCreated =
     (if oc_Kind c = ChangeCreated
      then map (\<lambda>t. \<lparr>cf_Category = CategoryIdentity, cf_Code = CodeIdentitySuspectedDuplicate,
                      cf_Fields = [], cf_PayloadKeys = [], cf_OtherObjectID = ov_ObjectID t,
                      cf_Detail = DetailSuspectedDuplicate (ov_ObjectType t) (ov_ObjectID t)\<rparr>)
             (filter (\<lambda>t. ov_ObjectType t = oc_ObjectType c
                \<and> TrimSpace (ov_Title t) = TrimSpace (ov_Title (oc_SourceVersion c))) targetCreated)
      else [])"

text \<open>One iteration of the loop over the canonical fields.\<close>

definition groupObjectField :: "ObjectChange \<Rightarrow> string \<Rightarrow> conflictGroups \<Rightarrow> detect_error + conflictGroups" where
  "groupObjectField c field groups =
     (if field \<notin> set (oc_ChangedFields c) \<or> field \<notin> set (oc_TargetChangedFields c) then Inr groups
      else (case objectFieldDiverged c field of
              Inl e \<Rightarrow> Inl e
            | Inr (keys, diverged) \<Rightarrow>
                if \<not> diverged then Inr groups
                else Inr (groups_add groups (objectFieldCategory (oc_ObjectType c) field) field keys)))"

definition objectGroupConflict :: "ObjectChange \<Rightarrow> conflictGroup \<Rightarrow> Conflict" where
  "objectGroupConflict c g =
     \<lparr>cf_Category = cg_cat g, cf_Code = codeForCategory (cg_cat g), cf_Fields = cg_fields g,
      cf_PayloadKeys = cg_keys g, cf_OtherObjectID = [],
      cf_Detail = objectConflictDetail c (cg_cat g) (cg_fields g)\<rparr>"

definition finishObject :: "ObjectChange \<Rightarrow> Conflict list \<Rightarrow> ObjectVerdict" where
  "finishObject c cs =
     \<lparr>vo_ObjectID = oc_ObjectID c, vo_ObjectType = oc_ObjectType c, vo_Kind = oc_Kind c,
      vo_AutoMergeable = (length cs = 0), vo_Conflicts = cs\<rparr>"

definition conflict_classifyObject :: "ObjectVersion list \<Rightarrow> ObjectChange \<Rightarrow> detect_error + ObjectVerdict" where
  "conflict_classifyObject targetCreated c =
     (let identity = identityConflicts c targetCreated;
          visibility = ''visibility_policy_id'' \<in> set (oc_ChangedFields c) in
      if \<not> oc_TargetMoved c
      then Inr (finishObject c (identity @ (if visibility then [rightsVisibilityChange] else [])))
      else (case fold_err (groupObjectField c) canonicalObjectFields newConflictGroups of
              Inl e \<Rightarrow> Inl e
            | Inr groups \<Rightarrow>
                Inr (finishObject c
                  (identity @ map (objectGroupConflict c) (gs_list groups)
                   @ (if visibility \<and> \<not> hasField groups ''visibility_policy_id''
                      then [rightsVisibilityChange] else [])))))"

section \<open>Relations\<close>

definition baseRelationType :: "RelationChange \<Rightarrow> string" where
  "baseRelationType c =
     (case rc_BaseVersion c of Some b \<Rightarrow> rv_RelationType b | None \<Rightarrow> rv_RelationType (rc_SourceVersion c))"

definition isKnowledgeRelation :: "string \<Rightarrow> bool" where
  "isKnowledgeRelation relationType =
     (case Lookup relationType of
        None \<Rightarrow> False | Some e \<Rightarrow> en_Category e = Category.CategoryKnowledge)"

definition relationFieldDiverged :: "RelationChange \<Rightarrow> string \<Rightarrow> detect_error + (string list \<times> bool)" where
  "relationFieldDiverged c field =
     (case rc_TargetVersion c of
        None \<Rightarrow> Inl NilDereference
      | Some tgt \<Rightarrow>
          (let src = rc_SourceVersion c in
           if field = ''relation_type'' then Inr ([], rv_RelationType src \<noteq> rv_RelationType tgt)
           else if field = ''source_object_version_id''
             then Inr ([], rv_SourceObjectVersionID src \<noteq> rv_SourceObjectVersionID tgt)
           else if field = ''target_object_version_id''
             then Inr ([], rv_TargetObjectVersionID src \<noteq> rv_TargetObjectVersionID tgt)
           else if field = ''payload'' then
             (case rc_BaseVersion c of
                None \<Rightarrow> Inl NilDereference
              | Some b \<Rightarrow>
                  (let keys = divergedPayloadKeys (rv_Payload b) (rv_Payload src) (rv_Payload tgt) True
                   in Inr (keys, length keys > 0)))
           else Inr ([], False)))"

definition relationFieldCategory :: "string \<Rightarrow> bool \<Rightarrow> ConflictCategory" where
  "relationFieldCategory field knowledgeEdge =
     (if field = ''source_object_version_id'' \<or> field = ''target_object_version_id''
      then CategoryDependency
      else if knowledgeEdge then ConflictCategory.CategoryKnowledge
      else CategoryRelation)"

definition relationConflictDetail :: "RelationChange \<Rightarrow> ConflictCategory \<Rightarrow> string list \<Rightarrow> Detail" where
  "relationConflictDetail c cat fs =
     (case cat of
        CategoryDependency \<Rightarrow> DetailDependencyPins fs (rc_RelationID c)
      | ConflictCategory.CategoryKnowledge \<Rightarrow> DetailKnowledgeRelation fs (rc_RelationID c)
      | _ \<Rightarrow> DetailRelationFields fs (rc_RelationID c))"

definition groupRelationField :: "RelationChange \<Rightarrow> bool \<Rightarrow> string \<Rightarrow> conflictGroups \<Rightarrow>
    detect_error + conflictGroups" where
  "groupRelationField c knowledgeEdge field groups =
     (if field \<notin> set (rc_ChangedFields c) \<or> field \<notin> set (rc_TargetChangedFields c) then Inr groups
      else (case relationFieldDiverged c field of
              Inl e \<Rightarrow> Inl e
            | Inr (keys, diverged) \<Rightarrow>
                if \<not> diverged then Inr groups
                else Inr (groups_add groups (relationFieldCategory field knowledgeEdge) field keys)))"

definition relationGroupConflict :: "RelationChange \<Rightarrow> conflictGroup \<Rightarrow> Conflict" where
  "relationGroupConflict c g =
     \<lparr>cf_Category = cg_cat g, cf_Code = codeForCategory (cg_cat g), cf_Fields = cg_fields g,
      cf_PayloadKeys = cg_keys g, cf_OtherObjectID = [],
      cf_Detail = relationConflictDetail c (cg_cat g) (cg_fields g)\<rparr>"

definition finishRelation :: "RelationChange \<Rightarrow> Conflict list \<Rightarrow> RelationVerdict" where
  "finishRelation c cs =
     \<lparr>vr_RelationID = rc_RelationID c, vr_Kind = rc_Kind c,
      vr_AutoMergeable = (length cs = 0), vr_Conflicts = cs\<rparr>"

definition conflict_classifyRelation :: "RelationChange \<Rightarrow> detect_error + RelationVerdict" where
  "conflict_classifyRelation c =
     (if \<not> rc_TargetMoved c then Inr (finishRelation c [])
      else
        (let knowledgeEdge = isKnowledgeRelation (baseRelationType c) in
         case fold_err (groupRelationField c knowledgeEdge) canonicalRelationFields newConflictGroups of
           Inl e \<Rightarrow> Inl e
         | Inr groups \<Rightarrow> Inr (finishRelation c (map (relationGroupConflict c) (gs_list groups)))))"

section \<open>The report\<close>

text \<open>The detector's own copy of the head index.\<close>

definition conflict_headObject_step ::
    "ObjectVersion \<Rightarrow> (string \<times> ObjectVersion) list \<Rightarrow> (string \<times> ObjectVersion) list" where
  "conflict_headObject_step v heads =
     (case map_of heads (ov_ObjectID v) of
        None \<Rightarrow> AList.update (ov_ObjectID v) v heads
      | Some cur \<Rightarrow>
          if ov_VersionNo v > ov_VersionNo cur
             \<or> (ov_VersionNo v = ov_VersionNo cur \<and> ov_ID v > ov_ID cur)
          then AList.update (ov_ObjectID v) v heads else heads)"

definition conflict_headObjects :: "ObjectVersion list \<Rightarrow> (string \<times> ObjectVersion) list" where
  "conflict_headObjects rows = fold conflict_headObject_step rows []"

definition createdOnTarget :: "DiffInputs \<Rightarrow> ObjectVersion list" where
  "createdOnTarget i =
     (let baseHeads = map ov_ObjectID (sn_ObjectVersions (in_BaseSnapshot i));
          targetHeads = conflict_headObjects (sn_ObjectVersions (in_TargetSnapshot i))
      in sort_key ov_ObjectID (map snd (filter (\<lambda>(k, v). k \<notin> set baseHeads) targetHeads)))"

definition allAuto :: "ObjectVerdict list \<Rightarrow> RelationVerdict list \<Rightarrow> bool" where
  "allAuto objs rels \<longleftrightarrow> list_all vo_AutoMergeable objs \<and> list_all vr_AutoMergeable rels"

definition summarize_verdict :: "bool \<Rightarrow> Conflict list \<Rightarrow> int \<times> int \<times> (ConflictCategory \<times> int) list \<Rightarrow>
    int \<times> int \<times> (ConflictCategory \<times> int) list" where
  "summarize_verdict auto cs st =
     (case st of (a, b, m) \<Rightarrow>
        (if auto then a + 1 else a, if auto then b else b + 1,
         fold (\<lambda>c. incr (cf_Category c)) cs m))"

definition conflict_summarize :: "ObjectVerdict list \<Rightarrow> RelationVerdict list \<Rightarrow> ConflictSummary" where
  "conflict_summarize objs rels =
     (case fold (\<lambda>v. summarize_verdict (vo_AutoMergeable v) (vo_Conflicts v)) objs (0, 0, []) of
        (oa, ob, m1) \<Rightarrow>
          (case fold (\<lambda>v. summarize_verdict (vr_AutoMergeable v) (vr_Conflicts v)) rels (0, 0, m1) of
             (ra, rb, m2) \<Rightarrow>
               \<lparr>cs_ObjectsAutoMergeable = oa, cs_ObjectsConflicted = ob,
                cs_RelationsAutoMergeable = ra, cs_RelationsConflicted = rb,
                cs_ConflictsByCategory =
                  map (\<lambda>cat. \<lparr>cc_Category = cat,
                       cc_Count = (case map_of m2 cat of None \<Rightarrow> 0 | Some n \<Rightarrow> n)\<rparr>)
                    (sort (map fst m2))\<rparr>))"

definition Detect :: "DiffInputs \<Rightarrow> detect_error + Report" where
  "Detect i =
     (case Compute i of
        Inl e \<Rightarrow> Inl (DiffFailed e)
      | Inr d \<Rightarrow>
          (let targetCreated = createdOnTarget i in
           case map_err (conflict_classifyObject targetCreated) (df_ObjectChanges d) of
             Inl e \<Rightarrow> Inl e
           | Inr objs \<Rightarrow>
               (case map_err conflict_classifyRelation (df_RelationChanges d) of
                  Inl e \<Rightarrow> Inl e
                | Inr rels \<Rightarrow>
                    Inr \<lparr>rp_FormatVersion = FormatV1, rp_ProjectID = in_ProjectID i, rp_Diff = d,
                         rp_ObjectVerdicts = objs, rp_RelationVerdicts = rels,
                         rp_AutoMergeable = allAuto objs rels, rp_Summary = conflict_summarize objs rels\<rparr>)))"

interpretation det_log: version_log ov_ObjectID ov_VersionNo ov_ID conflict_headObjects
  by unfold_locales
    (simp_all add: conflict_headObjects_def conflict_headObject_step_def split: option.split)

section \<open>Payload divergence, by value\<close>

text \<open>The top-level members of a payload value; a value that is not an object is one member
  under the empty key.\<close>

definition fields_of :: "jval \<Rightarrow> (string \<times> jval) list" where
  "fields_of v = (case v of JObj kvs \<Rightarrow> kvs | _ \<Rightarrow> [('''', v)])"

definition json_extends :: "jval option \<Rightarrow> jval option \<Rightarrow> bool" where
  "json_extends b h =
     (case (b, h) of (Some (JArr bs), Some (JArr hs)) \<Rightarrow> take (length bs) hs = bs | _ \<Rightarrow> False)"

lemma unmarshal_doc_print: "wf_json v \<Longrightarrow> unmarshal_doc (print_value v) = Some v"
  by (simp add: unmarshal_doc_def)

lemma payloadMap_print:
  assumes "wf_json v"
  shows "payloadMap (print_value v) = map (map_prod (\<lambda>k. k) print_value) (fields_of v)"
proof (cases "\<exists>kvs. v = JObj kvs")
  case True
  then obtain kvs where v: "v = JObj kvs" by blast
  then show ?thesis
    using unmarshal_object_print [of kvs] assms
    by (simp add: payloadMap_def fields_of_def id_def del: print_JObj)
next
  case False
  then have "payloadMap (print_value v) = [('''', print_value v)]"
    using unmarshal_doc_print [OF assms]
    by (cases v) (auto simp: payloadMap_def unmarshal_object_def)
  moreover have "fields_of v = [('''', v)]" using False by (cases v) (auto simp: fields_of_def)
  ultimately show ?thesis by simp
qed

lemma wf_fields: "wf_json v \<Longrightarrow> (k, w) \<in> set (fields_of v) \<Longrightarrow> wf_json w"
  by (cases v) (auto simp: fields_of_def list_all_iff)

lemma map_of_payloadMap:
  "wf_json v \<Longrightarrow> map_of (payloadMap (print_value v)) k = map_option print_value (map_of (fields_of v) k)"
  by (simp add: payloadMap_print map_prod_def map_of_map_snd)

lemma unmarshal_slice_value:
  assumes "wf_json v"
  shows "unmarshal_slice (print_value v) = Inr (Some es) \<longleftrightarrow> (\<exists>vs. v = JArr vs \<and> es = map print_value vs)"
proof (cases "\<exists>vs. v = JArr vs")
  case True
  then obtain vs where "v = JArr vs" by blast
  then show ?thesis using unmarshal_slice_print [of vs] assms by auto
next
  case False
  then show ?thesis using unmarshal_doc_print [OF assms]
    by (cases v) (auto simp: unmarshal_slice_def)
qed

lemma print_map_inject:
  assumes "\<forall>v \<in> set vs \<union> set ws. wf_json v"
  shows "map print_value vs = map print_value ws \<longleftrightarrow> vs = ws"
proof -
  have "inj_on print_value (set vs \<union> set ws)"
    using assms by (auto intro!: inj_onI simp: print_inject)
  then show ?thesis by (rule inj_on_map_eq_map)
qed

lemma appendOnly_raw:
  "appendOnly (Some b) (Some h) \<longleftrightarrow>
     (\<exists>bs hs. unmarshal_slice b = Inr (Some bs) \<and> unmarshal_slice h = Inr (Some hs)
        \<and> take (length bs) hs = bs)"
proof (cases "(\<exists>bs. unmarshal_slice b = Inr (Some bs)) \<and> (\<exists>hs. unmarshal_slice h = Inr (Some hs))")
  case True
  then obtain bs hs where "unmarshal_slice b = Inr (Some bs)" "unmarshal_slice h = Inr (Some hs)"
    by blast
  then show ?thesis unfolding appendOnly_def
    by (simp only: prod.case option.case sum.case prefix_loop Inr_inject option.inject) blast
next
  case False
  then have "\<not> appendOnly (Some b) (Some h)"
    by (cases "unmarshal_slice b"; cases "unmarshal_slice h")
      (auto simp: appendOnly_def split: option.splits)
  with False show ?thesis by blast
qed

lemma appendOnly_print:
  assumes "\<And>v. b = Some v \<Longrightarrow> wf_json v" and "\<And>v. h = Some v \<Longrightarrow> wf_json v"
  shows "appendOnly (map_option print_value b) (map_option print_value h) \<longleftrightarrow> json_extends b h"
proof (cases "b = None \<or> h = None")
  case True
  then show ?thesis by (auto simp: appendOnly_def json_extends_def split: option.splits jval.splits)
next
  case False
  then obtain v w where vw: "b = Some v" "h = Some w" by auto
  have wf: "wf_json v" "wf_json w" using assms vw by auto
  have "take (length vs) (map print_value ws) = map print_value vs \<longleftrightarrow> take (length vs) ws = vs"
    if "v = JArr vs" "w = JArr ws" for vs ws
    using that wf print_map_inject [of "take (length vs) ws" vs]
    by (auto simp: take_map list_all_iff dest: in_set_takeD)
  then show ?thesis
    unfolding vw option.map appendOnly_raw
    using unmarshal_slice_value [OF wf(1)] unmarshal_slice_value [OF wf(2)]
    by (auto simp: json_extends_def split: jval.splits)
qed

lemma key_diverged_print:
  assumes "\<And>v. b = Some v \<Longrightarrow> wf_json v" and "\<And>v. s = Some v \<Longrightarrow> wf_json v" and "\<And>v. t = Some v \<Longrightarrow> wf_json v"
  shows "key_diverged m (map_option print_value b) (map_option print_value s) (map_option print_value t)
    \<longleftrightarrow> b \<noteq> s \<and> b \<noteq> t \<and> s \<noteq> t \<and> \<not> (m \<and> json_extends b s \<and> json_extends b t)"
proof -
  have ch: "changed (map_option print_value x) (map_option print_value y) \<longleftrightarrow> x \<noteq> y"
    if "\<And>v. x = Some v \<Longrightarrow> wf_json v" "\<And>v. y = Some v \<Longrightarrow> wf_json v" for x y
    using that by (cases x; cases y) (auto simp: changed_def raw_of_def print_inject)
  have eq: "raw_of (map_option print_value s) = raw_of (map_option print_value t) \<longleftrightarrow> s = t"
    if "s \<noteq> None" "t \<noteq> None"
    using that assms(2,3) by (auto simp: raw_of_def print_inject)
  have c: "changed (map_option print_value b) (map_option print_value s) \<longleftrightarrow> b \<noteq> s"
    "changed (map_option print_value b) (map_option print_value t) \<longleftrightarrow> b \<noteq> t" using ch assms by blast+
  note a = appendOnly_print [of b s] appendOnly_print [of b t]
  show ?thesis
    using assms eq a unfolding key_diverged_def c option.map_disc_iff
    by (cases "b = s"; cases "b = t"; cases "s = t"; cases s; cases t) simp_all
qed

section \<open>Grouping the diverging fields\<close>

text \<open>What a sequence of additions leaves behind: one group per category in first-seen order,
  each with exactly the added fields of that category, in order, and their payload keys.\<close>

definition groups_of :: "(string \<Rightarrow> ConflictCategory) \<Rightarrow> (string \<Rightarrow> string list) \<Rightarrow> string list \<Rightarrow> conflictGroups" where
  "groups_of cat keys fs = fold (\<lambda>f g. groups_add g (cat f) f (keys f)) fs newConflictGroups"

lemma groups_of_Nil: "groups_of cat keys [] = newConflictGroups"
  by (simp add: groups_of_def)

lemma groups_of_snoc: "groups_of cat keys (fs @ [f]) = groups_add (groups_of cat keys fs) (cat f) f (keys f)"
  by (simp add: groups_of_def)

lemma groups_cats:
  "map cg_cat (gs_list (groups_add g c f ks)) =
     (if c \<in> set (map cg_cat (gs_list g)) then map cg_cat (gs_list g) else map cg_cat (gs_list g) @ [c])"
  by (auto simp: groups_add_def grow_group_def Let_def)

lemma groups_of_cats: "set (map cg_cat (gs_list (groups_of cat keys fs))) = cat ` set fs"
proof (induction fs rule: rev_induct)
  case Nil
  then show ?case by (simp add: groups_of_Nil newConflictGroups_def)
next
  case (snoc f fs)
  then show ?case unfolding groups_of_snoc groups_cats by auto
qed

lemma groups_of_distinct: "distinct (map cg_cat (gs_list (groups_of cat keys fs)))"
proof (induction fs rule: rev_induct)
  case Nil
  then show ?case by (simp add: groups_of_Nil newConflictGroups_def)
next
  case (snoc f fs)
  then show ?case unfolding groups_of_snoc groups_cats by auto
qed

lemma groups_of_byField: "set (gs_byField (groups_of cat keys fs)) = set fs"
  by (induction fs rule: rev_induct)
    (auto simp: groups_of_Nil groups_of_snoc newConflictGroups_def groups_add_def Let_def)

lemma groups_add_member:
  assumes "x \<in> set (gs_list (groups_add g c f ks))"
  shows "(cg_cat x \<noteq> c \<and> x \<in> set (gs_list g))
    \<or> (cg_cat x = c \<and> (\<exists>y \<in> set (gs_list g). cg_cat y = c \<and> x = grow_group f ks y))
    \<or> (c \<notin> set (map cg_cat (gs_list g)) \<and> x = grow_group f ks \<lparr>cg_cat = c, cg_fields = [], cg_keys = []\<rparr>)"
  using assms by (auto simp: groups_add_def Let_def grow_group_def split: if_splits)

lemma groups_of_member:
  assumes "x \<in> set (gs_list (groups_of cat keys fs))"
  shows "cg_fields x = filter (\<lambda>f. cat f = cg_cat x) fs
    \<and> cg_keys x = sort (concat (map keys (filter (\<lambda>f. cat f = cg_cat x) fs)))"
  using assms
proof (induction fs arbitrary: x rule: rev_induct)
  case Nil
  then show ?case by (simp add: groups_of_Nil newConflictGroups_def)
next
  case (snoc f fs)
  from groups_add_member [OF snoc.prems [unfolded groups_of_snoc]]
  consider (old) "cg_cat x \<noteq> cat f" "x \<in> set (gs_list (groups_of cat keys fs))"
    | (grown) y where "y \<in> set (gs_list (groups_of cat keys fs))" "cg_cat y = cat f"
        "x = grow_group f (keys f) y"
    | (new) "cat f \<notin> cat ` set fs"
        "x = grow_group f (keys f) \<lparr>cg_cat = cat f, cg_fields = [], cg_keys = []\<rparr>"
    unfolding groups_of_cats by blast
  then show ?case
  proof cases
    case old
    with snoc.IH show ?thesis by auto
  next
    case (grown y)
    have "sort (sort xs @ ys) = sort (xs @ ys)" for xs ys :: "string list"
      by (rule properties_for_sort) simp_all
    with grown snoc.IH [OF grown(1)] show ?thesis by (simp add: grow_group_def)
  next
    case new
    then have "filter (\<lambda>g. cat g = cat f) fs = []"
      by (metis (mono_tags, lifting) filter_False image_eqI)
    with new show ?thesis by (simp add: grow_group_def)
  qed
qed

text \<open>The loop of the object and of the relation classifier: on a change the diff produced no
  step dereferences nil, and the loop collects the fields that moved apart.\<close>

locale field_classifier =
  fixes ok :: "'c \<Rightarrow> bool"
    and step :: "'c \<Rightarrow> string \<Rightarrow> conflictGroups \<Rightarrow> detect_error + conflictGroups"
    and apart :: "'c \<Rightarrow> string \<Rightarrow> bool" and keys :: "'c \<Rightarrow> string \<Rightarrow> string list"
    and cat :: "'c \<Rightarrow> string \<Rightarrow> ConflictCategory" and walked :: "string list"
  assumes step: "ok c \<Longrightarrow> f \<in> set walked \<Longrightarrow> step c f g =
      Inr (if apart c f then groups_add g (cat c f) f (keys c f) else g)"
    and walked_distinct: "distinct walked"
begin

lemma loop:
  assumes "ok c"
  shows "fold_err (step c) walked newConflictGroups =
    Inr (groups_of (cat c) (keys c) (filter (apart c) walked))"
proof -
  have "fold_err (step c) walked newConflictGroups =
      Inr (fold (\<lambda>f g. if apart c f then groups_add g (cat c f) f (keys c f) else g) walked newConflictGroups)"
    by (rule fold_err_total) (rule step [OF assms])
  moreover have "fold (\<lambda>f g. if apart c f then groups_add g (cat c f) f (keys c f) else g) fs g
      = fold (\<lambda>f g. groups_add g (cat c f) f (keys c f)) (filter (apart c) fs) g" for fs g
    by (induction fs arbitrary: g) auto
  ultimately show ?thesis by (simp add: groups_of_def)
qed

lemma no_groups:
  "gs_list (groups_of (cat c) (keys c) (filter (apart c) walked)) = [] \<longleftrightarrow> (\<forall>f \<in> set walked. \<not> apart c f)"
  using groups_of_cats [of "cat c" "keys c" "filter (apart c) walked"]
  by (auto simp: groups_of_Nil newConflictGroups_def)

text \<open>A field that moved apart is covered by exactly one group, that of its category.\<close>

lemma covered:
  assumes "f \<in> set walked" and "apart c f"
  shows "\<exists>!g. g \<in> set (gs_list (groups_of (cat c) (keys c) (filter (apart c) walked))) \<and> f \<in> set (cg_fields g)"
proof -
  let ?L = "gs_list (groups_of (cat c) (keys c) (filter (apart c) walked))"
  have iff: "f \<in> set (cg_fields g) \<longleftrightarrow> cat c f = cg_cat g" if "g \<in> set ?L" for g
    using groups_of_member [OF that] assms by auto
  have "cat c f \<in> set (map cg_cat ?L)" unfolding groups_of_cats using assms by auto
  then obtain g where g: "g \<in> set ?L" "cg_cat g = cat c f" by auto
  moreover have "h = g" if "h \<in> set ?L" "f \<in> set (cg_fields h)" for h
    using groups_of_distinct [of "cat c" "keys c" "filter (apart c) walked"] g that iff [OF that(1)]
    by (auto simp: distinct_map dest: inj_onD)
  ultimately show ?thesis using iff by metis
qed

end

definition object_change_ok :: "ObjectChange \<Rightarrow> bool" where
  "object_change_ok c \<longleftrightarrow>
     oc_ChangedFields c = objectFieldDiff (oc_BaseVersion c) (Some (oc_SourceVersion c))
     \<and> oc_TargetChangedFields c = objectFieldDiff (oc_BaseVersion c) (oc_TargetVersion c)
     \<and> oc_TargetMoved c = objectHeadMoved (oc_BaseVersion c) (oc_TargetVersion c)
     \<and> oc_ObjectType c = ov_ObjectType (oc_SourceVersion c)
     \<and> (oc_Kind c = ChangeCreated \<longleftrightarrow> oc_BaseVersion c = None)"

definition relation_change_ok :: "RelationChange \<Rightarrow> bool" where
  "relation_change_ok c \<longleftrightarrow>
     rc_ChangedFields c = relationFieldDiff (rc_BaseVersion c) (Some (rc_SourceVersion c))
     \<and> rc_TargetChangedFields c = relationFieldDiff (rc_BaseVersion c) (rc_TargetVersion c)
     \<and> rc_TargetMoved c = relationHeadMoved (rc_BaseVersion c) (rc_TargetVersion c)"

definition object_apart :: "ObjectChange \<Rightarrow> string \<Rightarrow> bool" where
  "object_apart c f \<longleftrightarrow> f \<in> set (oc_ChangedFields c) \<and> f \<in> set (oc_TargetChangedFields c)
     \<and> (case objectFieldDiverged c f of Inl e \<Rightarrow> False | Inr r \<Rightarrow> snd r)"

definition object_keys :: "ObjectChange \<Rightarrow> string \<Rightarrow> string list" where
  "object_keys c f = (case objectFieldDiverged c f of Inl e \<Rightarrow> [] | Inr r \<Rightarrow> fst r)"

definition relation_apart :: "RelationChange \<Rightarrow> string \<Rightarrow> bool" where
  "relation_apart c f \<longleftrightarrow> f \<in> set (rc_ChangedFields c) \<and> f \<in> set (rc_TargetChangedFields c)
     \<and> (case relationFieldDiverged c f of Inl e \<Rightarrow> False | Inr r \<Rightarrow> snd r)"

definition relation_keys :: "RelationChange \<Rightarrow> string \<Rightarrow> string list" where
  "relation_keys c f = (case relationFieldDiverged c f of Inl e \<Rightarrow> [] | Inr r \<Rightarrow> fst r)"

lemma object_change_okI: "c \<in> set (object_changes bs ss ts) \<Longrightarrow> object_change_ok c"
  using object_change_fields [of c bs ss ts]
  by (auto simp: object_change_ok_def classifyObject_def Let_def split: option.splits if_splits)

lemma relation_change_okI: "c \<in> set (relation_changes bs ss ts) \<Longrightarrow> relation_change_ok c"
  using relation_change_fields [of c bs ss ts] by (auto simp: relation_change_ok_def)

text \<open>A field the target moved has both heads, so no dereference fails.\<close>

lemma objectFieldDiverged_ok:
  assumes "object_change_ok c" and "f \<in> set (oc_TargetChangedFields c)"
  shows "\<exists>r. objectFieldDiverged c f = Inr r"
proof -
  obtain b t where "oc_BaseVersion c = Some b" "oc_TargetVersion c = Some t"
    using assms by (auto simp: object_change_ok_def objectFieldDiff_def split: option.splits)
  then show ?thesis by (auto simp: objectFieldDiverged_def Let_def)
qed

lemma relationFieldDiverged_ok:
  assumes "relation_change_ok c" and "f \<in> set (rc_TargetChangedFields c)"
  shows "\<exists>r. relationFieldDiverged c f = Inr r"
proof -
  obtain b t where "rc_BaseVersion c = Some b" "rc_TargetVersion c = Some t"
    using assms by (auto simp: relation_change_ok_def relationFieldDiff_def split: option.splits)
  then show ?thesis by (auto simp: relationFieldDiverged_def Let_def)
qed

interpretation obj_fields: field_classifier object_change_ok groupObjectField object_apart object_keys
    "\<lambda>c. objectFieldCategory (oc_ObjectType c)" canonicalObjectFields
proof
  fix c f g
  assume "object_change_ok c"
  then show "groupObjectField c f g =
      Inr (if object_apart c f then groups_add g (objectFieldCategory (oc_ObjectType c) f) f (object_keys c f)
           else g)"
    using objectFieldDiverged_ok [of c f]
    by (auto simp: groupObjectField_def object_apart_def object_keys_def)
qed (simp add: canonicalObjectFields_def)

interpretation rel_fields: field_classifier relation_change_ok
    "\<lambda>c. groupRelationField c (isKnowledgeRelation (baseRelationType c))" relation_apart relation_keys
    "\<lambda>c f. relationFieldCategory f (isKnowledgeRelation (baseRelationType c))" canonicalRelationFields
proof
  fix c f g
  assume "relation_change_ok c"
  then show "groupRelationField c (isKnowledgeRelation (baseRelationType c)) f g =
      Inr (if relation_apart c f
           then groups_add g (relationFieldCategory f (isKnowledgeRelation (baseRelationType c))) f
             (relation_keys c f)
           else g)"
    using relationFieldDiverged_ok [of c f]
    by (auto simp: groupRelationField_def relation_apart_def relation_keys_def)
qed (simp add: canonicalRelationFields_def)

definition object_groups :: "ObjectChange \<Rightarrow> conflictGroups" where
  "object_groups c = groups_of (objectFieldCategory (oc_ObjectType c)) (object_keys c)
     (filter (object_apart c) canonicalObjectFields)"

definition relation_groups :: "RelationChange \<Rightarrow> conflictGroups" where
  "relation_groups c =
     groups_of (\<lambda>f. relationFieldCategory f (isKnowledgeRelation (baseRelationType c))) (relation_keys c)
       (filter (relation_apart c) canonicalRelationFields)"

text \<open>The conflicts of a change, in closed form.\<close>

definition object_conflicts :: "ObjectVersion list \<Rightarrow> ObjectChange \<Rightarrow> Conflict list" where
  "object_conflicts targetCreated c =
     identityConflicts c targetCreated
     @ (if oc_TargetMoved c then map (objectGroupConflict c) (gs_list (object_groups c)) else [])
     @ (if ''visibility_policy_id'' \<in> set (oc_ChangedFields c)
           \<and> \<not> (oc_TargetMoved c \<and> object_apart c ''visibility_policy_id'')
        then [rightsVisibilityChange] else [])"

lemma hasField_object_groups:
  "hasField (object_groups c) ''visibility_policy_id'' \<longleftrightarrow> object_apart c ''visibility_policy_id''"
  by (simp add: hasField_def object_groups_def groups_of_byField canonicalObjectFields_def)

lemma classifyObject_verdict:
  assumes "object_change_ok c"
  shows "conflict_classifyObject tc c = Inr (finishObject c (object_conflicts tc c))"
  using obj_fields.loop [OF assms] hasField_object_groups [of c]
  by (simp add: conflict_classifyObject_def object_conflicts_def Let_def object_groups_def)

definition relation_conflicts :: "RelationChange \<Rightarrow> Conflict list" where
  "relation_conflicts c =
     (if rc_TargetMoved c then map (relationGroupConflict c) (gs_list (relation_groups c)) else [])"

lemma classifyRelation_verdict:
  assumes "relation_change_ok c"
  shows "conflict_classifyRelation c = Inr (finishRelation c (relation_conflicts c))"
  using rel_fields.loop [OF assms]
  by (simp add: conflict_classifyRelation_def relation_conflicts_def Let_def relation_groups_def)

lemma Detect_eq:
  "Detect i =
     (case Compute i of
        Inl e \<Rightarrow> Inl (DiffFailed e)
      | Inr d \<Rightarrow>
          (let objs = map (\<lambda>c. finishObject c (object_conflicts (createdOnTarget i) c)) (df_ObjectChanges d);
               rels = map (\<lambda>c. finishRelation c (relation_conflicts c)) (df_RelationChanges d) in
           Inr \<lparr>rp_FormatVersion = FormatV1, rp_ProjectID = in_ProjectID i, rp_Diff = d,
                rp_ObjectVerdicts = objs, rp_RelationVerdicts = rels,
                rp_AutoMergeable = allAuto objs rels, rp_Summary = conflict_summarize objs rels\<rparr>))"
proof (cases "Compute i")
  case (Inl e)
  then show ?thesis by (simp add: Detect_def)
next
  case (Inr d)
  from Inr obtain base source target :: snapshot where C:
    "df_ObjectChanges d = object_changes (objects base) (objects source) (objects target)"
    "df_RelationChanges d = relation_changes (relations base) (relations source) (relations target)"
    by (rule ComputeE) (rule that, assumption+)
  have "map_err (conflict_classifyObject (createdOnTarget i)) (df_ObjectChanges d) =
      Inr (map (\<lambda>c. finishObject c (object_conflicts (createdOnTarget i) c)) (df_ObjectChanges d))"
    by (rule map_err_total) (use C(1) in \<open>auto intro!: classifyObject_verdict object_change_okI\<close>)
  moreover have "map_err conflict_classifyRelation (df_RelationChanges d) =
      Inr (map (\<lambda>c. finishRelation c (relation_conflicts c)) (df_RelationChanges d))"
    by (rule map_err_total) (use C(2) in \<open>auto intro!: classifyRelation_verdict relation_change_okI\<close>)
  ultimately show ?thesis using Inr by (simp add: Detect_def Let_def)
qed

section \<open>What the report says of a change\<close>

lemma DetectE:
  assumes "Detect i = Inr r"
  obtains "Compute i = Inr (rp_Diff r)"
    and "rp_ObjectVerdicts r =
      map (\<lambda>c. finishObject c (object_conflicts (createdOnTarget i) c)) (df_ObjectChanges (rp_Diff r))"
    and "rp_RelationVerdicts r =
      map (\<lambda>c. finishRelation c (relation_conflicts c)) (df_RelationChanges (rp_Diff r))"
    and "rp_AutoMergeable r = allAuto (rp_ObjectVerdicts r) (rp_RelationVerdicts r)"
    and "rp_Summary r = conflict_summarize (rp_ObjectVerdicts r) (rp_RelationVerdicts r)"
    and "\<And>c. c \<in> set (df_ObjectChanges (rp_Diff r)) \<Longrightarrow> object_change_ok c"
    and "\<And>c. c \<in> set (df_RelationChanges (rp_Diff r)) \<Longrightarrow> relation_change_ok c"
proof -
  from assms obtain d where C: "Compute i = Inr d" by (auto simp: Detect_eq Let_def split: sum.splits)
  from C obtain base source target :: snapshot where D:
    "df_ObjectChanges d = object_changes (objects base) (objects source) (objects target)"
    "df_RelationChanges d = relation_changes (relations base) (relations source) (relations target)"
    by (rule ComputeE) (rule that, assumption+)
  from assms C have r: "rp_Diff r = d" by (auto simp: Detect_eq Let_def)
  show thesis
  proof (rule that)
    show "c \<in> set (df_ObjectChanges (rp_Diff r)) \<Longrightarrow> object_change_ok c" for c
      by (simp add: r D(1) object_change_okI)
    show "c \<in> set (df_RelationChanges (rp_Diff r)) \<Longrightarrow> relation_change_ok c" for c
      by (simp add: r D(2) relation_change_okI)
  qed (use assms C in \<open>auto simp: Detect_eq Let_def\<close>)
qed

lemma divergedPayloadKeys_iff:
  "k \<in> set (divergedPayloadKeys b s t m) \<longleftrightarrow>
     (k \<in> fst ` set (payloadMap b) \<or> k \<in> fst ` set (payloadMap s) \<or> k \<in> fst ` set (payloadMap t))
     \<and> key_diverged m (map_of (payloadMap b) k) (map_of (payloadMap s) k) (map_of (payloadMap t) k)"
  by (auto simp: divergedPayloadKeys_def Let_def set_uniq)

lemma divergedPayloadKeys_sorted:
  "sorted (divergedPayloadKeys b s t m)" "distinct (divergedPayloadKeys b s t m)"
  by (simp_all add: divergedPayloadKeys_def Let_def distinct_uniq sorted_filter_self)

lemma key_not_diverged [simp]: "\<not> key_diverged m b b t" "\<not> key_diverged m b s b" "\<not> key_diverged m b s s"
  by (auto simp: key_diverged_def changed_def)

lemma divergedPayloadKeys_unmoved [simp]:
  "divergedPayloadKeys b b t m = []" "divergedPayloadKeys b s b m = []" "divergedPayloadKeys b s s m = []"
proof -
  show "divergedPayloadKeys b b t m = []" "divergedPayloadKeys b s b m = []" "divergedPayloadKeys b s s m = []"
    using divergedPayloadKeys_iff [of _ b b t m] divergedPayloadKeys_iff [of _ b s b m]
      divergedPayloadKeys_iff [of _ b s s m]
    by (metis key_not_diverged last_in_set)+
qed

text \<open>Three values none of which equals another: base, source, target.\<close>

definition clash :: "'a \<Rightarrow> 'a \<Rightarrow> 'a \<Rightarrow> bool" where
  "clash b s t \<longleftrightarrow> b \<noteq> s \<and> b \<noteq> t \<and> s \<noteq> t"

lemma object_apart_iff:
  assumes "object_change_ok c" and "oc_BaseVersion c = Some b" and "oc_TargetVersion c = Some t"
  shows "object_apart c ''title'' \<longleftrightarrow> clash (ov_Title b) (ov_Title (oc_SourceVersion c)) (ov_Title t)"
    and "object_apart c ''payload'' \<longleftrightarrow> divergedPayloadKeys (ov_Payload b) (ov_Payload (oc_SourceVersion c))
      (ov_Payload t) (oc_ObjectType c \<noteq> ''protocol'') \<noteq> []"
    and "object_apart c ''lifecycle_state'' \<longleftrightarrow>
      clash (ov_LifecycleState b) (ov_LifecycleState (oc_SourceVersion c)) (ov_LifecycleState t)"
    and "object_apart c ''schema_ref'' \<longleftrightarrow>
      clash (ov_SchemaRef b) (ov_SchemaRef (oc_SourceVersion c)) (ov_SchemaRef t)"
    and "object_apart c ''visibility_policy_id'' \<longleftrightarrow>
      clash (ov_VisibilityPolicyID b) (ov_VisibilityPolicyID (oc_SourceVersion c)) (ov_VisibilityPolicyID t)"
proof -
  have C: "oc_ChangedFields c = objectFieldDiff (Some b) (Some (oc_SourceVersion c))"
    "oc_TargetChangedFields c = objectFieldDiff (Some b) (Some t)"
    using assms by (auto simp: object_change_ok_def)
  show "object_apart c ''title'' \<longleftrightarrow> clash (ov_Title b) (ov_Title (oc_SourceVersion c)) (ov_Title t)"
    and "object_apart c ''lifecycle_state'' \<longleftrightarrow>
      clash (ov_LifecycleState b) (ov_LifecycleState (oc_SourceVersion c)) (ov_LifecycleState t)"
    and "object_apart c ''schema_ref'' \<longleftrightarrow>
      clash (ov_SchemaRef b) (ov_SchemaRef (oc_SourceVersion c)) (ov_SchemaRef t)"
    and "object_apart c ''visibility_policy_id'' \<longleftrightarrow>
      clash (ov_VisibilityPolicyID b) (ov_VisibilityPolicyID (oc_SourceVersion c)) (ov_VisibilityPolicyID t)"
    unfolding object_apart_def C objectFieldDiff_iff objectFieldDiverged_def
    by (auto simp: assms clash_def ptrStringEqual_iff Let_def)
  show "object_apart c ''payload'' \<longleftrightarrow> divergedPayloadKeys (ov_Payload b) (ov_Payload (oc_SourceVersion c))
      (ov_Payload t) (oc_ObjectType c \<noteq> ''protocol'') \<noteq> []"
    unfolding object_apart_def C objectFieldDiff_iff objectFieldDiverged_def
    by (auto simp: assms Let_def)
qed

lemma object_apart_None:
  "object_change_ok c \<Longrightarrow> oc_BaseVersion c = None \<or> oc_TargetVersion c = None \<Longrightarrow> \<not> object_apart c f"
  by (auto simp: object_apart_def object_change_ok_def)

lemma object_conflicts_empty:
  assumes "object_change_ok c"
  shows "object_conflicts tc c = [] \<longleftrightarrow>
    identityConflicts c tc = [] \<and> ''visibility_policy_id'' \<notin> set (oc_ChangedFields c)
    \<and> (oc_TargetMoved c \<longrightarrow> (\<forall>f \<in> set canonicalObjectFields. \<not> object_apart c f))"
  using obj_fields.no_groups [of c]
  by (auto simp: object_conflicts_def object_groups_def canonicalObjectFields_def)

lemma identityConflicts_empty:
  "identityConflicts c tc = [] \<longleftrightarrow> (oc_Kind c = ChangeCreated \<longrightarrow>
     (\<forall>t \<in> set tc. ov_ObjectType t = oc_ObjectType c \<longrightarrow>
        TrimSpace (ov_Title t) \<noteq> TrimSpace (ov_Title (oc_SourceVersion c))))"
  by (auto simp: identityConflicts_def filter_empty_conv)

lemma createdOnTarget_iff:
  "t \<in> set (createdOnTarget i) \<longleftrightarrow>
     map_of (conflict_headObjects (sn_ObjectVersions (in_TargetSnapshot i))) (ov_ObjectID t) = Some t
     \<and> (\<forall>v \<in> set (sn_ObjectVersions (in_BaseSnapshot i)). ov_ObjectID v \<noteq> ov_ObjectID t)"
proof -
  let ?H = "conflict_headObjects (sn_ObjectVersions (in_TargetSnapshot i))"
  have mem: "(k, t) \<in> set ?H \<longleftrightarrow> map_of ?H k = Some t" for k
    by (simp add: det_log.heads_distinct)
  have "t \<in> set (createdOnTarget i) \<longleftrightarrow>
      (\<exists>k. (k, t) \<in> set ?H \<and> k \<notin> ov_ObjectID ` set (sn_ObjectVersions (in_BaseSnapshot i)))"
    by (force simp: createdOnTarget_def Let_def)
  also have "\<dots> \<longleftrightarrow> map_of ?H (ov_ObjectID t) = Some t
      \<and> ov_ObjectID t \<notin> ov_ObjectID ` set (sn_ObjectVersions (in_BaseSnapshot i))"
    unfolding mem
  proof (intro iffI; elim exE conjE)
    fix k
    assume k: "map_of ?H k = Some t" "k \<notin> ov_ObjectID ` set (sn_ObjectVersions (in_BaseSnapshot i))"
    moreover have "ov_ObjectID t = k" by (rule det_log.heads_SomeD(2) [OF k(1)])
    ultimately show "map_of ?H (ov_ObjectID t) = Some t
      \<and> ov_ObjectID t \<notin> ov_ObjectID ` set (sn_ObjectVersions (in_BaseSnapshot i))" by simp
  qed blast
  also have "ov_ObjectID t \<notin> ov_ObjectID ` set (sn_ObjectVersions (in_BaseSnapshot i)) \<longleftrightarrow>
      (\<forall>v \<in> set (sn_ObjectVersions (in_BaseSnapshot i)). ov_ObjectID v \<noteq> ov_ObjectID t)"
    by (auto simp: image_iff)
  finally show ?thesis .
qed

section \<open>Properties\<close>

lemma sample_detects: "Detect sample_in = Inr (projr (Detect sample_in))"
  "rp_Diff (projr (Detect sample_in)) = sample_diff"
  by (simp_all add: Detect_eq sample_diff_computed Let_def)

lemma sample_change_in: "sample_change \<in> set (df_ObjectChanges (rp_Diff (projr (Detect sample_in))))"
  by (simp add: sample_detects(2) sample_diff_def)

text \<open>C33: classification never fails.  On every input whose diff can be computed the detector
  returns a report of that diff with one verdict per change in the diff's order; no nil head is
  ever dereferenced.\<close>

theorem detect_total:
  "(\<exists>r. Detect i = Inr r \<and> Compute i = Inr (rp_Diff r)
      \<and> map vo_ObjectID (rp_ObjectVerdicts r) = map oc_ObjectID (df_ObjectChanges (rp_Diff r))
      \<and> map vr_RelationID (rp_RelationVerdicts r) = map rc_RelationID (df_RelationChanges (rp_Diff r)))
   \<or> (\<exists>e. Detect i = Inl (DiffFailed e) \<and> Compute i = Inl e)"
  by (cases "Compute i") (simp_all add: Detect_eq Let_def finishObject_def finishRelation_def comp_def)

text \<open>The auto-merge boundary of an object change.  The verdict is auto-mergeable exactly when
  no object the target created looks like it, the change does not move the visibility policy,
  and, where both branches moved the object, no title, lifecycle or schema reference has three
  different values and no payload key diverged.\<close>

theorem object_auto_iff:
  assumes "Detect i = Inr r" and "c \<in> set (df_ObjectChanges (rp_Diff r))"
  shows "\<exists>v \<in> set (rp_ObjectVerdicts r). vo_ObjectID v = oc_ObjectID c \<and>
    (vo_AutoMergeable v \<longleftrightarrow>
       (oc_Kind c = ChangeCreated \<longrightarrow> (\<forall>t \<in> set (createdOnTarget i). ov_ObjectType t = oc_ObjectType c \<longrightarrow>
          TrimSpace (ov_Title t) \<noteq> TrimSpace (ov_Title (oc_SourceVersion c))))
       \<and> (\<forall>b. oc_BaseVersion c = Some b \<longrightarrow>
            ov_VisibilityPolicyID b = ov_VisibilityPolicyID (oc_SourceVersion c))
       \<and> (\<forall>b t. oc_BaseVersion c = Some b \<longrightarrow> oc_TargetVersion c = Some t \<longrightarrow> ov_ID b \<noteq> ov_ID t \<longrightarrow>
            \<not> clash (ov_Title b) (ov_Title (oc_SourceVersion c)) (ov_Title t)
            \<and> \<not> clash (ov_LifecycleState b) (ov_LifecycleState (oc_SourceVersion c)) (ov_LifecycleState t)
            \<and> \<not> clash (ov_SchemaRef b) (ov_SchemaRef (oc_SourceVersion c)) (ov_SchemaRef t)
            \<and> divergedPayloadKeys (ov_Payload b) (ov_Payload (oc_SourceVersion c)) (ov_Payload t)
                (oc_ObjectType c \<noteq> ''protocol'') = []))"
proof -
  from assms(1) have ok: "object_change_ok c" and
    V: "rp_ObjectVerdicts r =
      map (\<lambda>c. finishObject c (object_conflicts (createdOnTarget i) c)) (df_ObjectChanges (rp_Diff r))"
    by (auto elim!: DetectE intro: assms(2))
  let ?v = "finishObject c (object_conflicts (createdOnTarget i) c)"
  have vis: "''visibility_policy_id'' \<notin> set (oc_ChangedFields c) \<longleftrightarrow>
      (\<forall>b. oc_BaseVersion c = Some b \<longrightarrow> ov_VisibilityPolicyID b = ov_VisibilityPolicyID (oc_SourceVersion c))"
    using ok by (cases "oc_BaseVersion c") (auto simp: object_change_ok_def objectFieldDiff_iff)
  have fields: "(oc_TargetMoved c \<longrightarrow> (\<forall>f \<in> set canonicalObjectFields. \<not> object_apart c f)) \<longleftrightarrow>
      (\<forall>b t. oc_BaseVersion c = Some b \<longrightarrow> oc_TargetVersion c = Some t \<longrightarrow> ov_ID b \<noteq> ov_ID t \<longrightarrow>
            \<not> clash (ov_Title b) (ov_Title (oc_SourceVersion c)) (ov_Title t)
            \<and> \<not> clash (ov_LifecycleState b) (ov_LifecycleState (oc_SourceVersion c)) (ov_LifecycleState t)
            \<and> \<not> clash (ov_SchemaRef b) (ov_SchemaRef (oc_SourceVersion c)) (ov_SchemaRef t)
            \<and> divergedPayloadKeys (ov_Payload b) (ov_Payload (oc_SourceVersion c)) (ov_Payload t)
                (oc_ObjectType c \<noteq> ''protocol'') = [])"
    if "''visibility_policy_id'' \<notin> set (oc_ChangedFields c)"
  proof (cases "oc_BaseVersion c = None \<or> oc_TargetVersion c = None")
    case True
    then show ?thesis using object_apart_None [OF ok True] by auto
  next
    case False
    then obtain b t where bt: "oc_BaseVersion c = Some b" "oc_TargetVersion c = Some t" by auto
    have "oc_TargetMoved c \<longleftrightarrow> ov_ID b \<noteq> ov_ID t"
      using ok bt by (simp add: object_change_ok_def objectHeadMoved_def)
    moreover have "\<not> object_apart c ''visibility_policy_id''" using that by (simp add: object_apart_def)
    ultimately show ?thesis
      by (simp add: bt canonicalObjectFields_def object_apart_iff [OF ok bt]) blast
  qed
  have "vo_AutoMergeable ?v \<longleftrightarrow> object_conflicts (createdOnTarget i) c = []" by (simp add: finishObject_def)
  also note object_conflicts_empty [OF ok]
  also note identityConflicts_empty
  finally have auto: "vo_AutoMergeable ?v \<longleftrightarrow>
       (oc_Kind c = ChangeCreated \<longrightarrow> (\<forall>t \<in> set (createdOnTarget i). ov_ObjectType t = oc_ObjectType c \<longrightarrow>
          TrimSpace (ov_Title t) \<noteq> TrimSpace (ov_Title (oc_SourceVersion c))))
       \<and> ''visibility_policy_id'' \<notin> set (oc_ChangedFields c)
       \<and> (oc_TargetMoved c \<longrightarrow> (\<forall>f \<in> set canonicalObjectFields. \<not> object_apart c f))" .
  have "vo_ObjectID ?v = oc_ObjectID c" and key: "?v \<in> set (rp_ObjectVerdicts r)"
    using V assms(2) by (auto simp: finishObject_def)
  with auto fields vis show ?thesis by (intro bexI [OF _ key]) blast
qed

theorem object_auto_iff_witness:
  "\<exists>v \<in> set (rp_ObjectVerdicts (projr (Detect sample_in))). vo_ObjectID v = ''o1'' \<and> \<not> vo_AutoMergeable v"
proof -
  have b: "oc_BaseVersion sample_change = Some sample_b" "oc_TargetVersion sample_change = Some sample_t"
    "oc_ObjectID sample_change = ''o1''" "oc_SourceVersion sample_change = sample_s"
    by (simp_all add: sample_change_def)
  have "ov_ID sample_b \<noteq> ov_ID sample_t"
    "clash (ov_Title sample_b) (ov_Title sample_s) (ov_Title sample_t)"
    by (simp_all add: clash_def sample_b_def sample_s_def sample_t_def sample_object_def)
  then show ?thesis using object_auto_iff [OF sample_detects(1) sample_change_in] b by metis
qed

text \<open>A payload key diverges exactly when the base, source and target values of the key (an
  absent key counting as a value) are pairwise different, unless appends are merged and both
  branches only extended the same base list.  The keys are reported once, in ascending order.\<close>

theorem payload_divergence_iff:
  assumes "wf_json b" and "wf_json s" and "wf_json t"
  shows "set (divergedPayloadKeys (print_value b) (print_value s) (print_value t) mergeAppends) =
      {k. clash (map_of (fields_of b) k) (map_of (fields_of s) k) (map_of (fields_of t) k)
          \<and> \<not> (mergeAppends \<and> json_extends (map_of (fields_of b) k) (map_of (fields_of s) k)
                 \<and> json_extends (map_of (fields_of b) k) (map_of (fields_of t) k))}
    \<and> sorted (divergedPayloadKeys (print_value b) (print_value s) (print_value t) mergeAppends)
    \<and> distinct (divergedPayloadKeys (print_value b) (print_value s) (print_value t) mergeAppends)"
proof (intro conjI divergedPayloadKeys_sorted set_eqI)
  fix k
  have wf: "wf_json w" if "wf_json v" "map_of (fields_of v) k = Some w" for v w
    using that by (auto dest: map_of_SomeD intro: wf_fields)
  have keys: "k \<in> fst ` set (payloadMap (print_value v)) \<longleftrightarrow> map_of (fields_of v) k \<noteq> None"
    if "wf_json v" for v
    using that map_of_payloadMap [OF that, of k]
    by (metis map_of_eq_None_iff option.map_disc_iff)
  show "k \<in> set (divergedPayloadKeys (print_value b) (print_value s) (print_value t) mergeAppends) \<longleftrightarrow>
      k \<in> {k. clash (map_of (fields_of b) k) (map_of (fields_of s) k) (map_of (fields_of t) k)
          \<and> \<not> (mergeAppends \<and> json_extends (map_of (fields_of b) k) (map_of (fields_of s) k)
                 \<and> json_extends (map_of (fields_of b) k) (map_of (fields_of t) k))}"
    unfolding divergedPayloadKeys_iff keys [OF assms(1)] keys [OF assms(2)] keys [OF assms(3)]
      map_of_payloadMap [OF assms(1)] map_of_payloadMap [OF assms(2)] map_of_payloadMap [OF assms(3)]
    by (subst key_diverged_print) (auto simp: clash_def intro: wf assms)
qed

theorem payload_divergence_iff_witness:
  "set (divergedPayloadKeys (print_value (JObj [(''e'', JArr [])]))
     (print_value (JObj [(''e'', JArr [JStr ''a''])])) (print_value (JObj [(''e'', JArr [JStr ''b''])])) False)
   = {k. clash (map_of [(''e'', JArr [])] k) (map_of [(''e'', JArr [JStr ''a''])] k)
            (map_of [(''e'', JArr [JStr ''b''])] k)}
   \<and> divergedPayloadKeys (print_value (JObj [(''e'', JArr [])]))
     (print_value (JObj [(''e'', JArr [JStr ''a''])])) (print_value (JObj [(''e'', JArr [JStr ''b''])])) True
     = []"
proof
  have wf: "wf_json (JObj [(''e'', JArr [])])" "wf_json (JObj [(''e'', JArr [JStr ''a''])])"
    "wf_json (JObj [(''e'', JArr [JStr ''b''])])"
    by code_simp+
  note P = payload_divergence_iff [OF wf]
  show "set (divergedPayloadKeys (print_value (JObj [(''e'', JArr [])]))
     (print_value (JObj [(''e'', JArr [JStr ''a''])])) (print_value (JObj [(''e'', JArr [JStr ''b''])])) False)
   = {k. clash (map_of [(''e'', JArr [])] k) (map_of [(''e'', JArr [JStr ''a''])] k)
            (map_of [(''e'', JArr [JStr ''b''])] k)}"
    using P [of False] by (simp add: fields_of_def)
  show "divergedPayloadKeys (print_value (JObj [(''e'', JArr [])]))
     (print_value (JObj [(''e'', JArr [JStr ''a''])])) (print_value (JObj [(''e'', JArr [JStr ''b''])])) True
     = []"
    by code_simp
qed

text \<open>The divergence test does not depend on which branch is called the source.\<close>

theorem payload_divergence_symmetric:
  "divergedPayloadKeys base source target mergeAppends = divergedPayloadKeys base target source mergeAppends"
proof -
  have "key_diverged mergeAppends b s t \<longleftrightarrow> key_diverged mergeAppends b t s" for b s t
    by (auto simp: key_diverged_def)
  then have "set (divergedPayloadKeys base source target mergeAppends)
      = set (divergedPayloadKeys base target source mergeAppends)"
    by (auto simp: divergedPayloadKeys_iff)
  then show ?thesis
    by (intro sorted_distinct_set_unique) (simp_all add: divergedPayloadKeys_sorted)
qed

lemma object_group_covers:
  assumes "object_change_ok c" and "oc_TargetMoved c" and "f \<in> set canonicalObjectFields" and "object_apart c f"
  shows "\<exists>!cf. cf \<in> set (object_conflicts tc c) \<and> f \<in> set (cf_Fields cf)"
    and "\<exists>cf \<in> set (object_conflicts tc c). f \<in> set (cf_Fields cf)
      \<and> cf_Category cf = objectFieldCategory (oc_ObjectType c) f
      \<and> cf_Code cf = codeForCategory (objectFieldCategory (oc_ObjectType c) f)"
proof -
  let ?L = "gs_list (object_groups c)"
  from obj_fields.covered [OF assms(3,4)] obtain g where
    g: "g \<in> set ?L" "f \<in> set (cg_fields g)" and
    uniq: "\<And>h. h \<in> set ?L \<Longrightarrow> f \<in> set (cg_fields h) \<Longrightarrow> h = g"
    unfolding object_groups_def by blast
  have cat: "objectFieldCategory (oc_ObjectType c) f = cg_cat g"
    using groups_of_member [of g "objectFieldCategory (oc_ObjectType c)" "object_keys c"] g
    by (auto simp: object_groups_def)
  have mem: "objectGroupConflict c g \<in> set (object_conflicts tc c)"
    using g assms(2) by (auto simp: object_conflicts_def)
  show "\<exists>cf \<in> set (object_conflicts tc c). f \<in> set (cf_Fields cf)
      \<and> cf_Category cf = objectFieldCategory (oc_ObjectType c) f
      \<and> cf_Code cf = codeForCategory (objectFieldCategory (oc_ObjectType c) f)"
    using mem g(2) cat by (intro bexI [OF _ mem]) (simp add: objectGroupConflict_def)
  have other: "cf = objectGroupConflict c g" if "cf \<in> set (object_conflicts tc c)" "f \<in> set (cf_Fields cf)" for cf
  proof -
    from that consider "cf \<in> objectGroupConflict c ` set ?L"
      | "cf = rightsVisibilityChange" "\<not> object_apart c ''visibility_policy_id''"
      using assms(2) by (auto simp: object_conflicts_def identityConflicts_def split: if_splits)
    then show ?thesis
    proof cases
      case 1
      then obtain h where "h \<in> set ?L" "cf = objectGroupConflict c h" by blast
      with that(2) uniq [of h] show ?thesis by (simp add: objectGroupConflict_def)
    next
      case 2
      with that(2) assms(4) show ?thesis by (simp add: rightsVisibilityChange_def)
    qed
  qed
  show "\<exists>!cf. cf \<in> set (object_conflicts tc c) \<and> f \<in> set (cf_Fields cf)"
  proof (rule ex1I)
    show "objectGroupConflict c g \<in> set (object_conflicts tc c)
        \<and> f \<in> set (cf_Fields (objectGroupConflict c g))"
      using mem g(2) by (simp add: objectGroupConflict_def)
  qed (use other in blast)
qed

text \<open>C31: nothing both branches moved apart goes unreported.  Every object field that changed on
  both branches and diverged is covered by exactly one conflict of its verdict, and that
  conflict has the category and the code the field has for this type of object.\<close>

theorem diverged_field_reported:
  assumes "Detect i = Inr r" and "c \<in> set (df_ObjectChanges (rp_Diff r))" and "oc_TargetMoved c"
    and "f \<in> set canonicalObjectFields"
    and "f \<in> set (oc_ChangedFields c)" and "f \<in> set (oc_TargetChangedFields c)"
    and "objectFieldDiverged c f = Inr (keys, True)"
  shows "\<exists>v \<in> set (rp_ObjectVerdicts r). vo_ObjectID v = oc_ObjectID c \<and> \<not> vo_AutoMergeable v
    \<and> (\<exists>!cf. cf \<in> set (vo_Conflicts v) \<and> f \<in> set (cf_Fields cf))
    \<and> (\<exists>cf \<in> set (vo_Conflicts v). f \<in> set (cf_Fields cf)
         \<and> cf_Category cf = objectFieldCategory (oc_ObjectType c) f
         \<and> cf_Code cf = codeForCategory (objectFieldCategory (oc_ObjectType c) f))"
proof -
  from assms(1) have ok: "object_change_ok c" and
    V: "rp_ObjectVerdicts r =
      map (\<lambda>c. finishObject c (object_conflicts (createdOnTarget i) c)) (df_ObjectChanges (rp_Diff r))"
    by (auto elim!: DetectE intro: assms(2))
  have apart: "object_apart c f" using assms by (simp add: object_apart_def)
  note cover = object_group_covers [OF ok assms(3,4) apart, of "createdOnTarget i"]
  let ?v = "finishObject c (object_conflicts (createdOnTarget i) c)"
  have "?v \<in> set (rp_ObjectVerdicts r)" using V assms(2) by auto
  moreover have "object_conflicts (createdOnTarget i) c \<noteq> []" using cover(2) by auto
  ultimately show ?thesis using cover by (intro bexI [of _ ?v]) (simp_all add: finishObject_def)
qed

theorem diverged_field_reported_witness:
  "\<exists>v \<in> set (rp_ObjectVerdicts (projr (Detect sample_in))). vo_ObjectID v = ''o1'' \<and> \<not> vo_AutoMergeable v
    \<and> (\<exists>cf \<in> set (vo_Conflicts v). ''title'' \<in> set (cf_Fields cf) \<and> cf_Category cf = CategoryAttribute)"
proof -
  have m: "oc_TargetMoved sample_change" "''title'' \<in> set canonicalObjectFields"
    "''title'' \<in> set (oc_ChangedFields sample_change)" "''title'' \<in> set (oc_TargetChangedFields sample_change)"
    "objectFieldDiverged sample_change ''title'' = Inr ([], True)"
    by (simp_all add: sample_change_def canonicalObjectFields_def objectFieldDiverged_def
        sample_s_def sample_t_def sample_object_def)
  have "objectFieldCategory (oc_ObjectType sample_change) ''title'' = CategoryAttribute"
    "oc_ObjectID sample_change = ''o1''"
    by (simp_all add: sample_change_def objectFieldCategory_def)
  then show ?thesis
    using diverged_field_reported [OF sample_detects(1) sample_change_in m] by auto
qed

text \<open>C32: a visibility move is never auto-merged.  Whatever the target did, a change that moves
  the visibility policy carries exactly one conflict on that field, of the rights category.\<close>

theorem visibility_move_never_auto:
  assumes "Detect i = Inr r" and "c \<in> set (df_ObjectChanges (rp_Diff r))"
    and "''visibility_policy_id'' \<in> set (oc_ChangedFields c)"
  shows "\<exists>v \<in> set (rp_ObjectVerdicts r). vo_ObjectID v = oc_ObjectID c \<and> \<not> vo_AutoMergeable v
    \<and> (\<exists>!cf. cf \<in> set (vo_Conflicts v) \<and> ''visibility_policy_id'' \<in> set (cf_Fields cf))
    \<and> (\<exists>cf \<in> set (vo_Conflicts v). ''visibility_policy_id'' \<in> set (cf_Fields cf)
          \<and> cf_Category cf = CategoryRights)"
proof -
  from assms(1) have ok: "object_change_ok c" and
    V: "rp_ObjectVerdicts r =
      map (\<lambda>c. finishObject c (object_conflicts (createdOnTarget i) c)) (df_ObjectChanges (rp_Diff r))"
    by (auto elim!: DetectE intro: assms(2))
  let ?f = "''visibility_policy_id''"
  let ?cs = "object_conflicts (createdOnTarget i) c"
  have "(\<exists>!cf. cf \<in> set ?cs \<and> ?f \<in> set (cf_Fields cf))
      \<and> (\<exists>cf \<in> set ?cs. ?f \<in> set (cf_Fields cf) \<and> cf_Category cf = CategoryRights)"
  proof (cases "oc_TargetMoved c \<and> object_apart c ?f")
    case True
    have "objectFieldCategory (oc_ObjectType c) ?f = CategoryRights" by (simp add: objectFieldCategory_def)
    with object_group_covers [OF ok, of ?f "createdOnTarget i"] True show ?thesis
      by (auto simp: canonicalObjectFields_def)
  next
    case False
    have nog: "?f \<notin> set (cg_fields g)" if "oc_TargetMoved c" "g \<in> set (gs_list (object_groups c))" for g
      using False that groups_of_member [of g "objectFieldCategory (oc_ObjectType c)" "object_keys c"]
      by (auto simp: object_groups_def)
    have mem: "rightsVisibilityChange \<in> set ?cs" using False assms(3) by (auto simp: object_conflicts_def)
    have fld: "?f \<in> set (cf_Fields rightsVisibilityChange)" "cf_Category rightsVisibilityChange = CategoryRights"
      by (simp_all add: rightsVisibilityChange_def)
    have other: "cf = rightsVisibilityChange" if "cf \<in> set ?cs" "?f \<in> set (cf_Fields cf)" for cf
      using that nog
      by (auto simp: object_conflicts_def identityConflicts_def objectGroupConflict_def split: if_splits)
    have "\<exists>!cf. cf \<in> set ?cs \<and> ?f \<in> set (cf_Fields cf)"
      by (rule ex1I [of _ rightsVisibilityChange]) (use mem fld other in blast)+
    with mem fld show ?thesis by blast
  qed
  moreover from this have "?cs \<noteq> []" by auto
  moreover have "finishObject c ?cs \<in> set (rp_ObjectVerdicts r)" using V assms(2) by auto
  ultimately show ?thesis
    by (intro bexI [of _ "finishObject c ?cs"]) (simp_all add: finishObject_def)
qed

definition sample_vis_in :: DiffInputs where
  "sample_vis_in = sample_inputs (sample_snapshot [sample_b] [])
     (sample_snapshot [sample_b, sample_s\<lparr>ov_Title := ''T'', ov_VisibilityPolicyID := Some ''p1''\<rparr>] [])
     (sample_snapshot [sample_b] [])"

theorem visibility_move_never_auto_witness:
  "\<exists>v \<in> set (rp_ObjectVerdicts (projr (Detect sample_vis_in))). vo_ObjectID v = ''o1'' \<and> \<not> vo_AutoMergeable v"
proof -
  have "isl (Compute sample_vis_in) = False" by code_simp
  then have d: "Detect sample_vis_in = Inr (projr (Detect sample_vis_in))"
    by (auto simp: Detect_eq Let_def split: sum.splits)
  have ids: "map (\<lambda>c. (oc_ObjectID c, oc_ChangedFields c)) (df_ObjectChanges (projr (Compute sample_vis_in)))
      = [(''o1'', [''visibility_policy_id''])]"
    by code_simp
  have "rp_Diff (projr (Detect sample_vis_in)) = projr (Compute sample_vis_in)"
    using d by (auto simp: Detect_eq Let_def split: sum.splits)
  with ids obtain c where c: "c \<in> set (df_ObjectChanges (rp_Diff (projr (Detect sample_vis_in))))"
    "oc_ObjectID c = ''o1''" "oc_ChangedFields c = [''visibility_policy_id'']"
    by (auto simp: map_eq_Cons_conv)
  from visibility_move_never_auto [OF d c(1)] c(2,3) show ?thesis by auto
qed

text \<open>An object created on the source branch that has the type and the trimmed title of an
  object the target branch created meanwhile is reported as a suspected duplicate of it, by its
  id, and is not auto-mergeable.\<close>

theorem duplicate_creation_reported:
  assumes "Detect i = Inr r" and "c \<in> set (df_ObjectChanges (rp_Diff r))" and "oc_Kind c = ChangeCreated"
    and "map_of (conflict_headObjects (sn_ObjectVersions (in_TargetSnapshot i))) (ov_ObjectID t) = Some t"
    and "\<forall>v \<in> set (sn_ObjectVersions (in_BaseSnapshot i)). ov_ObjectID v \<noteq> ov_ObjectID t"
    and "ov_ObjectType t = oc_ObjectType c"
    and "TrimSpace (ov_Title t) = TrimSpace (ov_Title (oc_SourceVersion c))"
  shows "\<exists>v \<in> set (rp_ObjectVerdicts r). vo_ObjectID v = oc_ObjectID c \<and> \<not> vo_AutoMergeable v
    \<and> (\<exists>cf \<in> set (vo_Conflicts v). cf_Category cf = CategoryIdentity \<and> cf_OtherObjectID cf = ov_ObjectID t)"
proof -
  from assms(1) have V: "rp_ObjectVerdicts r =
      map (\<lambda>c. finishObject c (object_conflicts (createdOnTarget i) c)) (df_ObjectChanges (rp_Diff r))"
    by (elim DetectE)
  have "t \<in> set (createdOnTarget i)" using assms(4,5) by (simp add: createdOnTarget_iff)
  then have "\<exists>cf \<in> set (identityConflicts c (createdOnTarget i)).
      cf_Category cf = CategoryIdentity \<and> cf_OtherObjectID cf = ov_ObjectID t"
    using assms(3,6,7) by (auto simp: identityConflicts_def intro!: bexI [of _ t])
  then have "\<exists>cf \<in> set (object_conflicts (createdOnTarget i) c).
      cf_Category cf = CategoryIdentity \<and> cf_OtherObjectID cf = ov_ObjectID t"
    unfolding object_conflicts_def by (auto simp del: bex_simps)
  moreover from this have "object_conflicts (createdOnTarget i) c \<noteq> []" by auto
  moreover have "finishObject c (object_conflicts (createdOnTarget i) c) \<in> set (rp_ObjectVerdicts r)"
    using V assms(2) by auto
  ultimately show ?thesis
    by (intro bexI [of _ "finishObject c (object_conflicts (createdOnTarget i) c)"])
      (simp_all add: finishObject_def)
qed

definition sample_dup_in :: DiffInputs where
  "sample_dup_in = sample_inputs (sample_snapshot [] [])
     (sample_snapshot [sample_object ''v1'' ''o1'' 1 '' T'' [TNull]] [])
     (sample_snapshot [sample_object ''v2'' ''o2'' 1 ''T '' [TNull]] [])"

theorem duplicate_creation_reported_witness:
  "\<exists>v \<in> set (rp_ObjectVerdicts (projr (Detect sample_dup_in))). vo_ObjectID v = ''o1'' \<and> \<not> vo_AutoMergeable v
    \<and> (\<exists>cf \<in> set (vo_Conflicts v). cf_OtherObjectID cf = ''o2'')"
proof -
  let ?t = "sample_object ''v2'' ''o2'' 1 ''T '' [TNull]"
  have "isl (Compute sample_dup_in) = False" by code_simp
  then have d: "Detect sample_dup_in = Inr (projr (Detect sample_dup_in))"
    by (auto simp: Detect_eq Let_def split: sum.splits)
  have ids: "map (\<lambda>c. (oc_ObjectID c, oc_Kind c, oc_ObjectType c, ov_Title (oc_SourceVersion c)))
      (df_ObjectChanges (projr (Compute sample_dup_in)))
      = [(''o1'', ChangeCreated, ''claim'', '' T'')]"
    by code_simp
  have "rp_Diff (projr (Detect sample_dup_in)) = projr (Compute sample_dup_in)"
    using d by (auto simp: Detect_eq Let_def split: sum.splits)
  with ids obtain c where c: "c \<in> set (df_ObjectChanges (rp_Diff (projr (Detect sample_dup_in))))"
    "oc_ObjectID c = ''o1''" "oc_Kind c = ChangeCreated" "oc_ObjectType c = ''claim''"
    "ov_Title (oc_SourceVersion c) = '' T''"
    by (auto simp: map_eq_Cons_conv)
  have t: "map_of (conflict_headObjects (sn_ObjectVersions (in_TargetSnapshot sample_dup_in))) (ov_ObjectID ?t)
      = Some ?t"
    "TrimSpace (ov_Title ?t) = TrimSpace '' T''" "ov_ObjectType ?t = ''claim''" "ov_ObjectID ?t = ''o2''"
    by code_simp+
  have n: "\<forall>v \<in> set (sn_ObjectVersions (in_BaseSnapshot sample_dup_in)). ov_ObjectID v \<noteq> ov_ObjectID ?t"
    by (simp add: sample_dup_in_def sample_inputs_def sample_snapshot_def)
  have ty: "ov_ObjectType ?t = oc_ObjectType c" and
    ti: "TrimSpace (ov_Title ?t) = TrimSpace (ov_Title (oc_SourceVersion c))"
    using t c by simp_all
  from duplicate_creation_reported [OF d c(1,3) t(1) n ty ti] c(2) t(4) show ?thesis by auto
qed

lemma relation_apart_iff:
  assumes "relation_change_ok c" and "rc_BaseVersion c = Some b" and "rc_TargetVersion c = Some t"
  shows "relation_apart c ''relation_type'' \<longleftrightarrow>
      clash (rv_RelationType b) (rv_RelationType (rc_SourceVersion c)) (rv_RelationType t)"
    and "relation_apart c ''source_object_version_id'' \<longleftrightarrow> clash (rv_SourceObjectVersionID b)
      (rv_SourceObjectVersionID (rc_SourceVersion c)) (rv_SourceObjectVersionID t)"
    and "relation_apart c ''target_object_version_id'' \<longleftrightarrow> clash (rv_TargetObjectVersionID b)
      (rv_TargetObjectVersionID (rc_SourceVersion c)) (rv_TargetObjectVersionID t)"
    and "relation_apart c ''payload'' \<longleftrightarrow> divergedPayloadKeys (rv_Payload b)
      (rv_Payload (rc_SourceVersion c)) (rv_Payload t) True \<noteq> []"
proof -
  have C: "rc_ChangedFields c = relationFieldDiff (Some b) (Some (rc_SourceVersion c))"
    "rc_TargetChangedFields c = relationFieldDiff (Some b) (Some t)"
    using assms by (auto simp: relation_change_ok_def)
  show "relation_apart c ''relation_type'' \<longleftrightarrow>
      clash (rv_RelationType b) (rv_RelationType (rc_SourceVersion c)) (rv_RelationType t)"
    and "relation_apart c ''source_object_version_id'' \<longleftrightarrow> clash (rv_SourceObjectVersionID b)
      (rv_SourceObjectVersionID (rc_SourceVersion c)) (rv_SourceObjectVersionID t)"
    and "relation_apart c ''target_object_version_id'' \<longleftrightarrow> clash (rv_TargetObjectVersionID b)
      (rv_TargetObjectVersionID (rc_SourceVersion c)) (rv_TargetObjectVersionID t)"
    unfolding relation_apart_def C relationFieldDiff_iff relationFieldDiverged_def
    by (auto simp: assms clash_def Let_def)
  show "relation_apart c ''payload'' \<longleftrightarrow> divergedPayloadKeys (rv_Payload b)
      (rv_Payload (rc_SourceVersion c)) (rv_Payload t) True \<noteq> []"
    unfolding relation_apart_def C relationFieldDiff_iff relationFieldDiverged_def
    by (auto simp: assms Let_def)
qed

text \<open>The auto-merge boundary of a relation change: it is auto-mergeable exactly when, where
  both branches moved the relation, its type and its two pins do not have three different values
  and no payload key diverged.\<close>

theorem relation_auto_iff:
  assumes "Detect i = Inr r" and "c \<in> set (df_RelationChanges (rp_Diff r))"
  shows "\<exists>v \<in> set (rp_RelationVerdicts r). vr_RelationID v = rc_RelationID c \<and>
    (vr_AutoMergeable v \<longleftrightarrow>
       (\<forall>b t. rc_BaseVersion c = Some b \<longrightarrow> rc_TargetVersion c = Some t \<longrightarrow> rv_ID b \<noteq> rv_ID t \<longrightarrow>
          \<not> clash (rv_RelationType b) (rv_RelationType (rc_SourceVersion c)) (rv_RelationType t)
          \<and> \<not> clash (rv_SourceObjectVersionID b) (rv_SourceObjectVersionID (rc_SourceVersion c))
               (rv_SourceObjectVersionID t)
          \<and> \<not> clash (rv_TargetObjectVersionID b) (rv_TargetObjectVersionID (rc_SourceVersion c))
               (rv_TargetObjectVersionID t)
          \<and> divergedPayloadKeys (rv_Payload b) (rv_Payload (rc_SourceVersion c)) (rv_Payload t) True = []))"
    (is "\<exists>v \<in> _. _ \<and> (_ \<longleftrightarrow> ?spec)")
proof -
  from assms(1) have ok: "relation_change_ok c" and
    V: "rp_RelationVerdicts r =
      map (\<lambda>c. finishRelation c (relation_conflicts c)) (df_RelationChanges (rp_Diff r))"
    by (auto elim!: DetectE intro: assms(2))
  have "relation_conflicts c = [] \<longleftrightarrow>
      (rc_TargetMoved c \<longrightarrow> (\<forall>f \<in> set canonicalRelationFields. \<not> relation_apart c f))"
    using rel_fields.no_groups [of c] by (auto simp: relation_conflicts_def relation_groups_def)
  also have "\<dots> \<longleftrightarrow> ?spec"
  proof (cases "rc_BaseVersion c = None \<or> rc_TargetVersion c = None")
    case True
    then have "\<not> relation_apart c f" for f using ok by (auto simp: relation_apart_def relation_change_ok_def)
    with True show ?thesis by auto
  next
    case False
    then obtain b t where bt: "rc_BaseVersion c = Some b" "rc_TargetVersion c = Some t" by auto
    have "rc_TargetMoved c \<longleftrightarrow> rv_ID b \<noteq> rv_ID t"
      using ok bt by (simp add: relation_change_ok_def relationHeadMoved_def)
    then show ?thesis by (simp add: bt canonicalRelationFields_def relation_apart_iff [OF ok bt])
  qed
  finally show ?thesis using V assms(2) by (auto simp: finishRelation_def)
qed

theorem relation_auto_iff_witness:
  "\<exists>v \<in> set (rp_RelationVerdicts (projr (Detect sample_in))). vr_RelationID v = ''r1'' \<and> vr_AutoMergeable v"
proof -
  have c: "sample_rchange \<in> set (df_RelationChanges (rp_Diff (projr (Detect sample_in))))"
    by (simp add: sample_detects(2) sample_diff_def)
  have "rc_BaseVersion sample_rchange = None" "rc_RelationID sample_rchange = ''r1''"
    by (simp_all add: sample_rchange_def)
  then show ?thesis using relation_auto_iff [OF sample_detects(1) c] by auto
qed

lemma fold_summarize_verdict:
  "fold (\<lambda>v. summarize_verdict (f v) (g v)) vs (a, b, m) =
     (a + int (length (filter f vs)), b + int (length (filter (\<lambda>v. \<not> f v) vs)),
      fold incr (map cf_Category (concat (map g vs))) m)"
proof -
  have *: "fold (\<lambda>c. incr (cf_Category c)) cs m = fold incr (map cf_Category cs) m" for cs m
    by (induction cs arbitrary: m) auto
  show ?thesis by (induction vs arbitrary: a b m) (auto simp: summarize_verdict_def *)
qed

lemma conflict_summarize_closed:
  "conflict_summarize objs rels =
     (let cats = map cf_Category (concat (map vo_Conflicts objs) @ concat (map vr_Conflicts rels)) in
      \<lparr>cs_ObjectsAutoMergeable = int (length (filter vo_AutoMergeable objs)),
       cs_ObjectsConflicted = int (length (filter (\<lambda>v. \<not> vo_AutoMergeable v) objs)),
       cs_RelationsAutoMergeable = int (length (filter vr_AutoMergeable rels)),
       cs_RelationsConflicted = int (length (filter (\<lambda>v. \<not> vr_AutoMergeable v) rels)),
       cs_ConflictsByCategory = map (\<lambda>cat. \<lparr>cc_Category = cat, cc_Count = int (count_list cats cat)\<rparr>)
         (sort (map fst (counts cats)))\<rparr>)"
proof -
  let ?oc = "map cf_Category (concat (map vo_Conflicts objs))"
  let ?rc = "map cf_Category (concat (map vr_Conflicts rels))"
  have "fold incr ?rc (fold incr ?oc []) = counts (?oc @ ?rc)" by (simp add: counts_def)
  then show ?thesis
    by (simp add: conflict_summarize_def fold_summarize_verdict Let_def map_of_counts keys_counts
        count_notin cong: map_cong)
qed

text \<open>The summary adds up, and the report is auto-mergeable exactly when it holds no conflict.
  Every verdict is counted once, the categories are listed once each, in ascending order of their
  spelling, and the count of a category is the number of conflicts of that category.\<close>

theorem report_summary_adds_up:
  assumes "Detect i = Inr r"
  shows "cs_ObjectsAutoMergeable (rp_Summary r) + cs_ObjectsConflicted (rp_Summary r)
        = int (length (df_ObjectChanges (rp_Diff r)))
    \<and> cs_RelationsAutoMergeable (rp_Summary r) + cs_RelationsConflicted (rp_Summary r)
        = int (length (df_RelationChanges (rp_Diff r)))
    \<and> sorted (map (\<lambda>n. category_wire (cc_Category n)) (cs_ConflictsByCategory (rp_Summary r)))
    \<and> distinct (map cc_Category (cs_ConflictsByCategory (rp_Summary r)))
    \<and> (\<forall>n \<in> set (cs_ConflictsByCategory (rp_Summary r)). cc_Count n =
         int (count_list (map cf_Category (concat (map vo_Conflicts (rp_ObjectVerdicts r))
               @ concat (map vr_Conflicts (rp_RelationVerdicts r)))) (cc_Category n)))
    \<and> (rp_AutoMergeable r \<longleftrightarrow> (\<forall>v \<in> set (rp_ObjectVerdicts r). vo_Conflicts v = [])
          \<and> (\<forall>v \<in> set (rp_RelationVerdicts r). vr_Conflicts v = []))"
proof -
  from assms have V: "rp_ObjectVerdicts r =
      map (\<lambda>c. finishObject c (object_conflicts (createdOnTarget i) c)) (df_ObjectChanges (rp_Diff r))"
    and W: "rp_RelationVerdicts r =
      map (\<lambda>c. finishRelation c (relation_conflicts c)) (df_RelationChanges (rp_Diff r))"
    and A: "rp_AutoMergeable r = allAuto (rp_ObjectVerdicts r) (rp_RelationVerdicts r)"
    and S: "rp_Summary r = conflict_summarize (rp_ObjectVerdicts r) (rp_RelationVerdicts r)"
    by (auto elim: DetectE)
  have split: "int (length (filter P xs)) + int (length (filter (\<lambda>x. \<not> P x) xs)) = int (length xs)"
    for P and xs :: "'a list"
    by (induction xs) auto
  have wire: "sorted (map category_wire xs) \<longleftrightarrow> sorted xs" for xs
    by (simp add: sorted_map less_eq_ConflictCategory_def sorted_wrt_iff_nth_less)
  have auto: "rp_AutoMergeable r \<longleftrightarrow> (\<forall>v \<in> set (rp_ObjectVerdicts r). vo_Conflicts v = [])
          \<and> (\<forall>v \<in> set (rp_RelationVerdicts r). vr_Conflicts v = [])"
    unfolding A allAuto_def V W by (auto simp: list_all_iff finishObject_def finishRelation_def)
  have len: "length (rp_ObjectVerdicts r) = length (df_ObjectChanges (rp_Diff r))"
    "length (rp_RelationVerdicts r) = length (df_RelationChanges (rp_Diff r))"
    by (simp_all add: V W)
  have "sorted (map category_wire (sort (map fst (counts ks))))" for ks by (simp add: wire)
  then show ?thesis
    unfolding auto S conflict_summarize_closed Let_def
    by (simp add: split len comp_def distinct_counts)
qed

theorem report_summary_adds_up_witness:
  "cs_ObjectsAutoMergeable (rp_Summary (projr (Detect sample_in)))
     + cs_ObjectsConflicted (rp_Summary (projr (Detect sample_in))) = 1"
  using report_summary_adds_up [OF sample_detects(1)] by (simp add: sample_detects(2) sample_diff_def)

end
