(* ===== verification/MergePlan.thy ===== *)
theory MergePlan
  imports Conflict
begin

text \<open>
  The semantic merge engine (internal/rsg/merge: keys.go, endpoints.go, merge.go) and the decision
  vocabulary it reads (internal/domain/conflict_resolution.go).  \<open>Merge\<close> recomputes the
  conflict report of a three-state input, matches the human decisions against it, and plans what
  the accepted state will hold: each change lands, keeps the target, is carried as an open
  conflict, is aborted, is withheld, or blocks the whole plan.

  Enumerations that arrive from outside as strings (target kinds, decision kinds, visibilities)
  stay strings, so that the validation of unknown spellings is part of the model; the effects the
  engine itself produces are a datatype, its empty value \<open>None\<close>.
\<close>

section \<open>Decisions\<close>

definition ResolutionAcceptSource :: string where "ResolutionAcceptSource = ''accept_source''"
definition ResolutionAcceptTarget :: string where "ResolutionAcceptTarget = ''accept_target''"
definition ResolutionKeepBoth :: string where "ResolutionKeepBoth = ''keep_both''"
definition ResolutionExplicitCoexistence :: string where
  "ResolutionExplicitCoexistence = ''explicit_coexistence''"
definition ResolutionValidationBranch :: string where
  "ResolutionValidationBranch = ''validation_branch''"
definition ResolutionRequestEvidence :: string where
  "ResolutionRequestEvidence = ''request_evidence''"
definition ResolutionAbortChange :: string where "ResolutionAbortChange = ''abort_change''"
definition ResolutionUnresolved :: string where "ResolutionUnresolved = ''unresolved''"

definition TargetObject :: string where "TargetObject = ''object''"
definition TargetRelation :: string where "TargetRelation = ''relation''"

lemmas resolution_kinds =
  ResolutionAcceptSource_def ResolutionAcceptTarget_def ResolutionKeepBoth_def
  ResolutionExplicitCoexistence_def ResolutionValidationBranch_def ResolutionRequestEvidence_def
  ResolutionAbortChange_def ResolutionUnresolved_def

declare resolution_kinds [wire_simps] TargetObject_def [wire_simps] TargetRelation_def [wire_simps]

definition ValidResolutionKind :: "string \<Rightarrow> bool" where
  "ValidResolutionKind k \<longleftrightarrow>
     k \<in> {ResolutionAcceptSource, ResolutionAcceptTarget, ResolutionKeepBoth,
          ResolutionExplicitCoexistence, ResolutionValidationBranch, ResolutionRequestEvidence,
          ResolutionAbortChange, ResolutionUnresolved}"

definition ValidResolutionTargetKind :: "string \<Rightarrow> bool" where
  "ValidResolutionTargetKind k \<longleftrightarrow> k = TargetObject \<or> k = TargetRelation"

record Decision =
  de_TargetKind :: string
  de_TargetID :: string
  de_Code :: string
  de_Fields :: "string list"
  de_PayloadKeys :: "string list"
  de_OtherObjectID :: string
  de_Kind :: string
  de_DecidedBy :: string
  de_Note :: string

record MergeInputs =
  mi_ProjectID :: string
  mi_Diff :: DiffInputs
  mi_Decisions :: "Decision list"
  mi_SourceVisibility :: string
  mi_TargetVisibility :: string

section \<open>Classifier keys\<close>

record classifierKey =
  k_targetKind :: string
  k_targetID :: string
  k_code :: string
  k_fields :: string
  k_payloadKeys :: string
  k_otherObjectID :: string

fun join_nul :: "string list \<Rightarrow> string" where
  "join_nul [] = []"
| "join_nul [s] = s"
| "join_nul (s # t # ss) = s @ CHR 0x00 # join_nul (t # ss)"

definition joinStrings :: "string list \<Rightarrow> string" where
  "joinStrings ss = (if length ss = 0 then [] else join_nul (sort ss))"

definition keyOf :: "string \<Rightarrow> string \<Rightarrow> Conflict \<Rightarrow> classifierKey" where
  "keyOf targetKind targetID c =
     \<lparr>k_targetKind = targetKind, k_targetID = targetID, k_code = cf_Code c,
      k_fields = joinStrings (cf_Fields c), k_payloadKeys = joinStrings (cf_PayloadKeys c),
      k_otherObjectID = cf_OtherObjectID c\<rparr>"

definition keyOfDecision :: "Decision \<Rightarrow> classifierKey" where
  "keyOfDecision d =
     \<lparr>k_targetKind = de_TargetKind d, k_targetID = de_TargetID d, k_code = de_Code d,
      k_fields = joinStrings (de_Fields d), k_payloadKeys = joinStrings (de_PayloadKeys d),
      k_otherObjectID = de_OtherObjectID d\<rparr>"

datatype invalid_decision =
  UnknownTargetKind | NoTargetID | NoConflictCode | UnknownResolutionKind | NoHumanDecider

datatype merge_error =
    ProjectRequired
  | DetectFailed detect_error
  | VerdictsMisaligned
  | ErrInvalidDecision invalid_decision Decision
  | ErrDecisionNotInReport Decision
  | ErrDuplicateDecision Decision

definition validateDecision :: "Decision \<Rightarrow> invalid_decision option" where
  "validateDecision d =
     (if \<not> ValidResolutionTargetKind (de_TargetKind d) then Some UnknownTargetKind
      else if de_TargetID d = [] then Some NoTargetID
      else if de_Code d = [] then Some NoConflictCode
      else if \<not> ValidResolutionKind (de_Kind d) then Some UnknownResolutionKind
      else if de_DecidedBy d = [] then Some NoHumanDecider
      else None)"

definition conflictUniverse :: "Report \<Rightarrow> classifierKey list" where
  "conflictUniverse r =
     concat (map (\<lambda>v. map (keyOf TargetObject (vo_ObjectID v)) (vo_Conflicts v)) (rp_ObjectVerdicts r))
     @ concat (map (\<lambda>v. map (keyOf TargetRelation (vr_RelationID v)) (vr_Conflicts v)) (rp_RelationVerdicts r))"

type_synonym decision_index = "(classifierKey \<times> Decision) list"

definition indexDecision :: "classifierKey list \<Rightarrow> Decision \<Rightarrow> decision_index \<Rightarrow> merge_error + decision_index" where
  "indexDecision universe d out =
     (case validateDecision d of
        Some e \<Rightarrow> Inl (ErrInvalidDecision e d)
      | None \<Rightarrow>
          (let key = keyOfDecision d in
           if key \<notin> set universe then Inl (ErrDecisionNotInReport d)
           else if map_of out key \<noteq> None then Inl (ErrDuplicateDecision d)
           else Inr (AList.update key d out)))"

definition indexDecisions :: "Report \<Rightarrow> Decision list \<Rightarrow> merge_error + decision_index" where
  "indexDecisions r ds = fold_err (indexDecision (conflictUniverse r)) ds []"

section \<open>The plan\<close>

datatype Effect = EffectApply | EffectKeepTarget | EffectCarryBoth | EffectAbortProposed | EffectBlocked

datatype BlockDetail =
    DetailUnclassified
  | DetailUnusableKind string string string string
  | DetailNoDecision string string string
  | DetailDiverge string string string "string list"
  | DetailSentToValidation string string
  | DetailEvidenceRequested string string
  | DetailNotMergeable string string
  | DetailJustBlocked
  | DetailCodeOnly string
  | DetailNothing

record planBlock =
  pb_Code :: string
  pb_Detail :: BlockDetail

definition CodeConflictUndecided :: string where "CodeConflictUndecided = ''MERGE_CONFLICT_UNDECIDED''"
definition CodeDecisionsDiverge :: string where
  "CodeDecisionsDiverge = ''MERGE_CONFLICT_DECISIONS_DIVERGE''"
definition CodeUnclassified :: string where "CodeUnclassified = ''MERGE_CHANGE_UNCLASSIFIED''"
definition CodeValidationBranch :: string where
  "CodeValidationBranch = ''MERGE_VALIDATION_BRANCH_REQUIRED''"
definition CodeMoreEvidence :: string where "CodeMoreEvidence = ''MERGE_MORE_EVIDENCE_REQUIRED''"
definition CodeNothingToMerge :: string where "CodeNothingToMerge = ''MERGE_NOTHING_TO_MERGE''"
definition ReasonPublicationGate :: string where "ReasonPublicationGate = ''PUBLICATION_GATE_REQUIRED''"
definition ReasonFoundationHeld :: string where "ReasonFoundationHeld = ''FOUNDATION_WITHHELD''"
definition ResolutionAuto :: string where "ResolutionAuto = ''auto''"
definition ResolutionUndecided :: string where "ResolutionUndecided = ''undecided''"
definition BranchVisibilityPrivate :: string where "BranchVisibilityPrivate = ''private''"
definition BranchVisibilityPublic :: string where "BranchVisibilityPublic = ''public''"

record Change =
  ch_TargetKind :: string
  ch_TargetID :: string
  ch_ObjectType :: string
  ch_Kind :: ChangeKind
  ch_Resolution :: string
  ch_Effect :: "Effect option"
  ch_Materialize :: bool
  ch_Withheld :: bool
  ch_WithholdReason :: string
  ch_Blocked :: bool
  ch_Block :: string
  ch_blocks :: "planBlock list"
  ch_SourceVersionID :: string
  ch_TargetVersionID :: string
  ch_EndpointRewrites :: "(string \<times> string) list"
  ch_Conflicts :: "Conflict list"

record Carried =
  ca_TargetKind :: string
  ca_TargetID :: string
  ca_Code :: string
  ca_Category :: ConflictCategory
  ca_Fields :: "string list"
  ca_PayloadKeys :: "string list"
  ca_OtherObjectID :: string
  ca_Detail :: Detail
  ca_Decision :: string
  ca_DecidedBy :: string
  ca_Note :: string
  ca_SourceVersionID :: string
  ca_TargetVersionID :: string

record Withheld =
  wh_TargetKind :: string
  wh_TargetID :: string
  wh_SourceVersionID :: string
  wh_Reason :: string

record Blocker =
  bl_Code :: string
  bl_TargetID :: string
  bl_Detail :: BlockDetail

record PlanSummary =
  sm_Applied :: int
  sm_KeptTarget :: int
  sm_Carried :: int
  sm_Aborted :: int
  sm_Blocked :: int
  sm_Withheld :: int
  sm_ConflictsByCategory :: "CategoryCount list"

record Plan =
  pl_FormatVersion :: string
  pl_ProjectID :: string
  pl_Base :: StateRef
  pl_Source :: StateRef
  pl_Target :: StateRef
  pl_Report :: Report
  pl_Changes :: "Change list"
  pl_Carried :: "Carried list"
  pl_Withheld :: "Withheld list"
  pl_Blockers :: "Blocker list"
  pl_Executable :: bool
  pl_Summary :: PlanSummary
  pl_applied :: decision_index

section \<open>Resolving one change\<close>

definition effectOf :: "string \<Rightarrow> Effect option" where
  "effectOf k =
     (if k = ResolutionAcceptSource then Some EffectApply
      else if k = ResolutionAcceptTarget then Some EffectKeepTarget
      else if k \<in> {ResolutionKeepBoth, ResolutionExplicitCoexistence, ResolutionUnresolved}
        then Some EffectCarryBoth
      else if k = ResolutionAbortChange then Some EffectAbortProposed
      else if k \<in> {ResolutionValidationBranch, ResolutionRequestEvidence} then Some EffectBlocked
      else None)"

definition blockerOf :: "string \<Rightarrow> string" where
  "blockerOf k =
     (if k = ResolutionValidationBranch then CodeValidationBranch
      else if k = ResolutionRequestEvidence then CodeMoreEvidence
      else CodeConflictUndecided)"

definition blockerDetail :: "string \<Rightarrow> string \<Rightarrow> string \<Rightarrow> BlockDetail" where
  "blockerDetail k target tid =
     (if k = ResolutionValidationBranch then DetailSentToValidation target tid
      else if k = ResolutionRequestEvidence then DetailEvidenceRequested target tid
      else DetailNotMergeable target tid)"

record resolve_state =
  rs_effect :: "Effect option"
  rs_firstKind :: string
  rs_missing :: "Conflict option"
  rs_diverged :: "string list"
  rs_blocking :: "planBlock list"

text \<open>One iteration of the loop over the conflicts; \<open>Inl\<close> is its early return.  The
  map of seen codes is the codes of the collected blocks.\<close>

definition resolve_step :: "decision_index \<Rightarrow> string \<Rightarrow> string \<Rightarrow> Conflict \<Rightarrow> resolve_state \<Rightarrow>
    planBlock list + resolve_state" where
  "resolve_step applied kind tid c st =
     (case map_of applied (keyOf kind tid c) of
        None \<Rightarrow> Inr (if rs_missing st = None then st\<lparr>rs_missing := Some c\<rparr> else st)
      | Some d \<Rightarrow>
          (case effectOf (de_Kind d) of
             None \<Rightarrow> Inl [\<lparr>pb_Code = CodeConflictUndecided,
                           pb_Detail = DetailUnusableKind (cf_Code c) kind tid (de_Kind d)\<rparr>]
           | Some e \<Rightarrow>
               (let code = blockerOf (de_Kind d);
                    st1 = (if e = EffectBlocked \<and> code \<notin> set (map pb_Code (rs_blocking st))
                           then st\<lparr>rs_blocking := rs_blocking st @
                                  [\<lparr>pb_Code = code, pb_Detail = blockerDetail (de_Kind d) kind tid\<rparr>]\<rparr>
                           else st) in
                if rs_effect st1 = None then Inr (st1\<lparr>rs_effect := Some e, rs_firstKind := de_Kind d\<rparr>)
                else if rs_effect st1 \<noteq> Some e
                then Inr (st1\<lparr>rs_diverged := rs_diverged st1 @ [cf_Code c @ '':'' @ de_Kind d]\<rparr>)
                else Inr st1)))"

definition resolve :: "decision_index \<Rightarrow> string \<Rightarrow> string \<Rightarrow> Conflict list \<Rightarrow>
    Effect option \<times> planBlock list" where
  "resolve applied kind tid conflicts =
     (case fold_err (resolve_step applied kind tid) conflicts
             \<lparr>rs_effect = None, rs_firstKind = [], rs_missing = None, rs_diverged = [], rs_blocking = []\<rparr> of
        Inl blocks \<Rightarrow> (Some EffectBlocked, blocks)
      | Inr st \<Rightarrow>
          (case rs_missing st of
             Some c \<Rightarrow> (Some EffectBlocked,
                 [\<lparr>pb_Code = CodeConflictUndecided, pb_Detail = DetailNoDecision (cf_Code c) kind tid\<rparr>])
           | None \<Rightarrow>
               if length (rs_diverged st) > 0
               then (Some EffectBlocked, [\<lparr>pb_Code = CodeDecisionsDiverge,
                      pb_Detail = DetailDiverge kind tid (rs_firstKind st) (sort (rs_diverged st))\<rparr>])
               else if rs_effect st = Some EffectBlocked then (Some EffectBlocked, rs_blocking st)
               else (rs_effect st, [])))"

fun decisionKind :: "decision_index \<Rightarrow> string \<Rightarrow> string \<Rightarrow> Conflict list \<Rightarrow> string" where
  "decisionKind applied kind tid [] = []"
| "decisionKind applied kind tid (c # cs) =
     (case map_of applied (keyOf kind tid c) of
        Some d \<Rightarrow> de_Kind d | None \<Rightarrow> decisionKind applied kind tid cs)"

definition guardPublication :: "bool \<Rightarrow> Change \<Rightarrow> Change" where
  "guardPublication publishGuard out =
     (if publishGuard
      then out\<lparr>ch_Materialize := False, ch_Withheld := True, ch_WithholdReason := ReasonPublicationGate\<rparr>
      else out)"

definition block :: "Change \<Rightarrow> planBlock list \<Rightarrow> Change" where
  "block out blocks =
     out\<lparr>ch_Effect := Some EffectBlocked, ch_Blocked := True,
         ch_Block := (if length blocks > 0 then pb_Code (hd blocks) else ch_Block out),
         ch_blocks := blocks, ch_Materialize := False\<rparr>"

definition decideChange :: "decision_index \<Rightarrow> bool \<Rightarrow> Change \<Rightarrow> bool \<Rightarrow> Change" where
  "decideChange applied publishGuard out autoMergeable =
     (if autoMergeable
      then guardPublication publishGuard
             (out\<lparr>ch_Resolution := ResolutionAuto, ch_Effect := Some EffectApply, ch_Materialize := True\<rparr>)
      else if length (ch_Conflicts out) = 0
      then block (out\<lparr>ch_Resolution := ResolutionUndecided\<rparr>)
             [\<lparr>pb_Code = CodeUnclassified, pb_Detail = DetailUnclassified\<rparr>]
      else
        (let (effect, blocks) = resolve applied (ch_TargetKind out) (ch_TargetID out) (ch_Conflicts out);
             out1 = out\<lparr>ch_Resolution :=
               decisionKind applied (ch_TargetKind out) (ch_TargetID out) (ch_Conflicts out)\<rparr> in
         if length blocks > 0 then block (out1\<lparr>ch_Resolution := ResolutionUndecided\<rparr>) blocks
         else
           (let out2 = out1\<lparr>ch_Effect := effect\<rparr> in
            if effect = Some EffectApply
            then guardPublication publishGuard (out2\<lparr>ch_Materialize := True\<rparr>)
            else out2)))"

definition new_change :: "string \<Rightarrow> string \<Rightarrow> string \<Rightarrow> ChangeKind \<Rightarrow> string \<Rightarrow> string \<Rightarrow> Conflict list \<Rightarrow> Change" where
  "new_change tkind tid otype kind srcVersion tgtVersion conflicts =
     \<lparr>ch_TargetKind = tkind, ch_TargetID = tid, ch_ObjectType = otype, ch_Kind = kind,
      ch_Resolution = [], ch_Effect = None, ch_Materialize = False, ch_Withheld = False,
      ch_WithholdReason = [], ch_Blocked = False, ch_Block = [], ch_blocks = [],
      ch_SourceVersionID = srcVersion, ch_TargetVersionID = tgtVersion,
      ch_EndpointRewrites = [], ch_Conflicts = conflicts\<rparr>"

definition planObjectChange :: "decision_index \<Rightarrow> bool \<Rightarrow> ObjectChange \<Rightarrow> ObjectVerdict \<Rightarrow> Change" where
  "planObjectChange applied publishGuard c v =
     decideChange applied publishGuard
       (new_change TargetObject (oc_ObjectID c) (oc_ObjectType c) (oc_Kind c) (ov_ID (oc_SourceVersion c))
          (case oc_TargetVersion c of None \<Rightarrow> [] | Some t \<Rightarrow> ov_ID t) (vo_Conflicts v))
       (vo_AutoMergeable v)"

section \<open>Endpoints\<close>

record endpointIndex =
  ei_objectOfVersion :: "(string \<times> string) list"
  ei_targetVersions :: "string list"
  ei_materializedByObject :: "(string \<times> string) list"
  ei_publicationHeld :: "string list"

definition index_change :: "Change \<Rightarrow> endpointIndex \<Rightarrow> endpointIndex" where
  "index_change c idx =
     (if ch_TargetKind c \<noteq> TargetObject then idx
      else if ch_Materialize c
      then idx\<lparr>ei_materializedByObject :=
             AList.update (ch_TargetID c) (ch_SourceVersionID c) (ei_materializedByObject idx)\<rparr>
      else if ch_WithholdReason c = ReasonPublicationGate
      then idx\<lparr>ei_publicationHeld := ch_TargetID c # ei_publicationHeld idx\<rparr>
      else idx)"

definition newEndpointIndex :: "DiffInputs \<Rightarrow> Change list \<Rightarrow> endpointIndex" where
  "newEndpointIndex i changes =
     fold index_change changes
       \<lparr>ei_objectOfVersion = fold (\<lambda>v. AList.update (ov_ID v) (ov_ObjectID v))
          (sn_ObjectVersions (in_SourceSnapshot i)) [],
        ei_targetVersions = map ov_ID (sn_ObjectVersions (in_TargetSnapshot i)),
        ei_materializedByObject = [], ei_publicationHeld = []\<rparr>"

text \<open>\<open>Inl\<close> is the withhold reason of a relation that cannot be written.\<close>

definition resolve_pin :: "endpointIndex \<Rightarrow> string \<Rightarrow> (string \<times> string) list \<Rightarrow> string + (string \<times> string) list" where
  "resolve_pin idx pin rewrites =
     (if pin = [] then Inr rewrites
      else if pin \<in> set (ei_targetVersions idx) then Inr rewrites
      else (case map_of (ei_objectOfVersion idx) pin of
              None \<Rightarrow> Inl ReasonFoundationHeld
            | Some objectID \<Rightarrow>
                if map_of (ei_materializedByObject idx) objectID \<noteq> None
                then Inr (AList.update pin objectID rewrites)
                else if objectID \<in> set (ei_publicationHeld idx) then Inl ReasonPublicationGate
                else Inl ReasonFoundationHeld))"

definition resolve_pins :: "endpointIndex \<Rightarrow> string list \<Rightarrow> string + (string \<times> string) list" where
  "resolve_pins idx pins = fold_err (resolve_pin idx) pins []"

definition planRelationChange :: "decision_index \<Rightarrow> bool \<Rightarrow> endpointIndex \<Rightarrow> RelationChange \<Rightarrow>
    RelationVerdict \<Rightarrow> Change" where
  "planRelationChange applied publishGuard endpoints c v =
     (let out = decideChange applied publishGuard
            (new_change TargetRelation (rc_RelationID c) [] (rc_Kind c) (rv_ID (rc_SourceVersion c))
               (case rc_TargetVersion c of None \<Rightarrow> [] | Some t \<Rightarrow> rv_ID t) (vr_Conflicts v))
            (vr_AutoMergeable v) in
      if \<not> ch_Materialize out then out
      else (case resolve_pins endpoints [rv_SourceObjectVersionID (rc_SourceVersion c),
                   rv_TargetObjectVersionID (rc_SourceVersion c)] of
              Inl reason \<Rightarrow> out\<lparr>ch_Materialize := False, ch_Withheld := True, ch_WithholdReason := reason\<rparr>
            | Inr rewrites \<Rightarrow> out\<lparr>ch_EndpointRewrites := rewrites\<rparr>))"

section \<open>Finishing the plan\<close>

definition change_blockers :: "Change \<Rightarrow> planBlock list" where
  "change_blockers c =
     (if length (ch_blocks c) > 0 then ch_blocks c
      else if ch_Block c = [] then [\<lparr>pb_Code = CodeConflictUndecided, pb_Detail = DetailJustBlocked\<rparr>]
      else [\<lparr>pb_Code = ch_Block c, pb_Detail = DetailCodeOnly (ch_Block c)\<rparr>])"

definition carriedOf :: "decision_index \<Rightarrow> Change \<Rightarrow> Carried list" where
  "carriedOf applied c =
     List.map_filter (\<lambda>cf.
       case map_of applied (keyOf (ch_TargetKind c) (ch_TargetID c) cf) of
         None \<Rightarrow> None
       | Some d \<Rightarrow> Some
           \<lparr>ca_TargetKind = ch_TargetKind c, ca_TargetID = ch_TargetID c, ca_Code = cf_Code cf,
            ca_Category = cf_Category cf, ca_Fields = cf_Fields cf, ca_PayloadKeys = cf_PayloadKeys cf,
            ca_OtherObjectID = cf_OtherObjectID cf, ca_Detail = cf_Detail cf, ca_Decision = de_Kind d,
            ca_DecidedBy = de_DecidedBy d, ca_Note = de_Note d,
            ca_SourceVersionID = ch_SourceVersionID c, ca_TargetVersionID = ch_TargetVersionID c\<rparr>)
       (ch_Conflicts c)"

definition tally :: "Change \<Rightarrow> PlanSummary \<Rightarrow> PlanSummary" where
  "tally c s =
     (case ch_Effect c of
        Some EffectApply \<Rightarrow>
          if ch_Withheld c then s\<lparr>sm_Withheld := sm_Withheld s + 1\<rparr> else s\<lparr>sm_Applied := sm_Applied s + 1\<rparr>
      | Some EffectKeepTarget \<Rightarrow> s\<lparr>sm_KeptTarget := sm_KeptTarget s + 1\<rparr>
      | Some EffectCarryBoth \<Rightarrow> s\<lparr>sm_Carried := sm_Carried s + 1\<rparr>
      | Some EffectAbortProposed \<Rightarrow> s\<lparr>sm_Aborted := sm_Aborted s + 1\<rparr>
      | Some EffectBlocked \<Rightarrow> s\<lparr>sm_Blocked := sm_Blocked s + 1\<rparr>
      | None \<Rightarrow> s)"

definition categoryCounts :: "Report \<Rightarrow> CategoryCount list" where
  "categoryCounts r = cs_ConflictsByCategory (rp_Summary r)"

definition finish :: "Plan \<Rightarrow> Plan" where
  "finish p =
     (let carried = concat (map (\<lambda>c. if ch_Effect c = Some EffectCarryBoth then carriedOf (pl_applied p) c
            else []) (pl_Changes p));
          withheld = map (\<lambda>c. \<lparr>wh_TargetKind = ch_TargetKind c, wh_TargetID = ch_TargetID c,
                wh_SourceVersionID = ch_SourceVersionID c, wh_Reason = ch_WithholdReason c\<rparr>)
            (filter ch_Withheld (pl_Changes p));
          blockers = concat (map (\<lambda>c. map (\<lambda>b. \<lparr>bl_Code = pb_Code b, bl_TargetID = ch_TargetID c,
                bl_Detail = pb_Detail b\<rparr>) (change_blockers c)) (filter ch_Blocked (pl_Changes p)));
          summary = (fold tally (pl_Changes p)
                \<lparr>sm_Applied = 0, sm_KeptTarget = 0, sm_Carried = 0, sm_Aborted = 0, sm_Blocked = 0,
                 sm_Withheld = 0, sm_ConflictsByCategory = []\<rparr>)
              \<lparr>sm_ConflictsByCategory := categoryCounts (pl_Report p)\<rparr>;
          blockers1 = (if sm_Applied summary = 0 \<and> length blockers = 0
                       then blockers @ [\<lparr>bl_Code = CodeNothingToMerge, bl_TargetID = [], bl_Detail = DetailNothing\<rparr>]
                       else blockers);
          sorted_blockers = sort_key (\<lambda>b. (bl_TargetID b, bl_Code b)) blockers1
      in p\<lparr>pl_Carried := carried, pl_Withheld := withheld, pl_Blockers := sorted_blockers,
           pl_Executable := (length sorted_blockers = 0), pl_Summary := summary\<rparr>)"

definition Materialized :: "Plan \<Rightarrow> Change list" where
  "Materialized p = filter ch_Materialize (pl_Changes p)"

definition plan_changes :: "MergeInputs \<Rightarrow> Report \<Rightarrow> decision_index \<Rightarrow> Change list" where
  "plan_changes i report applied =
     (let publishGuard = (mi_SourceVisibility i = BranchVisibilityPrivate
            \<and> mi_TargetVisibility i = BranchVisibilityPublic);
          objs = map (\<lambda>(c, v). planObjectChange applied publishGuard c v)
            (zip (df_ObjectChanges (rp_Diff report)) (rp_ObjectVerdicts report));
          endpoints = newEndpointIndex (mi_Diff i) objs
      in objs @ map (\<lambda>(c, v). planRelationChange applied publishGuard endpoints c v)
            (zip (df_RelationChanges (rp_Diff report)) (rp_RelationVerdicts report)))"

definition Merge :: "MergeInputs \<Rightarrow> merge_error + Plan" where
  "Merge i =
     (if mi_ProjectID i = [] then Inl ProjectRequired
      else case Detect (mi_Diff i) of
        Inl e \<Rightarrow> Inl (DetectFailed e)
      | Inr report \<Rightarrow>
          if length (rp_ObjectVerdicts report) \<noteq> length (df_ObjectChanges (rp_Diff report))
             \<or> length (rp_RelationVerdicts report) \<noteq> length (df_RelationChanges (rp_Diff report))
          then Inl VerdictsMisaligned
          else (case indexDecisions report (mi_Decisions i) of
             Inl e \<Rightarrow> Inl e
           | Inr applied \<Rightarrow>
               Inr (finish
                 \<lparr>pl_FormatVersion = FormatV1, pl_ProjectID = mi_ProjectID i,
                  pl_Base = in_Base (mi_Diff i), pl_Source = in_Source (mi_Diff i),
                  pl_Target = in_Target (mi_Diff i), pl_Report = report,
                  pl_Changes = plan_changes i report applied, pl_Carried = [], pl_Withheld = [],
                  pl_Blockers = [], pl_Executable = False,
                  pl_Summary = \<lparr>sm_Applied = 0, sm_KeptTarget = 0, sm_Carried = 0, sm_Aborted = 0,
                    sm_Blocked = 0, sm_Withheld = 0, sm_ConflictsByCategory = []\<rparr>,
                  pl_applied = applied\<rparr>)))"

section \<open>The decision index\<close>

lemma indexDecision_Inr:
  "indexDecision universe d out = Inr out' \<longleftrightarrow>
     validateDecision d = None \<and> keyOfDecision d \<in> set universe
     \<and> keyOfDecision d \<notin> fst ` set out \<and> out' = out @ [(keyOfDecision d, d)]"
  by (auto simp: indexDecision_def Let_def update_fresh map_of_eq_None_iff split: option.splits if_splits)

lemma indexDecisions_fold:
  assumes "fold_err (indexDecision universe) ds out = Inr applied"
  shows "applied = out @ map (\<lambda>d. (keyOfDecision d, d)) ds
    \<and> (\<forall>d \<in> set ds. validateDecision d = None \<and> keyOfDecision d \<in> set universe)
    \<and> distinct (map keyOfDecision ds) \<and> (\<forall>d \<in> set ds. keyOfDecision d \<notin> fst ` set out)"
  using assms
proof (induction ds arbitrary: out)
  case (Cons d ds)
  then obtain out' where o: "indexDecision universe d out = Inr out'"
    and r: "fold_err (indexDecision universe) ds out' = Inr applied"
    by (auto split: sum.splits)
  from o have o': "out' = out @ [(keyOfDecision d, d)]" "validateDecision d = None"
    "keyOfDecision d \<in> set universe" "keyOfDecision d \<notin> fst ` set out"
    by (auto simp: indexDecision_Inr)
  from Cons.IH [OF r] o' show ?case by auto
qed simp

lemma indexDecisionsD:
  assumes "indexDecisions r ds = Inr applied"
  shows "applied = map (\<lambda>d. (keyOfDecision d, d)) ds" and "distinct (map keyOfDecision ds)"
    and "\<And>d. d \<in> set ds \<Longrightarrow> validateDecision d = None \<and> keyOfDecision d \<in> set (conflictUniverse r)"
  using indexDecisions_fold [OF assms [unfolded indexDecisions_def]] by simp_all

lemma indexed_lookup:
  assumes "indexDecisions r ds = Inr applied"
  shows "map_of applied k = Some d \<longleftrightarrow> d \<in> set ds \<and> keyOfDecision d = k"
proof -
  have "distinct (map fst applied)" using indexDecisionsD(1,2) [OF assms] by (simp add: comp_def)
  then have "map_of applied k = Some d \<longleftrightarrow> (k, d) \<in> set applied" by simp
  then show ?thesis by (auto simp: indexDecisionsD(1) [OF assms])
qed

lemma effectOf_valid: "ValidResolutionKind k \<Longrightarrow> \<exists>e. effectOf k = Some e"
  by (auto simp: ValidResolutionKind_def effectOf_def resolution_kinds)

lemma effectOf_apply: "effectOf k = Some EffectApply \<longleftrightarrow> k = ResolutionAcceptSource"
  by (auto simp: effectOf_def resolution_kinds)

lemma validateDecisionD:
  "validateDecision d = None \<Longrightarrow> ValidResolutionKind (de_Kind d) \<and> de_DecidedBy d \<noteq> [] \<and> de_TargetID d \<noteq> []"
  by (auto simp: validateDecision_def split: if_splits)

text \<open>An index whose decisions all have a usable kind, as \<open>indexDecisions\<close> guarantees.\<close>

definition usable :: "decision_index \<Rightarrow> bool" where
  "usable applied \<longleftrightarrow> (\<forall>k d. map_of applied k = Some d \<longrightarrow> (\<exists>e. effectOf (de_Kind d) = Some e))"

lemma indexed_usable: "indexDecisions r ds = Inr applied \<Longrightarrow> usable applied"
  unfolding usable_def
  by (metis effectOf_valid indexDecisionsD(3) indexed_lookup validateDecisionD)

section \<open>Resolving the conflicts of one change\<close>

text \<open>The effects of the decisions on a list of conflicts, in their order.\<close>

definition decided :: "decision_index \<Rightarrow> string \<Rightarrow> string \<Rightarrow> Conflict \<Rightarrow> Effect option" where
  "decided applied kind tid c =
     (case map_of applied (keyOf kind tid c) of None \<Rightarrow> None | Some d \<Rightarrow> effectOf (de_Kind d))"

lemma decided_None:
  "usable applied \<Longrightarrow> decided applied kind tid c = None \<longleftrightarrow> map_of applied (keyOf kind tid c) = None"
  by (auto simp: decided_def usable_def split: option.splits)

lemma resolve_step_eq:
  assumes "usable applied"
  shows "\<exists>st'. resolve_step applied kind tid c st = Inr st'
    \<and> (case decided applied kind tid c of
        None \<Rightarrow> st' = (if rs_missing st = None then st\<lparr>rs_missing := Some c\<rparr> else st)
      | Some e \<Rightarrow>
          rs_missing st' = rs_missing st
          \<and> rs_effect st' = (if rs_effect st = None then Some e else rs_effect st)
          \<and> (rs_diverged st' = [] \<longleftrightarrow> rs_diverged st = [] \<and> (rs_effect st = None \<or> rs_effect st = Some e))
          \<and> (rs_blocking st' = [] \<longleftrightarrow> rs_blocking st = [] \<and> e \<noteq> EffectBlocked))"
proof (cases "map_of applied (keyOf kind tid c)")
  case None
  then show ?thesis by (simp add: resolve_step_def decided_def)
next
  case (Some d)
  with assms obtain e where e: "effectOf (de_Kind d) = Some e" by (auto simp: usable_def)
  have "decided applied kind tid c = Some e" by (simp add: decided_def Some e)
  then show ?thesis by (auto simp: resolve_step_def Some e Let_def)
qed

definition resolve_init :: resolve_state where
  "resolve_init = \<lparr>rs_effect = None, rs_firstKind = [], rs_missing = None, rs_diverged = [], rs_blocking = []\<rparr>"

definition resolve_inv :: "(Conflict \<Rightarrow> Effect option) \<Rightarrow> Conflict list \<Rightarrow> resolve_state \<Rightarrow> bool" where
  "resolve_inv dec cs st \<longleftrightarrow>
     (rs_missing st = None \<longleftrightarrow> (\<forall>c \<in> set cs. dec c \<noteq> None))
     \<and> (rs_effect st = None \<longleftrightarrow> (\<forall>c \<in> set cs. dec c = None))
     \<and> (rs_diverged st = [] \<longleftrightarrow> (\<forall>c \<in> set cs. dec c \<in> {None, rs_effect st}))
     \<and> (rs_blocking st = [] \<longleftrightarrow> (\<forall>c \<in> set cs. dec c \<noteq> Some EffectBlocked))
     \<and> (rs_effect st = Some EffectBlocked \<longrightarrow> rs_blocking st \<noteq> [])
     \<and> (\<forall>e. rs_effect st = Some e \<longrightarrow> (\<exists>c \<in> set cs. dec c = Some e))"

lemma resolve_invD:
  assumes "resolve_inv dec cs st"
  shows "rs_missing st = None \<longleftrightarrow> (\<forall>c \<in> set cs. dec c \<noteq> None)"
    and "rs_effect st = None \<longleftrightarrow> (\<forall>c \<in> set cs. dec c = None)"
    and "rs_diverged st = [] \<longleftrightarrow> (\<forall>c \<in> set cs. dec c \<in> {None, rs_effect st})"
    and "rs_blocking st = [] \<longleftrightarrow> (\<forall>c \<in> set cs. dec c \<noteq> Some EffectBlocked)"
    and "rs_effect st = Some EffectBlocked \<longrightarrow> rs_blocking st \<noteq> []"
    and "\<forall>e. rs_effect st = Some e \<longrightarrow> (\<exists>c \<in> set cs. dec c = Some e)"
  using assms unfolding resolve_inv_def by blast+

lemma resolve_loop:
  assumes "usable applied"
  shows "\<exists>st. fold_err (resolve_step applied kind tid) cs resolve_init = Inr st
    \<and> resolve_inv (decided applied kind tid) cs st"
proof (induction cs rule: rev_induct)
  case Nil
  then show ?case by (simp add: resolve_init_def resolve_inv_def)
next
  case (snoc c cs)
  then obtain st where F: "fold_err (resolve_step applied kind tid) cs resolve_init = Inr st"
    and I: "resolve_inv (decided applied kind tid) cs st"
    by blast
  note S = resolve_invD [OF I]
  from resolve_step_eq [OF assms, of kind tid c st] obtain st' where
    R: "resolve_step applied kind tid c st = Inr st'" and
    T: "case decided applied kind tid c of
        None \<Rightarrow> st' = (if rs_missing st = None then st\<lparr>rs_missing := Some c\<rparr> else st)
      | Some e \<Rightarrow>
          rs_missing st' = rs_missing st
          \<and> rs_effect st' = (if rs_effect st = None then Some e else rs_effect st)
          \<and> (rs_diverged st' = [] \<longleftrightarrow> rs_diverged st = [] \<and> (rs_effect st = None \<or> rs_effect st = Some e))
          \<and> (rs_blocking st' = [] \<longleftrightarrow> rs_blocking st = [] \<and> e \<noteq> EffectBlocked)"
    by (elim exE conjE) (rule that)
  have "fold_err (resolve_step applied kind tid) (cs @ [c]) resolve_init = Inr st'"
    by (simp add: fold_err_append F R)
  moreover have "resolve_inv (decided applied kind tid) (cs @ [c]) st'"
  proof (cases "decided applied kind tid c")
    case None
    with T have st': "st' = (if rs_missing st = None then st\<lparr>rs_missing := Some c\<rparr> else st)" by simp
    show ?thesis using S unfolding st' resolve_inv_def by (cases "rs_missing st") (auto simp: None)
  next
    case (Some e)
    with T have T: "rs_missing st' = rs_missing st"
      "rs_effect st' = (if rs_effect st = None then Some e else rs_effect st)"
      "rs_diverged st' = [] \<longleftrightarrow> rs_diverged st = [] \<and> (rs_effect st = None \<or> rs_effect st = Some e)"
      "rs_blocking st' = [] \<longleftrightarrow> rs_blocking st = [] \<and> e \<noteq> EffectBlocked"
      by simp_all
    show ?thesis
    proof (cases "rs_effect st")
      case None
      then have "\<forall>c \<in> set cs. decided applied kind tid c = None" "rs_diverged st = []"
        using S by simp_all
      with None Some T S show ?thesis by (simp add: resolve_inv_def)
    next
      case E: (Some e0)
      then have "rs_effect st' = Some e0" using T(2) by simp
      with E Some T(1,3,4) S show ?thesis by (simp add: resolve_inv_def) blast
    qed
  qed
  ultimately show ?case by blast
qed

text \<open>A change resolves to an effect exactly when every conflict is decided and all decisions
  have that one, non-blocking effect.\<close>

lemma resolve_iff:
  assumes "usable applied" and "cs \<noteq> []"
  shows "resolve applied kind tid cs = (Some e, []) \<longleftrightarrow>
      e \<noteq> EffectBlocked \<and> (\<forall>c \<in> set cs. decided applied kind tid c = Some e)"
    and "snd (resolve applied kind tid cs) = [] \<Longrightarrow> \<exists>e. resolve applied kind tid cs = (Some e, [])"
proof -
  from resolve_loop [OF assms(1)] obtain st where
    F: "fold_err (resolve_step applied kind tid) cs resolve_init = Inr st"
    and I: "resolve_inv (decided applied kind tid) cs st"
    by blast
  note S = resolve_invD [OF I]
  obtain c where c: "c \<in> set cs" using assms(2) by (cases cs) auto
  have R: "resolve applied kind tid cs =
      (case rs_missing st of
         Some c \<Rightarrow> (Some EffectBlocked,
             [\<lparr>pb_Code = CodeConflictUndecided, pb_Detail = DetailNoDecision (cf_Code c) kind tid\<rparr>])
       | None \<Rightarrow>
           if length (rs_diverged st) > 0
           then (Some EffectBlocked, [\<lparr>pb_Code = CodeDecisionsDiverge,
                  pb_Detail = DetailDiverge kind tid (rs_firstKind st) (sort (rs_diverged st))\<rparr>])
           else if rs_effect st = Some EffectBlocked then (Some EffectBlocked, rs_blocking st)
           else (rs_effect st, []))"
    using F by (simp add: resolve_def resolve_init_def)
  have some: "rs_missing st = None \<Longrightarrow> \<exists>e. rs_effect st = Some e" using S(1,2) c by auto
  show "snd (resolve applied kind tid cs) = [] \<Longrightarrow> \<exists>e. resolve applied kind tid cs = (Some e, [])"
    using some S(5) unfolding R by (auto split: option.splits if_splits)
  have "resolve applied kind tid cs = (Some e, []) \<longleftrightarrow>
      rs_missing st = None \<and> rs_diverged st = [] \<and> rs_effect st = Some e \<and> e \<noteq> EffectBlocked"
    using S(5) unfolding R by (auto split: option.splits)
  also have "\<dots> \<longleftrightarrow> e \<noteq> EffectBlocked \<and> (\<forall>c \<in> set cs. decided applied kind tid c = Some e)"
  proof
    assume L: "rs_missing st = None \<and> rs_diverged st = [] \<and> rs_effect st = Some e \<and> e \<noteq> EffectBlocked"
    show "e \<noteq> EffectBlocked \<and> (\<forall>c \<in> set cs. decided applied kind tid c = Some e)"
    proof (intro conjI ballI)
      fix x assume x: "x \<in> set cs"
      have "decided applied kind tid x \<in> {None, Some e}" using L S(3) x by auto
      moreover have "decided applied kind tid x \<noteq> None" using L S(1) x by simp
      ultimately show "decided applied kind tid x = Some e" by simp
    qed (use L in simp)
  next
    assume A: "e \<noteq> EffectBlocked \<and> (\<forall>c \<in> set cs. decided applied kind tid c = Some e)"
    then have m: "rs_missing st = None" using S(1) by simp
    from some [OF m] obtain e' where e': "rs_effect st = Some e'" by blast
    have e'e: "rs_effect st = Some e" using S(6) e' A by auto
    have "rs_diverged st = []" using S(3) A e'e by simp
    with m e'e A show "rs_missing st = None \<and> rs_diverged st = [] \<and> rs_effect st = Some e \<and> e \<noteq> EffectBlocked"
      by simp
  qed
  finally show "resolve applied kind tid cs = (Some e, []) \<longleftrightarrow>
      e \<noteq> EffectBlocked \<and> (\<forall>c \<in> set cs. decided applied kind tid c = Some e)" .
qed

section \<open>The plan of one change\<close>

text \<open>How the flags of a planned change hang together.\<close>

definition change_sound :: "Change \<Rightarrow> bool" where
  "change_sound c \<longleftrightarrow>
     (ch_Materialize c \<longleftrightarrow> ch_Effect c = Some EffectApply \<and> \<not> ch_Withheld c)
     \<and> (ch_Blocked c \<longleftrightarrow> ch_Effect c = Some EffectBlocked)
     \<and> (ch_Blocked c \<longrightarrow> ch_blocks c \<noteq> [])
     \<and> ch_Effect c \<noteq> None \<and> (ch_Withheld c \<longrightarrow> ch_Effect c = Some EffectApply)"

lemma guard_block_keep [simp]:
  "ch_TargetKind (guardPublication g c) = ch_TargetKind c" "ch_TargetID (guardPublication g c) = ch_TargetID c"
  "ch_Conflicts (guardPublication g c) = ch_Conflicts c" "ch_Effect (guardPublication g c) = ch_Effect c"
  "ch_SourceVersionID (guardPublication g c) = ch_SourceVersionID c"
  "ch_TargetVersionID (guardPublication g c) = ch_TargetVersionID c"
  "ch_TargetKind (block c bs) = ch_TargetKind c" "ch_TargetID (block c bs) = ch_TargetID c"
  "ch_Conflicts (block c bs) = ch_Conflicts c" "ch_Effect (block c bs) = Some EffectBlocked"
  "ch_SourceVersionID (block c bs) = ch_SourceVersionID c"
  "ch_TargetVersionID (block c bs) = ch_TargetVersionID c"
  by (simp_all add: guardPublication_def block_def)

lemma decideChange_keep:
  "ch_TargetKind (decideChange applied g c auto) = ch_TargetKind c"
  "ch_TargetID (decideChange applied g c auto) = ch_TargetID c"
  "ch_Conflicts (decideChange applied g c auto) = ch_Conflicts c"
  "ch_SourceVersionID (decideChange applied g c auto) = ch_SourceVersionID c"
  "ch_TargetVersionID (decideChange applied g c auto) = ch_TargetVersionID c"
  by (simp_all add: decideChange_def Let_def case_prod_unfold)

text \<open>The effect of a change is the one the detector or the decisions give it.\<close>

definition planned_effect :: "decision_index \<Rightarrow> string \<Rightarrow> string \<Rightarrow> Conflict list \<Rightarrow> bool \<Rightarrow> Effect \<Rightarrow> bool" where
  "planned_effect applied kind tid cs auto e \<longleftrightarrow>
     (if auto then e = EffectApply
      else if e = EffectBlocked
      then \<not> (cs \<noteq> [] \<and> (\<exists>e'. e' \<noteq> EffectBlocked \<and> (\<forall>c \<in> set cs. decided applied kind tid c = Some e')))
      else cs \<noteq> [] \<and> (\<forall>c \<in> set cs. decided applied kind tid c = Some e))"

lemma decideChange_correct:
  assumes "usable applied" and "c = new_change tkind tid otype kind sv tv cs"
  shows "change_sound (decideChange applied g c auto)
    \<and> (ch_Effect (decideChange applied g c auto) = Some e \<longleftrightarrow> planned_effect applied tkind tid cs auto e)
    \<and> (g \<longrightarrow> \<not> ch_Materialize (decideChange applied g c auto))
    \<and> (ch_Withheld (decideChange applied g c auto) \<longleftrightarrow>
         g \<and> ch_Effect (decideChange applied g c auto) = Some EffectApply)
    \<and> (ch_Withheld (decideChange applied g c auto) \<longrightarrow>
         ch_WithholdReason (decideChange applied g c auto) = ReasonPublicationGate)
    \<and> ch_EndpointRewrites (decideChange applied g c auto) = []"
proof -
  have c: "ch_TargetKind c = tkind" "ch_TargetID c = tid" "ch_Conflicts c = cs" "ch_Withheld c = False"
    "ch_Blocked c = False" "ch_Materialize c = False" "ch_EndpointRewrites c = []" "ch_Effect c = None"
    by (simp_all add: assms(2) new_change_def)
  consider (auto) auto | (none) "\<not> auto" "cs = []"
    | (blocked) "\<not> auto" "cs \<noteq> []" "snd (resolve applied tkind tid cs) \<noteq> []"
    | (ok) e' where "\<not> auto" "cs \<noteq> []" "resolve applied tkind tid cs = (Some e', [])"
    using resolve_iff(2) [OF assms(1), of cs tkind tid] by auto
  then show ?thesis
  proof cases
    case auto
    then show ?thesis
      by (auto simp: decideChange_def change_sound_def guardPublication_def planned_effect_def c)
  next
    case none
    then show ?thesis
      by (auto simp: decideChange_def change_sound_def block_def planned_effect_def c)
  next
    case blocked
    have "\<not> (\<exists>e'. e' \<noteq> EffectBlocked \<and> (\<forall>c \<in> set cs. decided applied tkind tid c = Some e'))"
      using blocked resolve_iff(1) [OF assms(1) blocked(2)] by (metis snd_conv)
    with blocked show ?thesis
      by (auto simp: decideChange_def change_sound_def block_def planned_effect_def c Let_def case_prod_unfold)
  next
    case (ok e')
    then have D: "e' \<noteq> EffectBlocked" "\<forall>c \<in> set cs. decided applied tkind tid c = Some e'"
      using resolve_iff(1) [OF assms(1) ok(2)] by auto
    obtain x where "x \<in> set cs" using ok(2) by (cases cs) auto
    with D have P: "planned_effect applied tkind tid cs auto e \<longleftrightarrow> e = e'" for e
      using ok by (auto simp: planned_effect_def)
    with ok D show ?thesis
      by (auto simp: decideChange_def change_sound_def guardPublication_def c Let_def)
  qed
qed

section \<open>The plan as a whole\<close>

definition publish_guard :: "MergeInputs \<Rightarrow> bool" where
  "publish_guard i \<longleftrightarrow> mi_SourceVisibility i = BranchVisibilityPrivate
     \<and> mi_TargetVisibility i = BranchVisibilityPublic"

definition object_plan :: "MergeInputs \<Rightarrow> Report \<Rightarrow> decision_index \<Rightarrow> Change list" where
  "object_plan i r applied =
     map (\<lambda>(c, v). planObjectChange applied (publish_guard i) c v)
       (zip (df_ObjectChanges (rp_Diff r)) (rp_ObjectVerdicts r))"

definition relation_plan :: "MergeInputs \<Rightarrow> Report \<Rightarrow> decision_index \<Rightarrow> Change list" where
  "relation_plan i r applied =
     map (\<lambda>(c, v). planRelationChange applied (publish_guard i)
            (newEndpointIndex (mi_Diff i) (object_plan i r applied)) c v)
       (zip (df_RelationChanges (rp_Diff r)) (rp_RelationVerdicts r))"

lemma plan_changes_eq: "plan_changes i r applied = object_plan i r applied @ relation_plan i r applied"
  by (simp add: plan_changes_def object_plan_def relation_plan_def publish_guard_def Let_def)

lemma planRelationChange_correct:
  assumes "usable applied"
  shows "change_sound (planRelationChange applied g idx c v)
    \<and> (ch_Effect (planRelationChange applied g idx c v) = Some e \<longleftrightarrow>
         planned_effect applied TargetRelation (rc_RelationID c) (vr_Conflicts v) (vr_AutoMergeable v) e)
    \<and> (g \<longrightarrow> \<not> ch_Materialize (planRelationChange applied g idx c v))
    \<and> ch_TargetKind (planRelationChange applied g idx c v) = TargetRelation
    \<and> ch_TargetID (planRelationChange applied g idx c v) = rc_RelationID c
    \<and> ch_SourceVersionID (planRelationChange applied g idx c v) = rv_ID (rc_SourceVersion c)
    \<and> ch_Conflicts (planRelationChange applied g idx c v) = vr_Conflicts v
    \<and> (ch_Materialize (planRelationChange applied g idx c v) \<longrightarrow>
         resolve_pins idx [rv_SourceObjectVersionID (rc_SourceVersion c),
           rv_TargetObjectVersionID (rc_SourceVersion c)]
         = Inr (ch_EndpointRewrites (planRelationChange applied g idx c v)))"
proof -
  let ?n = "new_change TargetRelation (rc_RelationID c) [] (rc_Kind c) (rv_ID (rc_SourceVersion c))
               (case rc_TargetVersion c of None \<Rightarrow> [] | Some t \<Rightarrow> rv_ID t) (vr_Conflicts v)"
  define d where "d = decideChange applied g ?n (vr_AutoMergeable v)"
  have D: "change_sound d"
    "ch_Effect d = Some e \<longleftrightarrow>
       planned_effect applied TargetRelation (rc_RelationID c) (vr_Conflicts v) (vr_AutoMergeable v) e"
    "g \<longrightarrow> \<not> ch_Materialize d"
    using decideChange_correct [OF assms refl, of g TargetRelation "rc_RelationID c" "[]" "rc_Kind c"
        "rv_ID (rc_SourceVersion c)" "case rc_TargetVersion c of None \<Rightarrow> [] | Some t \<Rightarrow> rv_ID t"
        "vr_Conflicts v" "vr_AutoMergeable v" e]
    unfolding d_def by blast+
  have keep: "ch_TargetKind d = TargetRelation" "ch_TargetID d = rc_RelationID c"
    "ch_SourceVersionID d = rv_ID (rc_SourceVersion c)" "ch_Conflicts d = vr_Conflicts v"
    by (simp_all add: d_def decideChange_keep) (simp_all add: new_change_def)
  let ?pins = "[rv_SourceObjectVersionID (rc_SourceVersion c), rv_TargetObjectVersionID (rc_SourceVersion c)]"
  have P: "planRelationChange applied g idx c v =
      (if \<not> ch_Materialize d then d
       else (case resolve_pins idx ?pins of
              Inl reason \<Rightarrow> d\<lparr>ch_Materialize := False, ch_Withheld := True, ch_WithholdReason := reason\<rparr>
            | Inr rewrites \<Rightarrow> d\<lparr>ch_EndpointRewrites := rewrites\<rparr>))"
    by (simp only: planRelationChange_def d_def Let_def)
  show ?thesis
  proof (cases "ch_Materialize d")
    case False
    with D keep show ?thesis unfolding P by simp
  next
    case True
    with D(1) have "ch_Effect d = Some EffectApply" "\<not> ch_Blocked d" by (simp_all add: change_sound_def)
    with True D keep show ?thesis
      unfolding P by (cases "resolve_pins idx ?pins") (simp_all add: change_sound_def)
  qed
qed

lemma planObjectChange_correct:
  assumes "usable applied"
  shows "change_sound (planObjectChange applied g c v)
    \<and> (ch_Effect (planObjectChange applied g c v) = Some e \<longleftrightarrow>
         planned_effect applied TargetObject (oc_ObjectID c) (vo_Conflicts v) (vo_AutoMergeable v) e)
    \<and> (g \<longrightarrow> \<not> ch_Materialize (planObjectChange applied g c v))
    \<and> ch_TargetKind (planObjectChange applied g c v) = TargetObject
    \<and> ch_TargetID (planObjectChange applied g c v) = oc_ObjectID c
    \<and> ch_SourceVersionID (planObjectChange applied g c v) = ov_ID (oc_SourceVersion c)
    \<and> ch_Conflicts (planObjectChange applied g c v) = vo_Conflicts v"
  using decideChange_correct [OF assms refl, of g TargetObject "oc_ObjectID c" "oc_ObjectType c" "oc_Kind c"
      "ov_ID (oc_SourceVersion c)" "case oc_TargetVersion c of None \<Rightarrow> [] | Some t \<Rightarrow> ov_ID t"
      "vo_Conflicts v" "vo_AutoMergeable v"]
  by (simp add: planObjectChange_def decideChange_keep) (simp add: new_change_def)

lemma MergeE:
  assumes "Merge i = Inr p"
  obtains applied p0 where "Detect (mi_Diff i) = Inr (pl_Report p)"
    and "indexDecisions (pl_Report p) (mi_Decisions i) = Inr applied" and "pl_applied p = applied"
    and "pl_Changes p = object_plan i (pl_Report p) applied @ relation_plan i (pl_Report p) applied"
    and "usable applied" and "p = finish p0" and "pl_Changes p0 = pl_Changes p"
    and "pl_Report p0 = pl_Report p" and "pl_applied p0 = applied"
proof -
  from assms obtain r applied p0 where R: "Detect (mi_Diff i) = Inr r"
    "indexDecisions r (mi_Decisions i) = Inr applied"
    "p = finish p0" "pl_Report p0 = r" "pl_applied p0 = applied" "pl_Changes p0 = plan_changes i r applied"
    by (auto simp: Merge_def split: if_splits sum.splits)
  then have "pl_Report p = r" "pl_applied p = applied" "pl_Changes p = plan_changes i r applied"
    by (simp_all add: finish_def Let_def)
  then show thesis
    using that [of applied p0] R indexed_usable [OF R(2)] by (simp add: plan_changes_eq)
qed

text \<open>Every planned change stems from one change of the diff.\<close>

lemma plan_change_cases:
  assumes "c \<in> set (object_plan i r applied @ relation_plan i r applied)" and "Detect (mi_Diff i) = Inr r"
  obtains (object) oc v where "oc \<in> set (df_ObjectChanges (rp_Diff r))"
      "v = finishObject oc (object_conflicts (createdOnTarget (mi_Diff i)) oc)"
      "c = planObjectChange applied (publish_guard i) oc v"
    | (relation) rc v where "rc \<in> set (df_RelationChanges (rp_Diff r))"
      "v = finishRelation rc (relation_conflicts rc)"
      "c = planRelationChange applied (publish_guard i)
         (newEndpointIndex (mi_Diff i) (object_plan i r applied)) rc v"
proof -
  from assms(2) have V: "rp_ObjectVerdicts r =
      map (\<lambda>c. finishObject c (object_conflicts (createdOnTarget (mi_Diff i)) c)) (df_ObjectChanges (rp_Diff r))"
    and W: "rp_RelationVerdicts r =
      map (\<lambda>c. finishRelation c (relation_conflicts c)) (df_RelationChanges (rp_Diff r))"
    by (auto elim: DetectE)
  from assms(1) consider "c \<in> set (object_plan i r applied)" | "c \<in> set (relation_plan i r applied)" by auto
  then show thesis
  proof cases
    case 1
    then show thesis
      using object by (auto simp: object_plan_def V zip_map2 zip_same_conv_map)
  next
    case 2
    then show thesis
      using relation by (auto simp: relation_plan_def W zip_map2 zip_same_conv_map)
  qed
qed

lemma plan_sound:
  assumes "Merge i = Inr p" and "c \<in> set (pl_Changes p)"
  shows "change_sound c" and "publish_guard i \<Longrightarrow> \<not> ch_Materialize c"
proof -
  from assms(1) obtain applied where M: "Detect (mi_Diff i) = Inr (pl_Report p)" "usable applied"
    "pl_Changes p = object_plan i (pl_Report p) applied @ relation_plan i (pl_Report p) applied"
    by (rule MergeE) (rule that, assumption+)
  from assms(2) have "c \<in> set (object_plan i (pl_Report p) applied @ relation_plan i (pl_Report p) applied)"
    by (simp add: M(3))
  then have "change_sound c \<and> (publish_guard i \<longrightarrow> \<not> ch_Materialize c)"
    using M(1)
    by (rule plan_change_cases)
      (use M(2) in \<open>simp_all add: planObjectChange_correct planRelationChange_correct\<close>)
  then show "change_sound c" and "publish_guard i \<Longrightarrow> \<not> ch_Materialize c" by simp_all
qed

section \<open>Counting and blocking\<close>

lemma tally_applied:
  "sm_Applied (fold tally cs s) = sm_Applied s
     + int (length (filter (\<lambda>c. ch_Effect c = Some EffectApply \<and> \<not> ch_Withheld c) cs))"
proof (induction cs arbitrary: s)
  case (Cons c cs)
  have "sm_Applied (tally c s) = sm_Applied s
      + (if ch_Effect c = Some EffectApply \<and> \<not> ch_Withheld c then 1 else 0)"
    by (auto simp: tally_def split: option.split Effect.split)
  with Cons show ?case by simp
qed simp

lemma tally_total:
  assumes "\<forall>c \<in> set cs. ch_Effect c \<noteq> None"
  shows "sm_Applied (fold tally cs s) + sm_KeptTarget (fold tally cs s) + sm_Carried (fold tally cs s)
      + sm_Aborted (fold tally cs s) + sm_Blocked (fold tally cs s) + sm_Withheld (fold tally cs s)
    = sm_Applied s + sm_KeptTarget s + sm_Carried s + sm_Aborted s + sm_Blocked s + sm_Withheld s
      + int (length cs)"
  using assms
proof (induction cs arbitrary: s)
  case (Cons c cs)
  then obtain e where "ch_Effect c = Some e" by auto
  then have "sm_Applied (tally c s) + sm_KeptTarget (tally c s) + sm_Carried (tally c s)
      + sm_Aborted (tally c s) + sm_Blocked (tally c s) + sm_Withheld (tally c s)
    = sm_Applied s + sm_KeptTarget s + sm_Carried s + sm_Aborted s + sm_Blocked s + sm_Withheld s + 1"
    by (cases e) (auto simp: tally_def)
  with Cons show ?case by simp
qed simp

lemma sort_key_Nil_iff: "sort_key f xs = [] \<longleftrightarrow> xs = []"
  by (metis length_0_conv length_sort)

lemma finish_executable:
  assumes "\<forall>c \<in> set (pl_Changes p). change_sound c"
  shows "pl_Executable (finish p) \<longleftrightarrow>
    (\<forall>c \<in> set (pl_Changes p). \<not> ch_Blocked c) \<and> (\<exists>c \<in> set (pl_Changes p). ch_Materialize c)"
proof -
  let ?blk = "concat (map (\<lambda>c. map (\<lambda>b. \<lparr>bl_Code = pb_Code b, bl_TargetID = ch_TargetID c,
                bl_Detail = pb_Detail b\<rparr>) (change_blockers c)) (filter ch_Blocked (pl_Changes p)))"
  let ?z = "\<lparr>sm_Applied = 0, sm_KeptTarget = 0, sm_Carried = 0, sm_Aborted = 0, sm_Blocked = 0,
                 sm_Withheld = 0, sm_ConflictsByCategory = []\<rparr>"
  have "?blk = [] \<longleftrightarrow> (\<forall>c \<in> set (pl_Changes p). \<not> ch_Blocked c)"
    by (auto simp: change_blockers_def)
  moreover have "sm_Applied (fold tally (pl_Changes p) ?z) = 0 \<longleftrightarrow> \<not> (\<exists>c \<in> set (pl_Changes p). ch_Materialize c)"
    using assms by (simp add: tally_applied filter_empty_conv change_sound_def)
  moreover have "pl_Executable (finish p) \<longleftrightarrow>
      ?blk = [] \<and> sm_Applied (fold tally (pl_Changes p) ?z) \<noteq> 0"
    by (simp add: finish_def Let_def sort_key_Nil_iff) blast
  ultimately show ?thesis by simp
qed

section \<open>Endpoints of the planned relations\<close>

lemma index_change_keep:
  "ei_objectOfVersion (fold index_change cs idx) = ei_objectOfVersion idx"
  "ei_targetVersions (fold index_change cs idx) = ei_targetVersions idx"
  by (induction cs arbitrary: idx) (simp_all add: index_change_def)

lemma materialized_index:
  "map_of (ei_materializedByObject (fold index_change cs idx)) ob \<noteq> None \<longleftrightarrow>
     map_of (ei_materializedByObject idx) ob \<noteq> None
     \<or> (\<exists>c \<in> set cs. ch_TargetKind c = TargetObject \<and> ch_Materialize c \<and> ch_TargetID c = ob)"
proof (induction cs arbitrary: idx)
  case (Cons c cs)
  have "map_of (ei_materializedByObject (index_change c idx)) ob \<noteq> None \<longleftrightarrow>
      map_of (ei_materializedByObject idx) ob \<noteq> None
      \<or> (ch_TargetKind c = TargetObject \<and> ch_Materialize c \<and> ch_TargetID c = ob)"
    by (auto simp: index_change_def)
  then show ?case unfolding fold_Cons comp_apply Cons.IH by auto
qed simp

lemma objectOfVersion_lookup:
  "map_of (fold (\<lambda>v. AList.update (ov_ID v) (ov_ObjectID v)) rows m) pin = Some ob \<Longrightarrow>
     (\<exists>v \<in> set rows. ov_ID v = pin \<and> ov_ObjectID v = ob) \<or> map_of m pin = Some ob"
proof (induction rows arbitrary: m)
  case (Cons v rows)
  then show ?case by (fastforce split: if_splits)
qed simp

lemma resolve_pin_Inr:
  "resolve_pin idx pin rw = Inr rw' \<longleftrightarrow>
     (if pin = [] \<or> pin \<in> set (ei_targetVersions idx) then rw' = rw
      else \<exists>ob. map_of (ei_objectOfVersion idx) pin = Some ob
             \<and> map_of (ei_materializedByObject idx) ob \<noteq> None \<and> rw' = AList.update pin ob rw)"
  by (auto simp: resolve_pin_def split: option.splits if_splits)

lemma resolve_pins_Inr:
  assumes "resolve_pins idx [p1, p2] = Inr rw" and "pin \<in> {p1, p2}" and "pin \<noteq> []"
    and "pin \<notin> set (ei_targetVersions idx)"
  obtains ob where "map_of rw pin = Some ob" and "map_of (ei_objectOfVersion idx) pin = Some ob"
    and "map_of (ei_materializedByObject idx) ob \<noteq> None"
proof -
  from assms(1) obtain rw1 where "resolve_pin idx p1 [] = Inr rw1" "resolve_pin idx p2 rw1 = Inr rw"
    by (auto simp: resolve_pins_def split: sum.splits)
  then show thesis using that assms(2-4) by (auto simp: resolve_pin_Inr split: if_splits)
qed

lemma resolve_pins_only:
  assumes "resolve_pins idx [p1, p2] = Inr rw" and "map_of rw pin = Some ob"
  shows "pin \<in> {p1, p2} \<and> pin \<notin> set (ei_targetVersions idx)"
proof -
  from assms(1) obtain rw1 where "resolve_pin idx p1 [] = Inr rw1" "resolve_pin idx p2 rw1 = Inr rw"
    by (auto simp: resolve_pins_def split: sum.splits)
  with assms(2) show ?thesis by (auto simp: resolve_pin_Inr split: if_splits)
qed

section \<open>Properties\<close>

text \<open>C1: nothing lands on its own authority.  Every change the plan materializes is one the
  detector cleared of all conflicts, or one for which a named human accepted the source side on
  each of its conflicts.\<close>

theorem materialized_is_authorized:
  assumes "Merge i = Inr p" and "c \<in> set (pl_Changes p)" and "ch_Materialize c"
  shows "ch_Conflicts c = []
    \<or> (\<forall>cf \<in> set (ch_Conflicts c). \<exists>d \<in> set (mi_Decisions i).
         keyOfDecision d = keyOf (ch_TargetKind c) (ch_TargetID c) cf
         \<and> de_Kind d = ''accept_source'' \<and> de_DecidedBy d \<noteq> [])"
proof -
  from assms(1) obtain applied where M: "Detect (mi_Diff i) = Inr (pl_Report p)" "usable applied"
    "indexDecisions (pl_Report p) (mi_Decisions i) = Inr applied"
    "pl_Changes p = object_plan i (pl_Report p) applied @ relation_plan i (pl_Report p) applied"
    by (rule MergeE) (rule that, assumption+)
  have lands: "ch_Effect c = Some EffectApply"
    using plan_sound(1) [OF assms(1,2)] assms(3) by (simp add: change_sound_def)
  have dec: "\<exists>d \<in> set (mi_Decisions i). keyOfDecision d = keyOf k t cf
         \<and> de_Kind d = ''accept_source'' \<and> de_DecidedBy d \<noteq> []"
    if "decided applied k t cf = Some EffectApply" for k t cf
  proof -
    from that obtain d where "map_of applied (keyOf k t cf) = Some d" "effectOf (de_Kind d) = Some EffectApply"
      by (auto simp: decided_def split: option.splits)
    then show ?thesis
      using indexed_lookup [OF M(3)] indexDecisionsD(3) [OF M(3)]
      by (auto simp: effectOf_apply ResolutionAcceptSource_def dest!: validateDecisionD)
  qed
  from assms(2) have "c \<in> set (object_plan i (pl_Report p) applied @ relation_plan i (pl_Report p) applied)"
    by (simp add: M(4))
  then have "ch_Conflicts c = [] \<or> (\<forall>cf \<in> set (ch_Conflicts c).
      decided applied (ch_TargetKind c) (ch_TargetID c) cf = Some EffectApply)"
    using M(1)
  proof (cases rule: plan_change_cases)
    case (object oc v)
    then show ?thesis
      using planObjectChange_correct [OF M(2), of "publish_guard i" oc v EffectApply] lands
      by (auto simp: planned_effect_def finishObject_def split: if_splits)
  next
    case (relation rc v)
    then show ?thesis
      using planRelationChange_correct [OF M(2), of "publish_guard i" _ rc v EffectApply] lands
      by (auto simp: planned_effect_def finishRelation_def split: if_splits)
  qed
  with dec show ?thesis by blast
qed

definition sample_decision :: "string \<Rightarrow> Decision" where
  "sample_decision kind =
     \<lparr>de_TargetKind = ''object'', de_TargetID = ''o1'', de_Code = ''ATTRIBUTE_FIELD_DIVERGES'',
      de_Fields = [''title''], de_PayloadKeys = [], de_OtherObjectID = '''', de_Kind = kind,
      de_DecidedBy = ''ada'', de_Note = ''''\<rparr>"

definition sample_merge :: "Decision list \<Rightarrow> MergeInputs" where
  "sample_merge ds =
     \<lparr>mi_ProjectID = ''p'', mi_Diff = sample_in, mi_Decisions = ds,
      mi_SourceVisibility = ''public'', mi_TargetVisibility = ''public''\<rparr>"

definition sample_plan :: Plan where
  "sample_plan = projr (Merge (sample_merge [sample_decision ''accept_source'']))"

lemma sample_merge_evaluates:
  "case Merge (sample_merge [sample_decision ''accept_source'']) of
     Inl _ \<Rightarrow> False
   | Inr plan \<Rightarrow> map (\<lambda>c. (ch_TargetKind c, ch_TargetID c, ch_Materialize c, length (ch_Conflicts c), ch_EndpointRewrites c))
         (pl_Changes plan) = [(''object'', ''o1'', True, 1, []), (''relation'', ''r1'', True, 0, [(''v2'', ''o1'')])]
       \<and> list_all (\<lambda>c. \<not> ch_Blocked c) (pl_Changes plan)"
  by code_simp

lemma sample_plan_computed: "Merge (sample_merge [sample_decision ''accept_source'']) = Inr sample_plan"
  using sample_merge_evaluates by (auto simp: sample_plan_def split: sum.splits)

lemma sample_plan_changes:
  "map (\<lambda>c. (ch_TargetKind c, ch_TargetID c, ch_Materialize c, length (ch_Conflicts c), ch_EndpointRewrites c))
     (pl_Changes sample_plan) =
   [(''object'', ''o1'', True, 1, []), (''relation'', ''r1'', True, 0, [(''v2'', ''o1'')])]"
  and sample_plan_unblocked: "list_all (\<lambda>c. \<not> ch_Blocked c) (pl_Changes sample_plan)"
  using sample_merge_evaluates by (auto simp: sample_plan_def split: sum.splits)

lemma sample_plan_two:
  obtains c d where "pl_Changes sample_plan = [c, d]" "ch_TargetKind c = ''object''" "ch_TargetID c = ''o1''"
    "ch_Materialize c" "ch_Conflicts c \<noteq> []" "ch_TargetKind d = ''relation''" "ch_TargetID d = ''r1''"
    "ch_Materialize d" "ch_EndpointRewrites d = [(''v2'', ''o1'')]"
proof -
  from sample_plan_changes obtain c d where "pl_Changes sample_plan = [c, d]" by (auto simp: map_eq_Cons_conv)
  with sample_plan_changes show thesis by (intro that [of c d]) auto
qed

lemma sample_object_planned:
  obtains c where "c \<in> set (pl_Changes sample_plan)" "ch_TargetKind c = ''object''" "ch_TargetID c = ''o1''"
    "ch_Materialize c" "ch_Conflicts c \<noteq> []"
  by (rule sample_plan_two) (metis list.set_intros(1) that)

lemma sample_relation_planned:
  obtains c where "c \<in> set (pl_Changes sample_plan)" "ch_TargetKind c = ''relation''"
    "ch_TargetID c = ''r1''" "ch_Materialize c" "ch_EndpointRewrites c = [(''v2'', ''o1'')]"
  by (rule sample_plan_two) (metis list.set_intros that)

theorem materialized_is_authorized_witness:
  "\<exists>c \<in> set (pl_Changes sample_plan). ch_Materialize c
     \<and> (\<exists>d. d \<in> {sample_decision ''accept_source''} \<and> de_Kind d = ''accept_source'' \<and> de_DecidedBy d \<noteq> [])"
proof -
  obtain c where c: "c \<in> set (pl_Changes sample_plan)" "ch_Materialize c" "ch_Conflicts c \<noteq> []"
    by (rule sample_object_planned) (rule that, assumption+)
  then obtain cf where "cf \<in> set (ch_Conflicts c)" by (cases "ch_Conflicts c") auto
  with materialized_is_authorized [OF sample_plan_computed c(1,2)] c show ?thesis
    by (auto simp: sample_merge_def)
qed

text \<open>C2: a plan is executable exactly when it materializes at least one change and no change
  blocks it; in particular an undecided conflict anywhere stops the whole merge.\<close>

theorem executable_iff:
  assumes "Merge i = Inr p"
  shows "pl_Executable p \<longleftrightarrow>
    (\<forall>c \<in> set (pl_Changes p). \<not> ch_Blocked c) \<and> (\<exists>c \<in> set (pl_Changes p). ch_Materialize c)"
proof -
  from assms obtain p0 where p: "p = finish p0" "pl_Changes p0 = pl_Changes p"
    by (rule MergeE) (rule that, assumption+)
  have "\<forall>c \<in> set (pl_Changes p0). change_sound c" using plan_sound(1) [OF assms] p(2) by simp
  from finish_executable [OF this] p show ?thesis by simp
qed

theorem executable_iff_witness: "pl_Executable sample_plan"
proof -
  obtain c where c: "c \<in> set (pl_Changes sample_plan)" "ch_Materialize c"
    by (rule sample_object_planned) (rule that, assumption+)
  note sample_plan_unblocked
  with c executable_iff [OF sample_plan_computed] show ?thesis by (auto simp: list_all_iff)
qed

text \<open>C3: a conflict no decision covers stops the merge.  When a change carries a conflict and no
  decision has its key, the plan is not executable.\<close>

theorem undecided_conflict_blocks:
  assumes "Merge i = Inr p" and "c \<in> set (pl_Changes p)" and "cf \<in> set (ch_Conflicts c)"
    and "\<forall>d \<in> set (mi_Decisions i). keyOfDecision d \<noteq> keyOf (ch_TargetKind c) (ch_TargetID c) cf"
  shows "ch_Blocked c \<and> \<not> pl_Executable p"
proof -
  from assms(1) obtain applied where M: "Detect (mi_Diff i) = Inr (pl_Report p)" "usable applied"
    "indexDecisions (pl_Report p) (mi_Decisions i) = Inr applied"
    "pl_Changes p = object_plan i (pl_Report p) applied @ relation_plan i (pl_Report p) applied"
    by (rule MergeE) (rule that, assumption+)
  have "map_of applied (keyOf (ch_TargetKind c) (ch_TargetID c) cf) = None"
    using indexed_lookup [OF M(3)] assms(4) by (metis not_None_eq)
  then have und: "decided applied (ch_TargetKind c) (ch_TargetID c) cf = None" by (simp add: decided_def)
  from assms(2) have "c \<in> set (object_plan i (pl_Report p) applied @ relation_plan i (pl_Report p) applied)"
    by (simp add: M(4))
  then have "ch_Effect c = Some EffectBlocked"
    using M(1)
  proof (cases rule: plan_change_cases)
    case (object oc v)
    have P: "ch_Effect c = Some EffectBlocked \<longleftrightarrow>
        planned_effect applied TargetObject (oc_ObjectID oc) (vo_Conflicts v) (vo_AutoMergeable v) EffectBlocked"
      "ch_TargetKind c = TargetObject" "ch_TargetID c = oc_ObjectID oc" "ch_Conflicts c = vo_Conflicts v"
      using planObjectChange_correct [OF M(2), of "publish_guard i" oc v EffectBlocked] object(3) by simp_all
    have "\<not> vo_AutoMergeable v" using object(2) assms(3) P(4) by (auto simp: finishObject_def)
    with P und assms(3) show ?thesis by (force simp: planned_effect_def)
  next
    case (relation rc v)
    have P: "ch_Effect c = Some EffectBlocked \<longleftrightarrow>
        planned_effect applied TargetRelation (rc_RelationID rc) (vr_Conflicts v) (vr_AutoMergeable v) EffectBlocked"
      "ch_TargetKind c = TargetRelation" "ch_TargetID c = rc_RelationID rc" "ch_Conflicts c = vr_Conflicts v"
      using planRelationChange_correct [OF M(2), of "publish_guard i" _ rc v EffectBlocked] relation(3) by simp_all
    have "\<not> vr_AutoMergeable v" using relation(2) assms(3) P(4) by (auto simp: finishRelation_def)
    with P und assms(3) show ?thesis by (force simp: planned_effect_def)
  qed
  then have "ch_Blocked c" using plan_sound(1) [OF assms(1,2)] by (simp add: change_sound_def)
  moreover from assms(1) obtain p0 where p: "p = finish p0" "pl_Changes p0 = pl_Changes p"
    by (rule MergeE) (rule that, assumption+)
  have "\<forall>c \<in> set (pl_Changes p0). change_sound c" using plan_sound(1) [OF assms(1)] p(2) by simp
  from finish_executable [OF this] p have "pl_Executable p \<longrightarrow> (\<forall>c \<in> set (pl_Changes p). \<not> ch_Blocked c)" by simp
  ultimately show ?thesis using assms(2) by blast
qed

theorem undecided_conflict_blocks_witness:
  "\<not> pl_Executable (projr (Merge (sample_merge [])))"
proof -
  let ?p = "projr (Merge (sample_merge []))"
  have ev: "case Merge (sample_merge []) of Inl _ \<Rightarrow> False | Inr p \<Rightarrow> map (\<lambda>c. length (ch_Conflicts c)) (pl_Changes p) = [1, 0]"
    by code_simp
  then have m: "Merge (sample_merge []) = Inr ?p" by (cases "Merge (sample_merge [])") auto
  from ev have "map (\<lambda>c. length (ch_Conflicts c)) (pl_Changes ?p) = [1, 0]" by (cases "Merge (sample_merge [])") auto
  then obtain c d where cd: "pl_Changes ?p = [c, d]" "length (ch_Conflicts c) = 1"
    by (auto simp: map_eq_Cons_conv)
  then obtain cf where cf: "cf \<in> set (ch_Conflicts c)" by (cases "ch_Conflicts c") auto
  have c: "c \<in> set (pl_Changes ?p)" using cd by simp
  from undecided_conflict_blocks [OF m c cf] show ?thesis by (simp add: sample_merge_def)
qed

text \<open>A merge never publishes.  From a private branch into a public one nothing is
  materialized, and the plan is never executable.\<close>

theorem private_to_public_withheld:
  assumes "Merge i = Inr p" and "mi_SourceVisibility i = ''private''" and "mi_TargetVisibility i = ''public''"
  shows "Materialized p = [] \<and> \<not> pl_Executable p"
proof -
  have g: "publish_guard i"
    using assms(2,3) by (simp add: publish_guard_def BranchVisibilityPrivate_def BranchVisibilityPublic_def)
  have none: "\<forall>c \<in> set (pl_Changes p). \<not> ch_Materialize c" using plan_sound(2) [OF assms(1) _ g] by blast
  from assms(1) obtain p0 where p: "p = finish p0" "pl_Changes p0 = pl_Changes p"
    by (rule MergeE) (rule that, assumption+)
  have "\<forall>c \<in> set (pl_Changes p0). change_sound c" using plan_sound(1) [OF assms(1)] p(2) by simp
  from finish_executable [OF this] none p show ?thesis by (simp add: Materialized_def filter_empty_conv)
qed

theorem private_to_public_withheld_witness:
  "Materialized (projr (Merge ((sample_merge [sample_decision ''accept_source''])
     \<lparr>mi_SourceVisibility := ''private''\<rparr>))) = []"
proof -
  let ?i = "(sample_merge [sample_decision ''accept_source''])\<lparr>mi_SourceVisibility := ''private''\<rparr>"
  have "isl (Merge ?i) = False" by code_simp
  then have m: "Merge ?i = Inr (projr (Merge ?i))" by (cases "Merge ?i") auto
  have "mi_SourceVisibility ?i = ''private''" "mi_TargetVisibility ?i = ''public''"
    by (simp_all add: sample_merge_def)
  with private_to_public_withheld [OF m] show ?thesis by blast
qed

text \<open>A relation the plan materializes has somewhere to point.  Each of its two pins is empty,
  or names a version the target already holds and is kept, or is rewritten to the object that the
  same plan materializes and that the source lineage says owns the pinned version.\<close>

theorem materialized_relation_endpoints:
  assumes "Merge i = Inr p" and "c \<in> set (pl_Changes p)" and "ch_Materialize c"
    and "ch_TargetKind c = ''relation''"
  shows "\<exists>rc \<in> set (df_RelationChanges (rp_Diff (pl_Report p))).
      rc_RelationID rc = ch_TargetID c \<and>
      (\<forall>pin \<in> {rv_SourceObjectVersionID (rc_SourceVersion rc), rv_TargetObjectVersionID (rc_SourceVersion rc)}.
         pin = []
         \<or> (pin \<in> ov_ID ` set (sn_ObjectVersions (in_TargetSnapshot (mi_Diff i)))
             \<and> map_of (ch_EndpointRewrites c) pin = None)
         \<or> (\<exists>v \<in> set (sn_ObjectVersions (in_SourceSnapshot (mi_Diff i))). \<exists>ob \<in> set (pl_Changes p).
               ov_ID v = pin \<and> map_of (ch_EndpointRewrites c) pin = Some (ov_ObjectID v)
               \<and> ch_TargetKind ob = ''object'' \<and> ch_TargetID ob = ov_ObjectID v \<and> ch_Materialize ob))"
proof -
  from assms(1) obtain applied where M: "Detect (mi_Diff i) = Inr (pl_Report p)" "usable applied"
    "pl_Changes p = object_plan i (pl_Report p) applied @ relation_plan i (pl_Report p) applied"
    by (rule MergeE) (rule that, assumption+)
  let ?objs = "object_plan i (pl_Report p) applied"
  let ?idx = "newEndpointIndex (mi_Diff i) ?objs"
  have tv: "set (ei_targetVersions ?idx) = ov_ID ` set (sn_ObjectVersions (in_TargetSnapshot (mi_Diff i)))"
    by (simp add: newEndpointIndex_def index_change_keep)
  have ov: "\<exists>v \<in> set (sn_ObjectVersions (in_SourceSnapshot (mi_Diff i))). ov_ID v = pin \<and> ov_ObjectID v = ob"
    if "map_of (ei_objectOfVersion ?idx) pin = Some ob" for pin ob
    using that objectOfVersion_lookup [of "sn_ObjectVersions (in_SourceSnapshot (mi_Diff i))" "[]" pin ob]
    by (simp add: newEndpointIndex_def index_change_keep)
  have mat: "\<exists>c \<in> set ?objs. ch_TargetKind c = TargetObject \<and> ch_Materialize c \<and> ch_TargetID c = ob"
    if "map_of (ei_materializedByObject ?idx) ob \<noteq> None" for ob
    using that unfolding newEndpointIndex_def materialized_index by simp
  from assms(2) have "c \<in> set (?objs @ relation_plan i (pl_Report p) applied)" by (simp add: M(3))
  then show ?thesis
    using M(1)
  proof (cases rule: plan_change_cases)
    case (object oc v)
    with planObjectChange_correct [OF M(2), of "publish_guard i" oc v] assms(4) show ?thesis
      by (simp add: TargetObject_def)
  next
    case (relation rc v)
    have R: "rc_RelationID rc = ch_TargetID c"
      "resolve_pins ?idx [rv_SourceObjectVersionID (rc_SourceVersion rc),
         rv_TargetObjectVersionID (rc_SourceVersion rc)] = Inr (ch_EndpointRewrites c)"
      using planRelationChange_correct [OF M(2), of "publish_guard i" ?idx rc v] relation(3) assms(3) by simp_all
    show ?thesis
    proof (intro bexI [OF _ relation(1)] conjI ballI R(1))
      fix pin
      assume pin: "pin \<in> {rv_SourceObjectVersionID (rc_SourceVersion rc), rv_TargetObjectVersionID (rc_SourceVersion rc)}"
      show "pin = []
         \<or> (pin \<in> ov_ID ` set (sn_ObjectVersions (in_TargetSnapshot (mi_Diff i)))
             \<and> map_of (ch_EndpointRewrites c) pin = None)
         \<or> (\<exists>v \<in> set (sn_ObjectVersions (in_SourceSnapshot (mi_Diff i))). \<exists>ob \<in> set (pl_Changes p).
               ov_ID v = pin \<and> map_of (ch_EndpointRewrites c) pin = Some (ov_ObjectID v)
               \<and> ch_TargetKind ob = ''object'' \<and> ch_TargetID ob = ov_ObjectID v \<and> ch_Materialize ob)"
      proof (cases "pin = [] \<or> pin \<in> set (ei_targetVersions ?idx)")
        case True
        then show ?thesis using resolve_pins_only [OF R(2), of pin] tv by (metis not_None_eq)
      next
        case False
        then obtain ob where ob: "map_of (ch_EndpointRewrites c) pin = Some ob"
          "map_of (ei_objectOfVersion ?idx) pin = Some ob" "map_of (ei_materializedByObject ?idx) ob \<noteq> None"
          using resolve_pins_Inr [OF R(2) pin] by blast
        from ov [OF ob(2)] mat [OF ob(3)] ob(1) show ?thesis
          by (auto simp: M(3) TargetObject_def)
      qed
    qed
  qed
qed

theorem materialized_relation_endpoints_witness:
  "\<exists>c \<in> set (pl_Changes sample_plan). ch_Materialize c \<and> ch_TargetKind c = ''relation''
     \<and> (\<exists>rc \<in> set (df_RelationChanges (rp_Diff (pl_Report sample_plan))). rc_RelationID rc = ch_TargetID c)"
proof -
  obtain c where c: "c \<in> set (pl_Changes sample_plan)" "ch_TargetKind c = ''relation''" "ch_Materialize c"
    by (rule sample_relation_planned) (rule that, assumption+)
  with materialized_relation_endpoints [OF sample_plan_computed c(1,3,2)] show ?thesis by blast
qed

end
