(* ===== verification/Gates.thy ===== *)
theory Gates
  imports Prelude
begin

text \<open>
  The validation gates (internal/rsg/validation: gate.go, spec.go, report.go): the ladder of the
  five gates, the checks each runs and at which severity, and reports with their verdict.
  \<open>Gate\<close> is an open string type in the source and here, so an unknown gate can be
  asked for; the check ids are the constants of the source and the one id
  \<open>Validate\<close> reports an unknown gate under.  The rationale texts (\<open>Why\<close>,
  \<open>gatePurpose\<close>) are prose that is copied into reports and that nothing reads; they
  are left out, and the rendered explanations are the data they are rendered from.
\<close>

section \<open>Gates (gate.go)\<close>

type_synonym Gate = string

definition GateDraft :: Gate where "GateDraft = ''draft''"
definition GatePR :: Gate where "GatePR = ''pr''"
definition GateMain :: Gate where "GateMain = ''main''"
definition GateRelease :: Gate where "GateRelease = ''release''"
definition GateAsset :: Gate where "GateAsset = ''asset''"

lemmas gate_defs = GateDraft_def GatePR_def GateMain_def GateRelease_def GateAsset_def

definition gateOrder :: "Gate list" where
  "gateOrder = [GateDraft, GatePR, GateMain, GateRelease, GateAsset]"

definition ValidGate :: "Gate \<Rightarrow> bool" where
  "ValidGate g \<longleftrightarrow> g = GateDraft \<or> g = GatePR \<or> g = GateMain \<or> g = GateRelease \<or> g = GateAsset"

datatype gate_error = UnknownGate string | NotStricter Gate Gate

definition ParseGate :: "string \<Rightarrow> gate_error + Gate" where
  "ParseGate s = (if \<not> ValidGate s then Inl (UnknownGate s) else Inr s)"

definition CommitGates :: "Gate list" where
  "CommitGates = [GateDraft, GatePR, GateMain]"

definition ValidCommitGate :: "Gate \<Rightarrow> bool" where
  "ValidCommitGate g \<longleftrightarrow> list_ex (\<lambda>cg. g = cg) CommitGates"

fun stage_from :: "int \<Rightarrow> Gate \<Rightarrow> Gate list \<Rightarrow> int \<times> bool" where
  "stage_from i g [] = (0, False)"
| "stage_from i g (cg # cgs) = (if g = cg then (i + 1, True) else stage_from (i + 1) g cgs)"

definition Stage :: "Gate \<Rightarrow> int \<times> bool" where
  "Stage g = stage_from 0 g gateOrder"

definition StricterThan :: "Gate \<Rightarrow> Gate \<Rightarrow> bool" where
  "StricterThan a b \<longleftrightarrow> snd (Stage a) \<and> snd (Stage b) \<and> fst (Stage a) > fst (Stage b)"

section \<open>The ladder (spec.go)\<close>

datatype CheckID =
    CheckSchemaKnown
  | CheckSchemaCore
  | CheckSchemaTyped
  | CheckAuthoritativeFields
  | CheckIdentityFields
  | CheckRequiredFields
  | CheckStateLinkage
  | CheckCommitLinkage
  | CheckActorConsistency
  | CheckPayloadIntegrity
  | CheckChainIntegrity
  | CheckBranchEmpty
  | CheckReleaseReview
  | CheckReleaseRights
  | CheckReleaseFromMain
  | CheckAssetSourcePinned
  | CheckAssetVersionPinned
  | CheckAssetContributors
  | CheckAssetRights
  | CheckAssetVisibility
  | CheckAssetDependencyPins
  | CheckAssetIntegrityHash
  | CheckAssetMetadata
  | CheckAssetSchema
  | CheckGate

datatype Severity = SeverityWarning | SeverityBlocking

record Spec =
  sp_Check :: CheckID
  sp_Severity :: Severity

definition warning :: "CheckID \<Rightarrow> Spec" where
  "warning c = \<lparr>sp_Check = c, sp_Severity = SeverityWarning\<rparr>"

definition blocking :: "CheckID \<Rightarrow> Spec" where
  "blocking c = \<lparr>sp_Check = c, sp_Severity = SeverityBlocking\<rparr>"

definition gateSpecs :: "(Gate \<times> Spec list) list" where
  "gateSpecs =
     [(GateDraft,
       [blocking CheckSchemaKnown, blocking CheckSchemaCore,
        warning CheckSchemaTyped, warning CheckAuthoritativeFields,
        blocking CheckIdentityFields, warning CheckStateLinkage,
        warning CheckCommitLinkage, warning CheckPayloadIntegrity]),
      (GatePR,
       [blocking CheckSchemaKnown, blocking CheckSchemaCore,
        blocking CheckSchemaTyped, blocking CheckAuthoritativeFields,
        blocking CheckIdentityFields, warning CheckRequiredFields,
        blocking CheckStateLinkage, blocking CheckCommitLinkage,
        warning CheckActorConsistency, warning CheckPayloadIntegrity,
        warning CheckChainIntegrity, warning CheckBranchEmpty]),
      (GateMain,
       [blocking CheckSchemaKnown, blocking CheckSchemaCore,
        blocking CheckSchemaTyped, blocking CheckAuthoritativeFields,
        blocking CheckIdentityFields, blocking CheckRequiredFields,
        blocking CheckStateLinkage, blocking CheckCommitLinkage,
        blocking CheckActorConsistency, blocking CheckPayloadIntegrity,
        blocking CheckChainIntegrity, warning CheckBranchEmpty]),
      (GateRelease,
       [blocking CheckSchemaKnown, blocking CheckSchemaCore,
        blocking CheckSchemaTyped, blocking CheckAuthoritativeFields,
        blocking CheckIdentityFields, blocking CheckRequiredFields,
        blocking CheckStateLinkage, blocking CheckCommitLinkage,
        blocking CheckActorConsistency, blocking CheckPayloadIntegrity,
        blocking CheckChainIntegrity, warning CheckBranchEmpty,
        blocking CheckReleaseReview, blocking CheckReleaseRights,
        blocking CheckReleaseFromMain]),
      (GateAsset,
       [blocking CheckSchemaKnown, blocking CheckSchemaCore,
        blocking CheckSchemaTyped, blocking CheckAuthoritativeFields,
        blocking CheckIdentityFields, blocking CheckRequiredFields,
        blocking CheckStateLinkage, blocking CheckCommitLinkage,
        blocking CheckActorConsistency, blocking CheckPayloadIntegrity,
        blocking CheckChainIntegrity, warning CheckBranchEmpty,
        blocking CheckReleaseReview, blocking CheckReleaseRights,
        blocking CheckReleaseFromMain, blocking CheckAssetSourcePinned,
        blocking CheckAssetVersionPinned, blocking CheckAssetContributors,
        blocking CheckAssetRights, blocking CheckAssetVisibility,
        blocking CheckAssetDependencyPins, blocking CheckAssetIntegrityHash,
        blocking CheckAssetMetadata, blocking CheckAssetSchema])]"

text \<open>A map read of an absent gate is the nil slice.\<close>

definition GateSpecs :: "Gate \<Rightarrow> Spec list" where
  "GateSpecs g = (case map_of gateSpecs g of None \<Rightarrow> [] | Some specs \<Rightarrow> specs)"

definition typeRequiredFields :: "(string \<times> string list) list" where
  "typeRequiredFields =
     [(''research_question'', [''purpose'', ''question_state'']),
      (''hypothesis'', [''hypothesis_type'', ''scope'']),
      (''material'', [''name'', ''identifiers'']),
      (''sample'', [''sample_code'', ''protocol_version_id'', ''physical_form'']),
      (''experiment'', [''operator_ids'', ''sample_ids'', ''protocol_version_id'', ''conditions'', ''result_summary'']),
      (''calculation'', [''software'', ''input_object_ids'', ''parameters'', ''output_blob_ids'', ''result_summary'']),
      (''dataset'', [''data_type'', ''blob_ids'', ''access_level'', ''quality_notes'']),
      (''protocol'', [''domain'', ''steps'', ''parameters'', ''requirements'']),
      (''claim'', [''subject_ref'', ''property'', ''scope'', ''assessment'']),
      (''finding'', [''finding_type'', ''assessment'']),
      (''external_reference'', [''canonical_url'', ''accessed_at'', ''upstream_version'', ''snapshot_hash''])]"

definition RequiredFieldsFor :: "string \<Rightarrow> string list" where
  "RequiredFieldsFor objectType =
     (case map_of typeRequiredFields objectType of None \<Rightarrow> [] | Some fs \<Rightarrow> fs)"

text \<open>What \<open>ExplainGate\<close> renders: the gate, its stage of how many, its checks; nothing
  for a gate that is not canonical.\<close>

definition ExplainGate :: "Gate \<Rightarrow> (Gate \<times> int \<times> nat \<times> Spec list) option" where
  "ExplainGate g =
     (case Stage g of (stage, ok) \<Rightarrow>
        if \<not> ok then None else Some (g, stage, length gateOrder, GateSpecs g))"

datatype strictness_move = Added CheckID Severity | WarningToBlocking CheckID

definition strictness_step :: "(CheckID \<times> Severity) list \<Rightarrow> Spec \<Rightarrow> strictness_move list \<Rightarrow> strictness_move list" where
  "strictness_step fromSpecs spec diff =
     (case map_of fromSpecs (sp_Check spec) of
        None \<Rightarrow> diff @ [Added (sp_Check spec) (sp_Severity spec)]
      | Some prev \<Rightarrow>
          if prev = SeverityWarning \<and> sp_Severity spec = SeverityBlocking
          then diff @ [WarningToBlocking (sp_Check spec)] else diff)"

definition StrictnessDiff :: "Gate \<Rightarrow> Gate \<Rightarrow> gate_error + strictness_move list" where
  "StrictnessDiff from' to =
     (if \<not> StricterThan to from' then Inl (NotStricter to from')
      else let fromSpecs = fold (\<lambda>spec m. AList.update (sp_Check spec) (sp_Severity spec) m) (GateSpecs from') []
           in Inr (fold (strictness_step fromSpecs) (GateSpecs to) []))"

section \<open>Reports (report.go)\<close>

text \<open>\<open>'d\<close> is the type of the failure details.\<close>

record 'd Result =
  rs_Check :: CheckID
  rs_Severity :: Severity
  rs_Passed :: bool
  rs_Subject :: string
  rs_Detail :: "'d option"

record 'd GateReport =
  gt_Gate :: Gate
  gt_Verdict :: string
  gt_Results :: "'d Result list"
  gt_Explanation :: "(Gate \<times> string \<times> 'd Result list) option"

definition VerdictPass :: string where "VerdictPass = ''pass''"
definition VerdictPassWithWarn :: string where "VerdictPassWithWarn = ''pass_with_warnings''"
definition VerdictBlocked :: string where "VerdictBlocked = ''blocked''"

lemmas report_verdict_defs = VerdictPass_def VerdictPassWithWarn_def VerdictBlocked_def

definition Blocked :: "'d GateReport \<Rightarrow> bool" where
  "Blocked r \<longleftrightarrow> gt_Verdict r = VerdictBlocked"

definition Failures :: "'d GateReport \<Rightarrow> 'd Result list" where
  "Failures r = filter (\<lambda>res. \<not> rs_Passed res) (gt_Results r)"

definition BlockingFailures :: "'d GateReport \<Rightarrow> 'd Result list" where
  "BlockingFailures r =
     filter (\<lambda>res. \<not> rs_Passed res \<and> rs_Severity res = SeverityBlocking) (gt_Results r)"

definition Warnings :: "'d GateReport \<Rightarrow> 'd Result list" where
  "Warnings r = filter (\<lambda>res. \<not> rs_Passed res \<and> rs_Severity res = SeverityWarning) (gt_Results r)"

text \<open>What \<open>explainReport\<close> renders: the gate, the verdict and every failure in report
  order.\<close>

definition explainReport :: "'d GateReport \<Rightarrow> Gate \<times> string \<times> 'd Result list" where
  "explainReport r = (gt_Gate r, gt_Verdict r, Failures r)"

definition finalize_step :: "'d Result \<Rightarrow> bool \<times> bool \<Rightarrow> bool \<times> bool" where
  "finalize_step res st =
     (case st of (blocked, warned) \<Rightarrow>
        if rs_Passed res then st
        else if rs_Severity res = SeverityBlocking then (True, warned) else (blocked, True))"

definition finalize :: "'d GateReport \<Rightarrow> 'd GateReport" where
  "finalize r =
     (case fold finalize_step (gt_Results r) (False, False) of (blocked, warned) \<Rightarrow>
        let r' = r\<lparr>gt_Verdict :=
              (if blocked then VerdictBlocked else if warned then VerdictPassWithWarn else VerdictPass)\<rparr>
        in r'\<lparr>gt_Explanation := Some (explainReport r')\<rparr>)"

datatype wire_code = SCHEMA_VALIDATION_FAILED | PROVENANCE_INCOMPLETE | RSG_VALIDATION_FAILED

definition check_family :: "CheckID \<Rightarrow> bool \<times> bool \<times> bool \<Rightarrow> bool \<times> bool \<times> bool" where
  "check_family c st =
     (case st of (schema, provenance, other) \<Rightarrow>
        if c \<in> {CheckSchemaKnown, CheckSchemaCore, CheckSchemaTyped, CheckAssetSchema}
        then (True, provenance, other)
        else if c \<in> {CheckStateLinkage, CheckCommitLinkage, CheckActorConsistency, CheckPayloadIntegrity,
                     CheckChainIntegrity, CheckAuthoritativeFields}
        then (schema, True, other)
        else (schema, provenance, True))"

text \<open>The wire code of a refused command, from the report that refused it.\<close>

definition GateBlockedError_Code :: "'d GateReport \<Rightarrow> wire_code" where
  "GateBlockedError_Code r =
     (case fold (\<lambda>res. check_family (rs_Check res)) (BlockingFailures r) (False, False, False) of
        (schema, provenance, other) \<Rightarrow>
          if schema \<and> \<not> provenance \<and> \<not> other then SCHEMA_VALIDATION_FAILED
          else if provenance \<and> \<not> schema \<and> \<not> other then PROVENANCE_INCOMPLETE
          else RSG_VALIDATION_FAILED)"

section \<open>Laws of the ladder\<close>

lemma ValidGate_iff: "ValidGate g \<longleftrightarrow> g \<in> set gateOrder"
  by (auto simp: ValidGate_def gateOrder_def)

lemma Stage_valid: "snd (Stage g) \<longleftrightarrow> ValidGate g"
  by (auto simp: Stage_def ValidGate_def gateOrder_def)

text \<open>The severity a gate runs a check at, if it runs it.\<close>

definition severity_at :: "Gate \<Rightarrow> CheckID \<Rightarrow> Severity option" where
  "severity_at g c = map_of (map (\<lambda>s. (sp_Check s, sp_Severity s)) (GateSpecs g)) c"

lemma specs_distinct: "distinct (map sp_Check (GateSpecs g))"
proof -
  have "list_all (\<lambda>p. distinct (map sp_Check (snd p))) gateSpecs" by code_simp
  then show ?thesis by (auto simp: GateSpecs_def list_all_iff split: option.splits dest!: map_of_SomeD)
qed

lemma severity_at_iff: "severity_at g c = Some v \<longleftrightarrow> \<lparr>sp_Check = c, sp_Severity = v\<rparr> \<in> set (GateSpecs g)"
proof -
  have "distinct (map fst (map (\<lambda>s. (sp_Check s, sp_Severity s)) (GateSpecs g)))"
    using specs_distinct by (simp add: comp_def)
  then have "severity_at g c = Some v \<longleftrightarrow> (c, v) \<in> (\<lambda>s. (sp_Check s, sp_Severity s)) ` set (GateSpecs g)"
    by (simp add: severity_at_def)
  also have "\<dots> \<longleftrightarrow> \<lparr>sp_Check = c, sp_Severity = v\<rparr> \<in> set (GateSpecs g)"
  proof
    assume "(c, v) \<in> (\<lambda>s. (sp_Check s, sp_Severity s)) ` set (GateSpecs g)"
    then obtain s where "s \<in> set (GateSpecs g)" "sp_Check s = c" "sp_Severity s = v" by auto
    moreover obtain c' v' where "s = \<lparr>sp_Check = c', sp_Severity = v'\<rparr>" by (metis Spec.cases)
    ultimately show "\<lparr>sp_Check = c, sp_Severity = v\<rparr> \<in> set (GateSpecs g)" by simp
  qed force
  finally show ?thesis .
qed

text \<open>Every check of a gate is a check of every stricter gate, and blocks there if it blocks here.\<close>

definition contained_in :: "Gate \<Rightarrow> Gate \<Rightarrow> bool" where
  "contained_in g h \<longleftrightarrow>
     list_all (\<lambda>s. s \<in> set (GateSpecs h) \<or> sp_Severity s = SeverityWarning \<and> blocking (sp_Check s) \<in> set (GateSpecs h))
       (GateSpecs g)"

lemma ladder_contained:
  "list_all (\<lambda>g. list_all (\<lambda>h. StricterThan h g \<longrightarrow> contained_in g h \<and> StrictnessDiff g h \<noteq> Inr []) gateOrder) gateOrder"
  by code_simp

lemma StricterThan_contained:
  assumes "StricterThan h g"
  shows "contained_in g h"
proof -
  have "g \<in> set gateOrder" "h \<in> set gateOrder"
    using assms by (auto simp: StricterThan_def Stage_valid ValidGate_iff)
  with ladder_contained assms show ?thesis by (auto simp: list_all_iff)
qed

lemma set_strictness_step:
  "set (strictness_step m \<lparr>sp_Check = c, sp_Severity = v\<rparr> d) = set d
     \<union> (if map_of m c = Some SeverityWarning \<and> v = SeverityBlocking then {WarningToBlocking c} else {})
     \<union> (if map_of m c = None then {Added c v} else {})"
  by (auto simp: strictness_step_def split: option.splits)

lemma fold_strictness:
  "set (fold (strictness_step m) ss d) = set d
     \<union> {WarningToBlocking c | c. map_of m c = Some SeverityWarning \<and> blocking c \<in> set ss}
     \<union> {Added c v | c v. map_of m c = None \<and> \<lparr>sp_Check = c, sp_Severity = v\<rparr> \<in> set ss}"
proof (induction ss arbitrary: d)
  case (Cons s ss)
  obtain c v where s: "s = \<lparr>sp_Check = c, sp_Severity = v\<rparr>" by (metis Spec.cases)
  show ?case unfolding s fold_simps Cons.IH set_strictness_step
    by (auto simp: blocking_def)
qed simp

lemma fold_update_map_of:
  "distinct (map k ss) \<Longrightarrow> map_of (fold (\<lambda>s m. AList.update (k s) (v s) m) ss m0)
     = (\<lambda>c. case map_of (map (\<lambda>s. (k s, v s)) ss) c of Some x \<Rightarrow> Some x | None \<Rightarrow> map_of m0 c)"
proof (induction ss arbitrary: m0)
  case (Cons s ss)
  then have "map_of (map (\<lambda>s. (k s, v s)) ss) (k s) = None" by (auto simp: map_of_eq_None_iff)
  with Cons show ?case by (auto simp: fun_eq_iff split: option.splits)
qed simp

lemma fold_severity_at:
  "map_of (fold (\<lambda>spec m. AList.update (sp_Check spec) (sp_Severity spec) m) (GateSpecs g) []) c = severity_at g c"
  by (simp add: fold_update_map_of [OF specs_distinct] severity_at_def split: option.splits)

lemma fold_finalize:
  "fold finalize_step rs (b, w) =
     (b \<or> (\<exists>r \<in> set rs. \<not> rs_Passed r \<and> rs_Severity r = SeverityBlocking),
      w \<or> (\<exists>r \<in> set rs. \<not> rs_Passed r \<and> rs_Severity r = SeverityWarning))"
proof (induction rs arbitrary: b w)
  case (Cons r rs)
  then show ?case by (cases "rs_Severity r") (auto simp: finalize_step_def)
qed simp

lemma finalize_simps:
  "gt_Results (finalize r) = gt_Results r" "gt_Gate (finalize r) = gt_Gate r"
  "gt_Explanation (finalize r) = Some (gt_Gate r, gt_Verdict (finalize r), Failures r)"
  by (simp_all add: finalize_def fold_finalize Let_def explainReport_def Failures_def)

lemma finalize_verdict:
  "gt_Verdict (finalize r) =
     (if BlockingFailures r \<noteq> [] then VerdictBlocked
      else if Warnings r \<noteq> [] then VerdictPassWithWarn else VerdictPass)"
  by (auto simp: finalize_def fold_finalize Let_def BlockingFailures_def Warnings_def filter_empty_conv)

lemma Blocked_finalize: "Blocked (finalize r) \<longleftrightarrow> BlockingFailures r \<noteq> []"
  by (simp add: Blocked_def finalize_verdict report_verdict_defs)

section \<open>Properties\<close>

text \<open>The ladder is strictly progressive.  Along it every check a gate runs is run by each
  stricter gate, at the same severity or promoted from warning to blocking, never demoted or
  dropped; and the explanation of the difference lists exactly the promoted and the added
  checks, and is never empty.\<close>

theorem gate_ladder_progressive:
  assumes "StricterThan h g"
  shows "(\<forall>c. severity_at g c = Some SeverityBlocking \<longrightarrow> severity_at h c = Some SeverityBlocking)
    \<and> (\<forall>c. severity_at g c \<noteq> None \<longrightarrow> severity_at h c \<noteq> None)
    \<and> (\<exists>d. StrictnessDiff g h = Inr d \<and> d \<noteq> []
         \<and> set d = {WarningToBlocking c | c. severity_at g c = Some SeverityWarning \<and> severity_at h c = Some SeverityBlocking}
             \<union> {Added c v | c v. severity_at g c = None \<and> severity_at h c = Some v})"
proof (intro conjI allI impI)
  have G: "g \<in> set gateOrder" "h \<in> set gateOrder"
    using assms by (auto simp: StricterThan_def Stage_valid ValidGate_iff)
  note C = StricterThan_contained [OF assms, unfolded contained_in_def list_all_iff]
  show "severity_at h c = Some SeverityBlocking" if "severity_at g c = Some SeverityBlocking" for c
    using C that by (force simp: severity_at_iff)
  show "severity_at h c \<noteq> None" if "severity_at g c \<noteq> None" for c
    using C that by (force simp: severity_at_iff blocking_def)
  let ?d = "fold (strictness_step (fold (\<lambda>spec m. AList.update (sp_Check spec) (sp_Severity spec) m) (GateSpecs g) []))
      (GateSpecs h) []"
  have d: "StrictnessDiff g h = Inr ?d" using assms by (simp add: StrictnessDiff_def)
  moreover have "StrictnessDiff g h \<noteq> Inr []" using ladder_contained G assms by (simp add: list_all_iff)
  moreover have "set ?d = {WarningToBlocking c | c. severity_at g c = Some SeverityWarning \<and> severity_at h c = Some SeverityBlocking}
      \<union> {Added c v | c v. severity_at g c = None \<and> severity_at h c = Some v}"
    unfolding fold_strictness fold_severity_at severity_at_iff [of h] blocking_def by simp
  ultimately show "\<exists>d. StrictnessDiff g h = Inr d \<and> d \<noteq> []
      \<and> set d = {WarningToBlocking c | c. severity_at g c = Some SeverityWarning \<and> severity_at h c = Some SeverityBlocking}
             \<union> {Added c v | c v. severity_at g c = None \<and> severity_at h c = Some v}"
    by auto
qed

theorem gate_ladder_progressive_witness:
  "StricterThan GateMain GateDraft \<and> severity_at GateMain CheckSchemaCore = Some SeverityBlocking"
proof -
  have s: "StricterThan GateMain GateDraft" by code_simp
  have "severity_at GateDraft CheckSchemaCore = Some SeverityBlocking" by code_simp
  with gate_ladder_progressive [OF s] s show ?thesis by blast
qed

end
