(* ===== verification/StateLog.thy ===== *)
theory StateLog
  imports Prelude Json Manifest
begin

text \<open>
  The rows of a project's state history (internal/domain/state.go, scientific_object.go): state
  operations, state commits and object version rows, the vocabulary of operation kinds, the
  content address of a state and the decoding of a stored operation summary.  The state row
  itself and the relation version row are those of theory \<open>Manifest\<close>.
\<close>

section \<open>Vocabulary\<close>

type_synonym StateVia = string

definition ValidStateVia :: "StateVia \<Rightarrow> bool" where
  "ValidStateVia v \<longleftrightarrow> v \<in> {''web'', ''api'', ''mcp'', ''claude_code'', ''git_compat'', ''system''}"

type_synonym StateOperationKind = string

definition OperationObjectVersionCreated :: StateOperationKind where
  "OperationObjectVersionCreated = ''object_version_created''"
definition OperationRelationVersionCreated :: StateOperationKind where
  "OperationRelationVersionCreated = ''relation_version_created''"
definition OperationEvidenceAsserted :: StateOperationKind where
  "OperationEvidenceAsserted = ''evidence_asserted''"
definition OperationBlobAttached :: StateOperationKind where
  "OperationBlobAttached = ''blob_attached''"
definition OperationPolicyApplied :: StateOperationKind where
  "OperationPolicyApplied = ''policy_applied''"
definition OperationSchemaReferenceSet :: StateOperationKind where
  "OperationSchemaReferenceSet = ''schema_reference_set''"

definition ValidStateOperationKind :: "StateOperationKind \<Rightarrow> bool" where
  "ValidStateOperationKind k \<longleftrightarrow>
     k = OperationObjectVersionCreated \<or> k = OperationRelationVersionCreated \<or> k = OperationEvidenceAsserted
     \<or> k = OperationBlobAttached \<or> k = OperationPolicyApplied \<or> k = OperationSchemaReferenceSet"

definition ValidLifecycleState :: "string \<Rightarrow> bool" where
  "ValidLifecycleState s \<longleftrightarrow> s \<in> {''active'', ''aborted'', ''reopened'', ''superseded''}"

section \<open>Rows\<close>

record StateOperation =
  op_Kind :: StateOperationKind
  op_EntityID :: string
  op_VersionNo :: int
  op_Detail :: raw

record StateCommit =
  cm_ID :: string
  cm_ProjectID :: string
  cm_BranchID :: string
  cm_BaseStateID :: "string option"
  cm_ResultStateID :: string
  cm_ActorID :: string
  cm_Via :: StateVia
  cm_Message :: string
  cm_OperationSummary :: raw
  cm_CreatedAt :: gotime

text \<open>The governance records a version may carry, and the object version row.\<close>

record AbortRecord =
  ab_ReasonCode :: string
  ab_Explanation :: string
  ab_ReplacementRef :: string
  ab_DecidedBy :: string
  ab_DecidedAt :: gotime

record ReopenRecord =
  ro_ReasonCode :: string
  ro_Explanation :: string
  ro_DecidedBy :: string
  ro_DecidedAt :: gotime

record ScientificObjectVersion =
  sv_ID :: string
  sv_ObjectID :: string
  sv_VersionNo :: int
  sv_StateID :: string
  sv_BranchID :: "string option"
  sv_SchemaID :: string
  sv_SchemaVersion :: string
  sv_Title :: string
  sv_LifecycleState :: string
  sv_Payload :: raw
  sv_VisibilityPolicyID :: "string option"
  sv_IntegrityHash :: string
  sv_CreatedBy :: string
  sv_CreatedAt :: gotime
  sv_Abort :: "AbortRecord option"
  sv_Reopen :: "ReopenRecord option"

section \<open>The wire form of operations\<close>

text \<open>\<open>json.Marshal\<close> of an operation: a zero version number and an empty detail are
  omitted.\<close>

definition operation_toks :: "StateOperation \<Rightarrow> raw" where
  "operation_toks op = obj_toks
     ([(''kind'', str_tok (op_Kind op)), (''entity_id'', str_tok (op_EntityID op))]
      @ (if op_VersionNo op = 0 then [] else [(''version_no'', int_tok (op_VersionNo op))])
      @ (if op_Detail op = [] then [] else [(''detail'', op_Detail op)]))"

definition operations_toks :: "StateOperation list \<Rightarrow> raw" where
  "operations_toks ops = arr_toks (map operation_toks ops)"

text \<open>The encoder refuses an operation whose detail is not one JSON value.\<close>

definition marshal_operations :: "StateOperation list \<Rightarrow> raw option" where
  "marshal_operations ops =
     (if list_all (\<lambda>op. op_Detail op = [] \<or> unmarshal_doc (op_Detail op) \<noteq> None) ops
      then Some (operations_toks ops) else None)"

definition ComputeStateHash :: "(raw \<Rightarrow> string) \<Rightarrow> string option \<Rightarrow> StateOperation list \<Rightarrow> string option" where
  "ComputeStateHash sha parentStateID ops =
     (case marshal_operations ops of
        None \<Rightarrow> None
      | Some b \<Rightarrow> Some (sha (obj_toks [(''parent_state_id'', opt_tok parentStateID), (''operations'', b)])))"

text \<open>\<open>json.Unmarshal\<close> into a \<open>[]StateOperation\<close>: \<open>None\<close> is the
  error.  A raw field takes the text of its value.\<close>

definition zero_operation :: StateOperation where
  "zero_operation = \<lparr>op_Kind = [], op_EntityID = [], op_VersionNo = 0, op_Detail = []\<rparr>"

definition operation_fields :: "(string \<times> (raw \<Rightarrow> StateOperation \<Rightarrow> StateOperation \<times> bool)) list" where
  "operation_fields =
     [(''kind'', \<lambda>r op. let (s, err) = string_field r (op_Kind op) in (op\<lparr>op_Kind := s\<rparr>, err)),
      (''entity_id'', \<lambda>r op. let (s, err) = string_field r (op_EntityID op) in (op\<lparr>op_EntityID := s\<rparr>, err)),
      (''version_no'', \<lambda>r op. let (n, err) = int_field r (op_VersionNo op) in (op\<lparr>op_VersionNo := n\<rparr>, err)),
      (''detail'', \<lambda>r op. (op\<lparr>op_Detail := r\<rparr>, False))]"

definition unmarshal_operations :: "raw \<Rightarrow> StateOperation list option" where
  "unmarshal_operations r =
     (case unmarshal_slice r of
        Inl _ \<Rightarrow> None
      | Inr None \<Rightarrow> Some []
      | Inr (Some elems) \<Rightarrow>
          (let ops = map (\<lambda>e. decode_struct operation_fields e zero_operation) elems
           in if list_ex snd ops then None else Some (map fst ops)))"

end
