(* ===== verification/SchemaReg.thy ===== *)
theory SchemaReg
  imports Prelude Json
begin

text \<open>
  The schema registry (internal/rsg/schemareg: registry.go, schema.go, validate.go).  A schema
  document is its bytes; \<open>lx\<close> is the JSON lexer that turns bytes into the tokens of
  theory \<open>Json\<close> and \<open>sha\<close> the hex SHA-256 of the standard library.  The JSON
  Schema compiler and validator are the package \<open>santhosh-tekuri/jsonschema\<close>:
  \<open>compile\<close> stands for a compiler loaded with the resource documents and asked for
  one id, \<open>check\<close> for validating a value against what it returned.  The registry is
  the map of its entries; its lock makes every operation atomic, so an operation is a function
  of the entries.
\<close>

section \<open>References, schemas and errors\<close>

definition CanonicalNamespace :: string where
  "CanonicalNamespace = ''https://open-rd.example/schemas/''"

definition CanonicalV1 :: string where
  "CanonicalV1 = ''1''"

record Ref =
  rf_ID :: string
  rf_Version :: string

record 'c Schema =
  sc_Ref :: Ref
  sc_ContentHash :: string
  sc_raw :: string
  sc_compiled :: 'c

type_synonym 'c Registry = "(Ref \<times> 'c Schema) list"

datatype schemareg_error =
    EmptyIDOrVersion
  | NotNamespaced string
  | ErrReservedID string
  | ErrAlreadyRegistered Ref
  | ErrUnknownSchema string
  | ErrUnknownVersion string string "string list"
  | SchemaNotJSON
  | SchemaIDMismatch string string
  | ResourceNotJSON string
  | CompileFailed Ref
  | DocumentNotJSON
  | ValidationError Ref
  | FileNotJSON string
  | FileWithoutID string
  | FileOutsideNamespace string string
  | DuplicateCanonicalID string

section \<open>Schemas (schema.go)\<close>

definition docID :: "(string \<Rightarrow> raw) \<Rightarrow> string \<Rightarrow> string" where
  "docID lx doc =
     (case decode_struct [(''$id'', string_field)] (lx doc) [] of (i, err) \<Rightarrow> if err then [] else i)"

definition contentHash :: "(string \<Rightarrow> string) \<Rightarrow> string \<Rightarrow> string" where
  "contentHash sha doc = sha doc"

definition schema_TypeConst :: "(string \<Rightarrow> raw) \<Rightarrow> 'c Schema \<Rightarrow> string option" where
  "schema_TypeConst lx s =
     (case decode_struct [(''properties'', decode_struct [(''type'', decode_struct [(''const'', string_field)])])]
             (lx (sc_raw s)) [] of
        (c, err) \<Rightarrow> if err then None else if c = [] then None else Some c)"

text \<open>A validated document is never hashed, so its tokens are all that matters of it.\<close>

definition schema_Validate :: "('c \<Rightarrow> jval \<Rightarrow> bool) \<Rightarrow> 'c Schema \<Rightarrow> raw \<Rightarrow> schemareg_error option" where
  "schema_Validate check s doc =
     (case unmarshal_doc doc of
        None \<Rightarrow> Some DocumentNotJSON
      | Some v \<Rightarrow> if check (sc_compiled s) v then None else Some (ValidationError (sc_Ref s)))"

definition compileSchema :: "(string \<Rightarrow> raw) \<Rightarrow> (string \<Rightarrow> string) \<Rightarrow>
    ((string \<times> jval) list \<Rightarrow> string \<Rightarrow> jval \<Rightarrow> 'c option) \<Rightarrow> Ref \<Rightarrow> string \<Rightarrow> (string \<times> string) list \<Rightarrow>
    schemareg_error + 'c Schema" where
  "compileSchema lx sha compile ref doc resources =
     (case unmarshal_doc (lx doc) of
        None \<Rightarrow> Inl SchemaNotJSON
      | Some v \<Rightarrow>
          if docID lx doc \<noteq> [] \<and> docID lx doc \<noteq> rf_ID ref
          then Inl (SchemaIDMismatch (docID lx doc) (rf_ID ref))
          else (case map_err (\<lambda>(url, raw). case unmarshal_doc (lx raw) of
                        None \<Rightarrow> Inl (ResourceNotJSON url) | Some rv \<Rightarrow> Inr (url, rv))
                       (filter (\<lambda>(url, raw). url \<noteq> rf_ID ref) resources) of
                  Inl e \<Rightarrow> Inl e
                | Inr others \<Rightarrow>
                    (case compile others (rf_ID ref) v of
                       None \<Rightarrow> Inl (CompileFailed ref)
                     | Some c \<Rightarrow> Inr \<lparr>sc_Ref = ref, sc_ContentHash = contentHash sha doc, sc_raw = doc,
                                      sc_compiled = c\<rparr>)))"

section \<open>The registry (registry.go, validate.go)\<close>

definition inCanonicalNamespace :: "string \<Rightarrow> bool" where
  "inCanonicalNamespace i \<longleftrightarrow>
     take (length CanonicalNamespace) (ToLower i) = ToLower CanonicalNamespace"

text \<open>Resolution context of a registration: for every other id the document of its lowest version.\<close>

definition registry_snapshot :: "'c Registry \<Rightarrow> string \<Rightarrow> (string \<times> string) list" where
  "registry_snapshot r excludeID =
     (let byID = group_rows rf_ID (filter (\<lambda>ref. rf_ID ref \<noteq> excludeID) (map fst r))
      in map (\<lambda>(i, refs). (i, sc_raw (the (map_of r (hd (sort_key rf_Version refs)))))) byID)"

definition register :: "(string \<Rightarrow> raw) \<Rightarrow> (string \<Rightarrow> string) \<Rightarrow>
    ((string \<times> jval) list \<Rightarrow> string \<Rightarrow> jval \<Rightarrow> 'c option) \<Rightarrow> 'c Registry \<Rightarrow> Ref \<Rightarrow> string \<Rightarrow>
    (string \<times> string) list \<Rightarrow> schemareg_error + 'c Registry \<times> 'c Schema" where
  "register lx sha compile r ref doc resources =
     (case compileSchema lx sha compile ref doc resources of
        Inl e \<Rightarrow> Inl e
      | Inr s \<Rightarrow>
          (case map_of r ref of
             Some existing \<Rightarrow>
               if sc_ContentHash existing = sc_ContentHash s then Inr (r, existing)
               else Inl (ErrAlreadyRegistered ref)
           | None \<Rightarrow> Inr (AList.update ref s r, s)))"

definition Register :: "(string \<Rightarrow> raw) \<Rightarrow> (string \<Rightarrow> string) \<Rightarrow>
    ((string \<times> jval) list \<Rightarrow> string \<Rightarrow> jval \<Rightarrow> 'c option) \<Rightarrow> 'c Registry \<Rightarrow> string \<Rightarrow> string \<Rightarrow> string \<Rightarrow>
    schemareg_error + 'c Registry \<times> 'c Schema" where
  "Register lx sha compile r i version doc =
     (if i = [] \<or> version = [] then Inl EmptyIDOrVersion
      else if CHR '':'' \<notin> set i then Inl (NotNamespaced i)
      else if inCanonicalNamespace i then Inl (ErrReservedID i)
      else register lx sha compile r \<lparr>rf_ID = i, rf_Version = version\<rparr> doc (registry_snapshot r i))"

definition registry_Get :: "'c Registry \<Rightarrow> Ref \<Rightarrow> 'c Schema option" where
  "registry_Get r ref = map_of r ref"

definition Versions :: "'c Registry \<Rightarrow> string \<Rightarrow> string list" where
  "Versions r i = sort (map rf_Version (filter (\<lambda>ref. rf_ID ref = i) (map fst r)))"

definition registry_Lookup :: "'c Registry \<Rightarrow> Ref \<Rightarrow> schemareg_error + 'c Schema" where
  "registry_Lookup r ref =
     (case map_of r ref of
        Some s \<Rightarrow> Inr s
      | None \<Rightarrow>
          if length (Versions r (rf_ID ref)) = 0 then Inl (ErrUnknownSchema (rf_ID ref))
          else Inl (ErrUnknownVersion (rf_ID ref) (rf_Version ref) (Versions r (rf_ID ref))))"

definition registry_List :: "'c Registry \<Rightarrow> Ref list" where
  "registry_List r = sort_key (\<lambda>ref. (rf_ID ref, rf_Version ref)) (map fst r)"

definition registry_TypeConst :: "(string \<Rightarrow> raw) \<Rightarrow> 'c Registry \<Rightarrow> Ref \<Rightarrow> string option" where
  "registry_TypeConst lx r ref = (case map_of r ref of None \<Rightarrow> None | Some s \<Rightarrow> schema_TypeConst lx s)"

definition registry_Validate :: "('c \<Rightarrow> jval \<Rightarrow> bool) \<Rightarrow> 'c Registry \<Rightarrow> Ref \<Rightarrow> raw \<Rightarrow>
    schemareg_error option" where
  "registry_Validate check r ref doc =
     (case registry_Lookup r ref of
        Inl e \<Rightarrow> Some e
      | Inr s \<Rightarrow> schema_Validate check s doc)"

text \<open>\<open>New\<close> over the embedded files, each a path with its bytes: the directory entries
  that are files and end in \<open>.json\<close>.\<close>

definition read_schema :: "(string \<Rightarrow> raw) \<Rightarrow> string \<times> string \<Rightarrow> (string \<times> string) list \<Rightarrow>
    schemareg_error + (string \<times> string) list" where
  "read_schema lx file docs =
     (case file of (path, doc) \<Rightarrow>
        if unmarshal_doc (lx doc) = None then Inl (FileNotJSON path)
        else if docID lx doc = [] then Inl (FileWithoutID path)
        else if \<not> inCanonicalNamespace (docID lx doc) then Inl (FileOutsideNamespace path (docID lx doc))
        else if map_of docs (docID lx doc) \<noteq> None then Inl (DuplicateCanonicalID (docID lx doc))
        else Inr (AList.update (docID lx doc) doc docs))"

definition registry_New :: "(string \<Rightarrow> raw) \<Rightarrow> (string \<Rightarrow> string) \<Rightarrow>
    ((string \<times> jval) list \<Rightarrow> string \<Rightarrow> jval \<Rightarrow> 'c option) \<Rightarrow> (string \<times> string) list \<Rightarrow>
    schemareg_error + 'c Registry" where
  "registry_New lx sha compile files =
     (case fold_err (read_schema lx) files [] of
        Inl e \<Rightarrow> Inl e
      | Inr docs \<Rightarrow>
          fold_err (\<lambda>(i, doc) r.
              case register lx sha compile r \<lparr>rf_ID = i, rf_Version = CanonicalV1\<rparr> doc docs of
                Inl e \<Rightarrow> Inl e | Inr (r', _) \<Rightarrow> Inr r') docs [])"

section \<open>The registry only grows\<close>

definition registry_wf :: "(string \<Rightarrow> string) \<Rightarrow> 'c Registry \<Rightarrow> bool" where
  "registry_wf sha r \<longleftrightarrow> distinct (map fst r)
     \<and> list_all (\<lambda>(ref, s). sc_Ref s = ref \<and> sc_ContentHash s = contentHash sha (sc_raw s)) r"

lemma compileSchema_Inr:
  "compileSchema lx sha compile ref doc resources = Inr s \<Longrightarrow>
     sc_Ref s = ref \<and> sc_ContentHash s = contentHash sha doc \<and> sc_raw s = doc"
  by (auto simp: compileSchema_def split: option.splits sum.splits if_splits)

lemma register_cases:
  assumes "register lx sha compile r ref doc resources = Inr (r', s)"
  obtains (same) "r' = r" "map_of r ref = Some s" "sc_ContentHash s = contentHash sha doc"
  | (added) "map_of r ref = None" "r' = AList.update ref s r" "sc_Ref s = ref" "sc_raw s = doc"
      "sc_ContentHash s = contentHash sha doc"
  using assms compileSchema_Inr unfolding register_def
  by (fastforce split: sum.splits option.splits if_splits)

lemma register_get:
  assumes "register lx sha compile r ref doc resources = Inr (r', s)"
  shows "map_of r' = (map_of r)(ref \<mapsto> s)" and "sc_ContentHash s = contentHash sha doc"
  using assms by (cases rule: register_cases; auto)+

lemma register_keeps:
  "register lx sha compile r ref doc resources = Inr (r', s) \<Longrightarrow> map_of r k = Some v \<Longrightarrow> map_of r' k = Some v"
  by (erule register_cases) auto

lemma register_wf:
  assumes "register lx sha compile r ref doc resources = Inr (r', s)" and "registry_wf sha r"
  shows "registry_wf sha r'"
  using assms(1)
proof (cases rule: register_cases)
  case added
  then have "ref \<notin> fst ` set r" by (simp add: map_of_eq_None_iff)
  with added assms(2) show ?thesis
    by (simp add: registry_wf_def update_fresh list_all_iff)
qed (use assms(2) in simp)

lemma Register_register:
  assumes "Register lx sha compile r i version doc = Inr (r', s)"
  shows "register lx sha compile r \<lparr>rf_ID = i, rf_Version = version\<rparr> doc (registry_snapshot r i) = Inr (r', s)"
    and "\<not> inCanonicalNamespace i"
  using assms by (auto simp: Register_def split: if_splits)

text \<open>A run-time registration as an operation on the entries.\<close>

definition register_op :: "(string \<Rightarrow> raw) \<Rightarrow> (string \<Rightarrow> string) \<Rightarrow>
    ((string \<times> jval) list \<Rightarrow> string \<Rightarrow> jval \<Rightarrow> 'c option) \<Rightarrow> string \<times> string \<times> string \<Rightarrow> 'c Registry \<Rightarrow>
    schemareg_error + 'c Registry" where
  "register_op lx sha compile x r =
     (case x of (i, version, doc) \<Rightarrow>
        (case Register lx sha compile r i version doc of Inl e \<Rightarrow> Inl e | Inr (r', _) \<Rightarrow> Inr r'))"

lemma register_opE:
  assumes "register_op lx sha compile x r = Inr r'"
  obtains i version doc s where "x = (i, version, doc)" "Register lx sha compile r i version doc = Inr (r', s)"
  using assms by (auto simp: register_op_def split: prod.splits sum.splits)

interpretation registry: append_only registry_Get "register_op lx sha compile" for lx sha compile
proof unfold_locales
  fix x r k v and t :: "'a Registry"
  assume "register_op lx sha compile x r = Inr t" "registry_Get r k = Some v"
  then show "registry_Get t k = Some v"
    by (auto simp: registry_Get_def elim!: register_opE dest!: Register_register(1) dest: register_keeps)
qed

lemma Lookup_Get: "registry_Lookup r ref = Inr s \<longleftrightarrow> registry_Get r ref = Some s"
  by (auto simp: registry_Lookup_def registry_Get_def split: option.splits)

section \<open>Properties\<close>

text \<open>The registry is append-only.  A successful registration returns a schema of exactly the
  registered content, under which it can be looked up at once; every schema that could be
  looked up before still is, unchanged; and every entry keeps carrying the hash of its own
  document.\<close>

theorem registry_append_only:
  assumes "registry_wf sha r" and "Register lx sha compile r i version doc = Inr (r', s)"
  shows "registry_Lookup r' \<lparr>rf_ID = i, rf_Version = version\<rparr> = Inr s \<and> sc_ContentHash s = contentHash sha doc
    \<and> (\<forall>ref t. registry_Lookup r ref = Inr t \<longrightarrow> registry_Lookup r' ref = Inr t)
    \<and> registry_wf sha r'"
proof (intro conjI allI impI)
  note R = Register_register(1) [OF assms(2)]
  show "registry_Lookup r' \<lparr>rf_ID = i, rf_Version = version\<rparr> = Inr s"
    using register_get(1) [OF R] by (simp add: Lookup_Get registry_Get_def)
  show "sc_ContentHash s = contentHash sha doc" using R by (rule register_get(2))
  show "registry_Lookup r' ref = Inr t" if "registry_Lookup r ref = Inr t" for ref t
    using that register_keeps [OF R] by (simp add: Lookup_Get registry_Get_def)
  show "registry_wf sha r'" using R assms(1) by (rule register_wf)
qed

text \<open>The canonical namespace is closed.  After the registry is built from the embedded files, no
  sequence of run-time registrations changes, removes or adds a schema whose id lies under the
  canonical namespace, in any spelling of its letters, and every schema the registry started
  with can still be looked up.\<close>

theorem canonical_namespace_closed:
  assumes "registry_New lx sha compile files = Inr r0"
    and "fold_err (register_op lx sha compile) ops r0 = Inr r"
  shows "(\<forall>ref. inCanonicalNamespace (rf_ID ref) \<longrightarrow> registry_Get r ref = registry_Get r0 ref)
    \<and> (\<forall>ref s. registry_Lookup r0 ref = Inr s \<longrightarrow> registry_Lookup r ref = Inr s)"
proof (intro conjI allI impI)
  fix ref :: Ref assume ref: "inCanonicalNamespace (rf_ID ref)"
  show "registry_Get r ref = registry_Get r0 ref"
  proof (rule fold_err_invariant [OF assms(2), of "\<lambda>r. registry_Get r ref = registry_Get r0 ref"])
    fix x s t
    assume eq: "registry_Get s ref = registry_Get r0 ref" and op: "register_op lx sha compile x s = Inr t"
    from op obtain i version doc u where R: "Register lx sha compile s i version doc = Inr (t, u)"
      by (rule register_opE)
    have "ref \<noteq> \<lparr>rf_ID = i, rf_Version = version\<rparr>" using Register_register(2) [OF R] ref by auto
    then show "registry_Get t ref = registry_Get r0 ref"
      using eq register_get(1) [OF Register_register(1) [OF R]] by (simp add: registry_Get_def)
  qed simp
next
  fix ref s assume "registry_Lookup r0 ref = Inr s"
  then show "registry_Lookup r ref = Inr s"
    using registry.history_keeps [OF assms(2)] by (simp add: Lookup_Get)
qed

text \<open>A registry of one embedded schema, with every document accepted by the compiler.\<close>

definition sample_lx :: "string \<Rightarrow> raw" where
  "sample_lx doc =
     (if doc = ''c'' then [TLBrace, TStr ''$id'', TColon, TStr (CanonicalNamespace @ ''claim''), TRBrace]
      else [TLBrace, TRBrace])"

definition sample_compile :: "(string \<times> jval) list \<Rightarrow> string \<Rightarrow> jval \<Rightarrow> unit option" where
  "sample_compile resources i v = Some ()"

definition sample_registry :: "unit Registry" where
  "sample_registry =
     [(\<lparr>rf_ID = CanonicalNamespace @ ''claim'', rf_Version = ''1''\<rparr>,
       \<lparr>sc_Ref = \<lparr>rf_ID = CanonicalNamespace @ ''claim'', rf_Version = ''1''\<rparr>, sc_ContentHash = ''c'',
        sc_raw = ''c'', sc_compiled = ()\<rparr>)]"

definition sample_ext :: "unit Schema" where
  "sample_ext = \<lparr>sc_Ref = \<lparr>rf_ID = ''lab:x'', rf_Version = ''2''\<rparr>, sc_ContentHash = ''d'', sc_raw = ''d'',
     sc_compiled = ()\<rparr>"

lemma sample_new: "registry_New sample_lx (\<lambda>d. d) sample_compile [(''claim.json'', ''c'')] = Inr sample_registry"
  by code_simp

lemma sample_register:
  "Register sample_lx (\<lambda>d. d) sample_compile sample_registry ''lab:x'' ''2'' ''d''
     = Inr (sample_registry @ [(\<lparr>rf_ID = ''lab:x'', rf_Version = ''2''\<rparr>, sample_ext)], sample_ext)"
  by code_simp

theorem registry_append_only_witness:
  "registry_Lookup (sample_registry @ [(\<lparr>rf_ID = ''lab:x'', rf_Version = ''2''\<rparr>, sample_ext)])
     \<lparr>rf_ID = ''lab:x'', rf_Version = ''2''\<rparr> = Inr sample_ext"
proof -
  have "registry_wf (\<lambda>d. d) sample_registry" by code_simp
  from registry_append_only [OF this sample_register] show ?thesis by (rule conjunct1)
qed

theorem canonical_namespace_closed_witness:
  "registry_Get (sample_registry @ [(\<lparr>rf_ID = ''lab:x'', rf_Version = ''2''\<rparr>, sample_ext)])
     \<lparr>rf_ID = CanonicalNamespace @ ''claim'', rf_Version = ''1''\<rparr>
   = registry_Get sample_registry \<lparr>rf_ID = CanonicalNamespace @ ''claim'', rf_Version = ''1''\<rparr>"
proof -
  have "fold_err (register_op sample_lx (\<lambda>d. d) sample_compile) [(''lab:x'', ''2'', ''d'')] sample_registry
     = Inr (sample_registry @ [(\<lparr>rf_ID = ''lab:x'', rf_Version = ''2''\<rparr>, sample_ext)])"
    by (simp add: register_op_def sample_register)
  note closed = canonical_namespace_closed [OF sample_new this]
  have "inCanonicalNamespace (rf_ID \<lparr>rf_ID = CanonicalNamespace @ ''claim'', rf_Version = ''1''\<rparr>)" by code_simp
  with closed [THEN conjunct1] show ?thesis by blast
qed

end
