(* ===== verification/Validation.thy ===== *)
theory Validation
  imports Gates StateLog SchemaReg
begin

text \<open>
  The gate validator (internal/rsg/validation/validator.go): every check of the ladder over a
  snapshot of a branch, and \<open>Validate\<close>, which runs the checks of one gate.

  A validator carries the schema registry and what stands for code outside the repository or
  below the model: the JSON lexer of schema documents, the JSON Schema validator, SHA-256, the
  RFC 3339 rendering of a time, and \<open>renum\<close>, which reads a JSON number literal into a
  \<open>float64\<close> and prints it again (\<open>None\<close> when it is out of range), as the
  decoder into \<open>map[string]any\<close> and the encoder do together.  Failure messages are a
  datatype of their arguments.  Instants are counted from the zero time of Go.
\<close>

section \<open>Snapshots\<close>

record ReleaseFacts =
  rl_ReviewApproved :: bool
  rl_RightsSnapshot :: bool
  rl_FromMainBranch :: bool

record AssetFacts =
  as_SourcePinned :: bool
  as_VersionPinned :: bool
  as_Contributors :: bool
  as_Rights :: bool
  as_Visibility :: bool
  as_DependencyPins :: bool
  as_IntegrityHash :: bool
  as_Metadata :: bool
  as_Document :: raw
  as_Ref :: Ref

record GateSnapshot =
  vs_ProjectID :: string
  vs_BranchID :: string
  vs_Head :: "ProjectState option"
  vs_States :: "ProjectState list"
  vs_Commits :: "StateCommit list"
  vs_ObjectVersions :: "ScientificObjectVersion list"
  vs_RelationVersions :: "RelationVersion list"
  vs_Release :: "ReleaseFacts option"
  vs_Asset :: "AssetFacts option"

record 'c Validator =
  vd_reg :: "'c Registry"
  vd_lx :: "string \<Rightarrow> raw"
  vd_check :: "'c \<Rightarrow> jval \<Rightarrow> bool"
  vd_sha :: "raw \<Rightarrow> string"
  vd_rfc3339 :: "gotime \<Rightarrow> string"
  vd_renum :: "string \<Rightarrow> string option"

definition authoritativeFields :: "string list" where
  "authoritativeFields =
     [''id'', ''version'', ''project_id'', ''branch_id'', ''title'', ''lifecycle_state'', ''schema_ref'',
      ''created_by'', ''created_at'', ''visibility_policy_id'', ''type'']"

datatype vdetail =
    NotCanonicalGate Gate
  | SchemaNotRegistered Ref schemareg_error
  | CannotValidateDocument Ref
  | NoAuthoritativeType Ref
  | SchemaFailure schemareg_error
  | PayloadNotObject
  | SmuggledFields "string list"
  | MissingIdentityFacts "string list"
  | MissingDomainFields string "string list"
  | NoIntegrityHash
  | IntegrityMismatch
  | OutsideBranchChain "string list"
  | SummaryNotParseable string
  | NotNamedByCommit "string list"
  | OperationsWithoutMember "(StateOperationKind \<times> string \<times> int \<times> string) list"
  | CreatorDiffers "(string \<times> string \<times> string) list"
  | HeadMissing
  | HeadNotAmongStates string
  | StateMissing string
  | ParentCycle string
  | NotAncestorOfHead string
  | EdgeMismatch string "string option" string "string option" string
  | BranchHasNoStates
  | ReleaseFactsMissing
  | ReleaseFactFailed CheckID
  | AssetFactsMissing
  | AssetFactFailed CheckID
  | AssetDocumentMissing

type_synonym vresult = "vdetail Result"
type_synonym vreport = "vdetail GateReport"

text \<open>The two shapes of result literals.\<close>

definition passed :: "Spec \<Rightarrow> string \<Rightarrow> vresult" where
  "passed spec subj = \<lparr>rs_Check = sp_Check spec, rs_Severity = sp_Severity spec, rs_Passed = True,
     rs_Subject = subj, rs_Detail = None\<rparr>"

definition failed :: "Spec \<Rightarrow> string \<Rightarrow> vdetail \<Rightarrow> vresult" where
  "failed spec subj d = \<lparr>rs_Check = sp_Check spec, rs_Severity = sp_Severity spec, rs_Passed = False,
     rs_Subject = subj, rs_Detail = Some d\<rparr>"

section \<open>Labels and documents\<close>

definition TrimSuffix :: "string \<Rightarrow> string \<Rightarrow> string" where
  "TrimSuffix s suf =
     (if length suf \<le> length s \<and> drop (length s - length suf) s = suf
      then take (length s - length suf) s else s)"

definition objectTypeName :: "string \<Rightarrow> string" where
  "objectTypeName schemaID =
     (let name = rev (takeWhile (\<lambda>c. c \<noteq> CHR ''/'') (rev schemaID));
          name = TrimSuffix name ''.schema.json''
      in if name = [] then ''object'' else name)"

definition show_int :: "int \<Rightarrow> string" where
  "show_int n = (if n < 0 then CHR ''-'' # show_nat (nat (- n)) else show_nat (nat n))"

definition subject :: "ScientificObjectVersion \<Rightarrow> string" where
  "subject mv = objectTypeName (sv_SchemaID mv) @ '' v'' @ show_int (sv_VersionNo mv)
     @ '' ('' @ sv_ObjectID mv @ '')''"

text \<open>Numbers of a decoded value pass through \<open>float64\<close>.\<close>

primrec float_ok :: "(string \<Rightarrow> string option) \<Rightarrow> jval \<Rightarrow> bool" where
  "float_ok renum JNull = True"
| "float_ok renum (JBool b) = True"
| "float_ok renum (JNum s) = (renum s \<noteq> None)"
| "float_ok renum (JStr s) = True"
| "float_ok renum (JArr vs) = list_all (\<lambda>x. x) (map (float_ok renum) vs)"
| "float_ok renum (JObj kvs) = list_all (\<lambda>x. snd x) (map (map_prod id (float_ok renum)) kvs)"

primrec float_value :: "(string \<Rightarrow> string option) \<Rightarrow> jval \<Rightarrow> jval" where
  "float_value renum JNull = JNull"
| "float_value renum (JBool b) = JBool b"
| "float_value renum (JNum s) = JNum (the (renum s))"
| "float_value renum (JStr s) = JStr s"
| "float_value renum (JArr vs) = JArr (map (float_value renum) vs)"
| "float_value renum (JObj kvs) = JObj (map (map_prod id (float_value renum)) kvs)"

text \<open>\<open>json.Unmarshal\<close> into a \<open>map[string]any\<close>.\<close>

definition unmarshal_map :: "(string \<Rightarrow> string option) \<Rightarrow> raw \<Rightarrow> (string \<times> jval) list option" where
  "unmarshal_map renum r =
     (case unmarshal_doc r of
        Some (JObj kvs) \<Rightarrow>
          if float_ok renum (JObj kvs) then Some (map (map_prod id (float_value renum)) kvs) else None
      | Some JNull \<Rightarrow> Some []
      | _ \<Rightarrow> None)"

definition refOf :: "ScientificObjectVersion \<Rightarrow> Ref" where
  "refOf mv = \<lparr>rf_ID = sv_SchemaID mv, rf_Version = sv_SchemaVersion mv\<rparr>"

definition rowDoc :: "'c Validator \<Rightarrow> GateSnapshot \<Rightarrow> ScientificObjectVersion \<Rightarrow> (string \<times> jval) list" where
  "rowDoc v snap mv =
     (let doc = [(''id'', JStr (sv_ObjectID mv)), (''version'', JNum (show_int (sv_VersionNo mv))),
                 (''project_id'', JStr (vs_ProjectID snap)), (''title'', JStr (sv_Title mv)),
                 (''lifecycle_state'', JStr (sv_LifecycleState mv)),
                 (''schema_ref'', JObj [(''id'', JStr (sv_SchemaID mv)), (''version'', JStr (sv_SchemaVersion mv))]),
                 (''created_by'', JStr (sv_CreatedBy mv)),
                 (''created_at'', JStr (vd_rfc3339 v (sv_CreatedAt mv)))];
          doc = (case sv_BranchID mv of None \<Rightarrow> doc | Some b \<Rightarrow> AList.update ''branch_id'' (JStr b) doc);
          doc = (case sv_VisibilityPolicyID mv of None \<Rightarrow> doc
                 | Some p \<Rightarrow> AList.update ''visibility_policy_id'' (JStr p) doc)
      in case registry_TypeConst (vd_lx v) (vd_reg v) (refOf mv) of None \<Rightarrow> doc
         | Some t \<Rightarrow> AList.update ''type'' (JStr t) doc)"

definition assembleDoc :: "'c Validator \<Rightarrow> GateSnapshot \<Rightarrow> ScientificObjectVersion \<Rightarrow> (string \<times> jval) list" where
  "assembleDoc v snap mv =
     (case unmarshal_map (vd_renum v) (sv_Payload mv) of
        None \<Rightarrow> rowDoc v snap mv
      | Some payload \<Rightarrow>
          fold (\<lambda>(k, val) doc. if k \<in> set authoritativeFields then doc else AList.update k val doc)
            payload (rowDoc v snap mv))"

fun isZeroValue :: "jval \<Rightarrow> bool" where
  "isZeroValue JNull = True"
| "isZeroValue (JStr s) = (TrimSpace s = [])"
| "isZeroValue (JArr vs) = (length vs = 0)"
| "isZeroValue (JObj kvs) = (length kvs = 0)"
| "isZeroValue _ = False"

section \<open>Checks on one object version\<close>

text \<open>Marshalling a document of decoded values cannot fail.\<close>

definition checkSchema :: "'c Validator \<Rightarrow> Spec \<Rightarrow> string \<Rightarrow> Ref \<Rightarrow> (string \<times> jval) list \<Rightarrow> vresult" where
  "checkSchema v spec subj ref doc =
     (case registry_Validate (vd_check v) (vd_reg v) ref (marshal (JObj doc)) of
        Some e \<Rightarrow> failed spec subj (SchemaFailure e)
      | None \<Rightarrow> passed spec subj)"

definition checkAuthoritativeFields :: "'c Validator \<Rightarrow> Spec \<Rightarrow> string \<Rightarrow> raw \<Rightarrow> vresult" where
  "checkAuthoritativeFields v spec subj payload =
     (case unmarshal_map (vd_renum v) payload of
        None \<Rightarrow> failed spec subj PayloadNotObject
      | Some content \<Rightarrow>
          (let found = filter (\<lambda>k. k \<in> set authoritativeFields) (map fst content)
           in if length found > 0 then failed spec subj (SmuggledFields (sort found)) else passed spec subj))"

definition IsZero :: "gotime \<Rightarrow> bool" where
  "IsZero t \<longleftrightarrow> instant t = 0"

definition checkIdentityFields :: "Spec \<Rightarrow> string \<Rightarrow> ScientificObjectVersion \<Rightarrow> vresult" where
  "checkIdentityFields spec subj mv =
     (let missing = (if TrimSpace (sv_Title mv) = [] then [''title''] else [])
        @ (if \<not> ValidLifecycleState (sv_LifecycleState mv) then [''lifecycle_state''] else [])
        @ (if sv_CreatedBy mv = [] then [''created_by''] else [])
        @ (if IsZero (sv_CreatedAt mv) then [''created_at''] else [])
      in if length missing > 0 then failed spec subj (MissingIdentityFacts missing) else passed spec subj)"

definition checkRequiredFields :: "Spec \<Rightarrow> string \<Rightarrow> (string \<times> jval) list \<Rightarrow> string \<Rightarrow> vresult" where
  "checkRequiredFields spec subj doc objectType =
     (let missing = filter (\<lambda>field. case map_of doc field of None \<Rightarrow> True | Some val \<Rightarrow> isZeroValue val)
                      (RequiredFieldsFor objectType)
      in if length missing > 0 then failed spec subj (MissingDomainFields objectType missing)
         else passed spec subj)"

definition checkPayloadIntegrity :: "'c Validator \<Rightarrow> Spec \<Rightarrow> string \<Rightarrow> ScientificObjectVersion \<Rightarrow> vresult" where
  "checkPayloadIntegrity v spec subj mv =
     (if sv_IntegrityHash mv = [] then failed spec subj NoIntegrityHash
      else if vd_sha v (sv_Payload mv) \<noteq> sv_IntegrityHash mv then failed spec subj IntegrityMismatch
      else passed spec subj)"

definition coreRef :: Ref where
  "coreRef = \<lparr>rf_ID = CanonicalNamespace @ ''core-scientific-object.schema.json'', rf_Version = CanonicalV1\<rparr>"

definition checkObject :: "'c Validator \<Rightarrow> Spec \<Rightarrow> GateSnapshot \<Rightarrow> ScientificObjectVersion \<Rightarrow> vresult" where
  "checkObject v spec snap mv =
     (case sp_Check spec of
        CheckSchemaKnown \<Rightarrow>
          (case registry_Lookup (vd_reg v) (refOf mv) of
             Inl e \<Rightarrow> failed spec (subject mv) (SchemaNotRegistered (refOf mv) e)
           | Inr _ \<Rightarrow> passed spec (subject mv))
      | CheckAuthoritativeFields \<Rightarrow> checkAuthoritativeFields v spec (subject mv) (sv_Payload mv)
      | CheckIdentityFields \<Rightarrow> checkIdentityFields spec (subject mv) mv
      | CheckPayloadIntegrity \<Rightarrow> checkPayloadIntegrity v spec (subject mv) mv
      | c \<Rightarrow>
          if c = CheckSchemaCore \<or> c = CheckSchemaTyped \<or> c = CheckRequiredFields
          then (case registry_Lookup (vd_reg v) (refOf mv) of
                  Inl e \<Rightarrow> failed spec (subject mv) (CannotValidateDocument (refOf mv))
                | Inr _ \<Rightarrow>
                    (let doc = assembleDoc v snap mv in
                     if c = CheckSchemaCore then checkSchema v spec (subject mv) coreRef doc
                     else if c = CheckSchemaTyped then checkSchema v spec (subject mv) (refOf mv) doc
                     else (case registry_TypeConst (vd_lx v) (vd_reg v) (refOf mv) of
                             None \<Rightarrow> failed spec (subject mv) (NoAuthoritativeType (refOf mv))
                           | Some typeConst \<Rightarrow> checkRequiredFields spec (subject mv) doc typeConst)))
          else passed spec (subject mv))"

section \<open>Checks on the whole snapshot\<close>

definition stateIDSet :: "GateSnapshot \<Rightarrow> string list" where
  "stateIDSet snap = map ps_ID (vs_States snap) @ (case vs_Head snap of None \<Rightarrow> [] | Some h \<Rightarrow> [ps_ID h])"

definition version_label :: "ScientificObjectVersion \<Rightarrow> string \<Rightarrow> string" where
  "version_label mv inner = objectTypeName (sv_SchemaID mv) @ '' v'' @ show_int (sv_VersionNo mv) @ '' ('' @ inner @ '')''"

definition relation_label :: "RelationVersion \<Rightarrow> string \<Rightarrow> string" where
  "relation_label rv inner = ''relation v'' @ show_int (rv_VersionNo rv) @ '' ('' @ inner @ '')''"

definition checkStateLinkage :: "Spec \<Rightarrow> GateSnapshot \<Rightarrow> vresult" where
  "checkStateLinkage spec snap =
     (let chain = stateIDSet snap;
          unlinked =
            map (\<lambda>mv. version_label mv (''state '' @ sv_StateID mv))
              (filter (\<lambda>mv. sv_StateID mv \<notin> set chain) (vs_ObjectVersions snap))
            @ map (\<lambda>rv. relation_label rv (''state '' @ rv_StateID rv))
              (filter (\<lambda>rv. rv_StateID rv \<notin> set chain) (vs_RelationVersions snap))
      in if length unlinked > 0 then failed spec [] (OutsideBranchChain unlinked) else passed spec [])"

text \<open>Keys name an entity and a version number.\<close>

definition commit_operations :: "StateCommit \<Rightarrow> vdetail + (StateCommit \<times> StateOperation list)" where
  "commit_operations c =
     (case unmarshal_operations (cm_OperationSummary c) of
        None \<Rightarrow> Inl (SummaryNotParseable (cm_ID c))
      | Some ops \<Rightarrow> Inr (c, ops))"

definition opKeys :: "StateOperation list \<Rightarrow> (string \<times> int) list" where
  "opKeys ops = map (\<lambda>op. (op_EntityID op, op_VersionNo op)) ops"

definition memberKeys :: "GateSnapshot \<Rightarrow> (string \<times> int) list" where
  "memberKeys snap = map (\<lambda>mv. (sv_ObjectID mv, sv_VersionNo mv)) (vs_ObjectVersions snap)
     @ map (\<lambda>rv. (rv_RelationID rv, rv_VersionNo rv)) (vs_RelationVersions snap)"

definition creates_version :: "StateOperation \<Rightarrow> bool" where
  "creates_version op \<longleftrightarrow>
     op_Kind op = OperationObjectVersionCreated \<or> op_Kind op = OperationRelationVersionCreated"

definition checkCommitLinkage :: "Spec \<Rightarrow> GateSnapshot \<Rightarrow> vresult" where
  "checkCommitLinkage spec snap =
     (case map_err commit_operations (vs_Commits snap) of
        Inl d \<Rightarrow> failed spec [] d
      | Inr summaries \<Rightarrow>
          (let ops = opKeys (concat (map snd summaries));
               unnamed =
                 map (\<lambda>mv. version_label mv (sv_ObjectID mv))
                   (filter (\<lambda>mv. (sv_ObjectID mv, sv_VersionNo mv) \<notin> set ops) (vs_ObjectVersions snap))
                 @ map (\<lambda>rv. relation_label rv (rv_RelationID rv))
                   (filter (\<lambda>rv. (rv_RelationID rv, rv_VersionNo rv) \<notin> set ops) (vs_RelationVersions snap))
           in if length unnamed > 0 then failed spec [] (NotNamedByCommit unnamed)
              else let dangling = concat (map (\<lambda>(c, os).
                         map (\<lambda>op. (op_Kind op, op_EntityID op, op_VersionNo op, cm_ID c))
                           (filter (\<lambda>op. creates_version op
                              \<and> (op_EntityID op, op_VersionNo op) \<notin> set (memberKeys snap)) os)) summaries)
                   in if length dangling > 0 then failed spec [] (OperationsWithoutMember dangling)
                      else passed spec []))"

definition commitActorFor :: "GateSnapshot \<Rightarrow> string \<Rightarrow> string option" where
  "commitActorFor snap stateID =
     map_option cm_ActorID (find (\<lambda>c. cm_ResultStateID c = stateID) (vs_Commits snap))"

definition checkActorConsistency :: "Spec \<Rightarrow> GateSnapshot \<Rightarrow> vresult" where
  "checkActorConsistency spec snap =
     (let mismatched = concat (map (\<lambda>mv.
            case commitActorFor snap (sv_StateID mv) of
              None \<Rightarrow> []
            | Some actor \<Rightarrow>
                if actor \<noteq> sv_CreatedBy mv
                then [(objectTypeName (sv_SchemaID mv) @ '' v'' @ show_int (sv_VersionNo mv), sv_CreatedBy mv, actor)]
                else []) (vs_ObjectVersions snap))
      in if length mismatched > 0 then failed spec [] (CreatorDiffers mismatched) else passed spec [])"

text \<open>The walk from the head along the parents: an error, or the states walked.\<close>

type_synonym state_index = "(string \<times> ProjectState) list"

function chain_walk :: "state_index \<Rightarrow> string list \<Rightarrow> string \<Rightarrow> vdetail + string list" where
  "chain_walk byID walked cur =
     (let walked' = List.insert cur walked in
      case map_of byID cur of
        None \<Rightarrow> Inl (StateMissing cur)
      | Some s \<Rightarrow>
          (case ps_ParentStateID s of
             None \<Rightarrow> Inr walked'
           | Some parent \<Rightarrow>
               if map_of byID parent = None then Inr walked'
               else if parent \<in> set walked' then Inl (ParentCycle cur)
               else chain_walk byID walked' parent))"
  by pat_completeness auto
termination
proof (relation "measure (\<lambda>(byID, walked, cur). card (fst ` set byID - insert cur (set walked)))")
  fix byID :: state_index and walked cur walked' s parent
  assume w: "walked' = List.insert cur walked" and "\<not> map_of byID parent = None" "parent \<notin> set walked'"
  then have "parent \<in> fst ` set byID - insert cur (set walked)"
    by (auto simp: map_of_eq_None_iff)
  then have "fst ` set byID - insert parent (set walked') \<subset> fst ` set byID - insert cur (set walked)"
    using w by auto
  then show "((byID, walked', parent), byID, walked, cur)
      \<in> measure (\<lambda>(byID, walked, cur). card (fst ` set byID - insert cur (set walked)))"
    by (simp add: psubset_card_mono)
qed simp

declare chain_walk.simps [simp del]

definition commit_edge :: "state_index \<Rightarrow> StateCommit \<Rightarrow> vdetail option" where
  "commit_edge byID c =
     (case map_of byID (cm_ResultStateID c) of
        None \<Rightarrow> None
      | Some rs \<Rightarrow>
          if (ps_ParentStateID rs = None) \<noteq> (cm_BaseStateID c = None)
             \<or> (ps_ParentStateID rs \<noteq> None \<and> the (ps_ParentStateID rs) \<noteq> the (cm_BaseStateID c))
          then Some (EdgeMismatch (cm_ID c) (cm_BaseStateID c) (cm_ResultStateID c) (ps_ParentStateID rs) (ps_ID rs))
          else None)"

definition checkChainIntegrity :: "Spec \<Rightarrow> GateSnapshot \<Rightarrow> vresult" where
  "checkChainIntegrity spec snap =
     (case vs_Head snap of
        None \<Rightarrow> if length (vs_States snap) = 0 then passed spec [] else failed spec [] HeadMissing
      | Some h \<Rightarrow>
          (let byID = fold (\<lambda>s m. AList.update (ps_ID s) s m) (vs_States snap) []
           in if map_of byID (ps_ID h) = None \<and> length (vs_States snap) > 0
              then failed spec [] (HeadNotAmongStates (ps_ID h))
              else (case chain_walk byID [] (ps_ID h) of
                      Inl d \<Rightarrow> failed spec [] d
                    | Inr walked \<Rightarrow>
                        (case find (\<lambda>i. i \<notin> set walked) (map fst byID) of
                           Some i \<Rightarrow> failed spec [] (NotAncestorOfHead i)
                         | None \<Rightarrow>
                             (case List.map_filter (commit_edge byID) (vs_Commits snap) of
                                d # _ \<Rightarrow> failed spec [] d
                              | [] \<Rightarrow> passed spec [])))))"

definition checkBranchEmpty :: "Spec \<Rightarrow> GateSnapshot \<Rightarrow> vresult" where
  "checkBranchEmpty spec snap =
     (if length (vs_States snap) = 0 \<and> vs_Head snap = None then failed spec [] BranchHasNoStates
      else passed spec [])"

definition checkReleaseFact :: "Spec \<Rightarrow> GateSnapshot \<Rightarrow> (ReleaseFacts \<Rightarrow> bool) \<Rightarrow> vresult" where
  "checkReleaseFact spec snap probe =
     (case vs_Release snap of
        None \<Rightarrow> failed spec [] ReleaseFactsMissing
      | Some f \<Rightarrow> if \<not> probe f then failed spec [] (ReleaseFactFailed (sp_Check spec)) else passed spec [])"

definition asset_facts :: "AssetFacts \<Rightarrow> (CheckID \<times> bool) list" where
  "asset_facts f =
     [(CheckAssetSourcePinned, as_SourcePinned f), (CheckAssetVersionPinned, as_VersionPinned f),
      (CheckAssetContributors, as_Contributors f), (CheckAssetRights, as_Rights f),
      (CheckAssetVisibility, as_Visibility f), (CheckAssetDependencyPins, as_DependencyPins f),
      (CheckAssetIntegrityHash, as_IntegrityHash f), (CheckAssetMetadata, as_Metadata f)]"

definition checkAssetFact :: "Spec \<Rightarrow> GateSnapshot \<Rightarrow> vresult" where
  "checkAssetFact spec snap =
     (case vs_Asset snap of
        None \<Rightarrow> failed spec [] AssetFactsMissing
      | Some f \<Rightarrow>
          if map_of (asset_facts f) (sp_Check spec) \<noteq> Some True
          then failed spec [] (AssetFactFailed (sp_Check spec)) else passed spec [])"

definition checkAssetSchema :: "'c Validator \<Rightarrow> Spec \<Rightarrow> GateSnapshot \<Rightarrow> vresult" where
  "checkAssetSchema v spec snap =
     (case vs_Asset snap of
        None \<Rightarrow> failed spec [] AssetFactsMissing
      | Some f \<Rightarrow>
          if length (as_Document f) = 0 then failed spec [] AssetDocumentMissing
          else (case registry_Validate (vd_check v) (vd_reg v) (as_Ref f) (as_Document f) of
                  Some e \<Rightarrow> failed spec [] (SchemaFailure e)
                | None \<Rightarrow> passed spec []))"

section \<open>Running a gate\<close>

definition object_checks :: "CheckID list" where
  "object_checks = [CheckSchemaKnown, CheckSchemaCore, CheckSchemaTyped, CheckAuthoritativeFields,
     CheckIdentityFields, CheckRequiredFields, CheckPayloadIntegrity]"

definition asset_checks :: "CheckID list" where
  "asset_checks = [CheckAssetSourcePinned, CheckAssetVersionPinned, CheckAssetContributors, CheckAssetRights,
     CheckAssetVisibility, CheckAssetDependencyPins, CheckAssetIntegrityHash, CheckAssetMetadata]"

text \<open>The results one check appends to the report.\<close>

definition check_results :: "'c Validator \<Rightarrow> Spec \<Rightarrow> GateSnapshot \<Rightarrow> vresult list" where
  "check_results v spec snap =
     (let c = sp_Check spec in
      if c \<in> set object_checks then map (checkObject v spec snap) (vs_ObjectVersions snap)
      else if c = CheckStateLinkage then [checkStateLinkage spec snap]
      else if c = CheckCommitLinkage then [checkCommitLinkage spec snap]
      else if c = CheckActorConsistency then [checkActorConsistency spec snap]
      else if c = CheckChainIntegrity then [checkChainIntegrity spec snap]
      else if c = CheckBranchEmpty then [checkBranchEmpty spec snap]
      else if c = CheckReleaseReview then [checkReleaseFact spec snap rl_ReviewApproved]
      else if c = CheckReleaseRights then [checkReleaseFact spec snap rl_RightsSnapshot]
      else if c = CheckReleaseFromMain then [checkReleaseFact spec snap rl_FromMainBranch]
      else if c \<in> set asset_checks then [checkAssetFact spec snap]
      else if c = CheckAssetSchema then [checkAssetSchema v spec snap]
      else [])"

definition runCheck :: "'c Validator \<Rightarrow> GateSnapshot \<Rightarrow> Spec \<Rightarrow> vreport \<Rightarrow> vreport" where
  "runCheck v snap spec report = report\<lparr>gt_Results := gt_Results report @ check_results v spec snap\<rparr>"

definition Validate :: "'c Validator \<Rightarrow> Gate \<Rightarrow> GateSnapshot \<Rightarrow> vreport" where
  "Validate v gate snap =
     (if \<not> ValidGate gate
      then finalize \<lparr>gt_Gate = gate, gt_Verdict = [],
             gt_Results = [\<lparr>rs_Check = CheckGate, rs_Severity = SeverityBlocking, rs_Passed = False,
                            rs_Subject = [], rs_Detail = Some (NotCanonicalGate gate)\<rparr>],
             gt_Explanation = None\<rparr>
      else finalize (fold (runCheck v snap) (GateSpecs gate)
             \<lparr>gt_Gate = gate, gt_Verdict = [], gt_Results = [], gt_Explanation = None\<rparr>))"

section \<open>Severity only labels a result\<close>

definition with_severity :: "Severity \<Rightarrow> vresult \<Rightarrow> vresult" where
  "with_severity sev r = r\<lparr>rs_Severity := sev\<rparr>"

lemma with_severity_simps [simp]:
  "with_severity b (passed (s\<lparr>sp_Severity := a\<rparr>) subj) = passed (s\<lparr>sp_Severity := b\<rparr>) subj"
  "with_severity b (failed (s\<lparr>sp_Severity := a\<rparr>) subj d) = failed (s\<lparr>sp_Severity := b\<rparr>) subj d"
  "rs_Passed (with_severity b r) = rs_Passed r" "rs_Severity (with_severity b r) = b"
  by (simp_all add: with_severity_def passed_def failed_def)

lemma with_severity_if: "with_severity b (if P then x else y) = (if P then with_severity b x else with_severity b y)"
  by simp

lemmas snapshot_check_defs = checkStateLinkage_def checkCommitLinkage_def checkActorConsistency_def
  checkChainIntegrity_def checkBranchEmpty_def checkReleaseFact_def checkAssetFact_def checkAssetSchema_def

lemmas object_check_defs = checkSchema_def checkAuthoritativeFields_def checkIdentityFields_def
  checkRequiredFields_def checkPayloadIntegrity_def

lemma snapshot_check_severity:
  "with_severity b (checkStateLinkage (s\<lparr>sp_Severity := a\<rparr>) snap) = checkStateLinkage (s\<lparr>sp_Severity := b\<rparr>) snap"
  "with_severity b (checkCommitLinkage (s\<lparr>sp_Severity := a\<rparr>) snap) = checkCommitLinkage (s\<lparr>sp_Severity := b\<rparr>) snap"
  "with_severity b (checkActorConsistency (s\<lparr>sp_Severity := a\<rparr>) snap) = checkActorConsistency (s\<lparr>sp_Severity := b\<rparr>) snap"
  "with_severity b (checkChainIntegrity (s\<lparr>sp_Severity := a\<rparr>) snap) = checkChainIntegrity (s\<lparr>sp_Severity := b\<rparr>) snap"
  "with_severity b (checkBranchEmpty (s\<lparr>sp_Severity := a\<rparr>) snap) = checkBranchEmpty (s\<lparr>sp_Severity := b\<rparr>) snap"
  "with_severity b (checkReleaseFact (s\<lparr>sp_Severity := a\<rparr>) snap f) = checkReleaseFact (s\<lparr>sp_Severity := b\<rparr>) snap f"
  "with_severity b (checkAssetFact (s\<lparr>sp_Severity := a\<rparr>) snap) = checkAssetFact (s\<lparr>sp_Severity := b\<rparr>) snap"
  "with_severity b (checkAssetSchema v (s\<lparr>sp_Severity := a\<rparr>) snap) = checkAssetSchema v (s\<lparr>sp_Severity := b\<rparr>) snap"
  by (simp_all add: snapshot_check_defs Let_def split: option.split sum.split list.split)

lemma object_check_severity:
  "with_severity b (checkSchema v (s\<lparr>sp_Severity := a\<rparr>) subj ref doc) = checkSchema v (s\<lparr>sp_Severity := b\<rparr>) subj ref doc"
  "with_severity b (checkAuthoritativeFields v (s\<lparr>sp_Severity := a\<rparr>) subj p) = checkAuthoritativeFields v (s\<lparr>sp_Severity := b\<rparr>) subj p"
  "with_severity b (checkIdentityFields (s\<lparr>sp_Severity := a\<rparr>) subj mv) = checkIdentityFields (s\<lparr>sp_Severity := b\<rparr>) subj mv"
  "with_severity b (checkRequiredFields (s\<lparr>sp_Severity := a\<rparr>) subj doc t) = checkRequiredFields (s\<lparr>sp_Severity := b\<rparr>) subj doc t"
  "with_severity b (checkPayloadIntegrity v (s\<lparr>sp_Severity := a\<rparr>) subj mv) = checkPayloadIntegrity v (s\<lparr>sp_Severity := b\<rparr>) subj mv"
  by (simp_all add: object_check_defs Let_def with_severity_if split: option.split)

lemma checkObject_severity:
  "with_severity b (checkObject v (s\<lparr>sp_Severity := a\<rparr>) snap mv) = checkObject v (s\<lparr>sp_Severity := b\<rparr>) snap mv"
  by (cases "sp_Check s") (simp_all add: checkObject_def Let_def object_check_severity split: sum.split option.split)

lemma check_results_severity:
  "map (with_severity b) (check_results v (s\<lparr>sp_Severity := a\<rparr>) snap) = check_results v (s\<lparr>sp_Severity := b\<rparr>) snap"
  by (simp add: check_results_def Let_def comp_def checkObject_severity snapshot_check_severity)

text \<open>A check at two severities gives the same outcomes, each labelled with the severity it ran
  at.\<close>

lemma check_results_relabel:
  "check_results v \<lparr>sp_Check = c, sp_Severity = b\<rparr> snap
     = map (with_severity b) (check_results v \<lparr>sp_Check = c, sp_Severity = a\<rparr> snap)"
  using check_results_severity [of b v a "\<lparr>sp_Check = c, sp_Severity = a\<rparr>" snap] by simp

lemma check_results_labelled: "r \<in> set (check_results v s snap) \<Longrightarrow> rs_Severity r = sp_Severity s"
proof -
  assume r: "r \<in> set (check_results v s snap)"
  obtain c a where "s = \<lparr>sp_Check = c, sp_Severity = a\<rparr>" by (metis Spec.cases)
  moreover have "r \<in> set (map (with_severity a) (check_results v \<lparr>sp_Check = c, sp_Severity = a\<rparr> snap))"
    using r unfolding check_results_relabel [of v c a snap a, symmetric] calculation .
  ultimately show ?thesis by auto
qed

section \<open>What a gate run reports\<close>

lemma fold_runCheck:
  "gt_Results (fold (runCheck v snap) specs report)
     = gt_Results report @ concat (map (\<lambda>s. check_results v s snap) specs)"
  by (induction specs arbitrary: report) (simp_all add: runCheck_def)

lemma Validate_results:
  "ValidGate gate \<Longrightarrow> gt_Results (Validate v gate snap) = concat (map (\<lambda>s. check_results v s snap) (GateSpecs gate))"
  by (simp add: Validate_def finalize_simps fold_runCheck)

lemma Validate_Blocked: "Blocked (Validate v gate snap) \<longleftrightarrow> BlockingFailures (Validate v gate snap) \<noteq> []"
  by (auto simp: Validate_def Blocked_finalize BlockingFailures_def finalize_simps)

text \<open>A check fails on a snapshot independently of the gate that asks.\<close>

definition check_fails :: "'c Validator \<Rightarrow> CheckID \<Rightarrow> GateSnapshot \<Rightarrow> bool" where
  "check_fails v c snap \<longleftrightarrow> (\<exists>r \<in> set (check_results v (blocking c) snap). \<not> rs_Passed r)"

lemma Blocked_iff:
  assumes "ValidGate gate"
  shows "Blocked (Validate v gate snap) \<longleftrightarrow>
     (\<exists>c. severity_at gate c = Some SeverityBlocking \<and> check_fails v c snap)"
proof -
  have "Blocked (Validate v gate snap) \<longleftrightarrow>
      (\<exists>s \<in> set (GateSpecs gate). \<exists>r \<in> set (check_results v s snap). \<not> rs_Passed r \<and> rs_Severity r = SeverityBlocking)"
    unfolding Validate_Blocked BlockingFailures_def Validate_results [OF assms]
    by (auto simp: filter_empty_conv)
  also have "\<dots> \<longleftrightarrow> (\<exists>s \<in> set (GateSpecs gate). sp_Severity s = SeverityBlocking
      \<and> (\<exists>r \<in> set (check_results v s snap). \<not> rs_Passed r))"
    using check_results_labelled by metis
  also have "\<dots> \<longleftrightarrow> (\<exists>c. severity_at gate c = Some SeverityBlocking \<and> check_fails v c snap)"
  proof
    assume "\<exists>s \<in> set (GateSpecs gate). sp_Severity s = SeverityBlocking
      \<and> (\<exists>r \<in> set (check_results v s snap). \<not> rs_Passed r)"
    then obtain s where s: "s \<in> set (GateSpecs gate)" "sp_Severity s = SeverityBlocking"
      "\<exists>r \<in> set (check_results v s snap). \<not> rs_Passed r" by blast
    moreover from s(2) have "s = blocking (sp_Check s)" by (simp add: blocking_def)
    ultimately show "\<exists>c. severity_at gate c = Some SeverityBlocking \<and> check_fails v c snap"
      unfolding severity_at_iff check_fails_def by (metis blocking_def)
  next
    assume "\<exists>c. severity_at gate c = Some SeverityBlocking \<and> check_fails v c snap"
    then show "\<exists>s \<in> set (GateSpecs gate). sp_Severity s = SeverityBlocking
      \<and> (\<exists>r \<in> set (check_results v s snap). \<not> rs_Passed r)"
      unfolding severity_at_iff check_fails_def blocking_def by (metis Spec.select_convs(2))
  qed
  finally show ?thesis .
qed

lemma blocked_upwards:
  assumes "StricterThan h g" and "Blocked (Validate v g snap)"
  shows "Blocked (Validate v h snap)"
proof -
  have V: "ValidGate g" "ValidGate h" using assms(1) by (auto simp: StricterThan_def Stage_valid)
  from assms(2) obtain c where c: "severity_at g c = Some SeverityBlocking" "check_fails v c snap"
    by (auto simp: Blocked_iff [OF V(1)])
  have "severity_at h c = Some SeverityBlocking"
    using StricterThan_contained [OF assms(1)] c(1) by (force simp: contained_in_def list_all_iff severity_at_iff)
  with c(2) show ?thesis by (auto simp: Blocked_iff [OF V(2)])
qed

section \<open>The chain walk\<close>

text \<open>States in an order in which each names the next as its parent and the last one's parent is
  none of the branch's states.\<close>

fun parent_linked :: "string set \<Rightarrow> ProjectState list \<Rightarrow> bool" where
  "parent_linked K [] = False"
| "parent_linked K [s] = (case ps_ParentStateID s of None \<Rightarrow> True | Some p \<Rightarrow> p \<notin> K)"
| "parent_linked K (s # t # ss) = (ps_ParentStateID s = Some (ps_ID t) \<and> parent_linked K (t # ss))"

definition indexes :: "state_index \<Rightarrow> ProjectState set \<Rightarrow> bool" where
  "indexes byID S \<longleftrightarrow> (\<forall>x s. map_of byID x = Some s \<longleftrightarrow> s \<in> S \<and> ps_ID s = x)"

lemma indexes_None: "indexes byID S \<Longrightarrow> map_of byID x = None \<longleftrightarrow> x \<notin> ps_ID ` S"
  unfolding indexes_def by (metis image_iff not_None_eq)

lemma chain_walk_sound:
  assumes "indexes byID S" and "chain_walk byID walked cur = Inr w" and "cur \<notin> set walked"
  shows "\<exists>ps. parent_linked (ps_ID ` S) ps \<and> ps_ID (hd ps) = cur \<and> set ps \<subseteq> S \<and> distinct (map ps_ID ps)
    \<and> ps_ID ` set ps \<inter> set walked = {} \<and> set w = set walked \<union> ps_ID ` set ps"
  using assms
proof (induction byID walked cur rule: chain_walk.induct)
  case (1 byID walked cur)
  note eq = chain_walk.simps [of byID walked cur]
  obtain s where s: "map_of byID cur = Some s" using "1.prems"(2) by (cases "map_of byID cur") (auto simp: eq Let_def)
  then have sS: "s \<in> S" "ps_ID s = cur" using "1.prems"(1) by (auto simp: indexes_def)
  let ?w = "List.insert cur walked"
  show ?case
  proof (cases "\<exists>p. ps_ParentStateID s = Some p \<and> map_of byID p \<noteq> None")
    case False
    then have "w = ?w" using "1.prems"(2) s by (auto simp: eq Let_def split: option.splits)
    moreover have "parent_linked (ps_ID ` S) [s]"
      using False "1.prems"(1) by (auto simp: indexes_None [OF "1.prems"(1)] split: option.splits)
    ultimately show ?thesis using sS "1.prems"(3) by (intro exI [of _ "[s]"]) auto
  next
    case True
    then obtain p where p: "ps_ParentStateID s = Some p" "map_of byID p \<noteq> None" by blast
    then have q: "p \<notin> set ?w" "chain_walk byID ?w p = Inr w"
      using "1.prems"(2) s by (auto simp: eq Let_def split: if_splits)
    from "1.IH" [OF refl s p(1) p(2) q(1) "1.prems"(1) q(2) q(1)] obtain ps where ps:
      "parent_linked (ps_ID ` S) ps" "ps_ID (hd ps) = p" "set ps \<subseteq> S" "distinct (map ps_ID ps)"
      "ps_ID ` set ps \<inter> set ?w = {}" "set w = set ?w \<union> ps_ID ` set ps" by blast
    then obtain t ts where t: "ps = t # ts" by (cases ps) auto
    have "parent_linked (ps_ID ` S) (s # ps)" using ps(1,2) p(1) by (simp add: t)
    moreover have "distinct (map ps_ID (s # ps))" using ps(4,5) sS(2) by auto
    moreover have "ps_ID ` set (s # ps) \<inter> set walked = {}" using ps(5) sS(2) "1.prems"(3) by auto
    moreover have "set w = set walked \<union> ps_ID ` set (s # ps)" using ps(6) sS(2) by auto
    ultimately show ?thesis using ps(3) sS by (intro exI [of _ "s # ps"]) auto
  qed
qed

lemma chain_walk_complete:
  assumes "indexes byID S"
  shows "parent_linked (ps_ID ` S) ps \<Longrightarrow> set ps \<subseteq> S \<Longrightarrow> distinct (map ps_ID ps)
    \<Longrightarrow> ps_ID ` set ps \<inter> set walked = {}
    \<Longrightarrow> \<exists>w. chain_walk byID walked (ps_ID (hd ps)) = Inr w \<and> set w = set walked \<union> ps_ID ` set ps"
proof (induction ps arbitrary: walked)
  case (Cons s ps)
  have s: "map_of byID (ps_ID s) = Some s" using assms Cons.prems(2) by (simp add: indexes_def)
  let ?w = "List.insert (ps_ID s) walked"
  show ?case
  proof (cases ps)
    case Nil
    then have "chain_walk byID walked (ps_ID s) = Inr ?w"
      using s Cons.prems(1) indexes_None [OF assms]
      by (auto simp: chain_walk.simps [of byID walked] Let_def split: option.splits)
    with Nil show ?thesis by auto
  next
    case (Cons t ts)
    have p: "ps_ParentStateID s = Some (ps_ID t)" using Cons.prems(1) by (simp add: Cons)
    have t: "map_of byID (ps_ID t) = Some t" using assms Cons.prems(2) by (simp add: indexes_def Cons)
    have n: "ps_ID t \<notin> set ?w" using Cons.prems(3,4) by (auto simp: Cons)
    have "chain_walk byID walked (ps_ID s) = chain_walk byID ?w (ps_ID t)"
      using s p t n by (simp add: chain_walk.simps [of byID walked])
    moreover have "\<exists>w. chain_walk byID ?w (ps_ID (hd ps)) = Inr w \<and> set w = set ?w \<union> ps_ID ` set ps"
      using Cons.prems by (intro Cons.IH) (auto simp: Cons)
    ultimately show ?thesis by (auto simp: Cons)
  qed
qed simp

lemma chain_walk_iff:
  assumes "indexes byID S"
  shows "(\<exists>w. chain_walk byID [] x = Inr w \<and> ps_ID ` S \<subseteq> set w) \<longleftrightarrow>
    (\<exists>ps. parent_linked (ps_ID ` S) ps \<and> ps_ID (hd ps) = x \<and> set ps = S \<and> distinct (map ps_ID ps))"
proof
  assume "\<exists>w. chain_walk byID [] x = Inr w \<and> ps_ID ` S \<subseteq> set w"
  then obtain w ps where "ps_ID ` S \<subseteq> set w" and ps: "parent_linked (ps_ID ` S) ps" "ps_ID (hd ps) = x" "set ps \<subseteq> S"
    "distinct (map ps_ID ps)" "set w = ps_ID ` set ps"
    using chain_walk_sound [OF assms, of "[]" x] by auto
  have "s \<in> set ps" if "s \<in> S" for s
  proof -
    from that \<open>ps_ID ` S \<subseteq> set w\<close> ps(5) obtain t where t: "t \<in> set ps" "ps_ID t = ps_ID s" by auto
    have "map_of byID (ps_ID u) = Some u" if "u \<in> S" for u
      using assms that unfolding indexes_def by blast
    from this [of t] this [of s] t that ps(3) have "t = s" by (metis option.inject subsetD)
    with t(1) show ?thesis by simp
  qed
  with ps show "\<exists>ps. parent_linked (ps_ID ` S) ps \<and> ps_ID (hd ps) = x \<and> set ps = S \<and> distinct (map ps_ID ps)" by blast
next
  assume "\<exists>ps. parent_linked (ps_ID ` S) ps \<and> ps_ID (hd ps) = x \<and> set ps = S \<and> distinct (map ps_ID ps)"
  then show "\<exists>w. chain_walk byID [] x = Inr w \<and> ps_ID ` S \<subseteq> set w"
    using chain_walk_complete [OF assms, of _ "[]"] by fastforce
qed

lemma indexes_fold:
  "distinct (map ps_ID ss) \<Longrightarrow> indexes (fold (\<lambda>s m. AList.update (ps_ID s) s m) ss []) (set ss)"
proof -
  assume d: "distinct (map ps_ID ss)"
  then have "distinct (map fst (map (\<lambda>s. (ps_ID s, s)) ss))" by (simp add: comp_def)
  then have M: "map_of (map (\<lambda>s. (ps_ID s, s)) ss) x = Some s \<longleftrightarrow> s \<in> set ss \<and> ps_ID s = x" for x s
    by (auto simp: map_of_eq_Some_iff)
  have C: "(case m of None \<Rightarrow> map_of [] x | Some y \<Rightarrow> Some y) = m" for m :: "ProjectState option" and x
    by (cases m) simp_all
  show ?thesis
    unfolding indexes_def fold_update_map_of [OF d, of "\<lambda>s. s"] C M by simp
qed

lemma find_None_set: "find (\<lambda>i. i \<notin> W) xs = None \<longleftrightarrow> set xs \<subseteq> W"
  by (auto simp: find_None_iff)

lemma map_filter_Nil_iff: "List.map_filter f xs = [] \<longleftrightarrow> (\<forall>x \<in> set xs. f x = None)"
  by (induction xs) (auto simp: List.map_filter_simps split: option.splits)

lemma commit_edge_None:
  assumes "indexes byID S"
  shows "commit_edge byID c = None \<longleftrightarrow>
     (\<forall>s \<in> S. ps_ID s = cm_ResultStateID c \<longrightarrow> ps_ParentStateID s = cm_BaseStateID c)"
proof (cases "map_of byID (cm_ResultStateID c)")
  case None
  then have "cm_ResultStateID c \<notin> ps_ID ` S" by (simp only: indexes_None [OF assms] not_False_eq_True)
  moreover have "commit_edge byID c = None" by (simp add: commit_edge_def None)
  ultimately show ?thesis by (auto simp: image_iff)
next
  case (Some rs)
  have "s = rs" if "s \<in> S" "ps_ID s = cm_ResultStateID c" for s
    using Some assms that unfolding indexes_def by (metis option.inject)
  moreover have "rs \<in> S" "ps_ID rs = cm_ResultStateID c" using Some assms by (auto simp: indexes_def)
  ultimately have "(\<forall>s \<in> S. ps_ID s = cm_ResultStateID c \<longrightarrow> ps_ParentStateID s = cm_BaseStateID c)
      \<longleftrightarrow> ps_ParentStateID rs = cm_BaseStateID c" by metis
  moreover have "commit_edge byID c = None \<longleftrightarrow> ps_ParentStateID rs = cm_BaseStateID c"
    using Some by (cases "ps_ParentStateID rs"; cases "cm_BaseStateID c") (auto simp: commit_edge_def)
  ultimately show ?thesis by simp
qed

lemma passed_simps [simp]: "rs_Passed (passed spec subj)" "\<not> rs_Passed (failed spec subj d)"
  by (simp_all add: passed_def failed_def)

lemma fold_update_keys: "fst ` set (fold (\<lambda>s m. AList.update (k s) (f s) m) ss m) = fst ` set m \<union> k ` set ss"
  by (induction ss arbitrary: m) (auto simp: keys_update)

lemma Validate_unknown: "\<not> ValidGate x \<Longrightarrow> Blocked (Validate v x snap)"
  by (simp add: Validate_def Blocked_finalize BlockingFailures_def)

text \<open>What the chain check of a branch with a head amounts to.\<close>

lemma checkChainIntegrity_head:
  assumes "distinct (map ps_ID (vs_States snap))" and "vs_Head snap = Some h"
  shows "rs_Passed (checkChainIntegrity spec snap) \<longleftrightarrow>
    (\<exists>ps. parent_linked (ps_ID ` set (vs_States snap)) ps \<and> ps_ID (hd ps) = ps_ID h
       \<and> set ps = set (vs_States snap) \<and> distinct (map ps_ID ps))
    \<and> (\<forall>c \<in> set (vs_Commits snap). \<forall>s \<in> set (vs_States snap).
         ps_ID s = cm_ResultStateID c \<longrightarrow> ps_ParentStateID s = cm_BaseStateID c)"
proof -
  define S where "S = set (vs_States snap)"
  define byID where "byID = fold (\<lambda>s m. AList.update (ps_ID s) s m) (vs_States snap) []"
  have I: "indexes byID S" unfolding byID_def S_def using assms(1) by (rule indexes_fold)
  have K: "set (map fst byID) = ps_ID ` S" by (simp add: byID_def S_def fold_update_keys)
  have E: "List.map_filter (commit_edge byID) (vs_Commits snap) = [] \<longleftrightarrow>
      (\<forall>c \<in> set (vs_Commits snap). \<forall>s \<in> S. ps_ID s = cm_ResultStateID c \<longrightarrow> ps_ParentStateID s = cm_BaseStateID c)"
    unfolding map_filter_Nil_iff commit_edge_None [OF I] ..
  have "rs_Passed (checkChainIntegrity spec snap) \<longleftrightarrow>
      \<not> (map_of byID (ps_ID h) = None \<and> vs_States snap \<noteq> [])
      \<and> (\<exists>w. chain_walk byID [] (ps_ID h) = Inr w \<and> ps_ID ` S \<subseteq> set w)
      \<and> List.map_filter (commit_edge byID) (vs_Commits snap) = []"
    unfolding K [symmetric] find_None_set [symmetric]
    by (auto simp: checkChainIntegrity_def assms(2) byID_def [symmetric] Let_def split: sum.splits option.splits list.splits)
  also have "\<dots> \<longleftrightarrow> (\<exists>w. chain_walk byID [] (ps_ID h) = Inr w \<and> ps_ID ` S \<subseteq> set w)
      \<and> List.map_filter (commit_edge byID) (vs_Commits snap) = []"
    by (auto simp: chain_walk.simps [of byID "[]"] Let_def split: option.splits)
  also have "\<dots> \<longleftrightarrow> (\<exists>ps. parent_linked (ps_ID ` S) ps \<and> ps_ID (hd ps) = ps_ID h \<and> set ps = S \<and> distinct (map ps_ID ps))
      \<and> List.map_filter (commit_edge byID) (vs_Commits snap) = []"
    unfolding chain_walk_iff [OF I] ..
  finally show ?thesis by (simp add: E S_def)
qed

section \<open>Properties\<close>

text \<open>A refusal at a gate is a refusal at every stricter gate: for one snapshot, whatever the
  validator blocks at a gate of the ladder it blocks at each later one, and a gate outside the
  ladder is always blocked.\<close>

theorem gate_refusal_monotone:
  assumes "StricterThan h g" and "Blocked (Validate v g snap)"
  shows "Blocked (Validate v h snap) \<and> (\<forall>x. \<not> ValidGate x \<longrightarrow> Blocked (Validate v x snap))"
  using blocked_upwards [OF assms] Validate_unknown by blast

text \<open>C34: the chain check is exactly linearity.  For a branch whose states have distinct ids it
  passes when there is neither head nor state, or when the states can be listed from the head so
  that each names the next as its parent and the last one's parent lies outside the branch, and
  every commit's base is the parent of the state it produced.\<close>

theorem chain_integrity_iff_linear:
  assumes "distinct (map ps_ID (vs_States snap))"
  shows "rs_Passed (checkChainIntegrity spec snap) \<longleftrightarrow>
    (case vs_Head snap of
       None \<Rightarrow> vs_States snap = []
     | Some h \<Rightarrow>
         (\<exists>ps. parent_linked (ps_ID ` set (vs_States snap)) ps \<and> ps_ID (hd ps) = ps_ID h
            \<and> set ps = set (vs_States snap) \<and> distinct (map ps_ID ps))
         \<and> (\<forall>c \<in> set (vs_Commits snap). \<forall>s \<in> set (vs_States snap).
              ps_ID s = cm_ResultStateID c \<longrightarrow> ps_ParentStateID s = cm_BaseStateID c))"
proof (cases "vs_Head snap")
  case None
  then show ?thesis by (simp add: checkChainIntegrity_def)
next
  case (Some h)
  then show ?thesis by (simp add: checkChainIntegrity_head [OF assms Some])
qed

text \<open>Traceability in both directions.  The commit linkage check passes exactly when every commit's
  operation summary can be decoded, every member version of the branch is named by one of the
  operations, and every operation that creates a version has its member.\<close>

theorem commit_linkage_iff:
  "rs_Passed (checkCommitLinkage spec snap) \<longleftrightarrow>
     (\<forall>c \<in> set (vs_Commits snap). unmarshal_operations (cm_OperationSummary c) \<noteq> None)
     \<and> (\<forall>k \<in> set (memberKeys snap). \<exists>c \<in> set (vs_Commits snap). \<exists>ops op.
          unmarshal_operations (cm_OperationSummary c) = Some ops \<and> op \<in> set ops
          \<and> k = (op_EntityID op, op_VersionNo op))
     \<and> (\<forall>c \<in> set (vs_Commits snap). \<forall>ops op. unmarshal_operations (cm_OperationSummary c) = Some ops
          \<longrightarrow> op \<in> set ops \<longrightarrow> creates_version op \<longrightarrow> (op_EntityID op, op_VersionNo op) \<in> set (memberKeys snap))"
proof (cases "\<forall>c \<in> set (vs_Commits snap). unmarshal_operations (cm_OperationSummary c) \<noteq> None")
  case False
  then have "\<not> (\<exists>ys. map_err commit_operations (vs_Commits snap) = Inr ys)"
    unfolding map_err_ok_iff by (force simp: commit_operations_def)
  then obtain d where "map_err commit_operations (vs_Commits snap) = Inl d" by (metis sum.exhaust)
  then have "\<not> rs_Passed (checkCommitLinkage spec snap)" by (simp add: checkCommitLinkage_def)
  with False show ?thesis by blast
next
  case True
  define ops :: "StateCommit \<Rightarrow> StateOperation list" where "ops = (\<lambda>c. the (unmarshal_operations (cm_OperationSummary c)))"
  have U: "unmarshal_operations (cm_OperationSummary c) = Some (ops c)" if "c \<in> set (vs_Commits snap)" for c
    using True that by (auto simp: ops_def)
  have M: "map_err commit_operations (vs_Commits snap) = Inr (map (\<lambda>c. (c, ops c)) (vs_Commits snap))"
    using U by (intro map_err_total) (auto simp: commit_operations_def)
  have P: "rs_Passed (checkCommitLinkage spec snap) \<longleftrightarrow>
      (\<forall>k \<in> set (memberKeys snap). \<exists>c \<in> set (vs_Commits snap). \<exists>op \<in> set (ops c). k = (op_EntityID op, op_VersionNo op))
      \<and> (\<forall>c \<in> set (vs_Commits snap). \<forall>op \<in> set (ops c). creates_version op
           \<longrightarrow> (op_EntityID op, op_VersionNo op) \<in> set (memberKeys snap))"
    by (simp add: checkCommitLinkage_def M Let_def comp_def opKeys_def ball_Un image_iff filter_empty_conv
        memberKeys_def)
  have A: "(\<exists>c \<in> set (vs_Commits snap). \<exists>os op. unmarshal_operations (cm_OperationSummary c) = Some os
      \<and> op \<in> set os \<and> k = (op_EntityID op, op_VersionNo op))
      \<longleftrightarrow> (\<exists>c \<in> set (vs_Commits snap). \<exists>op \<in> set (ops c). k = (op_EntityID op, op_VersionNo op))" for k
    by (rule bex_cong) (auto simp: U)
  have B: "(\<forall>c \<in> set (vs_Commits snap). \<forall>os op. unmarshal_operations (cm_OperationSummary c) = Some os
        \<longrightarrow> op \<in> set os \<longrightarrow> creates_version op \<longrightarrow> (op_EntityID op, op_VersionNo op) \<in> set (memberKeys snap))
      \<longleftrightarrow> (\<forall>c \<in> set (vs_Commits snap). \<forall>op \<in> set (ops c). creates_version op
           \<longrightarrow> (op_EntityID op, op_VersionNo op) \<in> set (memberKeys snap))"
    by (rule ball_cong) (auto simp: U)
  show ?thesis unfolding P A B using True by simp
qed

text \<open>C35: a payload cannot forge what the server decides.  Whatever payload a version carries, every
  authoritative field of the document its schemas are checked against comes from the version
  row, the registry or the snapshot; and a payload that is an object naming such a field fails
  the authoritative-fields check.\<close>

theorem payload_cannot_forge:
  assumes "k \<in> set authoritativeFields"
  shows "map_of (assembleDoc v snap (mv\<lparr>sv_Payload := p\<rparr>)) k = map_of (assembleDoc v snap mv) k
    \<and> (unmarshal_map (vd_renum v) p = Some kvs \<longrightarrow> k \<in> fst ` set kvs
        \<longrightarrow> \<not> rs_Passed (checkAuthoritativeFields v spec subj p))"
proof (intro conjI impI)
  have F: "map_of (fold (\<lambda>(k, val) doc. if k \<in> set authoritativeFields then doc else AList.update k val doc) payload doc) k
      = map_of doc k" for payload :: "(string \<times> jval) list" and doc
    using assms by (induction payload arbitrary: doc) auto
  then have D: "map_of (case m of None \<Rightarrow> doc | Some payload \<Rightarrow>
        fold (\<lambda>(k, val) doc. if k \<in> set authoritativeFields then doc else AList.update k val doc) payload doc) k
      = map_of doc k" for m and doc :: "(string \<times> jval) list"
    by (cases m) simp_all
  show "map_of (assembleDoc v snap (mv\<lparr>sv_Payload := p\<rparr>)) k = map_of (assembleDoc v snap mv) k"
    unfolding assembleDoc_def D by (simp add: rowDoc_def refOf_def)
  assume u: "unmarshal_map (vd_renum v) p = Some kvs" and k: "k \<in> fst ` set kvs"
  then have "filter (\<lambda>k. k \<in> set authoritativeFields) (map fst kvs) \<noteq> []"
    using assms by (auto simp: filter_empty_conv)
  with u show "\<not> rs_Passed (checkAuthoritativeFields v spec subj p)"
    by (simp add: checkAuthoritativeFields_def)
qed

section \<open>A sample branch\<close>

definition sample_state_row :: "string \<Rightarrow> string option \<Rightarrow> ProjectState" where
  "sample_state_row i parent = \<lparr>ps_ID = i, ps_ProjectID = ''p'', ps_BranchID = Some ''b'', ps_ParentStateID = parent,
     ps_StateHash = i, ps_GitCommitSHA = None, ps_ManifestVersion = ''1'', ps_CreatedAt = \<lparr>instant = 1, zone = 0\<rparr>\<rparr>"

definition sample_commit :: StateCommit where
  "sample_commit = \<lparr>cm_ID = ''c'', cm_ProjectID = ''p'', cm_BranchID = ''b'', cm_BaseStateID = Some ''s1'',
     cm_ResultStateID = ''s2'', cm_ActorID = ''u'', cm_Via = ''web'', cm_Message = ''m'',
     cm_OperationSummary = operations_toks [\<lparr>op_Kind = OperationObjectVersionCreated, op_EntityID = ''o'',
        op_VersionNo = 1, op_Detail = []\<rparr>],
     cm_CreatedAt = \<lparr>instant = 1, zone = 0\<rparr>\<rparr>"

definition sample_version :: ScientificObjectVersion where
  "sample_version = \<lparr>sv_ID = ''ov'', sv_ObjectID = ''o'', sv_VersionNo = 1, sv_StateID = ''s2'', sv_BranchID = None,
     sv_SchemaID = ''lab:x'', sv_SchemaVersion = ''2'', sv_Title = ''t'', sv_LifecycleState = ''active'',
     sv_Payload = [TLBrace, TStr ''type'', TColon, TStr ''claim'', TRBrace], sv_VisibilityPolicyID = None,
     sv_IntegrityHash = ''h'', sv_CreatedBy = ''u'', sv_CreatedAt = \<lparr>instant = 1, zone = 0\<rparr>,
     sv_Abort = None, sv_Reopen = None\<rparr>"

definition sample_snapshot :: GateSnapshot where
  "sample_snapshot = \<lparr>vs_ProjectID = ''p'', vs_BranchID = ''b'',
     vs_Head = Some (sample_state_row ''s2'' (Some ''s1'')),
     vs_States = [sample_state_row ''s1'' (Some ''s0''), sample_state_row ''s2'' (Some ''s1'')],
     vs_Commits = [sample_commit], vs_ObjectVersions = [sample_version], vs_RelationVersions = [],
     vs_Release = None, vs_Asset = None\<rparr>"

definition sample_validator :: "unit Validator" where
  "sample_validator = \<lparr>vd_reg = [], vd_lx = sample_lx, vd_check = (\<lambda>_ _. True), vd_sha = (\<lambda>_. ''h''),
     vd_rfc3339 = (\<lambda>_. ''now''), vd_renum = Some\<rparr>"

theorem gate_refusal_monotone_witness:
  "Blocked (Validate sample_validator GateMain sample_snapshot)"
proof -
  have s: "StricterThan GateMain GatePR" by code_simp
  have "Blocked (Validate sample_validator GatePR sample_snapshot)" by code_simp
  from gate_refusal_monotone [OF s this] show ?thesis by (rule conjunct1)
qed

theorem chain_integrity_iff_linear_witness:
  "rs_Passed (checkChainIntegrity (blocking CheckChainIntegrity) sample_snapshot)"
proof -
  have d: "distinct (map ps_ID (vs_States sample_snapshot))" by code_simp
  let ?ps = "[sample_state_row ''s2'' (Some ''s1''), sample_state_row ''s1'' (Some ''s0'')]"
  have S: "set ?ps = set (vs_States sample_snapshot)" by (auto simp: sample_snapshot_def)
  have L: "parent_linked (ps_ID ` set (vs_States sample_snapshot)) ?ps \<and> ps_ID (hd ?ps) = ''s2''
      \<and> set ?ps = set (vs_States sample_snapshot) \<and> distinct (map ps_ID ?ps)"
    using S by (simp add: sample_snapshot_def sample_state_row_def)
  have E: "\<forall>c \<in> set (vs_Commits sample_snapshot). \<forall>s \<in> set (vs_States sample_snapshot).
      ps_ID s = cm_ResultStateID c \<longrightarrow> ps_ParentStateID s = cm_BaseStateID c"
    by (simp add: sample_snapshot_def sample_commit_def sample_state_row_def)
  have H: "vs_Head sample_snapshot = Some (sample_state_row ''s2'' (Some ''s1''))" by (simp add: sample_snapshot_def)
  have I: "ps_ID (sample_state_row ''s2'' (Some ''s1'')) = ''s2''" by (simp add: sample_state_row_def)
  show ?thesis
    unfolding chain_integrity_iff_linear [OF d] H option.case I using L E by blast
qed

theorem commit_linkage_iff_witness:
  "rs_Passed (checkCommitLinkage (blocking CheckCommitLinkage) sample_snapshot)"
proof -
  have U: "unmarshal_operations (cm_OperationSummary sample_commit) =
      Some [\<lparr>op_Kind = OperationObjectVersionCreated, op_EntityID = ''o'', op_VersionNo = 1, op_Detail = []\<rparr>]"
    by code_simp
  have C: "vs_Commits sample_snapshot = [sample_commit]" and K: "memberKeys sample_snapshot = [(''o'', 1)]"
    by (simp_all add: sample_snapshot_def memberKeys_def sample_version_def)
  show ?thesis unfolding commit_linkage_iff C K by (simp add: U)
qed

theorem payload_cannot_forge_witness:
  "\<not> rs_Passed (checkAuthoritativeFields sample_validator (warning CheckAuthoritativeFields) []
       [TLBrace, TStr ''type'', TColon, TStr ''claim'', TRBrace])"
proof -
  have "''type'' \<in> set authoritativeFields" by code_simp
  moreover have "unmarshal_map (vd_renum sample_validator) [TLBrace, TStr ''type'', TColon, TStr ''claim'', TRBrace]
      = Some [(''type'', JStr ''claim'')]" by code_simp
  ultimately show ?thesis using payload_cannot_forge by fastforce
qed

end
