(* ===== verification/Provenance.thy ===== *)
theory Provenance
  imports Prelude RelationCatalog
begin

text \<open>
  The provenance graph of a project and the lineage and impact walks over it
  (internal/rsg/provenance: direction.go, graph.go, walk.go).  A version-pinned edge has an
  origin side by its relation type; \<open>Walk\<close> is a breadth-first search that follows the
  edges towards the origins or away from them, up to a number of hops, and returns the induced
  subgraph.  The Go map from a version id to a flag is a function to \<open>bool\<close>, whose
  default is the zero value of the map; queue and depths are the two slices the loop appends
  to while it walks an index over them.
\<close>

section \<open>Edges and their direction (direction.go, graph.go)\<close>

record Node =
  nd_ObjectID :: string
  nd_VersionID :: string
  nd_VersionNo :: int
  nd_ObjectType :: string
  nd_Title :: string

record Edge =
  eg_RelationID :: string
  eg_RelationVersionID :: string
  eg_RelationType :: string
  eg_Source :: Node
  eg_Target :: Node

record Graph =
  gr_Nodes :: "Node list"
  gr_Edges :: "Edge list"

datatype OriginSide = OriginIsTarget | OriginIsSource

definition originSide :: "(string \<times> OriginSide) list" where
  "originSide =
     [(''contains'', OriginIsTarget), (''depends_on'', OriginIsTarget),
      (''derived_from'', OriginIsTarget), (''follows_protocol'', OriginIsTarget),
      (''generated_by'', OriginIsTarget), (''parameterized_by'', OriginIsTarget),
      (''part_of'', OriginIsSource), (''performed_on'', OriginIsTarget),
      (''produces'', OriginIsSource), (''references'', OriginIsTarget),
      (''supersedes'', OriginIsTarget), (''uses'', OriginIsTarget),
      (''derived_asset_from'', OriginIsTarget), (''forked_from'', OriginIsTarget),
      (''originates_from'', OriginIsTarget), (''published_from'', OriginIsTarget),
      (''used_by'', OriginIsSource)]"

text \<open>\<open>None\<close> is \<open>ok = false\<close>; otherwise the origin and the node derived from it.\<close>

definition originOf :: "Edge \<Rightarrow> (Node \<times> Node) option" where
  "originOf e =
     (case map_of originSide (eg_RelationType e) of
        None \<Rightarrow> None
      | Some side \<Rightarrow>
          if side = OriginIsSource then Some (eg_Source e, eg_Target e)
          else Some (eg_Target e, eg_Source e))"

definition sortNodes :: "Node list \<Rightarrow> Node list" where
  "sortNodes = sort_key (\<lambda>n. (nd_ObjectID n, nd_VersionNo n))"

definition sortedEdges :: "Edge list \<Rightarrow> Edge list" where
  "sortedEdges = sort_key (\<lambda>e. (eg_RelationID e, eg_RelationVersionID e))"

text \<open>The loop of \<open>Build\<close>: one endpoint at a time, skipping a version already seen.\<close>

definition build_node :: "Node \<Rightarrow> (string \<Rightarrow> bool) \<times> Node list \<Rightarrow> (string \<Rightarrow> bool) \<times> Node list" where
  "build_node n st =
     (case st of (seen, nodes) \<Rightarrow>
        if seen (nd_VersionID n) then st else (seen(nd_VersionID n := True), nodes @ [n]))"

definition provenance_Build :: "Edge list \<Rightarrow> Graph" where
  "provenance_Build edges =
     (let sorted = sortedEdges edges;
          nodes = snd (fold (\<lambda>e st. fold build_node [eg_Source e, eg_Target e] st) sorted
                    (\<lambda>_. False, []))
      in \<lparr>gr_Nodes = sortNodes nodes, gr_Edges = sorted\<rparr>)"

section \<open>The walk (walk.go)\<close>

datatype WalkDirection = WalkUpstream | WalkDownstream

fun WalkDirection_String :: "WalkDirection \<Rightarrow> string" where
  "WalkDirection_String WalkDownstream = ''downstream''"
| "WalkDirection_String WalkUpstream = ''upstream''"

definition ParseWalkDirection :: "string \<Rightarrow> WalkDirection \<times> bool" where
  "ParseWalkDirection s =
     (if s = '''' \<or> s = ''upstream'' then (WalkUpstream, True)
      else if s = ''downstream'' then (WalkDownstream, True)
      else (WalkUpstream, False))"

definition UnlimitedDepth :: int where
  "UnlimitedDepth = -1"

text \<open>The adjacency map \<open>next\<close>, built edge by edge.\<close>

type_synonym adjacency = "(string \<times> Node list) list"

definition next_step :: "WalkDirection \<Rightarrow> Edge \<Rightarrow> adjacency \<Rightarrow> adjacency" where
  "next_step dir e nxt =
     (case originOf e of
        None \<Rightarrow> nxt
      | Some (origin, derived) \<Rightarrow>
          if dir = WalkUpstream then append_at (nd_VersionID derived) origin nxt
          else append_at (nd_VersionID origin) derived nxt)"

definition next_map :: "Graph \<Rightarrow> WalkDirection \<Rightarrow> adjacency" where
  "next_map g dir = fold (next_step dir) (gr_Edges g) []"

record walk_state =
  ws_reachable :: "string \<Rightarrow> bool"
  ws_queue :: "Node list"
  ws_depth :: "int list"

text \<open>Mark a version as reached and queue it at a depth, unless it was reached before.\<close>

definition visit :: "int \<Rightarrow> Node \<Rightarrow> walk_state \<Rightarrow> walk_state" where
  "visit d n st =
     (if ws_reachable st (nd_VersionID n) then st
      else \<lparr>ws_reachable = (ws_reachable st)(nd_VersionID n := True),
            ws_queue = ws_queue st @ [n], ws_depth = ws_depth st @ [d]\<rparr>)"

definition walk_start :: "Node list \<Rightarrow> walk_state" where
  "walk_start starts =
     fold (visit 0) starts \<lparr>ws_reachable = (\<lambda>_. False), ws_queue = [], ws_depth = []\<rparr>"

text \<open>The number of versions the adjacency map can still add to the queue.\<close>

definition unreached :: "adjacency \<Rightarrow> walk_state \<Rightarrow> nat" where
  "unreached nxt st =
     card {v \<in> nd_VersionID ` (\<Union>p \<in> set nxt. set (snd p)). \<not> ws_reachable st v}"

lemma visit_unreached:
  assumes "n \<in> (\<Union>p \<in> set nxt. set (snd p))"
  shows "unreached nxt (visit d n st) + length (ws_queue (visit d n st))
           = unreached nxt st + length (ws_queue st)"
proof (cases "ws_reachable st (nd_VersionID n)")
  case False
  let ?V = "nd_VersionID ` (\<Union>p \<in> set nxt. set (snd p))"
  let ?U = "{v \<in> ?V. \<not> ws_reachable st v}"
  have "finite ?U" by simp
  moreover have "nd_VersionID n \<in> ?U" using False assms by blast
  moreover have "{v \<in> ?V. \<not> ws_reachable (visit d n st) v} = ?U - {nd_VersionID n}"
    using False by (auto simp: visit_def)
  ultimately have "Suc (unreached nxt (visit d n st)) = unreached nxt st"
    unfolding unreached_def by (metis (no_types, lifting) card_Suc_Diff1)
  then show ?thesis using False by (simp add: visit_def)
qed (simp add: visit_def)

lemma fold_visit_unreached:
  "set ns \<subseteq> (\<Union>p \<in> set nxt. set (snd p)) \<Longrightarrow>
     unreached nxt (fold (visit d) ns st) + length (ws_queue (fold (visit d) ns st))
       = unreached nxt st + length (ws_queue st)"
  by (induction ns arbitrary: st) (simp_all add: visit_unreached)

lemma lookup_rows_subset: "set (lookup_rows nxt k) \<subseteq> (\<Union>p \<in> set nxt. set (snd p))"
proof (cases "map_of nxt k")
  case (Some l)
  then have "(k, l) \<in> set nxt" by (rule map_of_SomeD)
  with Some show ?thesis by (auto simp: lookup_rows_def)
qed (simp add: lookup_rows_def)

lemma length_fold_visit: "length (ws_queue st) \<le> length (ws_queue (fold (visit d) ns st))"
proof (induction ns arbitrary: st)
  case (Cons n ns)
  have "length (ws_queue st) \<le> length (ws_queue (visit d n st))" by (simp add: visit_def)
  with Cons.IH [of "visit d n st"] show ?case by simp
qed simp

text \<open>The loop over the growing queue.  It ends because a version enters the queue only once.\<close>

function walk_loop :: "adjacency \<Rightarrow> int \<Rightarrow> nat \<Rightarrow> walk_state \<Rightarrow> walk_state" where
  "walk_loop nxt maxDepth i st =
     (if i < length (ws_queue st)
      then if maxDepth \<noteq> UnlimitedDepth \<and> ws_depth st ! i \<ge> maxDepth
           then walk_loop nxt maxDepth (i + 1) st
           else walk_loop nxt maxDepth (i + 1)
                  (fold (visit (ws_depth st ! i + 1))
                     (lookup_rows nxt (nd_VersionID (ws_queue st ! i))) st)
      else st)"
  by pat_completeness auto
termination
proof (relation "measure (\<lambda>(nxt, _, i, st). unreached nxt st + length (ws_queue st) - i)")
  fix nxt and maxDepth :: int and i and st :: walk_state
  assume i: "i < length (ws_queue st)"
  let ?st = "fold (visit (ws_depth st ! i + 1)) (lookup_rows nxt (nd_VersionID (ws_queue st ! i))) st"
  have "unreached nxt ?st + length (ws_queue ?st) = unreached nxt st + length (ws_queue st)"
    by (rule fold_visit_unreached) (rule lookup_rows_subset)
  then show "((nxt, maxDepth, i + 1, ?st), nxt, maxDepth, i, st)
      \<in> measure (\<lambda>(nxt, _, i, st). unreached nxt st + length (ws_queue st) - i)"
    using i by auto
qed auto

declare walk_loop.simps [simp del]

definition Walk :: "Graph \<Rightarrow> Node list \<Rightarrow> WalkDirection \<Rightarrow> int \<Rightarrow> Graph" where
  "Walk g starts dir maxDepth =
     (let st = walk_loop (next_map g dir) maxDepth 0 (walk_start starts);
          edges = filter (\<lambda>e. originOf e \<noteq> None
                    \<and> ws_reachable st (nd_VersionID (eg_Source e))
                    \<and> ws_reachable st (nd_VersionID (eg_Target e))) (gr_Edges g)
      in \<lparr>gr_Nodes = sortNodes (ws_queue st), gr_Edges = sortedEdges edges\<rparr>)"

section \<open>Reachability in hops\<close>

text \<open>What the walk is to compute: the versions a number of hops away along the declared edges.\<close>

definition hop :: "Graph \<Rightarrow> WalkDirection \<Rightarrow> (string \<times> string) set" where
  "hop g dir =
     {(nd_VersionID a, nd_VersionID b) | a b e. e \<in> set (gr_Edges g)
        \<and> (dir = WalkUpstream \<and> originOf e = Some (b, a) \<or> dir = WalkDownstream \<and> originOf e = Some (a, b))}"

definition within :: "int \<Rightarrow> nat \<Rightarrow> bool" where
  "within maxDepth k \<longleftrightarrow> maxDepth = UnlimitedDepth \<or> k = 0 \<or> int k \<le> maxDepth"

lemma lookup_next_step:
  "set (lookup_rows (next_step dir e nxt) u) =
     set (lookup_rows nxt u) \<union> {b. \<exists>a. u = nd_VersionID a
       \<and> (dir = WalkUpstream \<and> originOf e = Some (b, a) \<or> dir = WalkDownstream \<and> originOf e = Some (a, b))}"
  by (cases dir) (auto simp: next_step_def split: option.splits)

lemma lookup_next_map:
  "set (lookup_rows (next_map g dir) u) =
     {b. \<exists>a. \<exists>e \<in> set (gr_Edges g). u = nd_VersionID a
       \<and> (dir = WalkUpstream \<and> originOf e = Some (b, a) \<or> dir = WalkDownstream \<and> originOf e = Some (a, b))}"
proof -
  have "set (lookup_rows (fold (next_step dir) es nxt) u) = set (lookup_rows nxt u) \<union>
     {b. \<exists>a. \<exists>e \<in> set es. u = nd_VersionID a
       \<and> (dir = WalkUpstream \<and> originOf e = Some (b, a) \<or> dir = WalkDownstream \<and> originOf e = Some (a, b))}"
    for es nxt by (induction es arbitrary: nxt) (auto simp: lookup_next_step)
  then show ?thesis by (simp add: next_map_def)
qed

lemma successors_next_map: "nd_VersionID ` set (lookup_rows (next_map g dir) u) = {v. (u, v) \<in> hop g dir}"
  by (fastforce simp: lookup_next_map hop_def)

section \<open>The search, for any adjacency map\<close>

text \<open>The interface between the search and the graph: the adjacency map lists the successors
  of a version under a relation.  The search invariant and what the loop returns are
  consequences of this law alone.\<close>

locale search =
  fixes nxt :: adjacency and R :: "(string \<times> string) set"
  assumes successors: "nd_VersionID ` set (lookup_rows nxt u) = {v. (u, v) \<in> R}"
begin

definition ids :: "walk_state \<Rightarrow> string list" where
  "ids st = map nd_VersionID (ws_queue st)"

definition layered :: "walk_state \<Rightarrow> bool" where
  "layered st \<longleftrightarrow> length (ws_depth st) = length (ws_queue st) \<and> distinct (ids st)
     \<and> (\<forall>v. ws_reachable st v \<longleftrightarrow> v \<in> set (ids st)) \<and> sorted (ws_depth st)"

definition depth_sound :: "string set \<Rightarrow> walk_state \<Rightarrow> bool" where
  "depth_sound S st \<longleftrightarrow> (\<forall>j < length (ws_queue st). \<exists>k. ws_depth st ! j = int k
     \<and> (\<exists>s \<in> S. (s, ids st ! j) \<in> R ^^ k))"

text \<open>A version sits in the queue at most a given depth.\<close>

definition shallow :: "walk_state \<Rightarrow> string \<Rightarrow> int \<Rightarrow> bool" where
  "shallow st v d \<longleftrightarrow> (\<exists>j < length (ws_queue st). ids st ! j = v \<and> ws_depth st ! j \<le> d)"

lemma layered_visit:
  assumes "layered st" and "\<forall>x \<in> set (ws_depth st). x \<le> d"
  shows "layered (visit d n st)"
  using assms by (auto simp: layered_def visit_def ids_def sorted_append)

lemma shallow_visit_mono: "length (ws_depth st) = length (ws_queue st) \<Longrightarrow> shallow st v c \<Longrightarrow> shallow (visit d n st) v c"
  by (fastforce simp: shallow_def visit_def ids_def nth_append)

lemma shallow_visit:
  assumes "layered st" and "\<forall>x \<in> set (ws_depth st). x \<le> d"
  shows "shallow (visit d n st) (nd_VersionID n) d"
proof (cases "ws_reachable st (nd_VersionID n)")
  case True
  then have "nd_VersionID n \<in> set (ids st)" using assms(1) by (simp add: layered_def)
  then obtain j where "j < length (ws_queue st)" "ids st ! j = nd_VersionID n"
    by (metis in_set_conv_nth ids_def length_map)
  with True assms show ?thesis by (force simp: shallow_def visit_def layered_def)
next
  case False
  with assms(1) show ?thesis
    by (auto simp: shallow_def visit_def layered_def ids_def intro!: exI [of _ "length (ws_queue st)"])
       (simp add: nth_append)+
qed

lemma depth_sound_visit:
  assumes "depth_sound S st" and "layered st" and "s \<in> S" and "(s, nd_VersionID n) \<in> R ^^ k"
  shows "depth_sound S (visit (int k) n st)"
proof (cases "ws_reachable st (nd_VersionID n)")
  case False
  have L: "length (ws_depth st) = length (ws_queue st)" using assms(2) by (simp add: layered_def)
  show ?thesis unfolding depth_sound_def
  proof (intro allI impI)
    fix j assume j: "j < length (ws_queue (visit (int k) n st))"
    show "\<exists>k'. ws_depth (visit (int k) n st) ! j = int k' \<and> (\<exists>s \<in> S. (s, ids (visit (int k) n st) ! j) \<in> R ^^ k')"
    proof (cases "j < length (ws_queue st)")
      case True
      with assms(1) False L show ?thesis
        by (simp add: depth_sound_def visit_def ids_def nth_append)
    next
      case eq: False
      with j False have "j = length (ws_queue st)" by (simp add: visit_def)
      with assms(3,4) False L show ?thesis
        by (auto simp: visit_def ids_def nth_append intro!: exI [of _ k])
    qed
  qed
qed (use assms(1) in \<open>simp add: visit_def\<close>)

lemma visit_extends:
  "\<exists>q ds. ws_queue (visit d n st) = ws_queue st @ q \<and> ws_depth (visit d n st) = ws_depth st @ ds
     \<and> set ds \<subseteq> {d}"
  by (simp add: visit_def)

lemma fold_visit_extends:
  "\<exists>q ds. ws_queue (fold (visit d) ns st) = ws_queue st @ q
     \<and> ws_depth (fold (visit d) ns st) = ws_depth st @ ds \<and> set ds \<subseteq> {d}"
proof (induction ns arbitrary: st)
  case (Cons n ns)
  obtain q ds where 1: "ws_queue (visit d n st) = ws_queue st @ q"
    "ws_depth (visit d n st) = ws_depth st @ ds" "set ds \<subseteq> {d}" using visit_extends by blast
  obtain q' ds' where 2: "ws_queue (fold (visit d) ns (visit d n st)) = ws_queue (visit d n st) @ q'"
    "ws_depth (fold (visit d) ns (visit d n st)) = ws_depth (visit d n st) @ ds'" "set ds' \<subseteq> {d}"
    using Cons.IH [of "visit d n st"] by blast
  from 1 2 have "ws_queue (fold (visit d) (n # ns) st) = ws_queue st @ q @ q'"
    "ws_depth (fold (visit d) (n # ns) st) = ws_depth st @ ds @ ds'" "set (ds @ ds') \<subseteq> {d}" by simp_all
  then show ?case by blast
qed simp

text \<open>What a round of visits at one depth keeps and adds.\<close>

lemma fold_visit:
  assumes "layered st" and "depth_sound S st" and "\<forall>x \<in> set (ws_depth st). x \<le> int k"
    and "\<forall>n \<in> set ns. \<exists>s \<in> S. (s, nd_VersionID n) \<in> R ^^ k"
  shows "layered (fold (visit (int k)) ns st) \<and> depth_sound S (fold (visit (int k)) ns st)
    \<and> (\<forall>v c. shallow st v c \<longrightarrow> shallow (fold (visit (int k)) ns st) v c)
    \<and> (\<forall>n \<in> set ns. shallow (fold (visit (int k)) ns st) (nd_VersionID n) (int k))"
  using assms
proof (induction ns arbitrary: st)
  case (Cons n ns)
  let ?st = "visit (int k) n st"
  from Cons.prems(4) obtain s where s: "s \<in> S" "(s, nd_VersionID n) \<in> R ^^ k" by auto
  have L: "layered ?st" using Cons.prems(1,3) by (rule layered_visit)
  have D: "depth_sound S ?st" using Cons.prems(2,1) s by (rule depth_sound_visit)
  have B: "\<forall>x \<in> set (ws_depth ?st). x \<le> int k" using Cons.prems(3) by (auto simp: visit_def)
  have N: "shallow ?st (nd_VersionID n) (int k)" using Cons.prems(1,3) by (rule shallow_visit)
  have M: "shallow ?st v c" if "shallow st v c" for v c
    using Cons.prems(1) that by (simp add: layered_def shallow_visit_mono)
  from Cons.IH [OF L D B] Cons.prems(4) N M show ?case by simp
qed simp

definition expandable :: "int \<Rightarrow> int \<Rightarrow> bool" where
  "expandable maxDepth d \<longleftrightarrow> maxDepth = UnlimitedDepth \<or> d < maxDepth"

text \<open>The loop invariant: the queue is layered by depth, no deeper than one hop past the index,
  every depth is the length of a path from a start, and what stands before the index has been
  expanded.\<close>

definition search_inv :: "string set \<Rightarrow> int \<Rightarrow> nat \<Rightarrow> walk_state \<Rightarrow> bool" where
  "search_inv S maxDepth i st \<longleftrightarrow> layered st \<and> depth_sound S st
     \<and> (i < length (ws_queue st) \<longrightarrow> (\<forall>x \<in> set (ws_depth st). x \<le> ws_depth st ! i + 1))
     \<and> (\<forall>s \<in> S. shallow st s 0) \<and> (\<forall>x \<in> set (ws_depth st). x = 0 \<or> expandable maxDepth (x - 1))
     \<and> (\<forall>j < i. j < length (ws_queue st) \<longrightarrow> expandable maxDepth (ws_depth st ! j)
          \<longrightarrow> (\<forall>w. (ids st ! j, w) \<in> R \<longrightarrow> shallow st w (ws_depth st ! j + 1)))"

lemma search_inv_start: "search_inv (nd_VersionID ` set starts) maxDepth 0 (walk_start starts)"
proof -
  let ?st = "\<lparr>ws_reachable = (\<lambda>_. False), ws_queue = [], ws_depth = []\<rparr> :: walk_state"
  have F: "layered (fold (visit (int 0)) starts ?st)
      \<and> depth_sound (nd_VersionID ` set starts) (fold (visit (int 0)) starts ?st)
      \<and> (\<forall>v c. shallow ?st v c \<longrightarrow> shallow (fold (visit (int 0)) starts ?st) v c)
      \<and> (\<forall>n \<in> set starts. shallow (fold (visit (int 0)) starts ?st) (nd_VersionID n) (int 0))"
    by (rule fold_visit) (auto simp: layered_def depth_sound_def ids_def)
  obtain ds where "ws_depth (fold (visit 0) starts ?st) = ws_depth ?st @ ds" "set ds \<subseteq> {0}"
    using fold_visit_extends by blast
  then have Z: "\<forall>x \<in> set (ws_depth (walk_start starts)). x = 0" by (auto simp: walk_start_def)
  moreover have "length (ws_depth (walk_start starts)) = length (ws_queue (walk_start starts))"
    using F by (simp add: walk_start_def layered_def)
  ultimately have "\<forall>x \<in> set (ws_depth (walk_start starts)). x \<le> ws_depth (walk_start starts) ! 0 + 1"
    if "0 < length (ws_queue (walk_start starts))"
    using that by (metis add.commute add_0 nth_mem zero_le_one)
  with F Z show ?thesis by (simp add: search_inv_def walk_start_def)
qed

lemma search_inv_skip:
  assumes "search_inv S maxDepth i st" and "i < length (ws_queue st)"
    and "\<not> expandable maxDepth (ws_depth st ! i)"
  shows "search_inv S maxDepth (i + 1) st"
proof -
  have "ws_depth st ! i \<le> ws_depth st ! (i + 1)" if "i + 1 < length (ws_queue st)"
    using assms(1) that by (auto simp: search_inv_def layered_def sorted_iff_nth_mono)
  then have "\<forall>x \<in> set (ws_depth st). x \<le> ws_depth st ! (i + 1) + 1" if "i + 1 < length (ws_queue st)"
    using assms(1) that by (fastforce simp: search_inv_def)
  with assms show ?thesis by (auto simp: search_inv_def less_Suc_eq)
qed

lemma search_inv_expand:
  assumes I: "search_inv S maxDepth i st" and i: "i < length (ws_queue st)"
    and ex: "expandable maxDepth (ws_depth st ! i)"
  defines "st' \<equiv> fold (visit (ws_depth st ! i + 1)) (lookup_rows nxt (nd_VersionID (ws_queue st ! i))) st"
  shows "search_inv S maxDepth (i + 1) st'"
proof -
  let ?ns = "lookup_rows nxt (nd_VersionID (ws_queue st ! i))"
  have L: "layered st" and D: "depth_sound S st" using I by (simp_all add: search_inv_def)
  have len: "length (ws_depth st) = length (ws_queue st)" using L by (simp add: layered_def)
  obtain k s where k: "ws_depth st ! i = int k" "s \<in> S" "(s, ids st ! i) \<in> R ^^ k"
    using D i by (auto simp: depth_sound_def)
  have u: "nd_VersionID (ws_queue st ! i) = ids st ! i" using i by (simp add: ids_def)
  have d: "ws_depth st ! i + 1 = int (Suc k)" using k(1) by simp
  have "(s, nd_VersionID n) \<in> R ^^ Suc k" if "n \<in> set ?ns" for n
    using that k(3) successors [of "ids st ! i"] u by auto
  then have "\<forall>n \<in> set ?ns. \<exists>s \<in> S. (s, nd_VersionID n) \<in> R ^^ Suc k" using k(2) by blast
  moreover have "\<forall>x \<in> set (ws_depth st). x \<le> int (Suc k)"
    using I i unfolding search_inv_def d [symmetric] by blast
  ultimately have "layered (fold (visit (int (Suc k))) ?ns st) \<and> depth_sound S (fold (visit (int (Suc k))) ?ns st)
    \<and> (\<forall>v c. shallow st v c \<longrightarrow> shallow (fold (visit (int (Suc k))) ?ns st) v c)
    \<and> (\<forall>n \<in> set ?ns. shallow (fold (visit (int (Suc k))) ?ns st) (nd_VersionID n) (int (Suc k)))"
    by (intro fold_visit [OF L D])
  then have F: "layered st'" "depth_sound S st'" "\<And>v c. shallow st v c \<Longrightarrow> shallow st' v c"
    "\<And>n. n \<in> set ?ns \<Longrightarrow> shallow st' (nd_VersionID n) (ws_depth st ! i + 1)"
    unfolding st'_def d by simp_all
  obtain q ds where E: "ws_queue st' = ws_queue st @ q" "ws_depth st' = ws_depth st @ ds"
    "set ds \<subseteq> {ws_depth st ! i + 1}" unfolding st'_def using fold_visit_extends by blast
  have nth: "ids st' ! j = ids st ! j" "ws_depth st' ! j = ws_depth st ! j" if "j < length (ws_queue st)" for j
    using that E len by (simp_all add: ids_def nth_append)
  have top: "\<forall>x \<in> set (ws_depth st'). x \<le> ws_depth st' ! i + 1"
    using I i E nth(2) [OF i] by (auto simp: search_inv_def)
  have "ws_depth st' ! i \<le> ws_depth st' ! (i + 1)" if "i + 1 < length (ws_queue st')"
    using F(1) that by (auto simp: layered_def sorted_iff_nth_mono)
  with top have front: "\<forall>x \<in> set (ws_depth st'). x \<le> ws_depth st' ! (i + 1) + 1"
    if "i + 1 < length (ws_queue st')" using that by force
  have "shallow st' w (ws_depth st' ! j + 1)"
    if "j < i + 1" "expandable maxDepth (ws_depth st' ! j)" "(ids st' ! j, w) \<in> R" for j w
  proof (cases "j = i")
    case True
    then have "w \<in> nd_VersionID ` set ?ns" using that(3) successors nth(1) [OF i] u by simp
    with True F(4) nth(2) [OF i] show ?thesis by auto
  next
    case False
    then have "j < i" "j < length (ws_queue st)" using that(1) i by simp_all
    with I that(2,3) nth [of j] have "shallow st w (ws_depth st ! j + 1)" by (simp add: search_inv_def)
    with F(3) nth(2) [OF \<open>j < length (ws_queue st)\<close>] show ?thesis by simp
  qed
  moreover have "\<forall>x \<in> set (ws_depth st'). x = 0 \<or> expandable maxDepth (x - 1)"
    using I ex E by (auto simp: search_inv_def)
  ultimately show ?thesis using F I front by (simp add: search_inv_def)
qed

lemma search_inv_loop:
  "search_inv S maxDepth i st \<Longrightarrow> \<exists>n \<ge> length (ws_queue (walk_loop nxt maxDepth i st)).
     search_inv S maxDepth n (walk_loop nxt maxDepth i st)"
proof (induction "unreached nxt st + length (ws_queue st) - i" arbitrary: i st rule: less_induct)
  case less
  show ?case
  proof (cases "i < length (ws_queue st)")
    case False
    then have "walk_loop nxt maxDepth i st = st" by (simp add: walk_loop.simps [of nxt maxDepth i st])
    with less.prems False show ?thesis by (intro exI [of _ i]) simp
  next
    case i: True
    show ?thesis
    proof (cases "expandable maxDepth (ws_depth st ! i)")
      case False
      with i have "walk_loop nxt maxDepth i st = walk_loop nxt maxDepth (i + 1) st"
        by (auto simp: walk_loop.simps [of nxt maxDepth i st] expandable_def)
      with less.hyps [OF _ search_inv_skip [OF less.prems i False]] i show ?thesis by simp
    next
      case True
      let ?st = "fold (visit (ws_depth st ! i + 1)) (lookup_rows nxt (nd_VersionID (ws_queue st ! i))) st"
      have "unreached nxt ?st + length (ws_queue ?st) = unreached nxt st + length (ws_queue st)"
        by (rule fold_visit_unreached) (rule lookup_rows_subset)
      moreover have "walk_loop nxt maxDepth i st = walk_loop nxt maxDepth (i + 1) ?st"
        using True i by (auto simp: walk_loop.simps [of nxt maxDepth i st] expandable_def)
      ultimately show ?thesis
        using less.hyps [OF _ search_inv_expand [OF less.prems i True]] i by simp
    qed
  qed
qed

lemma search_complete:
  assumes "search_inv S maxDepth n st" and "length (ws_queue st) \<le> n"
    and "s \<in> S" and "(s, v) \<in> R ^^ k" and "within maxDepth k"
  shows "shallow st v (int k)"
  using assms(4,5)
proof (induction k arbitrary: v)
  case 0
  then show ?case using assms(1,3) by (simp add: search_inv_def)
next
  case (Suc k)
  from Suc.prems(1) obtain u where u: "(s, u) \<in> R ^^ k" "(u, v) \<in> R" by auto
  have "within maxDepth k" using Suc.prems(2) by (auto simp: within_def)
  with Suc.IH [OF u(1)] obtain j where j: "j < length (ws_queue st)" "ids st ! j = u"
    "ws_depth st ! j \<le> int k" by (auto simp: shallow_def)
  have "expandable maxDepth (ws_depth st ! j)"
    using Suc.prems(2) j(3) by (auto simp: within_def expandable_def)
  then have "shallow st v (ws_depth st ! j + 1)"
    using assms(1,2) j u(2) by (auto simp: search_inv_def)
  then show ?case using j(3) by (fastforce simp: shallow_def)
qed

text \<open>What the loop returns: exactly the versions within the depth limit, each once.\<close>

lemma loop_reaches:
  fixes starts maxDepth
  defines "st \<equiv> walk_loop nxt maxDepth 0 (walk_start starts)"
  shows "ws_reachable st v \<longleftrightarrow>
      (\<exists>s \<in> nd_VersionID ` set starts. \<exists>k. (s, v) \<in> R ^^ k \<and> within maxDepth k)" (is ?reach)
    and "set (map nd_VersionID (ws_queue st)) = {v. ws_reachable st v}"
    and "distinct (map nd_VersionID (ws_queue st))"
proof -
  let ?S = "nd_VersionID ` set starts"
  obtain n where n: "length (ws_queue st) \<le> n" "search_inv ?S maxDepth n st"
    unfolding st_def using search_inv_loop [OF search_inv_start] by blast
  have L: "layered st" and D: "depth_sound ?S st"
    and B: "\<forall>x \<in> set (ws_depth st). x = 0 \<or> expandable maxDepth (x - 1)"
    using n(2) by (simp_all add: search_inv_def)
  show "set (map nd_VersionID (ws_queue st)) = {v. ws_reachable st v}"
    and "distinct (map nd_VersionID (ws_queue st))" using L by (auto simp: layered_def ids_def)
  show ?reach
  proof
    assume "ws_reachable st v"
    then obtain j where j: "j < length (ws_queue st)" "ids st ! j = v"
      using L by (metis layered_def in_set_conv_nth ids_def length_map)
    with D obtain k s where k: "ws_depth st ! j = int k" "s \<in> ?S" "(s, v) \<in> R ^^ k"
      unfolding depth_sound_def by blast
    have "ws_depth st ! j \<in> set (ws_depth st)" using j(1) L by (simp add: layered_def)
    then have "int k = 0 \<or> expandable maxDepth (int k - 1)" using B k(1) by metis
    then have "within maxDepth k" by (auto simp: within_def expandable_def)
    with k show "\<exists>s \<in> ?S. \<exists>k. (s, v) \<in> R ^^ k \<and> within maxDepth k" by blast
  next
    assume "\<exists>s \<in> ?S. \<exists>k. (s, v) \<in> R ^^ k \<and> within maxDepth k"
    then obtain k where "shallow st v (int k)" using search_complete [OF n(2,1)] by blast
    then have "v \<in> set (ids st)" by (auto simp: shallow_def ids_def)
    with L show "ws_reachable st v" by (simp add: layered_def)
  qed
qed

end

interpretation walk: search "next_map g dir" "hop g dir" for g dir
  by unfold_locales (rule successors_next_map)

lemma sortNodes_set [simp]: "set (sortNodes ns) = set ns" "mset (sortNodes ns) = mset ns"
  by (simp_all add: sortNodes_def)

lemma distinct_sortNodes: "distinct (map f (sortNodes ns)) \<longleftrightarrow> distinct (map f ns)"
  by (metis mset_eq_imp_distinct_iff mset_map sortNodes_set(2))

lemma sortedEdges_set [simp]: "set (sortedEdges es) = set es" "mset (sortedEdges es) = mset es"
  by (simp_all add: sortedEdges_def)

lemma hop_converse: "(u, v) \<in> hop g WalkUpstream \<longleftrightarrow> (v, u) \<in> hop g WalkDownstream"
  by (auto simp: hop_def)

lemma relpow_hop_converse:
  "(u, v) \<in> hop g WalkUpstream ^^ k \<longleftrightarrow> (v, u) \<in> hop g WalkDownstream ^^ k"
proof (induction k arbitrary: u v)
  case (Suc k)
  have "(u, v) \<in> hop g WalkUpstream ^^ Suc k
      \<longleftrightarrow> (\<exists>w. (u, w) \<in> hop g WalkUpstream ^^ k \<and> (w, v) \<in> hop g WalkUpstream)" by auto
  also have "\<dots> \<longleftrightarrow> (\<exists>w. (v, w) \<in> hop g WalkDownstream \<and> (w, u) \<in> hop g WalkDownstream ^^ k)"
    using Suc.IH by (auto simp: hop_converse)
  also have "\<dots> \<longleftrightarrow> (v, u) \<in> hop g WalkDownstream ^^ Suc k" by (metis relpow_Suc_D2 relpow_Suc_I2)
  finally show ?case .
qed auto

lemma Walk_nodes:
  "nd_VersionID ` set (gr_Nodes (Walk g starts dir maxDepth)) =
     {v. \<exists>s \<in> nd_VersionID ` set starts. \<exists>k. (s, v) \<in> hop g dir ^^ k \<and> within maxDepth k}"
proof -
  have "nd_VersionID ` set (gr_Nodes (Walk g starts dir maxDepth)) =
      set (map nd_VersionID (ws_queue (walk_loop (next_map g dir) maxDepth 0 (walk_start starts))))"
    by (simp add: Walk_def Let_def)
  also have "\<dots> = {v. \<exists>s \<in> nd_VersionID ` set starts. \<exists>k. (s, v) \<in> hop g dir ^^ k \<and> within maxDepth k}"
    unfolding walk.loop_reaches(2) walk.loop_reaches(1) ..
  finally show ?thesis .
qed

text \<open>The nodes \<open>Build\<close> collects: the endpoints of the edges, one node per version.\<close>

lemma build_node_inv:
  assumes "\<forall>v. seen v \<longleftrightarrow> v \<in> nd_VersionID ` set ns" and "distinct (map nd_VersionID ns)"
  shows "\<forall>v. fst (build_node n (seen, ns)) v \<longleftrightarrow> v \<in> nd_VersionID ` set (snd (build_node n (seen, ns)))"
    and "distinct (map nd_VersionID (snd (build_node n (seen, ns))))"
    and "nd_VersionID ` set (snd (build_node n (seen, ns))) = insert (nd_VersionID n) (nd_VersionID ` set ns)"
  using assms by (auto simp: build_node_def)

lemma build_nodes_inv:
  assumes "\<forall>v. seen v \<longleftrightarrow> v \<in> nd_VersionID ` set ns" and "distinct (map nd_VersionID ns)"
  shows "distinct (map nd_VersionID (snd (fold build_node ms (seen, ns))))
    \<and> nd_VersionID ` set (snd (fold build_node ms (seen, ns))) = nd_VersionID ` (set ms \<union> set ns)"
  using assms
proof (induction ms arbitrary: seen ns)
  case (Cons n ms)
  obtain seen' ns' where e: "build_node n (seen, ns) = (seen', ns')" by (metis surj_pair)
  have I: "\<forall>v. seen' v \<longleftrightarrow> v \<in> nd_VersionID ` set ns'" "distinct (map nd_VersionID ns')"
    and N: "nd_VersionID ` set ns' = insert (nd_VersionID n) (nd_VersionID ` set ns)"
    using build_node_inv [OF Cons.prems, of n] unfolding e fst_conv snd_conv by blast+
  have "fold build_node (n # ms) (seen, ns) = fold build_node ms (seen', ns')" by (simp add: e)
  with Cons.IH [OF I] show ?case by (simp only: image_Un N list.simps image_insert) blast
qed simp

lemma fold_concat: "fold (\<lambda>e st. fold f (g e) st) es st = fold f (concat (map g es)) st"
  by (induction es arbitrary: st) simp_all

lemma Build_nodes:
  "distinct (map nd_VersionID (gr_Nodes (provenance_Build edges)))"
  "nd_VersionID ` set (gr_Nodes (provenance_Build edges))
     = (\<Union>e \<in> set edges. {nd_VersionID (eg_Source e), nd_VersionID (eg_Target e)})"
  "mset (gr_Edges (provenance_Build edges)) = mset edges"
proof -
  have "gr_Nodes (provenance_Build edges) = sortNodes (snd (fold build_node
      (concat (map (\<lambda>e. [eg_Source e, eg_Target e]) (sortedEdges edges))) (\<lambda>_. False, [])))"
    unfolding provenance_Build_def Let_def by (simp only: fold_concat Graph.simps)
  with build_nodes_inv [of "\<lambda>_. False" "[]" "concat (map (\<lambda>e. [eg_Source e, eg_Target e]) (sortedEdges edges))"]
  show "distinct (map nd_VersionID (gr_Nodes (provenance_Build edges)))"
    "nd_VersionID ` set (gr_Nodes (provenance_Build edges))
     = (\<Union>e \<in> set edges. {nd_VersionID (eg_Source e), nd_VersionID (eg_Target e)})"
    by (auto simp: distinct_sortNodes)
qed (simp add: provenance_Build_def Let_def)

lemma hop_endpoints:
  "(u, v) \<in> hop g dir \<Longrightarrow> \<exists>e \<in> set (gr_Edges g). {u, v} = {nd_VersionID (eg_Source e), nd_VersionID (eg_Target e)}"
proof -
  have O: "originOf e = Some (a, b) \<Longrightarrow> {a, b} = {eg_Source e, eg_Target e}" for e a b
    by (auto simp: originOf_def split: option.splits if_splits)
  assume "(u, v) \<in> hop g dir"
  then obtain a b e where "e \<in> set (gr_Edges g)" "u = nd_VersionID a" "v = nd_VersionID b"
    "originOf e = Some (b, a) \<or> originOf e = Some (a, b)" by (auto simp: hop_def)
  moreover from this(4) have "{a, b} = {eg_Source e, eg_Target e}" using O by blast
  then have "{nd_VersionID a, nd_VersionID b} = {nd_VersionID (eg_Source e), nd_VersionID (eg_Target e)}"
    by (metis image_insert image_empty)
  ultimately show ?thesis by blast
qed

section \<open>Properties\<close>

text \<open>C37: the walk returns exactly the versions that some start reaches in a number of hops within
  the depth limit, each version once and in the order of object and version number.  The
  search ends on every graph, cyclic ones included: the loop is a total function.\<close>

theorem walk_is_bounded_reachability:
  "nd_VersionID ` set (gr_Nodes (Walk g starts dir maxDepth)) =
     {v. \<exists>s \<in> set starts. \<exists>k. (nd_VersionID s, v) \<in> hop g dir ^^ k
        \<and> (maxDepth = UnlimitedDepth \<or> k = 0 \<or> int k \<le> maxDepth)}
   \<and> distinct (map nd_VersionID (gr_Nodes (Walk g starts dir maxDepth)))
   \<and> sorted (map (\<lambda>n. (nd_ObjectID n, nd_VersionNo n)) (gr_Nodes (Walk g starts dir maxDepth)))"
proof (intro conjI)
  show "distinct (map nd_VersionID (gr_Nodes (Walk g starts dir maxDepth)))"
    using walk.loop_reaches(3) by (simp add: Walk_def Let_def distinct_sortNodes)
  show "sorted (map (\<lambda>n. (nd_ObjectID n, nd_VersionNo n)) (gr_Nodes (Walk g starts dir maxDepth)))"
    by (simp add: Walk_def Let_def sortNodes_def)
qed (simp add: Walk_nodes within_def)

text \<open>The edges of a walk are exactly the edges of the graph that have a declared direction and
  both ends among the nodes of the walk, each as often as the graph has it and in relation
  order: an undeclared relation never appears, even between two reached versions.\<close>

theorem walk_edges_induced:
  "mset (gr_Edges (Walk g starts dir maxDepth)) =
     filter_mset (\<lambda>e. originOf e \<noteq> None
       \<and> nd_VersionID (eg_Source e) \<in> nd_VersionID ` set (gr_Nodes (Walk g starts dir maxDepth))
       \<and> nd_VersionID (eg_Target e) \<in> nd_VersionID ` set (gr_Nodes (Walk g starts dir maxDepth)))
       (mset (gr_Edges g))
   \<and> sorted (map (\<lambda>e. (eg_RelationID e, eg_RelationVersionID e)) (gr_Edges (Walk g starts dir maxDepth)))"
proof -
  let ?st = "walk_loop (next_map g dir) maxDepth 0 (walk_start starts)"
  have "nd_VersionID ` set (gr_Nodes (Walk g starts dir maxDepth)) = set (map nd_VersionID (ws_queue ?st))"
    by (simp add: Walk_def Let_def)
  also have "\<dots> = {v. ws_reachable ?st v}" by (rule walk.loop_reaches(2))
  finally have N: "v \<in> nd_VersionID ` set (gr_Nodes (Walk g starts dir maxDepth)) \<longleftrightarrow> ws_reachable ?st v" for v
    by blast
  show ?thesis unfolding N by (simp add: Walk_def Let_def sortedEdges_def)
qed

text \<open>Lineage and impact are each other's reverse: a version is among the origins found upstream
  of another within a number of hops exactly when the other is among the versions found
  downstream of it within the same number.\<close>

theorem lineage_impact_dual:
  "nd_VersionID b \<in> nd_VersionID ` set (gr_Nodes (Walk g [a] WalkUpstream maxDepth))
   \<longleftrightarrow> nd_VersionID a \<in> nd_VersionID ` set (gr_Nodes (Walk g [b] WalkDownstream maxDepth))"
  by (simp add: Walk_nodes relpow_hop_converse)

text \<open>Over the graph built from a set of edges, every walk from a version of the graph stays inside
  it, and the built graph has one node for each version some edge pins, and every edge.\<close>

theorem walk_stays_in_built_graph:
  assumes "nd_VersionID ` set starts \<subseteq> nd_VersionID ` set (gr_Nodes (provenance_Build edges))"
  shows "nd_VersionID ` set (gr_Nodes (Walk (provenance_Build edges) starts dir maxDepth))
           \<subseteq> nd_VersionID ` set (gr_Nodes (provenance_Build edges))
     \<and> set (gr_Edges (Walk (provenance_Build edges) starts dir maxDepth)) \<subseteq> set edges
     \<and> distinct (map nd_VersionID (gr_Nodes (provenance_Build edges)))
     \<and> nd_VersionID ` set (gr_Nodes (provenance_Build edges))
         = (\<Union>e \<in> set edges. {nd_VersionID (eg_Source e), nd_VersionID (eg_Target e)})"
proof (intro conjI subsetI)
  let ?g = "provenance_Build edges"
  have E: "set (gr_Edges ?g) = set edges" using Build_nodes(3) by (metis set_mset_mset)
  fix v assume "v \<in> nd_VersionID ` set (gr_Nodes (Walk ?g starts dir maxDepth))"
  then obtain s k where s: "s \<in> nd_VersionID ` set starts" "(s, v) \<in> hop ?g dir ^^ k"
    by (auto simp: Walk_nodes)
  show "v \<in> nd_VersionID ` set (gr_Nodes ?g)"
  proof (cases k)
    case 0
    with s assms show ?thesis by auto
  next
    case (Suc n)
    with s(2) obtain u where "(u, v) \<in> hop ?g dir" by auto
    from hop_endpoints [OF this] obtain e where "e \<in> set edges"
      "v = nd_VersionID (eg_Source e) \<or> v = nd_VersionID (eg_Target e)"
      by (auto simp: E doubleton_eq_iff)
    then show ?thesis unfolding Build_nodes(2) by blast
  qed
next
  fix e assume "e \<in> set (gr_Edges (Walk (provenance_Build edges) starts dir maxDepth))"
  then show "e \<in> set edges" by (simp add: Walk_def Let_def provenance_Build_def)
qed (rule Build_nodes)+

definition sample_node :: "string \<Rightarrow> Node" where
  "sample_node v = \<lparr>nd_ObjectID = v, nd_VersionID = v, nd_VersionNo = 1, nd_ObjectType = ''dataset'', nd_Title = v\<rparr>"

definition sample_edges :: "Edge list" where
  "sample_edges =
     [\<lparr>eg_RelationID = ''r1'', eg_RelationVersionID = ''r1v'', eg_RelationType = ''derived_from'',
       eg_Source = sample_node ''b'', eg_Target = sample_node ''a''\<rparr>,
      \<lparr>eg_RelationID = ''r2'', eg_RelationVersionID = ''r2v'', eg_RelationType = ''produces'',
       eg_Source = sample_node ''b'', eg_Target = sample_node ''c''\<rparr>]"

theorem walk_stays_in_built_graph_witness:
  "nd_VersionID ` set (gr_Nodes (Walk (provenance_Build sample_edges) [sample_node ''c''] WalkUpstream UnlimitedDepth))
     \<subseteq> {''a'', ''b'', ''c''}"
proof -
  have B: "nd_VersionID ` set (gr_Nodes (provenance_Build sample_edges)) = {''a'', ''b'', ''c''}"
    unfolding Build_nodes(2) sample_edges_def sample_node_def by (simp add: insert_commute)
  have "nd_VersionID ` set [sample_node ''c''] \<subseteq> nd_VersionID ` set (gr_Nodes (provenance_Build sample_edges))"
    unfolding B by (simp add: sample_node_def)
  from walk_stays_in_built_graph [OF this, of WalkUpstream UnlimitedDepth] show ?thesis
    unfolding B by (rule conjunct1)
qed

text \<open>The walk and the relation catalog agree on what a provenance relation is: an edge has a
  direction exactly when its type takes part in provenance inference.\<close>

theorem direction_matches_catalog:
  "originOf e \<noteq> None \<longleftrightarrow> eg_RelationType e \<in> set ProvenanceTypes"
proof -
  have "set ProvenanceTypes = fst ` set originSide"
    by code_simp
  moreover have "originOf e \<noteq> None \<longleftrightarrow> eg_RelationType e \<in> fst ` set originSide"
    using map_of_eq_None_iff [of originSide "eg_RelationType e"]
    by (cases "map_of originSide (eg_RelationType e)") (auto simp: originOf_def)
  ultimately show ?thesis by simp
qed

lemma ParseWalkDirection_String: "ParseWalkDirection (WalkDirection_String d) = (d, True)"
  by (cases d) (simp_all add: ParseWalkDirection_def)

end
