(* ===== verification/Authz.thy ===== *)
theory Authz
  imports Prelude
begin

text \<open>
  Authorization (internal/authz): actor classes, actions, the permission matrix and the engine
  that answers from it, and the project roles of internal/domain/project.go.  The Go types
  \<open>Action\<close>, \<open>ActorClass\<close>, \<open>Verdict\<close> and \<open>ProjectRole\<close> are open string
  types, so that a request can name an action or a class outside the matrix; they are strings
  here too.
\<close>

section \<open>Project roles (domain/project.go)\<close>

type_synonym ProjectRole = string

definition ProjectRoleOwner :: ProjectRole where "ProjectRoleOwner = ''owner''"
definition ProjectRoleMaintainer :: ProjectRole where "ProjectRoleMaintainer = ''maintainer''"
definition ProjectRoleContributor :: ProjectRole where "ProjectRoleContributor = ''contributor''"
definition ProjectRoleViewer :: ProjectRole where "ProjectRoleViewer = ''viewer''"

lemmas role_defs = ProjectRoleOwner_def ProjectRoleMaintainer_def ProjectRoleContributor_def
  ProjectRoleViewer_def

definition ValidProjectRole :: "ProjectRole \<Rightarrow> bool" where
  "ValidProjectRole r \<longleftrightarrow>
     r = ProjectRoleOwner \<or> r = ProjectRoleMaintainer \<or> r = ProjectRoleContributor \<or> r = ProjectRoleViewer"

definition Rank :: "ProjectRole \<Rightarrow> int" where
  "Rank r =
     (if r = ProjectRoleViewer then 0
      else if r = ProjectRoleContributor then 1
      else if r = ProjectRoleMaintainer then 2
      else if r = ProjectRoleOwner then 3
      else -1)"

definition AtLeast :: "ProjectRole \<Rightarrow> ProjectRole \<Rightarrow> bool" where
  "AtLeast r least \<longleftrightarrow> Rank r \<ge> 0 \<and> Rank least \<ge> 0 \<and> Rank r \<ge> Rank least"

section \<open>Actions, classes and verdicts (action.go, actor.go, verdict.go)\<close>

type_synonym Action = string
type_synonym ActorClass = string
type_synonym Verdict = string

definition ActionReadPublicProject :: Action where "ActionReadPublicProject = ''read_public_project''"
definition ActionReadPrivateProject :: Action where "ActionReadPrivateProject = ''read_private_project''"
definition ActionCreateProject :: Action where "ActionCreateProject = ''create_project''"
definition ActionCreateBranch :: Action where "ActionCreateBranch = ''create_branch''"
definition ActionWriteScientificState :: Action where "ActionWriteScientificState = ''write_scientific_state''"
definition ActionOpenPR :: Action where "ActionOpenPR = ''open_pr''"
definition ActionSubmitScientificReview :: Action where "ActionSubmitScientificReview = ''submit_scientific_review''"
definition ActionMergeMain :: Action where "ActionMergeMain = ''merge_main''"
definition ActionFreezeMain :: Action where "ActionFreezeMain = ''freeze_main''"
definition ActionCreateRelease :: Action where "ActionCreateRelease = ''create_release''"
definition ActionPublishPrivateToPublic :: Action where "ActionPublishPrivateToPublic = ''publish_private_to_public''"
definition ActionChangeRightsHolder :: Action where "ActionChangeRightsHolder = ''change_rights_holder''"
definition ActionAbortMainObject :: Action where "ActionAbortMainObject = ''abort_main_object''"
definition ActionReopenMainObject :: Action where "ActionReopenMainObject = ''reopen_main_object''"
definition ActionReadFiles :: Action where "ActionReadFiles = ''read_files''"
definition ActionMutateFilesWeb :: Action where "ActionMutateFilesWeb = ''mutate_files_web''"

definition ActorPublicAnonymous :: ActorClass where "ActorPublicAnonymous = ''public_anonymous''"
definition ActorAuthenticatedNonMember :: ActorClass where "ActorAuthenticatedNonMember = ''authenticated_nonmember''"
definition ActorViewer :: ActorClass where "ActorViewer = ''viewer''"
definition ActorContributor :: ActorClass where "ActorContributor = ''contributor''"
definition ActorMaintainer :: ActorClass where "ActorMaintainer = ''maintainer''"
definition ActorOwner :: ActorClass where "ActorOwner = ''owner''"
definition ActorAgent :: ActorClass where "ActorAgent = ''agent_default''"

definition VerdictAllow :: Verdict where "VerdictAllow = ''allow''"
definition VerdictDeny :: Verdict where "VerdictDeny = ''deny''"
definition VerdictScoped :: Verdict where "VerdictScoped = ''scoped''"
definition VerdictConditional :: Verdict where "VerdictConditional = ''conditional''"
definition VerdictExternalForkOnly :: Verdict where "VerdictExternalForkOnly = ''external_fork_only''"
definition VerdictOwnForkOnly :: Verdict where "VerdictOwnForkOnly = ''own_fork_only''"
definition VerdictAllowFromFork :: Verdict where "VerdictAllowFromFork = ''allow_from_fork''"
definition VerdictProposalOrScoped :: Verdict where "VerdictProposalOrScoped = ''proposal_or_scoped''"
definition VerdictProposalOnly :: Verdict where "VerdictProposalOnly = ''proposal_only''"
definition VerdictViaPR :: Verdict where "VerdictViaPR = ''via_pr''"
definition VerdictPublicPolicy :: Verdict where "VerdictPublicPolicy = ''public_policy''"
definition VerdictAuthorized :: Verdict where "VerdictAuthorized = ''authorized''"
definition VerdictAllowIfAuthorized :: Verdict where "VerdictAllowIfAuthorized = ''allow_if_authorized''"

lemmas action_defs =
  ActionReadPublicProject_def
  ActionReadPrivateProject_def
  ActionCreateProject_def
  ActionCreateBranch_def
  ActionWriteScientificState_def
  ActionOpenPR_def
  ActionSubmitScientificReview_def
  ActionMergeMain_def
  ActionFreezeMain_def
  ActionCreateRelease_def
  ActionPublishPrivateToPublic_def
  ActionChangeRightsHolder_def
  ActionAbortMainObject_def
  ActionReopenMainObject_def
  ActionReadFiles_def
  ActionMutateFilesWeb_def

lemmas class_defs =
  ActorPublicAnonymous_def
  ActorAuthenticatedNonMember_def
  ActorViewer_def
  ActorContributor_def
  ActorMaintainer_def
  ActorOwner_def
  ActorAgent_def

lemmas verdict_defs =
  VerdictAllow_def
  VerdictDeny_def
  VerdictScoped_def
  VerdictConditional_def
  VerdictExternalForkOnly_def
  VerdictOwnForkOnly_def
  VerdictAllowFromFork_def
  VerdictProposalOrScoped_def
  VerdictProposalOnly_def
  VerdictViaPR_def
  VerdictPublicPolicy_def
  VerdictAuthorized_def
  VerdictAllowIfAuthorized_def

definition ClassOf :: "bool \<Rightarrow> ProjectRole option \<Rightarrow> bool \<Rightarrow> ActorClass" where
  "ClassOf authenticated role isAgent =
     (if isAgent then ActorAgent
      else (case role of
              Some r \<Rightarrow>
                if r = ProjectRoleOwner then ActorOwner
                else if r = ProjectRoleMaintainer then ActorMaintainer
                else if r = ProjectRoleContributor then ActorContributor
                else if r = ProjectRoleViewer then ActorViewer
                else ''''
            | None \<Rightarrow> if authenticated then ActorAuthenticatedNonMember else ActorPublicAnonymous))"

definition Permits :: "Verdict \<Rightarrow> bool" where
  "Permits v \<longleftrightarrow> v = VerdictAllow"

definition Denies :: "Verdict \<Rightarrow> bool" where
  "Denies v \<longleftrightarrow> v = VerdictDeny"

record AuthzDecision =
  ad_Verdict :: Verdict
  ad_Reason :: string

definition decision_Permits :: "AuthzDecision \<Rightarrow> bool" where
  "decision_Permits d \<longleftrightarrow> Permits (ad_Verdict d)"

definition decision_Denies :: "AuthzDecision \<Rightarrow> bool" where
  "decision_Denies d \<longleftrightarrow> Denies (ad_Verdict d)"

section \<open>The permission matrix (matrix.go)\<close>

text \<open>A row of the table, one verdict per actor class in the order the source writes them.\<close>

definition matrix_row :: "Verdict list \<Rightarrow> (ActorClass \<times> Verdict) list" where
  "matrix_row vs = zip [ActorPublicAnonymous, ActorAuthenticatedNonMember, ActorViewer,
     ActorContributor, ActorMaintainer, ActorOwner, ActorAgent] vs"

definition matrixTable :: "(Action \<times> (ActorClass \<times> Verdict) list) list" where
  "matrixTable =
     [(ActionReadPublicProject, matrix_row
        [VerdictAllow, VerdictAllow, VerdictAllow, VerdictAllow,
         VerdictAllow, VerdictAllow, VerdictAllow]),
      (ActionReadPrivateProject, matrix_row
        [VerdictDeny, VerdictDeny, VerdictAllow, VerdictAllow,
         VerdictAllow, VerdictAllow, VerdictScoped]),
      (ActionCreateProject, matrix_row
        [VerdictDeny, VerdictAllow, VerdictAllow, VerdictAllow,
         VerdictAllow, VerdictAllow, VerdictScoped]),
      (ActionCreateBranch, matrix_row
        [VerdictDeny, VerdictExternalForkOnly, VerdictDeny, VerdictAllow,
         VerdictAllow, VerdictAllow, VerdictAllow]),
      (ActionWriteScientificState, matrix_row
        [VerdictDeny, VerdictOwnForkOnly, VerdictDeny, VerdictAllow,
         VerdictAllow, VerdictAllow, VerdictAllow]),
      (ActionOpenPR, matrix_row
        [VerdictDeny, VerdictAllowFromFork, VerdictDeny, VerdictAllow,
         VerdictAllow, VerdictAllow, VerdictAllow]),
      (ActionSubmitScientificReview, matrix_row
        [VerdictDeny, VerdictConditional, VerdictConditional, VerdictConditional,
         VerdictAllow, VerdictAllow, VerdictProposalOrScoped]),
      (ActionMergeMain, matrix_row
        [VerdictDeny, VerdictDeny, VerdictDeny, VerdictDeny,
         VerdictAllow, VerdictAllow, VerdictDeny]),
      (ActionFreezeMain, matrix_row
        [VerdictDeny, VerdictDeny, VerdictDeny, VerdictDeny,
         VerdictAllow, VerdictAllow, VerdictDeny]),
      (ActionCreateRelease, matrix_row
        [VerdictDeny, VerdictDeny, VerdictDeny, VerdictDeny,
         VerdictAllow, VerdictAllow, VerdictProposalOnly]),
      (ActionPublishPrivateToPublic, matrix_row
        [VerdictDeny, VerdictDeny, VerdictDeny, VerdictDeny,
         VerdictConditional, VerdictAllow, VerdictDeny]),
      (ActionChangeRightsHolder, matrix_row
        [VerdictDeny, VerdictDeny, VerdictDeny, VerdictDeny,
         VerdictDeny, VerdictAllow, VerdictDeny]),
      (ActionAbortMainObject, matrix_row
        [VerdictDeny, VerdictDeny, VerdictDeny, VerdictDeny,
         VerdictViaPR, VerdictViaPR, VerdictProposalOnly]),
      (ActionReopenMainObject, matrix_row
        [VerdictDeny, VerdictDeny, VerdictDeny, VerdictDeny,
         VerdictViaPR, VerdictViaPR, VerdictProposalOnly]),
      (ActionReadFiles, matrix_row
        [VerdictPublicPolicy, VerdictAuthorized, VerdictAuthorized, VerdictAuthorized,
         VerdictAuthorized, VerdictAuthorized, VerdictAllowIfAuthorized]),
      (ActionMutateFilesWeb, matrix_row
        [VerdictDeny, VerdictDeny, VerdictDeny, VerdictDeny,
         VerdictDeny, VerdictDeny, VerdictDeny])]"

definition actorClasses :: "(ActorClass \<times> bool) list" where
  "actorClasses =
     [(ActorPublicAnonymous, True), (ActorAuthenticatedNonMember, True), (ActorViewer, True),
      (ActorContributor, True), (ActorMaintainer, True), (ActorOwner, True), (ActorAgent, True)]"

definition ValidAction :: "Action \<Rightarrow> bool" where
  "ValidAction a \<longleftrightarrow> map_of matrixTable a \<noteq> None"

definition Actions :: "Action list" where
  "Actions = sort (map fst matrixTable)"

definition ActorClasses :: "ActorClass list" where
  "ActorClasses = sort (map fst actorClasses)"

section \<open>The engine (engine.go)\<close>

record AuthzRequest =
  rq_Action :: Action
  rq_Class :: ActorClass

text \<open>The matrix engine never returns an error.\<close>

definition Authorize :: "AuthzRequest \<Rightarrow> AuthzDecision" where
  "Authorize req =
     (case map_of matrixTable (rq_Action req) of
        None \<Rightarrow> \<lparr>ad_Verdict = VerdictDeny, ad_Reason = ''action is not in the permission matrix''\<rparr>
      | Some row \<Rightarrow>
          (case map_of row (rq_Class req) of
             None \<Rightarrow> \<lparr>ad_Verdict = VerdictDeny, ad_Reason = ''actor class is not in the permission matrix''\<rparr>
           | Some verdict \<Rightarrow> \<lparr>ad_Verdict = verdict, ad_Reason = ''''\<rparr>))"

section \<open>Laws of the matrix\<close>

lemma matrix_actions_distinct: "distinct (map fst matrixTable)"
  by code_simp

text \<open>Every row answers for every actor class and for no other.\<close>

lemma matrix_complete:
  "list_all (\<lambda>p. map fst (snd p) = map fst actorClasses) matrixTable"
  by code_simp

lemma matrix_rowD:
  assumes "map_of matrixTable a = Some row"
  shows "(a, row) \<in> set matrixTable" and "map_of row c = None \<longleftrightarrow> c \<notin> set ActorClasses"
proof -
  show m: "(a, row) \<in> set matrixTable" using assms by (rule map_of_SomeD)
  with matrix_complete have "map fst row = map fst actorClasses" by (auto simp: list_all_iff)
  then have "fst ` set row = set ActorClasses" unfolding ActorClasses_def by (metis set_map set_sort)
  then show "map_of row c = None \<longleftrightarrow> c \<notin> set ActorClasses" by (simp add: map_of_eq_None_iff)
qed

text \<open>The matrix read as a table of permitted pairs.\<close>

definition permitted :: "Action \<Rightarrow> ActorClass \<Rightarrow> bool" where
  "permitted a c \<longleftrightarrow> decision_Permits (Authorize \<lparr>rq_Action = a, rq_Class = c\<rparr>)"

lemma permitted_iff:
  "permitted a c \<longleftrightarrow> (\<exists>row. map_of matrixTable a = Some row \<and> map_of row c = Some VerdictAllow)"
  by (auto simp: permitted_def Authorize_def decision_Permits_def Permits_def VerdictAllow_def
      VerdictDeny_def split: option.splits)

lemma permitted_mono:
  assumes "permitted a c"
    and "list_all (\<lambda>p. map_of (snd p) c = Some VerdictAllow \<longrightarrow> map_of (snd p) d = Some VerdictAllow) matrixTable"
  shows "permitted a d"
proof -
  obtain row where r: "map_of matrixTable a = Some row" "map_of row c = Some VerdictAllow"
    using assms(1) by (auto simp: permitted_iff)
  from r(1) have "(a, row) \<in> set matrixTable" by (rule map_of_SomeD)
  with assms(2) r(2) have "map_of row d = Some VerdictAllow" unfolding list_all_iff by fastforce
  with r(1) show ?thesis by (simp add: permitted_iff)
qed

lemma allow_chain:
  "list_all (\<lambda>p. map_of (snd p) ActorViewer = Some VerdictAllow \<longrightarrow> map_of (snd p) ActorContributor = Some VerdictAllow) matrixTable"
  "list_all (\<lambda>p. map_of (snd p) ActorContributor = Some VerdictAllow \<longrightarrow> map_of (snd p) ActorMaintainer = Some VerdictAllow) matrixTable"
  "list_all (\<lambda>p. map_of (snd p) ActorMaintainer = Some VerdictAllow \<longrightarrow> map_of (snd p) ActorOwner = Some VerdictAllow) matrixTable"
  by code_simp+

lemmas permitted_chain = permitted_mono [OF _ allow_chain(1)] permitted_mono [OF _ allow_chain(2)]
  permitted_mono [OF _ allow_chain(3)]

lemma ClassOf_simps [simp]:
  "ClassOf auth role True = ActorAgent"
  "ClassOf auth (Some ProjectRoleOwner) False = ActorOwner"
  "ClassOf auth (Some ProjectRoleMaintainer) False = ActorMaintainer"
  "ClassOf auth (Some ProjectRoleContributor) False = ActorContributor"
  "ClassOf auth (Some ProjectRoleViewer) False = ActorViewer"
  "ClassOf True None False = ActorAuthenticatedNonMember"
  "ClassOf False None False = ActorPublicAnonymous"
  "\<not> ValidProjectRole r \<Longrightarrow> ClassOf auth (Some r) False = []"
  by (simp_all add: ClassOf_def role_defs ValidProjectRole_def)

lemma ValidRoleE:
  assumes "ValidProjectRole r"
  obtains "r = ProjectRoleOwner" | "r = ProjectRoleMaintainer" | "r = ProjectRoleContributor" | "r = ProjectRoleViewer"
  using assms by (auto simp: ValidProjectRole_def)

lemma Rank_simps:
  "Rank ProjectRoleViewer = 0" "Rank ProjectRoleContributor = 1" "Rank ProjectRoleMaintainer = 2"
  "Rank ProjectRoleOwner = 3"
  by (simp_all add: Rank_def role_defs)

lemma not_permitted_unknown [simp]: "\<not> permitted a []"
proof -
  have "[] \<notin> set ActorClasses" by code_simp
  then show ?thesis by (metis matrix_rowD(2) option.distinct(1) permitted_iff)
qed

lemma permitted_filter: "permitted a c \<longleftrightarrow> c \<in> set (filter (permitted a) (map fst actorClasses))"
proof -
  have "c \<in> set (map fst actorClasses)" if "permitted a c"
    using that matrix_rowD(2) [of a _ c] unfolding permitted_iff ActorClasses_def
    by (metis option.distinct(1) set_sort)
  then show ?thesis by auto
qed

lemma governance_cells:
  "filter (permitted ActionMergeMain) (map fst actorClasses) = [ActorMaintainer, ActorOwner]"
  "filter (permitted ActionFreezeMain) (map fst actorClasses) = [ActorMaintainer, ActorOwner]"
  "filter (permitted ActionCreateRelease) (map fst actorClasses) = [ActorMaintainer, ActorOwner]"
  "filter (permitted ActionPublishPrivateToPublic) (map fst actorClasses) = [ActorOwner]"
  "filter (permitted ActionChangeRightsHolder) (map fst actorClasses) = [ActorOwner]"
  "filter (permitted ActionAbortMainObject) (map fst actorClasses) = []"
  "filter (permitted ActionReopenMainObject) (map fst actorClasses) = []"
  "filter (permitted ActionMutateFilesWeb) (map fst actorClasses) = []"
  by code_simp+

lemma governance_permitted:
  "permitted ActionMergeMain c \<longleftrightarrow> c = ActorMaintainer \<or> c = ActorOwner"
  "permitted ActionFreezeMain c \<longleftrightarrow> c = ActorMaintainer \<or> c = ActorOwner"
  "permitted ActionCreateRelease c \<longleftrightarrow> c = ActorMaintainer \<or> c = ActorOwner"
  "permitted ActionPublishPrivateToPublic c \<longleftrightarrow> c = ActorOwner"
  "permitted ActionChangeRightsHolder c \<longleftrightarrow> c = ActorOwner"
  "\<not> permitted ActionAbortMainObject c" "\<not> permitted ActionReopenMainObject c"
  "\<not> permitted ActionMutateFilesWeb c"
  unfolding permitted_filter [of _ c] governance_cells by simp_all

lemma ClassOf_eq:
  "ClassOf auth role isAgent = ActorOwner \<longleftrightarrow> \<not> isAgent \<and> role = Some ProjectRoleOwner"
  "ClassOf auth role isAgent = ActorMaintainer \<longleftrightarrow> \<not> isAgent \<and> role = Some ProjectRoleMaintainer"
  by (auto simp: ClassOf_def class_defs role_defs split: option.splits)

section \<open>Properties\<close>

text \<open>The engine denies by default.  It permits a request exactly when the matrix has the cell
  of the action and the class and that cell is an unconditional allow; an action or a class
  outside the matrix, and a member whose stored role is none of the four, is denied with a
  reason.\<close>

theorem authorize_default_deny:
  "(decision_Permits (Authorize req) \<longleftrightarrow>
      (\<exists>row. map_of matrixTable (rq_Action req) = Some row \<and> map_of row (rq_Class req) = Some VerdictAllow))
   \<and> (\<not> ValidAction (rq_Action req) \<or> \<not> rq_Class req \<in> set ActorClasses
      \<longleftrightarrow> ad_Reason (Authorize req) \<noteq> [])
   \<and> (ad_Reason (Authorize req) \<noteq> [] \<longrightarrow> decision_Denies (Authorize req))
   \<and> (\<not> ValidProjectRole r \<longrightarrow>
        decision_Denies (Authorize \<lparr>rq_Action = a, rq_Class = ClassOf True (Some r) False\<rparr>))"
proof (intro conjI impI)
  obtain a c where r: "req = \<lparr>rq_Action = a, rq_Class = c\<rparr>" by (metis AuthzRequest.cases)
  show "decision_Permits (Authorize req) \<longleftrightarrow>
      (\<exists>row. map_of matrixTable (rq_Action req) = Some row \<and> map_of row (rq_Class req) = Some VerdictAllow)"
    using permitted_iff [of a c] by (simp add: r permitted_def)
  show "\<not> ValidAction (rq_Action req) \<or> \<not> rq_Class req \<in> set ActorClasses
      \<longleftrightarrow> ad_Reason (Authorize req) \<noteq> []"
  proof (cases "map_of matrixTable (rq_Action req)")
    case (Some row)
    with matrix_rowD(2) [OF Some, of "rq_Class req"] show ?thesis
      by (cases "map_of row (rq_Class req)") (auto simp: ValidAction_def Authorize_def)
  qed (simp add: ValidAction_def Authorize_def)
  show "decision_Denies (Authorize req)" if "ad_Reason (Authorize req) \<noteq> []"
    using that by (auto simp: Authorize_def decision_Denies_def Denies_def split: option.splits if_splits)
next
  assume "\<not> ValidProjectRole r"
  moreover have "[] \<notin> set ActorClasses" by code_simp
  then have "map_of row [] = None" if "map_of matrixTable a = Some row" for row
    using matrix_rowD(2) [OF that] by blast
  ultimately show "decision_Denies (Authorize \<lparr>rq_Action = a, rq_Class = ClassOf True (Some r) False\<rparr>)"
    by (auto simp: Authorize_def decision_Denies_def Denies_def split: option.splits)
qed

theorem authorize_default_deny_witness:
  "decision_Denies (Authorize \<lparr>rq_Action = ActionMergeMain, rq_Class = ClassOf True (Some ''admin'') False\<rparr>)"
proof -
  have "\<not> ValidProjectRole ''admin''" by (simp add: ValidProjectRole_def role_defs)
  with authorize_default_deny show ?thesis by blast
qed

text \<open>Authority only grows with the role: what the matrix permits a member it permits every member
  whose role is at least as high, for every action.\<close>

theorem roles_monotone:
  assumes "AtLeast r' r"
    and "decision_Permits (Authorize \<lparr>rq_Action = a, rq_Class = ClassOf auth (Some r) False\<rparr>)"
  shows "decision_Permits (Authorize \<lparr>rq_Action = a, rq_Class = ClassOf auth (Some r') False\<rparr>)"
proof -
  have R: "ValidProjectRole r" "ValidProjectRole r'" "Rank r \<le> Rank r'"
    using assms(1) by (auto simp: AtLeast_def Rank_def ValidProjectRole_def split: if_splits)
  have P: "permitted a (ClassOf auth (Some r) False)" using assms(2) by (simp add: permitted_def)
  have "permitted a (ClassOf auth (Some r') False)"
    using R P permitted_chain
    by (elim ValidRoleE) (auto simp: Rank_simps)
  then show ?thesis by (simp add: permitted_def)
qed

theorem roles_monotone_witness:
  "decision_Permits (Authorize \<lparr>rq_Action = ActionCreateBranch, rq_Class = ClassOf True (Some ProjectRoleOwner) False\<rparr>)"
proof (rule roles_monotone)
  show "AtLeast ProjectRoleOwner ProjectRoleContributor" by code_simp
  show "decision_Permits (Authorize \<lparr>rq_Action = ActionCreateBranch, rq_Class = ClassOf True (Some ProjectRoleContributor) False\<rparr>)"
    by code_simp
qed

text \<open>C36: the governance actions are human and privileged.  Merging into or freezing main and
  releasing need a maintainer or owner, publishing and changing rights holders an owner, and
  no agent is permitted any of them; nobody is permitted a direct abort or reopen on main or a
  file change through the web.\<close>

theorem governance_needs_role:
  fixes auth role isAgent
  defines "may \<equiv> \<lambda>a. decision_Permits (Authorize \<lparr>rq_Action = a, rq_Class = ClassOf auth role isAgent\<rparr>)"
  shows "(may ActionMergeMain \<longleftrightarrow> \<not> isAgent \<and> (role = Some ProjectRoleOwner \<or> role = Some ProjectRoleMaintainer))
    \<and> (may ActionFreezeMain \<longleftrightarrow> may ActionMergeMain) \<and> (may ActionCreateRelease \<longleftrightarrow> may ActionMergeMain)
    \<and> (may ActionPublishPrivateToPublic \<longleftrightarrow> \<not> isAgent \<and> role = Some ProjectRoleOwner)
    \<and> (may ActionChangeRightsHolder \<longleftrightarrow> may ActionPublishPrivateToPublic)
    \<and> \<not> may ActionAbortMainObject \<and> \<not> may ActionReopenMainObject \<and> \<not> may ActionMutateFilesWeb"
  unfolding may_def permitted_def [symmetric] governance_permitted ClassOf_eq
  by (auto simp: governance_permitted)

end
