(* ===== verification/Store.thy ===== *)
theory Store
  imports Validation "HOL-Library.Sublist"
begin

text \<open>
  The PostgreSQL store the application services run on: Go errors with their wrapping
  (\<open>errors.Is\<close>, \<open>errors.As\<close>), the tables of the state model (infra/migrations
  00004, 00005, 00006, 00024, 00025, 00100, 00123) as lists of rows, the generated queries over them
  (internal/persistence/sqlc) with the constraints the schema checks, and the transaction
  boundary \<open>WithTx\<close> (internal/persistence/tx.go).

  What belongs to the server or to pgx is a field of the record \<open>pg\<close>, an argument of
  every definition that uses it: the generated ids, the transaction time, the parsing of uuid
  texts, the \<open>jsonb\<close> normal form, the CHECK constraints on the governance columns, and
  whether a query on the pool, beginning, committing or rolling back fails.  A commit may fail depending on the
  database it would publish: that is where the deferred constraint triggers run.  Transactions
  are modelled one at a time: the compare-and-swap updates take row locks, so two transactions
  that move the same head or counter are ordered by the server.
\<close>

section \<open>Go errors\<close>

datatype sentinel =
    states_ErrStateNotFound | states_ErrCommitNotFound | states_ErrBranchNotFound
  | states_ErrStateExists | states_ErrValidation | states_ErrStore
  | branches_ErrBranchNotFound | branches_ErrBranchNameTaken | branches_ErrBaseStateNotFound
  | branches_ErrBranchNotActive | branches_ErrMainProtected | branches_ErrPublicBranchInPrivateProject
  | branches_ErrStateNotFound | branches_ErrValidation | branches_ErrStore
  | projects_ErrProjectNotFound
  | sciobjects_ErrObjectNotFound | sciobjects_ErrVersionNotFound | sciobjects_ErrValidation | sciobjects_ErrStore
  | relations_ErrRelationNotFound | relations_ErrRelationVersionNotFound
  | relations_ErrReferencedVersionNotFound | relations_ErrValidation | relations_ErrStore
  | validation_ErrValidation | validation_ErrStore
  | merge_ErrForbidden | merge_ErrValidation | merge_ErrPullRequestNotFound | merge_ErrBranchNotFound | merge_ErrStore
  | domain_ErrSemanticMergeNotFound
  | diffs_ErrValidation | diffs_ErrStateNotFound | diffs_ErrStore
  | pgx_ErrNoRows

text \<open>Why a merge is stale (the reasons of the merge's write fence).\<close>

datatype stale_reason =
    AnotherPullRequest | NotMergeReady string | ProposedStateMoved | BaseStateMoved
  | AnotherTarget | TargetWithoutHead | TargetAdvanced | SourceClosed | TargetClosed

text \<open>A sentinel is a value of \<open>errors.New\<close>; the typed errors are pointers to their
  structs; \<open>Errorf e\<close> is \<open>fmt.Errorf\<close> with \<open>%w\<close> on \<open>e\<close>;
  \<open>ErrorText\<close> is an error that wraps nothing.\<close>

datatype go_error =
    Sentinel sentinel
  | StateConflictError string "string option" "string option"
  | BranchNotActiveError string string
  | MainFrozenDirectWriteError string string
  | NotActiveError string string
  | ObjectVersionConflictError string int int
  | RelationVersionConflictError string int int
  | ReferencedVersionNotFoundError string string
  | UnknownRelationTypeError string
  | GateBlockedError vreport
  | StaleMergeError stale_reason
  | AlreadyMergedError string
  | PullRequestNotMergeableError string
  | MergeBranchNotActiveError string
  | MissingEntityError string string
  | versionHeadsMovedError string string int int
  | NotMergeableError int string
  | PgError string string
  | ErrorText string
  | Errorf go_error
  | CommitWriteError go_error

text \<open>The chain of an error is what repeated \<open>Unwrap\<close> visits.\<close>

fun error_chain :: "go_error \<Rightarrow> go_error list" where
  "error_chain (Errorf e) = Errorf e # error_chain e"
| "error_chain (CommitWriteError e) = CommitWriteError e # error_chain e"
| "error_chain e = [e]"

definition errors_Is :: "go_error \<Rightarrow> sentinel \<Rightarrow> bool" where
  "errors_Is e s \<longleftrightarrow> Sentinel s \<in> set (error_chain e)"

definition as_PgError :: "go_error \<Rightarrow> (string \<times> string) option" where
  "as_PgError e =
     (case filter (\<lambda>x. case x of PgError _ _ \<Rightarrow> True | _ \<Rightarrow> False) (error_chain e) of
        PgError code con # _ \<Rightarrow> Some (code, con) | _ \<Rightarrow> None)"

definition as_CommitWriteError :: "go_error \<Rightarrow> go_error option" where
  "as_CommitWriteError e =
     (case filter (\<lambda>x. case x of CommitWriteError _ \<Rightarrow> True | _ \<Rightarrow> False) (error_chain e) of
        CommitWriteError w # _ \<Rightarrow> Some w | _ \<Rightarrow> None)"

definition as_StateConflictError :: "go_error \<Rightarrow> bool" where
  "as_StateConflictError e \<longleftrightarrow> list_ex (\<lambda>x. case x of StateConflictError _ _ _ \<Rightarrow> True | _ \<Rightarrow> False) (error_chain e)"

definition as_BranchNotActiveError :: "go_error \<Rightarrow> bool" where
  "as_BranchNotActiveError e \<longleftrightarrow> list_ex (\<lambda>x. case x of BranchNotActiveError _ _ \<Rightarrow> True | _ \<Rightarrow> False) (error_chain e)"

definition as_MainFrozenDirectWriteError :: "go_error \<Rightarrow> bool" where
  "as_MainFrozenDirectWriteError e \<longleftrightarrow>
     list_ex (\<lambda>x. case x of MainFrozenDirectWriteError _ _ \<Rightarrow> True | _ \<Rightarrow> False) (error_chain e)"

definition as_NotActiveError :: "go_error \<Rightarrow> bool" where
  "as_NotActiveError e \<longleftrightarrow> list_ex (\<lambda>x. case x of NotActiveError _ _ \<Rightarrow> True | _ \<Rightarrow> False) (error_chain e)"

lemmas error_defs = errors_Is_def as_PgError_def as_CommitWriteError_def as_StateConflictError_def
  as_BranchNotActiveError_def as_MainFrozenDirectWriteError_def as_NotActiveError_def

definition isInvalidText :: "go_error \<Rightarrow> bool" where
  "isInvalidText e \<longleftrightarrow> (case as_PgError e of Some (code, _) \<Rightarrow> code = ''22P02'' | None \<Rightarrow> False)"

section \<open>Tables\<close>

text \<open>The columns of a project row that the state and branch commands read.\<close>

record ProjectRow =
  pj_ID :: string
  pj_Visibility :: string
  pj_MainFrozen :: bool

record Branch =
  bn_ID :: string
  bn_ProjectID :: string
  bn_Name :: string
  bn_Visibility :: string
  bn_Purpose :: "string option"
  bn_GitRef :: string
  bn_BaseStateID :: "string option"
  bn_Lifecycle :: string
  bn_CreatedBy :: string
  bn_CreatedAt :: gotime

record ScientificObject =
  so_ID :: string
  so_ProjectID :: string
  so_ObjectType :: string
  so_CurrentVersionNo :: int
  so_CreatedBy :: string
  so_CreatedAt :: gotime

record Relation =
  rn_ID :: string
  rn_ProjectID :: string
  rn_CurrentVersionNo :: int
  rn_CreatedAt :: gotime

text \<open>A row of \<open>scientific_object_versions\<close>: the domain value and the two request
  keys, which no domain value carries.\<close>

record version_row =
  vr_version :: ScientificObjectVersion
  vr_AbortRequestKey :: "string option"
  vr_ReopenRequestKey :: "string option"

text \<open>A Research PR (internal/domain/pullrequest.go), the merge records and the conflicts they
  carry (internal/domain/semantic_merge.go), the ledger of idempotency keys, the audit log and the
  outbox.\<close>

record PullRequest =
  pq_ID :: string
  pq_ProjectID :: string
  pq_Number :: int
  pq_SourceBranchID :: string
  pq_TargetBranchID :: string
  pq_BaseStateID :: string
  pq_ProposedStateID :: string
  pq_Title :: string
  pq_Body :: string
  pq_State :: string
  pq_CreatedBy :: string
  pq_CreatedAt :: gotime
  pq_MergedAt :: "gotime option"

record SemanticMerge =
  sg_ID :: string
  sg_ProjectID :: string
  sg_PullRequestID :: string
  sg_SourceBranchID :: string
  sg_TargetBranchID :: string
  sg_BaseStateID :: string
  sg_SourceStateID :: string
  sg_TargetStateID :: string
  sg_ResultStateID :: string
  sg_ActorID :: string
  sg_PlanVersion :: string
  sg_Plan :: raw
  sg_PlanDigest :: string
  sg_Applied :: int
  sg_KeptTarget :: int
  sg_Carried :: int
  sg_Aborted :: int
  sg_Withheld :: int
  sg_GitRef :: "string option"
  sg_GitSHA :: "string option"
  sg_GitState :: string
  sg_GitError :: string
  sg_GitAttempts :: int
  sg_CreatedAt :: gotime
  sg_UpdatedAt :: gotime

record SemanticMergeConflict =
  mc_ID :: string
  mc_MergeID :: string
  mc_ProjectID :: string
  mc_ResultStateID :: string
  mc_TargetKind :: string
  mc_TargetID :: string
  mc_Code :: string
  mc_Category :: string
  mc_Fields :: "string list"
  mc_PayloadKeys :: "string list"
  mc_OtherObjectID :: "string option"
  mc_Detail :: string
  mc_Kind :: string
  mc_DecidedBy :: string
  mc_Note :: string
  mc_SourceVersionID :: string
  mc_TargetVersionID :: "string option"
  mc_CreatedAt :: gotime

record merge_creation =
  mk_ProjectID :: string
  mk_IdempotencyKey :: string
  mk_MergeID :: string

record audit_row =
  au_ActorID :: "string option"
  au_Via :: string
  au_Action :: string
  au_TargetRef :: "string option"
  au_ProjectID :: "string option"
  au_OrganizationID :: "string option"
  au_CorrelationID :: string
  au_BeforeSummary :: "raw option"
  au_AfterSummary :: "raw option"
  au_Metadata :: raw

record outbox_row =
  ob_EventType :: string
  ob_ActorID :: "string option"
  ob_ProjectID :: "string option"
  ob_Visibility :: string
  ob_Payload :: raw
  ob_CorrelationID :: string
  ob_Via :: "string option"

record database =
  db_users :: "string list"
  db_projects :: "ProjectRow list"
  db_branches :: "Branch list"
  db_states :: "ProjectState list"
  db_commits :: "StateCommit list"
  db_objects :: "ScientificObject list"
  db_object_versions :: "version_row list"
  db_relations :: "Relation list"
  db_relation_versions :: "RelationVersion list"
  db_pull_requests :: "PullRequest list"
  db_merges :: "SemanticMerge list"
  db_merge_conflicts :: "SemanticMergeConflict list"
  db_merge_creations :: "merge_creation list"
  db_audit :: "audit_row list"
  db_outbox :: "outbox_row list"
  db_seq :: nat

record pg =
  pg_uuid :: "nat \<Rightarrow> string"
  pg_now :: gotime
  pg_parse :: "string \<Rightarrow> string option"
  pg_jsonb :: "raw \<Rightarrow> raw option"
  pg_sha :: "raw \<Rightarrow> string"
  pg_record_check :: "version_row \<Rightarrow> string option"
  pg_read :: "go_error option"
  pg_begin :: "go_error option"
  pg_commit :: "database \<Rightarrow> go_error option"
  pg_rollback :: "go_error option"

text \<open>\<open>textUUID\<close>, with a uuid as its canonical text (the empty text is none);
  \<open>optionalUUIDPtr\<close> reads nil and the empty text as NULL.\<close>

definition textUUID :: "pg \<Rightarrow> string \<Rightarrow> string option" where
  "textUUID pg s = (if s = [] then None else pg_parse pg s)"

definition optionalUUIDPtr :: "pg \<Rightarrow> string option \<Rightarrow> string option option" where
  "optionalUUIDPtr pg s =
     (case s of None \<Rightarrow> Some None | Some t \<Rightarrow> if t = [] then Some None else map_option Some (textUUID pg t))"

section \<open>Transactions\<close>

type_synonym 'a tx = "database \<Rightarrow> go_error + 'a \<times> database"

definition tx_return :: "'a \<Rightarrow> 'a tx" where
  "tx_return x = (\<lambda>db. Inr (x, db))"

definition tx_raise :: "go_error \<Rightarrow> 'a tx" where
  "tx_raise e = (\<lambda>db. Inl e)"

definition tx_bind :: "'a tx \<Rightarrow> ('a \<Rightarrow> 'b tx) \<Rightarrow> 'b tx" where
  "tx_bind m f = (\<lambda>db. case m db of Inl e \<Rightarrow> Inl e | Inr (x, db') \<Rightarrow> f x db')"

text \<open>Handling a query's error inside the transaction.\<close>

definition tx_catch :: "'a tx \<Rightarrow> (go_error \<Rightarrow> 'a tx) \<Rightarrow> 'a tx" where
  "tx_catch m h = (\<lambda>db. case m db of Inl e \<Rightarrow> h e db | Inr r \<Rightarrow> Inr r)"

text \<open>\<open>WithTx\<close>: begin, run, and commit or roll back.  The database that remains is the second
  component; a failed begin, a failed body and a failed commit leave it as it was.  When the
  rollback fails too, the error that is returned wraps the rollback's and not the body's.\<close>

definition WithTx :: "pg \<Rightarrow> 'a tx \<Rightarrow> database \<Rightarrow> (go_error + 'a) \<times> database" where
  "WithTx pg fn db =
     (case pg_begin pg of
        Some e \<Rightarrow> (Inl (Errorf e), db)
      | None \<Rightarrow>
          (case fn db of
             Inl e \<Rightarrow> (Inl (case pg_rollback pg of Some rb \<Rightarrow> Errorf rb | None \<Rightarrow> e), db)
           | Inr (x, db') \<Rightarrow>
               (case pg_commit pg db' of Some e \<Rightarrow> (Inl (Errorf e), db) | None \<Rightarrow> (Inr x, db'))))"

text \<open>A single statement run on the pool.\<close>

definition pool_exec :: "pg \<Rightarrow> 'a tx \<Rightarrow> database \<Rightarrow> (go_error + 'a) \<times> database" where
  "pool_exec pg q db =
     (case pg_read pg of
        Some e \<Rightarrow> (Inl e, db)
      | None \<Rightarrow> (case q db of Inl e \<Rightarrow> (Inl e, db) | Inr (x, db') \<Rightarrow> (Inr x, db')))"

definition pool_query :: "pg \<Rightarrow> 'a tx \<Rightarrow> database \<Rightarrow> go_error + 'a" where
  "pool_query pg q db = fst (pool_exec pg q db)"

definition pool_list :: "pg \<Rightarrow> (database \<Rightarrow> 'a list) \<Rightarrow> database \<Rightarrow> go_error + 'a list" where
  "pool_list pg q db = (case pg_read pg of Some e \<Rightarrow> Inl e | None \<Rightarrow> Inr (q db))"

text \<open>The first constraint a statement violates: each is its truth, its error code and its
  name.\<close>

definition violation :: "(bool \<times> string \<times> string) list \<Rightarrow> go_error option" where
  "violation cs = map_option (\<lambda>(_, code, con). PgError code con) (find (\<lambda>(ok, _). \<not> ok) cs)"

definition references :: "string option \<Rightarrow> string list \<Rightarrow> bool" where
  "references ref ids = (case ref of None \<Rightarrow> True | Some i \<Rightarrow> i \<in> set ids)"

section \<open>Queries\<close>

subsection \<open>States, commits and branches\<close>

definition CreateProjectState ::
  "pg \<Rightarrow> string \<Rightarrow> string option \<Rightarrow> string option \<Rightarrow> string \<Rightarrow> string option \<Rightarrow> string \<Rightarrow> ProjectState tx" where
  "CreateProjectState pg projectID branchID parentID hash gitSha manifest = (\<lambda>db.
     let row = \<lparr>ps_ID = pg_uuid pg (db_seq db), ps_ProjectID = projectID, ps_BranchID = branchID,
                ps_ParentStateID = parentID, ps_StateHash = hash, ps_GitCommitSHA = gitSha,
                ps_ManifestVersion = manifest, ps_CreatedAt = pg_now pg\<rparr> in
     case violation
       [(ps_ID row \<notin> set (map ps_ID (db_states db)), ''23505'', ''project_states_pkey''),
        (\<not> list_ex (\<lambda>s. ps_ProjectID s = projectID \<and> ps_StateHash s = hash) (db_states db),
           ''23505'', ''project_states_project_id_state_hash_key''),
        (projectID \<in> set (map pj_ID (db_projects db)), ''23503'', ''project_states_project_id_fkey''),
        (references branchID (map bn_ID (db_branches db)), ''23503'', ''project_states_branch_id_fkey''),
        (references parentID (ps_ID row # map ps_ID (db_states db)), ''23503'', ''project_states_parent_state_id_fkey'')]
     of Some e \<Rightarrow> Inl e
      | None \<Rightarrow> Inr (row, db\<lparr>db_states := db_states db @ [row], db_seq := Suc (db_seq db)\<rparr>))"

definition CreateStateCommit ::
  "pg \<Rightarrow> string \<Rightarrow> string \<Rightarrow> string option \<Rightarrow> string \<Rightarrow> string \<Rightarrow> StateVia \<Rightarrow> string \<Rightarrow> raw \<Rightarrow> StateCommit tx" where
  "CreateStateCommit pg projectID branchID baseID resultID actorID via message summary = (\<lambda>db.
     case pg_jsonb pg summary of
       None \<Rightarrow> Inl (PgError ''22P02'' [])
     | Some stored \<Rightarrow>
         let row = \<lparr>cm_ID = pg_uuid pg (db_seq db), cm_ProjectID = projectID, cm_BranchID = branchID,
                    cm_BaseStateID = baseID, cm_ResultStateID = resultID, cm_ActorID = actorID, cm_Via = via,
                    cm_Message = message, cm_OperationSummary = stored, cm_CreatedAt = pg_now pg\<rparr> in
         (case violation
           [(ValidStateVia via, ''23514'', ''state_commits_via_check''),
            (cm_ID row \<notin> set (map cm_ID (db_commits db)), ''23505'', ''state_commits_pkey''),
            (projectID \<in> set (map pj_ID (db_projects db)), ''23503'', ''state_commits_project_id_fkey''),
            (branchID \<in> set (map bn_ID (db_branches db)), ''23503'', ''state_commits_branch_id_fkey''),
            (references baseID (map ps_ID (db_states db)), ''23503'', ''state_commits_base_state_id_fkey''),
            (resultID \<in> set (map ps_ID (db_states db)), ''23503'', ''state_commits_result_state_id_fkey''),
            (actorID \<in> set (db_users db), ''23503'', ''state_commits_actor_id_fkey'')]
          of Some e \<Rightarrow> Inl e
           | None \<Rightarrow> Inr (row, db\<lparr>db_commits := db_commits db @ [row], db_seq := Suc (db_seq db)\<rparr>)))"

definition GetBranchByID :: "string \<Rightarrow> Branch tx" where
  "GetBranchByID i = (\<lambda>db.
     case find (\<lambda>b. bn_ID b = i) (db_branches db) of None \<Rightarrow> Inl (Sentinel pgx_ErrNoRows) | Some b \<Rightarrow> Inr (b, db))"

definition GetBranchByProjectAndID :: "string \<Rightarrow> string \<Rightarrow> Branch tx" where
  "GetBranchByProjectAndID i projectID = (\<lambda>db.
     case find (\<lambda>b. bn_ID b = i \<and> bn_ProjectID b = projectID) (db_branches db) of
       None \<Rightarrow> Inl (Sentinel pgx_ErrNoRows) | Some b \<Rightarrow> Inr (b, db))"

definition GetProjectStateByID :: "string \<Rightarrow> ProjectState tx" where
  "GetProjectStateByID i = (\<lambda>db.
     case find (\<lambda>s. ps_ID s = i) (db_states db) of None \<Rightarrow> Inl (Sentinel pgx_ErrNoRows) | Some s \<Rightarrow> Inr (s, db))"

definition GetProjectStateByHash :: "string \<Rightarrow> string \<Rightarrow> ProjectState tx" where
  "GetProjectStateByHash projectID hash = (\<lambda>db.
     case find (\<lambda>s. ps_ProjectID s = projectID \<and> ps_StateHash s = hash) (db_states db) of
       None \<Rightarrow> Inl (Sentinel pgx_ErrNoRows) | Some s \<Rightarrow> Inr (s, db))"

definition GetStateCommitByID :: "string \<Rightarrow> StateCommit tx" where
  "GetStateCommitByID i = (\<lambda>db.
     case find (\<lambda>c. cm_ID c = i) (db_commits db) of None \<Rightarrow> Inl (Sentinel pgx_ErrNoRows) | Some c \<Rightarrow> Inr (c, db))"

definition GetProjectByID :: "string \<Rightarrow> ProjectRow tx" where
  "GetProjectByID i = (\<lambda>db.
     case find (\<lambda>p. pj_ID p = i) (db_projects db) of None \<Rightarrow> Inl (Sentinel pgx_ErrNoRows) | Some p \<Rightarrow> Inr (p, db))"

text \<open>The head compare-and-swap.\<close>

definition head_match :: "string \<Rightarrow> string \<Rightarrow> string option \<Rightarrow> Branch \<Rightarrow> bool" where
  "head_match i projectID expected b \<longleftrightarrow>
     bn_ID b = i \<and> bn_ProjectID b = projectID \<and> bn_Lifecycle b = ''active'' \<and> bn_BaseStateID b = expected"

definition UpdateBranchBaseState :: "string \<Rightarrow> string \<Rightarrow> string \<Rightarrow> string option \<Rightarrow> Branch tx" where
  "UpdateBranchBaseState i projectID base expected = (\<lambda>db.
     case find (head_match i projectID expected) (db_branches db) of
       None \<Rightarrow> Inl (Sentinel pgx_ErrNoRows)
     | Some b \<Rightarrow>
         (if base \<notin> set (map ps_ID (db_states db)) then Inl (PgError ''23503'' ''branches_base_state_fk'')
          else Inr (b\<lparr>bn_BaseStateID := Some base\<rparr>,
                 db\<lparr>db_branches := map (\<lambda>b. if head_match i projectID expected b
                      then b\<lparr>bn_BaseStateID := Some base\<rparr> else b) (db_branches db)\<rparr>)))"

definition GetMainFrozenForBranch :: "string \<Rightarrow> string \<Rightarrow> bool tx" where
  "GetMainFrozenForBranch branchID projectID = (\<lambda>db.
     case find (\<lambda>b. bn_ID b = branchID \<and> bn_ProjectID b = projectID \<and> bn_Name b = ''main'') (db_branches db) of
       None \<Rightarrow> Inl (Sentinel pgx_ErrNoRows)
     | Some b \<Rightarrow>
         (case find (\<lambda>p. pj_ID p = bn_ProjectID b) (db_projects db) of
            None \<Rightarrow> Inl (Sentinel pgx_ErrNoRows) | Some p \<Rightarrow> Inr (pj_MainFrozen p, db)))"

definition lifecycle_match :: "string \<Rightarrow> string \<Rightarrow> Branch \<Rightarrow> bool" where
  "lifecycle_match i projectID b \<longleftrightarrow>
     bn_ID b = i \<and> bn_ProjectID b = projectID \<and> bn_Name b \<noteq> ''main'' \<and> bn_Lifecycle b = ''active''"

definition SetBranchLifecycle_query :: "string \<Rightarrow> string \<Rightarrow> string \<Rightarrow> Branch tx" where
  "SetBranchLifecycle_query i projectID to = (\<lambda>db.
     case find (lifecycle_match i projectID) (db_branches db) of
       None \<Rightarrow> Inl (Sentinel pgx_ErrNoRows)
     | Some b \<Rightarrow>
         (if to \<notin> {''active'', ''merged'', ''aborted''} then Inl (PgError ''23514'' ''branches_lifecycle_state_check'')
          else Inr (b\<lparr>bn_Lifecycle := to\<rparr>,
                 db\<lparr>db_branches := map (\<lambda>b. if lifecycle_match i projectID b then b\<lparr>bn_Lifecycle := to\<rparr> else b)
                      (db_branches db)\<rparr>)))"

definition CreateBranchFromState ::
  "pg \<Rightarrow> string \<Rightarrow> string \<Rightarrow> string \<Rightarrow> string option \<Rightarrow> string \<Rightarrow> string \<Rightarrow> string \<Rightarrow> Branch tx" where
  "CreateBranchFromState pg projectID name visibility purpose gitRef base createdBy = (\<lambda>db.
     if \<not> list_ex (\<lambda>s. ps_ID s = base \<and> ps_ProjectID s = projectID) (db_states db) then Inl (Sentinel pgx_ErrNoRows)
     else
       let row = \<lparr>bn_ID = pg_uuid pg (db_seq db), bn_ProjectID = projectID, bn_Name = name, bn_Visibility = visibility,
                  bn_Purpose = purpose, bn_GitRef = gitRef, bn_BaseStateID = Some base, bn_Lifecycle = ''active'',
                  bn_CreatedBy = createdBy, bn_CreatedAt = pg_now pg\<rparr> in
       (case violation
         [(visibility \<in> {''public'', ''private''}, ''23514'', ''branches_visibility_check''),
          (bn_ID row \<notin> set (map bn_ID (db_branches db)), ''23505'', ''branches_pkey''),
          (\<not> list_ex (\<lambda>b. bn_ProjectID b = projectID \<and> bn_Name b = name) (db_branches db),
             ''23505'', ''branches_project_id_name_key''),
          (projectID \<in> set (map pj_ID (db_projects db)), ''23503'', ''branches_project_id_fkey''),
          (createdBy \<in> set (db_users db), ''23503'', ''branches_created_by_fkey'')]
        of Some e \<Rightarrow> Inl e
         | None \<Rightarrow> Inr (row, db\<lparr>db_branches := db_branches db @ [row], db_seq := Suc (db_seq db)\<rparr>)))"

text \<open>\<open>ORDER BY created_at, id\<close>.\<close>

definition order_rows :: "('r \<Rightarrow> gotime) \<Rightarrow> ('r \<Rightarrow> string) \<Rightarrow> 'r list \<Rightarrow> 'r list" where
  "order_rows created rid rows = sort_key (\<lambda>r. (instant (created r), rid r)) rows"

definition ListBranchesByProject :: "string \<Rightarrow> database \<Rightarrow> Branch list" where
  "ListBranchesByProject i db = order_rows bn_CreatedAt bn_ID (filter (\<lambda>b. bn_ProjectID b = i) (db_branches db))"

definition ListProjectStatesByBranch :: "string \<Rightarrow> database \<Rightarrow> ProjectState list" where
  "ListProjectStatesByBranch i db = order_rows ps_CreatedAt ps_ID (filter (\<lambda>s. ps_BranchID s = Some i) (db_states db))"

definition ListStateCommitsByBranch :: "string \<Rightarrow> database \<Rightarrow> StateCommit list" where
  "ListStateCommitsByBranch i db = order_rows cm_CreatedAt cm_ID (filter (\<lambda>c. cm_BranchID c = i) (db_commits db))"

definition ListStateObjectVersionsByState :: "string \<Rightarrow> database \<Rightarrow> ScientificObjectVersion list" where
  "ListStateObjectVersionsByState i db =
     order_rows sv_CreatedAt sv_ID (filter (\<lambda>v. sv_StateID v = i) (map vr_version (db_object_versions db)))"

definition ListStateRelationVersionsByState :: "string \<Rightarrow> database \<Rightarrow> RelationVersion list" where
  "ListStateRelationVersionsByState i db =
     order_rows rv_CreatedAt rv_ID (filter (\<lambda>v. rv_StateID v = i) (db_relation_versions db))"

text \<open>\<open>ORDER BY created_at DESC, id DESC LIMIT 1\<close>.\<close>

definition GetLatestProjectState :: "string \<Rightarrow> ProjectState tx" where
  "GetLatestProjectState projectID = (\<lambda>db.
     case rev (order_rows ps_CreatedAt ps_ID (filter (\<lambda>s. ps_ProjectID s = projectID) (db_states db))) of
       [] \<Rightarrow> Inl (Sentinel pgx_ErrNoRows) | s # _ \<Rightarrow> Inr (s, db))"

subsection \<open>Objects and relations\<close>

text \<open>An \<open>integer\<close> column has 32 bits: Go's conversion wraps, the server's addition
  raises.\<close>

definition int32 :: "int \<Rightarrow> int" where
  "int32 n = (n + 2 ^ 31) mod 2 ^ 32 - 2 ^ 31"

definition CreateScientificObjectWithID :: "pg \<Rightarrow> string \<Rightarrow> string \<Rightarrow> string \<Rightarrow> string \<Rightarrow> ScientificObject tx" where
  "CreateScientificObjectWithID pg i projectID objectType createdBy = (\<lambda>db.
     let row = \<lparr>so_ID = i, so_ProjectID = projectID, so_ObjectType = objectType, so_CurrentVersionNo = 0,
                so_CreatedBy = createdBy, so_CreatedAt = pg_now pg\<rparr> in
     case violation
       [(i \<notin> set (map so_ID (db_objects db)), ''23505'', ''scientific_objects_pkey''),
        (projectID \<in> set (map pj_ID (db_projects db)), ''23503'', ''scientific_objects_project_id_fkey''),
        (createdBy \<in> set (db_users db), ''23503'', ''scientific_objects_created_by_fkey'')]
     of Some e \<Rightarrow> Inl e
      | None \<Rightarrow> Inr (row, db\<lparr>db_objects := db_objects db @ [row]\<rparr>))"

definition GetScientificObjectByID :: "string \<Rightarrow> ScientificObject tx" where
  "GetScientificObjectByID i = (\<lambda>db.
     case find (\<lambda>r. so_ID r = i) (db_objects db) of None \<Rightarrow> Inl (Sentinel pgx_ErrNoRows) | Some r \<Rightarrow> Inr (r, db))"

definition BumpScientificObjectVersionNo :: "string \<Rightarrow> int \<Rightarrow> int tx" where
  "BumpScientificObjectVersionNo i expected = (\<lambda>db.
     if \<not> list_ex (\<lambda>r. so_ID r = i \<and> so_CurrentVersionNo r = expected) (db_objects db) then Inl (Sentinel pgx_ErrNoRows)
     else if expected = 2 ^ 31 - 1 then Inl (PgError ''22003'' [])
     else Inr (expected + 1,
       db\<lparr>db_objects := map (\<lambda>r. if so_ID r = i \<and> so_CurrentVersionNo r = expected
            then r\<lparr>so_CurrentVersionNo := expected + 1\<rparr> else r) (db_objects db)\<rparr>))"

text \<open>The insert of a version row.  The row that is passed lacks its id, its time and the
  \<open>jsonb\<close> form of its payload.\<close>

definition CreateScientificObjectVersion :: "pg \<Rightarrow> version_row \<Rightarrow> version_row tx" where
  "CreateScientificObjectVersion pg arg = (\<lambda>db.
     case pg_jsonb pg (sv_Payload (vr_version arg)) of
       None \<Rightarrow> Inl (PgError ''22P02'' [])
     | Some stored \<Rightarrow>
         let v = (vr_version arg)\<lparr>sv_ID := pg_uuid pg (db_seq db), sv_Payload := stored, sv_CreatedAt := pg_now pg\<rparr>;
             row = arg\<lparr>vr_version := v\<rparr>;
             key_taken = (\<lambda>sel. sel arg \<noteq> None \<and>
               list_ex (\<lambda>r. sv_ObjectID (vr_version r) = sv_ObjectID v \<and> sel r = sel arg) (db_object_versions db)) in
         (case violation
           [(sv_VersionNo v > 0, ''23514'', ''scientific_object_versions_version_no_check''),
            (ValidLifecycleState (sv_LifecycleState v), ''23514'', ''scientific_object_versions_lifecycle_state_check''),
            (pg_record_check pg row = None, ''23514'', case pg_record_check pg row of None \<Rightarrow> [] | Some c \<Rightarrow> c),
            (sv_ID v \<notin> set (map (sv_ID \<circ> vr_version) (db_object_versions db)), ''23505'', ''scientific_object_versions_pkey''),
            (\<not> list_ex (\<lambda>r. sv_ObjectID (vr_version r) = sv_ObjectID v \<and> sv_VersionNo (vr_version r) = sv_VersionNo v)
                 (db_object_versions db), ''23505'', ''scientific_object_versions_object_id_version_no_key''),
            (\<not> key_taken vr_AbortRequestKey, ''23505'', ''scientific_object_versions_abort_request_key_idx''),
            (\<not> key_taken vr_ReopenRequestKey, ''23505'', ''scientific_object_versions_reopen_request_key_idx''),
            (sv_ObjectID v \<in> set (map so_ID (db_objects db)), ''23503'', ''scientific_object_versions_object_id_fkey''),
            (sv_StateID v \<in> set (map ps_ID (db_states db)), ''23503'', ''scientific_object_versions_state_id_fkey''),
            (references (sv_BranchID v) (map bn_ID (db_branches db)), ''23503'', ''scientific_object_versions_branch_id_fkey''),
            (sv_CreatedBy v \<in> set (db_users db), ''23503'', ''scientific_object_versions_created_by_fkey''),
            (references (map_option ab_DecidedBy (sv_Abort v)) (db_users db), ''23503'', ''scientific_object_versions_aborted_by_fkey''),
            (references (map_option ro_DecidedBy (sv_Reopen v)) (db_users db), ''23503'', ''scientific_object_versions_reopened_by_fkey'')]
          of Some e \<Rightarrow> Inl e
           | None \<Rightarrow> Inr (row, db\<lparr>db_object_versions := db_object_versions db @ [row], db_seq := Suc (db_seq db)\<rparr>)))"

definition CreateRelationWithID :: "pg \<Rightarrow> string \<Rightarrow> string \<Rightarrow> Relation tx" where
  "CreateRelationWithID pg i projectID = (\<lambda>db.
     let row = \<lparr>rn_ID = i, rn_ProjectID = projectID, rn_CurrentVersionNo = 0, rn_CreatedAt = pg_now pg\<rparr> in
     case violation
       [(i \<notin> set (map rn_ID (db_relations db)), ''23505'', ''relations_pkey''),
        (projectID \<in> set (map pj_ID (db_projects db)), ''23503'', ''relations_project_id_fkey'')]
     of Some e \<Rightarrow> Inl e
      | None \<Rightarrow> Inr (row, db\<lparr>db_relations := db_relations db @ [row]\<rparr>))"

definition GetRelationByID :: "string \<Rightarrow> Relation tx" where
  "GetRelationByID i = (\<lambda>db.
     case find (\<lambda>r. rn_ID r = i) (db_relations db) of None \<Rightarrow> Inl (Sentinel pgx_ErrNoRows) | Some r \<Rightarrow> Inr (r, db))"

definition BumpRelationVersionNo :: "string \<Rightarrow> int \<Rightarrow> int tx" where
  "BumpRelationVersionNo i expected = (\<lambda>db.
     if \<not> list_ex (\<lambda>r. rn_ID r = i \<and> rn_CurrentVersionNo r = expected) (db_relations db) then Inl (Sentinel pgx_ErrNoRows)
     else if expected = 2 ^ 31 - 1 then Inl (PgError ''22003'' [])
     else Inr (expected + 1,
       db\<lparr>db_relations := map (\<lambda>r. if rn_ID r = i \<and> rn_CurrentVersionNo r = expected
            then r\<lparr>rn_CurrentVersionNo := expected + 1\<rparr> else r) (db_relations db)\<rparr>))"

definition CreateRelationVersion :: "pg \<Rightarrow> RelationVersion \<Rightarrow> RelationVersion tx" where
  "CreateRelationVersion pg arg = (\<lambda>db.
     case pg_jsonb pg (rv_Payload arg) of
       None \<Rightarrow> Inl (PgError ''22P02'' [])
     | Some stored \<Rightarrow>
         let row = arg\<lparr>rv_ID := pg_uuid pg (db_seq db), rv_Payload := stored, rv_CreatedAt := pg_now pg\<rparr>;
             versions = map (sv_ID \<circ> vr_version) (db_object_versions db) in
         (case violation
           [(rv_VersionNo row > 0, ''23514'', ''relation_versions_version_no_check''),
            (rv_ID row \<notin> set (map rv_ID (db_relation_versions db)), ''23505'', ''relation_versions_pkey''),
            (\<not> list_ex (\<lambda>r. rv_RelationID r = rv_RelationID row \<and> rv_VersionNo r = rv_VersionNo row)
                 (db_relation_versions db), ''23505'', ''relation_versions_relation_id_version_no_key''),
            (rv_RelationID row \<in> set (map rn_ID (db_relations db)), ''23503'', ''relation_versions_relation_id_fkey''),
            (rv_StateID row \<in> set (map ps_ID (db_states db)), ''23503'', ''relation_versions_state_id_fkey''),
            (rv_SourceObjectVersionID row \<in> set versions, ''23503'', ''relation_versions_source_object_version_id_fkey''),
            (rv_TargetObjectVersionID row \<in> set versions, ''23503'', ''relation_versions_target_object_version_id_fkey''),
            (rv_CreatedBy row \<in> set (db_users db), ''23503'', ''relation_versions_created_by_fkey'')]
          of Some e \<Rightarrow> Inl e
           | None \<Rightarrow> Inr (row, db\<lparr>db_relation_versions := db_relation_versions db @ [row], db_seq := Suc (db_seq db)\<rparr>)))"

definition CanonicalizePayload :: "pg \<Rightarrow> raw \<Rightarrow> raw tx" where
  "CanonicalizePayload pg payload = (\<lambda>db.
     case pg_jsonb pg payload of None \<Rightarrow> Inl (PgError ''22P02'' []) | Some p \<Rightarrow> Inr (p, db))"

section \<open>Lemmas\<close>

named_theorems tx_simps \<open>execution of transactions\<close>

lemma tx_execute [tx_simps]:
  "tx_return x db = Inr (x, db)"
  "tx_raise e db = Inl e"
  by (simp_all add: tx_return_def tx_raise_def)

lemma tx_bind_Inr [tx_simps]:
  "tx_bind m f db = Inr r \<longleftrightarrow> (\<exists>x db'. m db = Inr (x, db') \<and> f x db' = Inr r)"
  by (auto simp: tx_bind_def split: sum.splits)

lemma tx_catch_Inr:
  "tx_catch m h db = Inr r \<longleftrightarrow> m db = Inr r \<or> (\<exists>e. m db = Inl e \<and> h e db = Inr r)"
  by (auto simp: tx_catch_def split: sum.splits)

lemma violation_simps [simp]:
  "violation [] = None"
  "violation ((b, code, con) # cs) = (if b then violation cs else Some (PgError code con))"
  by (simp_all add: violation_def)

lemma violation_guard:
  "((case violation cs of Some e \<Rightarrow> Inl e | None \<Rightarrow> Inr x) = Inr y) = (violation cs = None \<and> x = y)"
  by (cases "violation cs") auto

lemma violation_ok: "violation ((b, code, con) # cs) = None \<longleftrightarrow> b \<and> violation cs = None"
  by simp

text \<open>A transaction changes the database exactly when its body succeeds and the commit does.\<close>

lemma WithTx_Inr:
  "fst (WithTx pg fn db) = Inr x \<longleftrightarrow>
     pg_begin pg = None \<and> (\<exists>db'. fn db = Inr (x, db') \<and> pg_commit pg db' = None)"
  by (auto simp: WithTx_def split: option.splits sum.splits)

lemma WithTx_unchanged: "WithTx pg fn db = (Inl e, db') \<Longrightarrow> db' = db"
  by (auto simp: WithTx_def split: option.splits sum.splits)

lemma WithTx_result:
  "WithTx pg fn db = (Inr x, db') \<longleftrightarrow> pg_begin pg = None \<and> fn db = Inr (x, db') \<and> pg_commit pg db' = None"
  by (auto simp: WithTx_def split: option.splits sum.splits)

lemma int32_id: "- (2 ^ 31) \<le> n \<Longrightarrow> n < 2 ^ 31 \<Longrightarrow> int32 n = n"
  by (simp add: int32_def)

lemma int32_range: "- (2 ^ 31) \<le> int32 n" "int32 n < 2 ^ 31"
  by (simp_all add: int32_def)

lemma set_order_rows [simp]: "set (order_rows created rid rows) = set rows"
  by (simp add: order_rows_def)

section \<open>Counted logs\<close>

text \<open>The interface two logs share, that of objects and that of relations: a container's counter and
  its version numbers in the order of insertion.  A write leaves both as they are, opens a log
  with version 1, or appends the number after the counter.  The consequence is that a log is
  always the list of numbers from 1 to its counter, without gaps and repetitions.\<close>

definition numbers_of :: "(string \<times> int) list \<Rightarrow> string \<Rightarrow> int list" where
  "numbers_of log k = map snd (filter (\<lambda>e. fst e = k) log)"

definition numbered :: "(string \<Rightarrow> int option) \<Rightarrow> (string \<times> int) list \<Rightarrow> bool" where
  "numbered counter log \<longleftrightarrow>
     (\<forall>k. numbers_of log k = (case counter k of None \<Rightarrow> [] | Some n \<Rightarrow> [1..n]))
     \<and> (\<forall>k n. counter k = Some n \<longrightarrow> 1 \<le> n)"

lemma numbers_of_snoc [simp]:
  "numbers_of (log @ [(k, n)]) = (numbers_of log)(k := numbers_of log k @ [n])"
  by (auto simp: numbers_of_def)

lemma set_numbers_of: "n \<in> set (numbers_of log k) \<longleftrightarrow> (k, n) \<in> set log"
  by (auto simp: numbers_of_def image_iff)

locale counted_log =
  fixes good :: "'s \<Rightarrow> bool" and step :: "'s \<Rightarrow> 's \<Rightarrow> bool"
    and counter :: "'s \<Rightarrow> string \<Rightarrow> int option" and log :: "'s \<Rightarrow> (string \<times> int) list"
  assumes good_step: "good s \<Longrightarrow> step s t \<Longrightarrow> good t"
    and step_cases: "good s \<Longrightarrow> step s t \<Longrightarrow>
      (counter t = counter s \<and> log t = log s)
      \<or> (\<exists>k. counter s k = None \<and> counter t = (counter s)(k \<mapsto> 1) \<and> log t = log s @ [(k, 1)])
      \<or> (\<exists>k n. counter s k = Some n \<and> counter t = (counter s)(k \<mapsto> n + 1) \<and> log t = log s @ [(k, n + 1)])"
begin

lemma numbered_open:
  assumes "numbered c l" and "c k = None"
  shows "numbered (c(k \<mapsto> 1)) (l @ [(k, 1)])"
  using assms by (simp add: numbered_def)

lemma numbered_append:
  assumes "numbered c l" and "c k = Some n"
  shows "numbered (c(k \<mapsto> n + 1)) (l @ [(k, n + 1)])"
proof -
  have "1 \<le> n" using assms by (auto simp: numbered_def)
  then have "0 \<le> n" and "[1..n + 1] = [1..n] @ [n + 1]" by (simp_all add: upto_rec2)
  with assms show ?thesis by (auto simp: numbered_def)
qed

lemma numbered_step:
  assumes "good s" and "step s t" and "numbered (counter s) (log s)"
  shows "numbered (counter t) (log t)"
  using step_cases [OF assms(1,2)] assms(3) by (auto intro: numbered_open numbered_append)

lemma numbered_steps:
  assumes "step\<^sup>*\<^sup>* s t" and "good s" and "numbered (counter s) (log s)"
  shows "good t \<and> numbered (counter t) (log t)"
  using assms
proof (induction rule: rtranclp_induct)
  case base
  then show ?case by simp
next
  case (step t u)
  then show ?case using good_step numbered_step by blast
qed

text \<open>A log only grows.\<close>

lemma log_grows:
  assumes "step\<^sup>*\<^sup>* s t" and "good s"
  shows "good t \<and> prefix (log s) (log t)"
  using assms
proof (induction rule: rtranclp_induct)
  case base
  then show ?case by simp
next
  case (step t u)
  then have "good t" "prefix (log s) (log t)" by auto
  moreover have "prefix (log t) (log u)" using step_cases [OF \<open>good t\<close> \<open>step t u\<close>] by auto
  ultimately show ?case using good_step [OF _ \<open>step t u\<close>] prefix_order.trans by blast
qed

end

lemma numbered_no_gaps:
  assumes "numbered counter log"
  shows "(k, v) \<in> set log \<longleftrightarrow> (\<exists>n. counter k = Some n \<and> 1 \<le> v \<and> v \<le> n)"
  using assms unfolding set_numbers_of [symmetric] numbered_def by (cases "counter k") simp_all

lemma numbered_distinct:
  assumes "numbered counter log"
  shows "distinct (numbers_of log k)"
  using assms by (simp add: numbered_def split: option.splits)

end
