(* ===== verification/ObjectStore.thy ===== *)
theory ObjectStore
  imports Store
begin

text \<open>
  Scientific objects and their version logs: the PostgreSQL adapter
  (internal/persistence/scientific_object_store.go and, inside a state commit,
  scientific_object_tx.go) and the service (internal/application/sciobjects/service.go).  A log grows
  by a compare-and-swap on the container's version counter.
\<close>

section \<open>Version parameters\<close>

record VersionParams =
  vp_StateID :: string
  vp_BranchID :: "string option"
  vp_SchemaID :: string
  vp_SchemaVersion :: string
  vp_Title :: string
  vp_LifecycleState :: string
  vp_Payload :: raw
  vp_VisibilityPolicyID :: "string option"
  vp_CreatedBy :: string
  vp_Abort :: "AbortRecord option"
  vp_AbortRequestKey :: string
  vp_Reopen :: "ReopenRecord option"
  vp_ReopenRequestKey :: string

record CreateObjectParams =
  co_ProjectID :: string
  co_ObjectType :: string
  co_CreatedBy :: string
  co_Version :: VersionParams

record CreateObjectInTxParams =
  ct_ObjectID :: string
  ct_ObjProjectID :: string
  ct_ObjectType :: string
  ct_CreatedBy :: string
  ct_Version :: VersionParams

definition minAbortRequestKeyLen :: nat where "minAbortRequestKeyLen = 8"

text \<open>The abort and reopen columns: the record the row will carry and its request key.  An error
  is \<open>None\<close>: every caller turns it into its own \<open>ErrValidation\<close>.\<close>

definition abortInsertParams :: "pg \<Rightarrow> VersionParams \<Rightarrow> (AbortRecord option \<times> string option) option" where
  "abortInsertParams pg inp =
     (if vp_AbortRequestKey inp \<noteq> [] \<and> length (vp_AbortRequestKey inp) < minAbortRequestKeyLen then None
      else
        let key = (if vp_AbortRequestKey inp = [] then None else Some (vp_AbortRequestKey inp)) in
        case vp_Abort inp of
          None \<Rightarrow> if vp_LifecycleState inp = ''aborted'' \<and> key \<noteq> None then None else Some (None, key)
        | Some a \<Rightarrow>
            if vp_LifecycleState inp \<noteq> ''aborted'' then None
            else if TrimSpace (ab_ReasonCode a) = [] then None
            else if TrimSpace (ab_Explanation a) = [] then None
            else if ab_DecidedBy a = [] then None
            else if IsZero (ab_DecidedAt a) then None
            else (case textUUID pg (ab_DecidedBy a) of
                    None \<Rightarrow> None | Some u \<Rightarrow> Some (Some (a\<lparr>ab_DecidedBy := u\<rparr>), key)))"

definition reopenInsertParams :: "pg \<Rightarrow> VersionParams \<Rightarrow> (ReopenRecord option \<times> string option) option" where
  "reopenInsertParams pg inp =
     (if vp_ReopenRequestKey inp \<noteq> [] \<and> length (vp_ReopenRequestKey inp) < minAbortRequestKeyLen then None
      else
        let key = (if vp_ReopenRequestKey inp = [] then None else Some (vp_ReopenRequestKey inp)) in
        case vp_Reopen inp of
          None \<Rightarrow> if vp_LifecycleState inp = ''reopened'' \<and> key \<noteq> None then None else Some (None, key)
        | Some a \<Rightarrow>
            if vp_LifecycleState inp \<noteq> ''reopened'' then None
            else if TrimSpace (ro_ReasonCode a) = [] then None
            else if TrimSpace (ro_Explanation a) = [] then None
            else if ro_DecidedBy a = [] then None
            else if IsZero (ro_DecidedAt a) then None
            else (case textUUID pg (ro_DecidedBy a) of
                    None \<Rightarrow> None | Some u \<Rightarrow> Some (Some (a\<lparr>ro_DecidedBy := u\<rparr>), key)))"

text \<open>A nullable reference column: nil stays NULL, a text must be a uuid.\<close>

definition ptr_uuid :: "pg \<Rightarrow> string option \<Rightarrow> string option option" where
  "ptr_uuid pg s = (case s of None \<Rightarrow> Some None | Some t \<Rightarrow> map_option Some (textUUID pg t))"

text \<open>The row an INSERT is called with; its id, its time and its hash are filled in later.\<close>

definition versionInsertParams :: "pg \<Rightarrow> string \<Rightarrow> int \<Rightarrow> VersionParams \<Rightarrow> version_row option" where
  "versionInsertParams pg objectID versionNo inp =
     Option.bind (if objectID = [] then Some [] else textUUID pg objectID) (\<lambda>obj.
     Option.bind (textUUID pg (vp_StateID inp)) (\<lambda>state.
     Option.bind (ptr_uuid pg (vp_BranchID inp)) (\<lambda>branch.
     Option.bind (ptr_uuid pg (vp_VisibilityPolicyID inp)) (\<lambda>pol.
     Option.bind (textUUID pg (vp_CreatedBy inp)) (\<lambda>creator.
     Option.bind (abortInsertParams pg inp) (\<lambda>(ab, abKey).
     Option.bind (reopenInsertParams pg inp) (\<lambda>(ro, roKey).
       Some \<lparr>vr_version =
           \<lparr>sv_ID = [], sv_ObjectID = obj, sv_VersionNo = int32 versionNo, sv_StateID = state, sv_BranchID = branch,
            sv_SchemaID = vp_SchemaID inp, sv_SchemaVersion = vp_SchemaVersion inp, sv_Title = vp_Title inp,
            sv_LifecycleState = vp_LifecycleState inp, sv_Payload = vp_Payload inp, sv_VisibilityPolicyID = pol,
            sv_IntegrityHash = [], sv_CreatedBy = creator, sv_CreatedAt = \<lparr>instant = 0, zone = 0\<rparr>,
            sv_Abort = ab, sv_Reopen = ro\<rparr>,
         vr_AbortRequestKey = abKey, vr_ReopenRequestKey = roKey\<rparr>)))))))"

abbreviation on_version :: "(ScientificObjectVersion \<Rightarrow> ScientificObjectVersion) \<Rightarrow> version_row \<Rightarrow> version_row" where
  "on_version f row \<equiv> row\<lparr>vr_version := f (vr_version row)\<rparr>"

definition canonicalizeAndHash :: "pg \<Rightarrow> version_row \<Rightarrow> version_row tx" where
  "canonicalizeAndHash pg arg =
     tx_bind (CanonicalizePayload pg (sv_Payload (vr_version arg))) (\<lambda>canonical.
       tx_return (on_version (\<lambda>v. v\<lparr>sv_Payload := canonical, sv_IntegrityHash := pg_sha pg canonical\<rparr>) arg))"

section \<open>Writes inside a state commit\<close>

definition mapObjectTxWriteError :: "go_error \<Rightarrow> go_error" where
  "mapObjectTxWriteError e =
     (case as_PgError e of
        Some (code, _) \<Rightarrow> if code = ''22P02'' \<or> code = ''23503'' \<or> code = ''23502'' then Sentinel sciobjects_ErrValidation else e
      | None \<Rightarrow> e)"

definition mapping_errors :: "(go_error \<Rightarrow> go_error) \<Rightarrow> 'a tx \<Rightarrow> 'a tx" where
  "mapping_errors f m = tx_catch m (\<lambda>e. tx_raise (f e))"

text \<open>The statements that create a container with its first version: container row, canonical
  payload, version row, and the counter's step from 0 to 1.\<close>

definition create_object_statements :: "pg \<Rightarrow> ScientificObject tx \<Rightarrow> version_row \<Rightarrow> (ScientificObject \<times> ScientificObjectVersion) tx" where
  "create_object_statements pg createRow arg =
     tx_bind createRow (\<lambda>row.
     tx_bind (canonicalizeAndHash pg (on_version (\<lambda>v. v\<lparr>sv_ObjectID := so_ID row\<rparr>) arg)) (\<lambda>ins.
     tx_bind (CreateScientificObjectVersion pg ins) (\<lambda>vRow.
     tx_bind (BumpScientificObjectVersionNo (so_ID row) 0) (\<lambda>bumped.
       if bumped \<noteq> 1 then tx_raise (ErrorText ''CAS returned'')
       else tx_return (row\<lparr>so_CurrentVersionNo := 1\<rparr>, vr_version vRow)))))"

definition CreateObjectInTx :: "pg \<Rightarrow> CreateObjectInTxParams \<Rightarrow> (ScientificObject \<times> ScientificObjectVersion) tx" where
  "CreateObjectInTx pg inp =
     (case (textUUID pg (ct_ObjectID inp), textUUID pg (ct_ObjProjectID inp), versionInsertParams pg (ct_ObjectID inp) 1 (ct_Version inp)) of
        (Some objectUUID, Some projectUUID, Some arg) \<Rightarrow>
          mapping_errors mapObjectTxWriteError
            (create_object_statements pg
               (CreateScientificObjectWithID pg objectUUID projectUUID (ct_ObjectType inp) (sv_CreatedBy (vr_version arg)))
               arg)
      | _ \<Rightarrow> tx_raise (Sentinel sciobjects_ErrValidation))"

text \<open>The compare-and-swap that claims the next version number; a lost one is told apart by one
  read.\<close>

definition bump_object :: "(go_error \<Rightarrow> go_error) \<Rightarrow> string \<Rightarrow> string \<Rightarrow> int \<Rightarrow> int tx" where
  "bump_object wrap objectID objectUUID expected =
     tx_catch (BumpScientificObjectVersionNo objectUUID (int32 expected)) (\<lambda>e.
       if \<not> errors_Is e pgx_ErrNoRows then tx_raise (wrap e)
       else tx_bind
         (tx_catch (GetScientificObjectByID objectUUID) (\<lambda>g.
            tx_raise (if errors_Is g pgx_ErrNoRows then Sentinel sciobjects_ErrObjectNotFound else wrap g)))
         (\<lambda>obj. tx_raise (ObjectVersionConflictError objectID expected (so_CurrentVersionNo obj))))"

definition CreateVersionInTx :: "pg \<Rightarrow> string \<Rightarrow> int \<Rightarrow> VersionParams \<Rightarrow> ScientificObjectVersion tx" where
  "CreateVersionInTx pg objectID expected inp =
     (case textUUID pg objectID of
        None \<Rightarrow> tx_raise (Sentinel sciobjects_ErrObjectNotFound)
      | Some objectUUID \<Rightarrow>
          (case versionInsertParams pg objectID 0 inp of
             None \<Rightarrow> tx_raise (Sentinel sciobjects_ErrValidation)
           | Some arg \<Rightarrow>
               tx_bind (bump_object mapObjectTxWriteError objectID objectUUID expected) (\<lambda>bumped.
               tx_bind (mapping_errors mapObjectTxWriteError
                          (canonicalizeAndHash pg (on_version (\<lambda>v. v\<lparr>sv_VersionNo := bumped\<rparr>) arg))) (\<lambda>ins.
               tx_bind (mapping_errors (\<lambda>e. case as_PgError e of
                            Some (code, _) \<Rightarrow>
                              if code = ''23505'' then ObjectVersionConflictError objectID expected (expected + 1)
                              else mapObjectTxWriteError e
                          | None \<Rightarrow> mapObjectTxWriteError e)
                          (CreateScientificObjectVersion pg ins)) (\<lambda>vRow.
                 tx_return (vr_version vRow))))))"

section \<open>Writes on the pool\<close>

definition CreateScientificObject :: "pg \<Rightarrow> string \<Rightarrow> string \<Rightarrow> string \<Rightarrow> ScientificObject tx" where
  "CreateScientificObject pg projectID objectType createdBy = (\<lambda>db.
     CreateScientificObjectWithID pg (pg_uuid pg (db_seq db)) projectID objectType createdBy
       (db\<lparr>db_seq := Suc (db_seq db)\<rparr>))"

definition objectstore_CreateObject ::
  "pg \<Rightarrow> CreateObjectParams \<Rightarrow> database \<Rightarrow> (go_error + ScientificObject \<times> ScientificObjectVersion) \<times> database" where
  "objectstore_CreateObject pg inp db =
     (case (versionInsertParams pg [] 1 (co_Version inp), textUUID pg (co_ProjectID inp)) of
        (Some arg, Some projectID) \<Rightarrow>
          (case WithTx pg (create_object_statements pg
                  (CreateScientificObject pg projectID (co_ObjectType inp) (sv_CreatedBy (vr_version arg))) arg) db of
             (Inr r, db') \<Rightarrow> (Inr r, db')
           | (Inl e, db') \<Rightarrow>
               (Inl (case as_PgError e of
                       Some (code, _) \<Rightarrow> if code = ''22P02'' \<or> code = ''23503'' then Sentinel sciobjects_ErrValidation else Errorf e
                     | None \<Rightarrow> Errorf e), db'))
      | _ \<Rightarrow> (Inl (Sentinel sciobjects_ErrValidation), db))"

definition create_version_statements :: "pg \<Rightarrow> string \<Rightarrow> string \<Rightarrow> int \<Rightarrow> version_row \<Rightarrow> ScientificObjectVersion tx" where
  "create_version_statements pg objectID objectUUID expected arg =
     tx_bind (bump_object (\<lambda>e. e) objectID objectUUID expected) (\<lambda>bumped.
     tx_bind (canonicalizeAndHash pg (on_version (\<lambda>v. v\<lparr>sv_VersionNo := bumped\<rparr>) arg)) (\<lambda>ins.
     tx_bind (CreateScientificObjectVersion pg ins) (\<lambda>vRow. tx_return (vr_version vRow))))"

definition currentLogHead :: "pg \<Rightarrow> string \<Rightarrow> database \<Rightarrow> go_error + int" where
  "currentLogHead pg objectID db =
     (case pg_read pg of
        Some e \<Rightarrow> Inl e
      | None \<Rightarrow> Inr (fold max (map (sv_VersionNo \<circ> vr_version)
          (filter (\<lambda>r. sv_ObjectID (vr_version r) = objectID) (db_object_versions db))) 0))"

text \<open>\<open>dupErr\<close> is set inside the transaction's body, so it is seen even when the rollback
  fails.\<close>

definition dup_error :: "pg \<Rightarrow> 'a tx \<Rightarrow> database \<Rightarrow> bool" where
  "dup_error pg body db \<longleftrightarrow> pg_begin pg = None \<and>
     (case body db of
        Inl e \<Rightarrow> (case as_PgError e of Some (code, _) \<Rightarrow> code = ''23505'' | None \<Rightarrow> False)
      | Inr _ \<Rightarrow> False)"

definition objectstore_CreateVersion ::
  "pg \<Rightarrow> string \<Rightarrow> int \<Rightarrow> VersionParams \<Rightarrow> database \<Rightarrow> (go_error + ScientificObjectVersion) \<times> database" where
  "objectstore_CreateVersion pg objectID expected inp db =
     (case textUUID pg objectID of
        None \<Rightarrow> (Inl (Sentinel sciobjects_ErrObjectNotFound), db)
      | Some objectUUID \<Rightarrow>
          (case versionInsertParams pg objectID 0 inp of
             None \<Rightarrow> (Inl (Sentinel sciobjects_ErrValidation), db)
           | Some arg \<Rightarrow>
               let body = create_version_statements pg objectID objectUUID expected arg in
               (case WithTx pg body db of
                  (Inr v, db') \<Rightarrow> (Inr v, db')
                | (Inl e, db') \<Rightarrow>
                    (Inl (if dup_error pg body db then
                            ObjectVersionConflictError objectID expected
                              (case currentLogHead pg objectUUID db' of Inl _ \<Rightarrow> expected + 1 | Inr actual \<Rightarrow> actual)
                          else case as_PgError e of
                            Some (code, _) \<Rightarrow>
                              if code = ''22P02'' \<or> code = ''23503'' \<or> code = ''23502'' then Sentinel sciobjects_ErrValidation
                              else Errorf e
                          | None \<Rightarrow> Errorf e), db'))))"

section \<open>Reads\<close>

definition GetScientificObjectVersionByNo :: "string \<Rightarrow> int \<Rightarrow> version_row tx" where
  "GetScientificObjectVersionByNo objectID n = (\<lambda>db.
     case find (\<lambda>r. sv_ObjectID (vr_version r) = objectID \<and> sv_VersionNo (vr_version r) = n) (db_object_versions db) of
       None \<Rightarrow> Inl (Sentinel pgx_ErrNoRows) | Some r \<Rightarrow> Inr (r, db))"

definition GetScientificObjectVersionByID :: "string \<Rightarrow> version_row tx" where
  "GetScientificObjectVersionByID i = (\<lambda>db.
     case find (\<lambda>r. sv_ID (vr_version r) = i) (db_object_versions db) of
       None \<Rightarrow> Inl (Sentinel pgx_ErrNoRows) | Some r \<Rightarrow> Inr (r, db))"

definition ListScientificObjectVersions :: "string \<Rightarrow> database \<Rightarrow> ScientificObjectVersion list" where
  "ListScientificObjectVersions i db =
     sort_key sv_VersionNo (filter (\<lambda>v. sv_ObjectID v = i) (map vr_version (db_object_versions db)))"

definition GetLatestScientificObjectVersion :: "string \<Rightarrow> ScientificObjectVersion tx" where
  "GetLatestScientificObjectVersion i = (\<lambda>db.
     case rev (ListScientificObjectVersions i db) of [] \<Rightarrow> Inl (Sentinel pgx_ErrNoRows) | v # _ \<Rightarrow> Inr (v, db))"

definition not_found_as :: "sentinel \<Rightarrow> go_error \<Rightarrow> go_error" where
  "not_found_as s e = (if errors_Is e pgx_ErrNoRows \<or> isInvalidText e then Sentinel s else Errorf e)"

definition objectstore_GetObject :: "pg \<Rightarrow> string \<Rightarrow> database \<Rightarrow> go_error + ScientificObject" where
  "objectstore_GetObject pg objectID db =
     (case textUUID pg objectID of
        None \<Rightarrow> Inl (Sentinel sciobjects_ErrObjectNotFound)
      | Some i \<Rightarrow> map_sum (not_found_as sciobjects_ErrObjectNotFound) (\<lambda>r. r) (pool_query pg (GetScientificObjectByID i) db))"

definition objectstore_GetVersion :: "pg \<Rightarrow> string \<Rightarrow> int \<Rightarrow> database \<Rightarrow> go_error + ScientificObjectVersion" where
  "objectstore_GetVersion pg objectID versionNo db =
     (if versionNo < 1 \<or> versionNo > 2 ^ 31 - 1 then Inl (Sentinel sciobjects_ErrVersionNotFound)
      else case textUUID pg objectID of
        None \<Rightarrow> Inl (Sentinel sciobjects_ErrVersionNotFound)
      | Some i \<Rightarrow> map_sum (not_found_as sciobjects_ErrVersionNotFound) vr_version
                    (pool_query pg (GetScientificObjectVersionByNo i (int32 versionNo)) db))"

definition objectstore_GetVersionByID :: "pg \<Rightarrow> string \<Rightarrow> database \<Rightarrow> go_error + ScientificObjectVersion" where
  "objectstore_GetVersionByID pg versionID db =
     (case textUUID pg versionID of
        None \<Rightarrow> Inl (Sentinel sciobjects_ErrVersionNotFound)
      | Some i \<Rightarrow> map_sum (not_found_as sciobjects_ErrVersionNotFound) vr_version
                    (pool_query pg (GetScientificObjectVersionByID i) db))"

definition objectstore_GetLatestVersion :: "pg \<Rightarrow> string \<Rightarrow> database \<Rightarrow> go_error + ScientificObjectVersion" where
  "objectstore_GetLatestVersion pg objectID db =
     (case textUUID pg objectID of
        None \<Rightarrow> Inl (Sentinel sciobjects_ErrVersionNotFound)
      | Some i \<Rightarrow> map_sum (not_found_as sciobjects_ErrVersionNotFound) (\<lambda>r. r)
                    (pool_query pg (GetLatestScientificObjectVersion i) db))"

definition objectstore_ListVersions :: "pg \<Rightarrow> string \<Rightarrow> database \<Rightarrow> go_error + ScientificObjectVersion list" where
  "objectstore_ListVersions pg objectID db =
     (case textUUID pg objectID of
        None \<Rightarrow> Inr []
      | Some i \<Rightarrow> map_sum Errorf (\<lambda>r. r) (pool_list pg (ListScientificObjectVersions i) db))"

section \<open>The service\<close>

text \<open>The shape of a version's content; \<open>renum\<close> is the conversion of a number's text to
  \<open>float64\<close> and back.  A refusal is \<open>ErrValidation\<close> with its own message.\<close>

definition decodes_to_object :: "(string \<Rightarrow> string option) \<Rightarrow> raw \<Rightarrow> bool" where
  "decodes_to_object renum r =
     (case unmarshal_doc r of Some (JObj kvs) \<Rightarrow> float_ok renum (JObj kvs) | _ \<Rightarrow> False)"

definition validateVersionParams :: "(string \<Rightarrow> string option) \<Rightarrow> VersionParams \<Rightarrow> bool" where
  "validateVersionParams renum inp \<longleftrightarrow>
     vp_StateID inp \<noteq> []
     \<and> \<not> (vp_SchemaID inp = [] \<or> vp_SchemaVersion inp = [])
     \<and> vp_Title inp \<noteq> []
     \<and> ValidLifecycleState (vp_LifecycleState inp)
     \<and> vp_CreatedBy inp \<noteq> []
     \<and> vp_Payload inp \<noteq> []
     \<and> decodes_to_object renum (vp_Payload inp)"

definition validateCreateObject :: "(string \<Rightarrow> string option) \<Rightarrow> CreateObjectParams \<Rightarrow> bool" where
  "validateCreateObject renum inp \<longleftrightarrow>
     co_ProjectID inp \<noteq> [] \<and> co_ObjectType inp \<noteq> [] \<and> co_CreatedBy inp \<noteq> []
     \<and> validateVersionParams renum (co_Version inp)"

definition as_ObjectVersionConflictError :: "go_error \<Rightarrow> bool" where
  "as_ObjectVersionConflictError e \<longleftrightarrow>
     list_ex (\<lambda>x. case x of ObjectVersionConflictError _ _ _ \<Rightarrow> True | _ \<Rightarrow> False) (error_chain e)"

definition sciobjects_wrapStoreError :: "go_error \<Rightarrow> go_error" where
  "sciobjects_wrapStoreError e =
     (if errors_Is e sciobjects_ErrObjectNotFound \<or> errors_Is e sciobjects_ErrVersionNotFound
         \<or> as_ObjectVersionConflictError e
      then e else Errorf (Sentinel sciobjects_ErrStore))"

definition sciobjects_CreateObject ::
  "pg \<Rightarrow> (string \<Rightarrow> string option) \<Rightarrow> CreateObjectParams \<Rightarrow> database \<Rightarrow>
   (go_error + ScientificObject \<times> ScientificObjectVersion) \<times> database" where
  "sciobjects_CreateObject pg renum inp db =
     (if \<not> validateCreateObject renum inp then (Inl (Errorf (Sentinel sciobjects_ErrValidation)), db)
      else map_prod (map_sum sciobjects_wrapStoreError (\<lambda>r. r)) (\<lambda>d. d) (objectstore_CreateObject pg inp db))"

definition sciobjects_CreateVersion ::
  "pg \<Rightarrow> (string \<Rightarrow> string option) \<Rightarrow> string \<Rightarrow> int \<Rightarrow> VersionParams \<Rightarrow> database \<Rightarrow>
   (go_error + ScientificObjectVersion) \<times> database" where
  "sciobjects_CreateVersion pg renum objectID expected inp db =
     (if \<not> validateVersionParams renum inp then (Inl (Errorf (Sentinel sciobjects_ErrValidation)), db)
      else if expected < 1 then (Inl (Errorf (Sentinel sciobjects_ErrValidation)), db)
      else map_prod (map_sum sciobjects_wrapStoreError (\<lambda>r. r)) (\<lambda>d. d) (objectstore_CreateVersion pg objectID expected inp db))"

definition sciobjects_GetObject :: "pg \<Rightarrow> string \<Rightarrow> database \<Rightarrow> go_error + ScientificObject" where
  "sciobjects_GetObject pg objectID db = map_sum sciobjects_wrapStoreError (\<lambda>r. r) (objectstore_GetObject pg objectID db)"

definition sciobjects_GetVersion :: "pg \<Rightarrow> string \<Rightarrow> int \<Rightarrow> database \<Rightarrow> go_error + ScientificObjectVersion" where
  "sciobjects_GetVersion pg objectID n db = map_sum sciobjects_wrapStoreError (\<lambda>r. r) (objectstore_GetVersion pg objectID n db)"

definition sciobjects_GetLatestVersion :: "pg \<Rightarrow> string \<Rightarrow> database \<Rightarrow> go_error + ScientificObjectVersion" where
  "sciobjects_GetLatestVersion pg objectID db = map_sum sciobjects_wrapStoreError (\<lambda>r. r) (objectstore_GetLatestVersion pg objectID db)"

definition sciobjects_ListVersions :: "pg \<Rightarrow> string \<Rightarrow> database \<Rightarrow> go_error + ScientificObjectVersion list" where
  "sciobjects_ListVersions pg objectID db = map_sum sciobjects_wrapStoreError (\<lambda>r. r) (objectstore_ListVersions pg objectID db)"

section \<open>Effects of the writes\<close>

lemma mapping_errors_Inr [tx_simps]: "mapping_errors f m db = Inr r \<longleftrightarrow> m db = Inr r"
  by (auto simp: mapping_errors_def tx_catch_Inr tx_raise_def)

text \<open>What a stored version row is in terms of the row the insert was called with.\<close>

definition stored_as :: "pg \<Rightarrow> version_row \<Rightarrow> version_row \<Rightarrow> bool" where
  "stored_as pg arg row \<longleftrightarrow>
     (\<exists>canonical stored i. pg_jsonb pg (sv_Payload (vr_version arg)) = Some canonical \<and> pg_jsonb pg canonical = Some stored
        \<and> row = on_version (\<lambda>v. v\<lparr>sv_ID := i, sv_Payload := stored,
              sv_IntegrityHash := pg_sha pg canonical, sv_CreatedAt := pg_now pg\<rparr>) arg)"

lemma canonicalizeAndHash_Inr:
  "canonicalizeAndHash pg arg db = Inr (ins, db') \<longleftrightarrow> db' = db \<and>
     (\<exists>canonical. pg_jsonb pg (sv_Payload (vr_version arg)) = Some canonical
        \<and> ins = on_version (\<lambda>v. v\<lparr>sv_Payload := canonical, sv_IntegrityHash := pg_sha pg canonical\<rparr>) arg)"
  by (auto simp: canonicalizeAndHash_def CanonicalizePayload_def tx_simps split: option.splits)

lemma CreateScientificObjectVersion_effect:
  assumes "CreateScientificObjectVersion pg arg db = Inr (row, db')"
  shows "sv_ID (vr_version row) \<notin> sv_ID ` vr_version ` set (db_object_versions db)"
    and "db' = db\<lparr>db_object_versions := db_object_versions db @ [row], db_seq := Suc (db_seq db)\<rparr>"
    and "\<exists>stored i. pg_jsonb pg (sv_Payload (vr_version arg)) = Some stored
      \<and> row = on_version (\<lambda>v. v\<lparr>sv_ID := i, sv_Payload := stored, sv_CreatedAt := pg_now pg\<rparr>) arg"
    and "sv_StateID (vr_version arg) \<in> ps_ID ` set (db_states db)"
proof -
  from assms obtain x where x: "pg_jsonb pg (sv_Payload (vr_version arg)) = Some x"
    by (auto simp: CreateScientificObjectVersion_def split: option.splits)
  note * = assms [unfolded CreateScientificObjectVersion_def Let_def x option.case violation_guard violation_ok]
  from * show "sv_ID (vr_version row) \<notin> sv_ID ` vr_version ` set (db_object_versions db)"
    "db' = db\<lparr>db_object_versions := db_object_versions db @ [row], db_seq := Suc (db_seq db)\<rparr>"
    "sv_StateID (vr_version arg) \<in> ps_ID ` set (db_states db)"
    by (auto simp: image_image)
  from * show "\<exists>stored i. pg_jsonb pg (sv_Payload (vr_version arg)) = Some stored
      \<and> row = on_version (\<lambda>v. v\<lparr>sv_ID := i, sv_Payload := stored, sv_CreatedAt := pg_now pg\<rparr>) arg"
    unfolding x by (intro exI [of _ x] exI [of _ "pg_uuid pg (db_seq db)"]) simp
qed

lemma stored_asI:
  assumes "canonicalizeAndHash pg arg db = Inr (ins, db')"
    and "\<exists>stored i. pg_jsonb pg (sv_Payload (vr_version ins)) = Some stored
      \<and> row = on_version (\<lambda>v. v\<lparr>sv_ID := i, sv_Payload := stored, sv_CreatedAt := pg_now pg\<rparr>) ins"
  shows "stored_as pg arg row"
proof -
  from assms(1) obtain canonical where c: "pg_jsonb pg (sv_Payload (vr_version arg)) = Some canonical"
    and ins: "ins = on_version (\<lambda>v. v\<lparr>sv_Payload := canonical, sv_IntegrityHash := pg_sha pg canonical\<rparr>) arg"
    by (auto simp: canonicalizeAndHash_Inr)
  from assms(2) obtain stored i where s: "pg_jsonb pg (sv_Payload (vr_version ins)) = Some stored"
    and row: "row = on_version (\<lambda>v. v\<lparr>sv_ID := i, sv_Payload := stored, sv_CreatedAt := pg_now pg\<rparr>) ins"
    by blast
  have "pg_jsonb pg canonical = Some stored" using s by (simp add: ins)
  then show ?thesis
    unfolding stored_as_def using c by (intro exI [of _ canonical] exI [of _ stored] exI [of _ i]) (simp add: row ins)
qed

text \<open>The effect of opening a log, for either way of choosing the container's id.\<close>

lemma create_object_effect:
  assumes "create_object_statements pg (CreateScientificObjectWithID pg i p t c) arg db = Inr ((obj, v), db')"
  obtains row where "i \<notin> so_ID ` set (db_objects db)" and "so_ID obj = i" and "so_CurrentVersionNo obj = 1"
    and "db' = db\<lparr>db_objects := db_objects db @ [obj], db_object_versions := db_object_versions db @ [row],
      db_seq := Suc (db_seq db)\<rparr>"
    and "vr_version row = v" and "stored_as pg (on_version (\<lambda>v. v\<lparr>sv_ObjectID := i\<rparr>) arg) row"
    and "sv_ID v \<notin> sv_ID ` vr_version ` set (db_object_versions db)"
    and "sv_StateID (vr_version arg) \<in> ps_ID ` set (db_states db)"
proof -
  from assms obtain o1 db1 ins vRow db2 n where
    o: "CreateScientificObjectWithID pg i p t c db = Inr (o1, db1)"
    and h: "canonicalizeAndHash pg (on_version (\<lambda>v. v\<lparr>sv_ObjectID := so_ID o1\<rparr>) arg) db1 = Inr (ins, db1)"
    and r: "CreateScientificObjectVersion pg ins db1 = Inr (vRow, db2)"
    and b: "BumpScientificObjectVersionNo (so_ID o1) 0 db2 = Inr (n, db')"
    and obj: "obj = o1\<lparr>so_CurrentVersionNo := 1\<rparr>" and v: "v = vr_version vRow"
    by (auto simp: create_object_statements_def tx_simps canonicalizeAndHash_Inr split: if_splits)
  from o have i: "i \<notin> so_ID ` set (db_objects db)" and o1: "so_ID o1 = i" "so_CurrentVersionNo o1 = 0"
    and db1: "db1 = db\<lparr>db_objects := db_objects db @ [o1]\<rparr>"
    by (auto simp: CreateScientificObjectWithID_def Let_def split: option.splits if_splits)
  note R = CreateScientificObjectVersion_effect [OF r]
  have keep: "map (\<lambda>r. if so_ID r = i \<and> so_CurrentVersionNo r = 0 then r\<lparr>so_CurrentVersionNo := 0 + 1\<rparr> else r)
      (db_objects db) = db_objects db"
    using i by (intro map_idI) (auto simp: image_iff)
  have D: "db' = db\<lparr>db_objects := db_objects db @ [obj], db_object_versions := db_object_versions db @ [vRow],
      db_seq := Suc (db_seq db)\<rparr>"
    using b R(2) o1 keep by (auto simp: BumpScientificObjectVersionNo_def obj db1 split: if_splits)
  have S: "stored_as pg (on_version (\<lambda>v. v\<lparr>sv_ObjectID := i\<rparr>) arg) vRow"
    using stored_asI [OF h R(3)] by (simp only: o1)
  have T: "sv_StateID (vr_version arg) \<in> ps_ID ` set (db_states db)"
    using R(4) h by (auto simp: canonicalizeAndHash_Inr db1)
  have N: "sv_ID v \<notin> sv_ID ` vr_version ` set (db_object_versions db)" using R(1) by (simp add: v db1)
  have O: "so_ID obj = i" "so_CurrentVersionNo obj = 1" using o1 by (simp_all add: obj)
  show ?thesis by (rule that [OF i O D v [symmetric] S N T])
qed

lemma bump_object_Inr:
  assumes "bump_object wrap objectID i expected db = Inr (n, db')"
  shows "n = int32 expected + 1"
    and "list_ex (\<lambda>r. so_ID r = i \<and> so_CurrentVersionNo r = int32 expected) (db_objects db)"
    and "db' = db\<lparr>db_objects := map (\<lambda>r. if so_ID r = i \<and> so_CurrentVersionNo r = int32 expected
            then r\<lparr>so_CurrentVersionNo := int32 expected + 1\<rparr> else r) (db_objects db)\<rparr>"
proof -
  have "BumpScientificObjectVersionNo i (int32 expected) db = Inr (n, db')"
    using assms by (auto simp: bump_object_def tx_catch_Inr tx_simps split: if_splits)
  then show "n = int32 expected + 1"
    and "list_ex (\<lambda>r. so_ID r = i \<and> so_CurrentVersionNo r = int32 expected) (db_objects db)"
    and "db' = db\<lparr>db_objects := map (\<lambda>r. if so_ID r = i \<and> so_CurrentVersionNo r = int32 expected
            then r\<lparr>so_CurrentVersionNo := int32 expected + 1\<rparr> else r) (db_objects db)\<rparr>"
    by (auto simp: BumpScientificObjectVersionNo_def split: if_splits)
qed

text \<open>The effect of appending a version.\<close>

lemma append_version_effect:
  assumes b: "bump_object wrap objectID i expected db = Inr (n, db1)"
    and h: "canonicalizeAndHash pg (on_version (\<lambda>v. v\<lparr>sv_VersionNo := n\<rparr>) arg) db1 = Inr (ins, db2)"
    and r: "CreateScientificObjectVersion pg ins db2 = Inr (row, db')"
  shows "list_ex (\<lambda>r. so_ID r = i \<and> so_CurrentVersionNo r = int32 expected) (db_objects db)"
    and "db' = db\<lparr>db_objects := map (\<lambda>r. if so_ID r = i \<and> so_CurrentVersionNo r = int32 expected
            then r\<lparr>so_CurrentVersionNo := int32 expected + 1\<rparr> else r) (db_objects db),
      db_object_versions := db_object_versions db @ [row], db_seq := Suc (db_seq db)\<rparr>"
    and "stored_as pg (on_version (\<lambda>v. v\<lparr>sv_VersionNo := int32 expected + 1\<rparr>) arg) row"
    and "sv_ID (vr_version row) \<notin> sv_ID ` vr_version ` set (db_object_versions db)"
    and "sv_StateID (vr_version arg) \<in> ps_ID ` set (db_states db)"
proof -
  note B = bump_object_Inr [OF b] and R = CreateScientificObjectVersion_effect [OF r]
  have db2: "db2 = db1" using h by (simp add: canonicalizeAndHash_Inr)
  show "list_ex (\<lambda>r. so_ID r = i \<and> so_CurrentVersionNo r = int32 expected) (db_objects db)" by (rule B(2))
  show "db' = db\<lparr>db_objects := map (\<lambda>r. if so_ID r = i \<and> so_CurrentVersionNo r = int32 expected
            then r\<lparr>so_CurrentVersionNo := int32 expected + 1\<rparr> else r) (db_objects db),
      db_object_versions := db_object_versions db @ [row], db_seq := Suc (db_seq db)\<rparr>"
    using R(2) B(3) by (simp add: db2)
  show "stored_as pg (on_version (\<lambda>v. v\<lparr>sv_VersionNo := int32 expected + 1\<rparr>) arg) row"
    using stored_asI [OF h R(3)] by (simp only: B(1))
  show "sv_ID (vr_version row) \<notin> sv_ID ` vr_version ` set (db_object_versions db)" using R(1) B(3) by (simp add: db2)
  show "sv_StateID (vr_version arg) \<in> ps_ID ` set (db_states db)"
    using R(4) h B(3) by (auto simp: canonicalizeAndHash_Inr)
qed

end
