(* ===== verification/RelationStore.thy ===== *)
theory RelationStore
  imports ObjectStore RelationCatalog
begin

text \<open>
  Relations and their version logs: the PostgreSQL adapter (internal/persistence/relation_store.go
  and, inside a state commit, relation_tx.go) and the service
  (internal/application/relations/service.go).
\<close>

section \<open>Version parameters\<close>

record RelationVersionParams =
  rp_StateID :: string
  rp_RelationType :: string
  rp_SourceObjectVersionID :: string
  rp_TargetObjectVersionID :: string
  rp_Payload :: raw
  rp_CreatedBy :: string

record CreateRelationParams =
  cr_ProjectID :: string
  cr_Version :: RelationVersionParams

record CreateRelationInTxParams =
  ci_RelationID :: string
  ci_ProjectID :: string
  ci_Version :: RelationVersionParams

definition relationInsertParams :: "pg \<Rightarrow> string \<Rightarrow> int \<Rightarrow> RelationVersionParams \<Rightarrow> RelationVersion option" where
  "relationInsertParams pg relationID versionNo inp =
     Option.bind (if relationID = [] then Some [] else textUUID pg relationID) (\<lambda>rel.
     Option.bind (textUUID pg (rp_StateID inp)) (\<lambda>state.
     Option.bind (textUUID pg (rp_SourceObjectVersionID inp)) (\<lambda>source.
     Option.bind (textUUID pg (rp_TargetObjectVersionID inp)) (\<lambda>target.
     Option.bind (textUUID pg (rp_CreatedBy inp)) (\<lambda>creator.
       Some \<lparr>rv_ID = [], rv_RelationID = rel, rv_VersionNo = int32 versionNo, rv_StateID = state,
             rv_RelationType = rp_RelationType inp, rv_SourceObjectVersionID = source, rv_TargetObjectVersionID = target,
             rv_Payload = rp_Payload inp, rv_IntegrityHash = [], rv_CreatedBy = creator,
             rv_CreatedAt = \<lparr>instant = 0, zone = 0\<rparr>\<rparr>)))))"

definition canonicalizeRelationAndHash :: "pg \<Rightarrow> RelationVersion \<Rightarrow> RelationVersion tx" where
  "canonicalizeRelationAndHash pg arg =
     tx_bind (CanonicalizePayload pg (rv_Payload arg)) (\<lambda>canonical.
       tx_return (arg\<lparr>rv_Payload := canonical, rv_IntegrityHash := pg_sha pg canonical\<rparr>))"

section \<open>Writes inside a state commit\<close>

definition mapRelationTxWriteError :: "string \<Rightarrow> string \<Rightarrow> go_error \<Rightarrow> go_error" where
  "mapRelationTxWriteError sourceVersionID targetVersionID e =
     (case as_PgError e of
        Some (code, con) \<Rightarrow>
          if code = ''23503'' \<and> con = ''relation_versions_source_object_version_id_fkey''
          then ReferencedVersionNotFoundError ''source'' sourceVersionID
          else if code = ''23503'' \<and> con = ''relation_versions_target_object_version_id_fkey''
          then ReferencedVersionNotFoundError ''target'' targetVersionID
          else if code = ''23503'' \<and> con = ''relation_versions_relation_id_fkey''
          then Sentinel relations_ErrRelationNotFound
          else mapObjectTxWriteError e
      | None \<Rightarrow> mapObjectTxWriteError e)"

definition create_relation_statements :: "pg \<Rightarrow> Relation tx \<Rightarrow> RelationVersion \<Rightarrow> (Relation \<times> RelationVersion) tx" where
  "create_relation_statements pg createRow arg =
     tx_bind createRow (\<lambda>row.
     tx_bind (canonicalizeRelationAndHash pg (arg\<lparr>rv_RelationID := rn_ID row\<rparr>)) (\<lambda>ins.
     tx_bind (CreateRelationVersion pg ins) (\<lambda>vRow.
     tx_bind (BumpRelationVersionNo (rn_ID row) 0) (\<lambda>bumped.
       if bumped \<noteq> 1 then tx_raise (ErrorText ''CAS returned'')
       else tx_return (row\<lparr>rn_CurrentVersionNo := 1\<rparr>, vRow)))))"

definition CreateRelationInTx :: "pg \<Rightarrow> CreateRelationInTxParams \<Rightarrow> (Relation \<times> RelationVersion) tx" where
  "CreateRelationInTx pg inp =
     (case (textUUID pg (ci_RelationID inp), textUUID pg (ci_ProjectID inp), relationInsertParams pg (ci_RelationID inp) 1 (ci_Version inp)) of
        (Some relationUUID, Some projectUUID, Some arg) \<Rightarrow>
          mapping_errors
            (mapRelationTxWriteError (rp_SourceObjectVersionID (ci_Version inp)) (rp_TargetObjectVersionID (ci_Version inp)))
            (create_relation_statements pg (CreateRelationWithID pg relationUUID projectUUID) arg)
      | _ \<Rightarrow> tx_raise (Sentinel relations_ErrValidation))"

definition bump_relation :: "(go_error \<Rightarrow> go_error) \<Rightarrow> string \<Rightarrow> string \<Rightarrow> int \<Rightarrow> int tx" where
  "bump_relation wrap relationID relationUUID expected =
     tx_catch (BumpRelationVersionNo relationUUID (int32 expected)) (\<lambda>e.
       if \<not> errors_Is e pgx_ErrNoRows then tx_raise (wrap e)
       else tx_bind
         (tx_catch (GetRelationByID relationUUID) (\<lambda>g.
            tx_raise (if errors_Is g pgx_ErrNoRows then Sentinel relations_ErrRelationNotFound else wrap g)))
         (\<lambda>row. tx_raise (RelationVersionConflictError relationID expected (rn_CurrentVersionNo row))))"

definition AppendRelationVersionInTx :: "pg \<Rightarrow> string \<Rightarrow> int \<Rightarrow> RelationVersionParams \<Rightarrow> RelationVersion tx" where
  "AppendRelationVersionInTx pg relationID expected inp =
     (case textUUID pg relationID of
        None \<Rightarrow> tx_raise (Sentinel relations_ErrRelationNotFound)
      | Some relationUUID \<Rightarrow>
          (case relationInsertParams pg relationID 0 inp of
             None \<Rightarrow> tx_raise (Sentinel relations_ErrValidation)
           | Some arg \<Rightarrow>
               let wrap = mapRelationTxWriteError (rp_SourceObjectVersionID inp) (rp_TargetObjectVersionID inp) in
               tx_bind (bump_relation wrap relationID relationUUID expected) (\<lambda>bumped.
               tx_bind (mapping_errors wrap (canonicalizeRelationAndHash pg (arg\<lparr>rv_VersionNo := bumped\<rparr>))) (\<lambda>ins.
               mapping_errors (\<lambda>e. case as_PgError e of
                   Some (code, _) \<Rightarrow>
                     if code = ''23505'' then RelationVersionConflictError relationID expected (expected + 1) else wrap e
                 | None \<Rightarrow> wrap e)
                 (CreateRelationVersion pg ins)))))"

section \<open>Writes on the pool\<close>

definition CreateRelation_query :: "pg \<Rightarrow> string \<Rightarrow> Relation tx" where
  "CreateRelation_query pg projectID = (\<lambda>db.
     CreateRelationWithID pg (pg_uuid pg (db_seq db)) projectID (db\<lparr>db_seq := Suc (db_seq db)\<rparr>))"

definition mapRelationWriteError :: "string \<Rightarrow> string \<Rightarrow> go_error \<Rightarrow> go_error" where
  "mapRelationWriteError sourceVersionID targetVersionID e =
     (case as_PgError e of
        Some (code, con) \<Rightarrow>
          if code = ''23503'' then
            (if con = ''relation_versions_source_object_version_id_fkey'' then ReferencedVersionNotFoundError ''source'' sourceVersionID
             else if con = ''relation_versions_target_object_version_id_fkey'' then ReferencedVersionNotFoundError ''target'' targetVersionID
             else if con = ''relation_versions_relation_id_fkey'' then Sentinel relations_ErrRelationNotFound
             else Sentinel relations_ErrValidation)
          else Sentinel relations_ErrValidation
      | None \<Rightarrow> Sentinel relations_ErrValidation)"

definition relationstore_CreateRelation ::
  "pg \<Rightarrow> CreateRelationParams \<Rightarrow> database \<Rightarrow> (go_error + Relation \<times> RelationVersion) \<times> database" where
  "relationstore_CreateRelation pg inp db =
     (case (relationInsertParams pg [] 1 (cr_Version inp), textUUID pg (cr_ProjectID inp)) of
        (Some arg, Some projectID) \<Rightarrow>
          (case WithTx pg (create_relation_statements pg (CreateRelation_query pg projectID) arg) db of
             (Inr r, db') \<Rightarrow> (Inr r, db')
           | (Inl e, db') \<Rightarrow>
               (Inl (case as_PgError e of
                       Some (code, _) \<Rightarrow>
                         if code = ''22P02'' \<or> code = ''23503''
                         then mapRelationWriteError (rp_SourceObjectVersionID (cr_Version inp)) (rp_TargetObjectVersionID (cr_Version inp)) e
                         else Errorf e
                     | None \<Rightarrow> Errorf e), db'))
      | _ \<Rightarrow> (Inl (Sentinel relations_ErrValidation), db))"

definition create_relation_version_statements :: "pg \<Rightarrow> string \<Rightarrow> string \<Rightarrow> int \<Rightarrow> RelationVersion \<Rightarrow> RelationVersion tx" where
  "create_relation_version_statements pg relationID relationUUID expected arg =
     tx_bind (bump_relation (\<lambda>e. e) relationID relationUUID expected) (\<lambda>bumped.
     tx_bind (canonicalizeRelationAndHash pg (arg\<lparr>rv_VersionNo := bumped\<rparr>)) (CreateRelationVersion pg))"

definition relation_currentLogHead :: "pg \<Rightarrow> string \<Rightarrow> database \<Rightarrow> go_error + int" where
  "relation_currentLogHead pg relationID db =
     (case pg_read pg of
        Some e \<Rightarrow> Inl e
      | None \<Rightarrow> Inr (fold max (map rv_VersionNo
          (filter (\<lambda>r. rv_RelationID r = relationID) (db_relation_versions db))) 0))"

definition relationstore_CreateVersion ::
  "pg \<Rightarrow> string \<Rightarrow> int \<Rightarrow> RelationVersionParams \<Rightarrow> database \<Rightarrow> (go_error + RelationVersion) \<times> database" where
  "relationstore_CreateVersion pg relationID expected inp db =
     (case textUUID pg relationID of
        None \<Rightarrow> (Inl (Sentinel relations_ErrRelationNotFound), db)
      | Some relationUUID \<Rightarrow>
          (case relationInsertParams pg relationID 0 inp of
             None \<Rightarrow> (Inl (Sentinel relations_ErrValidation), db)
           | Some arg \<Rightarrow>
               let body = create_relation_version_statements pg relationID relationUUID expected arg in
               (case WithTx pg body db of
                  (Inr v, db') \<Rightarrow> (Inr v, db')
                | (Inl e, db') \<Rightarrow>
                    (Inl (if dup_error pg body db then
                            RelationVersionConflictError relationID expected
                              (case relation_currentLogHead pg relationUUID db' of Inl _ \<Rightarrow> expected + 1 | Inr actual \<Rightarrow> actual)
                          else case as_PgError e of
                            Some (code, _) \<Rightarrow>
                              if code = ''22P02'' \<or> code = ''23503'' \<or> code = ''23502''
                              then mapRelationWriteError (rp_SourceObjectVersionID inp) (rp_TargetObjectVersionID inp) e
                              else Errorf e
                          | None \<Rightarrow> Errorf e), db'))))"

section \<open>Reads\<close>

definition GetRelationVersionByNo :: "string \<Rightarrow> int \<Rightarrow> RelationVersion tx" where
  "GetRelationVersionByNo relationID n = (\<lambda>db.
     case find (\<lambda>r. rv_RelationID r = relationID \<and> rv_VersionNo r = n) (db_relation_versions db) of
       None \<Rightarrow> Inl (Sentinel pgx_ErrNoRows) | Some r \<Rightarrow> Inr (r, db))"

definition ListRelationVersions :: "string \<Rightarrow> database \<Rightarrow> RelationVersion list" where
  "ListRelationVersions i db = sort_key rv_VersionNo (filter (\<lambda>v. rv_RelationID v = i) (db_relation_versions db))"

definition GetLatestRelationVersion :: "string \<Rightarrow> RelationVersion tx" where
  "GetLatestRelationVersion i = (\<lambda>db.
     case rev (ListRelationVersions i db) of [] \<Rightarrow> Inl (Sentinel pgx_ErrNoRows) | v # _ \<Rightarrow> Inr (v, db))"

definition ListRelationVersionsByTypes :: "string \<Rightarrow> string list \<Rightarrow> database \<Rightarrow> RelationVersion list" where
  "ListRelationVersionsByTypes projectID types db =
     order_rows rv_CreatedAt rv_ID
       (filter (\<lambda>v. rv_RelationType v \<in> set types
          \<and> list_ex (\<lambda>r. rn_ID r = rv_RelationID v \<and> rn_ProjectID r = projectID) (db_relations db)) (db_relation_versions db))"

definition relationstore_GetRelation :: "pg \<Rightarrow> string \<Rightarrow> database \<Rightarrow> go_error + Relation" where
  "relationstore_GetRelation pg relationID db =
     (case textUUID pg relationID of
        None \<Rightarrow> Inl (Sentinel relations_ErrRelationNotFound)
      | Some i \<Rightarrow> map_sum (not_found_as relations_ErrRelationNotFound) (\<lambda>r. r) (pool_query pg (GetRelationByID i) db))"

definition relationstore_GetVersion :: "pg \<Rightarrow> string \<Rightarrow> int \<Rightarrow> database \<Rightarrow> go_error + RelationVersion" where
  "relationstore_GetVersion pg relationID versionNo db =
     (case textUUID pg relationID of
        None \<Rightarrow> Inl (Sentinel relations_ErrRelationVersionNotFound)
      | Some i \<Rightarrow> map_sum (not_found_as relations_ErrRelationVersionNotFound) (\<lambda>r. r)
                    (pool_query pg (GetRelationVersionByNo i (int32 versionNo)) db))"

definition relationstore_GetLatestVersion :: "pg \<Rightarrow> string \<Rightarrow> database \<Rightarrow> go_error + RelationVersion" where
  "relationstore_GetLatestVersion pg relationID db =
     (case textUUID pg relationID of
        None \<Rightarrow> Inl (Sentinel relations_ErrRelationVersionNotFound)
      | Some i \<Rightarrow> map_sum (not_found_as relations_ErrRelationVersionNotFound) (\<lambda>r. r)
                    (pool_query pg (GetLatestRelationVersion i) db))"

definition relationstore_ListVersions :: "pg \<Rightarrow> string \<Rightarrow> database \<Rightarrow> go_error + RelationVersion list" where
  "relationstore_ListVersions pg relationID db =
     (case textUUID pg relationID of
        None \<Rightarrow> Inr []
      | Some i \<Rightarrow> map_sum Errorf (\<lambda>r. r) (pool_list pg (ListRelationVersions i) db))"

definition relationstore_ListVersionsByType :: "pg \<Rightarrow> string \<Rightarrow> string \<Rightarrow> database \<Rightarrow> go_error + RelationVersion list" where
  "relationstore_ListVersionsByType pg projectID relationType db =
     (case textUUID pg projectID of
        None \<Rightarrow> Inr []
      | Some i \<Rightarrow> map_sum Errorf (\<lambda>r. r) (pool_list pg (ListRelationVersionsByTypes i [relationType]) db))"

definition relationstore_ListVersionsByTypes :: "pg \<Rightarrow> string \<Rightarrow> string list \<Rightarrow> database \<Rightarrow> go_error + RelationVersion list" where
  "relationstore_ListVersionsByTypes pg projectID relationTypes db =
     (case textUUID pg projectID of
        None \<Rightarrow> Inr []
      | Some i \<Rightarrow>
          if relationTypes = [] then Inr []
          else map_sum Errorf (\<lambda>r. r) (pool_list pg (ListRelationVersionsByTypes i relationTypes) db))"

section \<open>The service\<close>

definition as_RelationError :: "go_error \<Rightarrow> bool" where
  "as_RelationError e \<longleftrightarrow>
     list_ex (\<lambda>x. case x of RelationVersionConflictError _ _ _ \<Rightarrow> True | ReferencedVersionNotFoundError _ _ \<Rightarrow> True
                    | UnknownRelationTypeError _ \<Rightarrow> True | _ \<Rightarrow> False) (error_chain e)"

definition relations_wrapStoreError :: "go_error \<Rightarrow> go_error" where
  "relations_wrapStoreError e =
     (if list_ex (errors_Is e) [relations_ErrRelationNotFound, relations_ErrRelationVersionNotFound,
           relations_ErrReferencedVersionNotFound, relations_ErrValidation]
         \<or> as_RelationError e
      then e else Errorf (Sentinel relations_ErrStore))"

definition normalizeVersionParams :: "(string \<Rightarrow> string option) \<Rightarrow> RelationVersionParams \<Rightarrow> go_error + RelationVersionParams" where
  "normalizeVersionParams renum inp =
     (if rp_StateID inp = [] then Inl (Errorf (Sentinel relations_ErrValidation))
      else if rp_RelationType inp = [] then Inl (Errorf (Sentinel relations_ErrValidation))
      else if Lookup (rp_RelationType inp) = None then Inl (UnknownRelationTypeError (rp_RelationType inp))
      else if rp_SourceObjectVersionID inp = [] \<or> rp_TargetObjectVersionID inp = [] \<or> rp_CreatedBy inp = []
      then Inl (Errorf (Sentinel relations_ErrValidation))
      else
        let inp' = (if rp_Payload inp = [] then inp\<lparr>rp_Payload := [TLBrace, TRBrace]\<rparr> else inp) in
        if decodes_to_object renum (rp_Payload inp') then Inr inp' else Inl (Errorf (Sentinel relations_ErrValidation)))"

definition relations_CreateRelation ::
  "pg \<Rightarrow> (string \<Rightarrow> string option) \<Rightarrow> CreateRelationParams \<Rightarrow> database \<Rightarrow> (go_error + Relation \<times> RelationVersion) \<times> database" where
  "relations_CreateRelation pg renum inp db =
     (if cr_ProjectID inp = [] then (Inl (Errorf (Sentinel relations_ErrValidation)), db)
      else case normalizeVersionParams renum (cr_Version inp) of
        Inl e \<Rightarrow> (Inl e, db)
      | Inr v \<Rightarrow> map_prod (map_sum relations_wrapStoreError (\<lambda>r. r)) (\<lambda>d. d)
                   (relationstore_CreateRelation pg (inp\<lparr>cr_Version := v\<rparr>) db))"

definition relations_CreateVersion ::
  "pg \<Rightarrow> (string \<Rightarrow> string option) \<Rightarrow> string \<Rightarrow> int \<Rightarrow> RelationVersionParams \<Rightarrow> database \<Rightarrow> (go_error + RelationVersion) \<times> database" where
  "relations_CreateVersion pg renum relationID expected inp db =
     (if expected < 1 then (Inl (Errorf (Sentinel relations_ErrValidation)), db)
      else case normalizeVersionParams renum inp of
        Inl e \<Rightarrow> (Inl e, db)
      | Inr v \<Rightarrow> map_prod (map_sum relations_wrapStoreError (\<lambda>r. r)) (\<lambda>d. d)
                   (relationstore_CreateVersion pg relationID expected v db))"

definition relations_GetRelation :: "pg \<Rightarrow> string \<Rightarrow> database \<Rightarrow> go_error + Relation" where
  "relations_GetRelation pg relationID db = map_sum relations_wrapStoreError (\<lambda>r. r) (relationstore_GetRelation pg relationID db)"

definition relations_GetVersion :: "pg \<Rightarrow> string \<Rightarrow> int \<Rightarrow> database \<Rightarrow> go_error + RelationVersion" where
  "relations_GetVersion pg relationID n db = map_sum relations_wrapStoreError (\<lambda>r. r) (relationstore_GetVersion pg relationID n db)"

definition relations_GetLatestVersion :: "pg \<Rightarrow> string \<Rightarrow> database \<Rightarrow> go_error + RelationVersion" where
  "relations_GetLatestVersion pg relationID db = map_sum relations_wrapStoreError (\<lambda>r. r) (relationstore_GetLatestVersion pg relationID db)"

definition relations_ListVersions :: "pg \<Rightarrow> string \<Rightarrow> database \<Rightarrow> go_error + RelationVersion list" where
  "relations_ListVersions pg relationID db = map_sum relations_wrapStoreError (\<lambda>r. r) (relationstore_ListVersions pg relationID db)"

definition relations_ListVersionsByType :: "pg \<Rightarrow> string \<Rightarrow> string \<Rightarrow> database \<Rightarrow> go_error + RelationVersion list" where
  "relations_ListVersionsByType pg projectID relationType db =
     (if projectID = [] then Inl (Errorf (Sentinel relations_ErrValidation))
      else map_sum relations_wrapStoreError (\<lambda>r. r) (relationstore_ListVersionsByType pg projectID relationType db))"

definition relations_ListVersionsByTypes :: "pg \<Rightarrow> string \<Rightarrow> string list \<Rightarrow> database \<Rightarrow> go_error + RelationVersion list" where
  "relations_ListVersionsByTypes pg projectID relationTypes db =
     (if projectID = [] then Inl (Errorf (Sentinel relations_ErrValidation))
      else if relationTypes = [] then Inr []
      else map_sum relations_wrapStoreError (\<lambda>r. r) (relationstore_ListVersionsByTypes pg projectID relationTypes db))"

section \<open>Effects of the writes\<close>

definition relation_stored_as :: "pg \<Rightarrow> RelationVersion \<Rightarrow> RelationVersion \<Rightarrow> bool" where
  "relation_stored_as pg arg row \<longleftrightarrow>
     (\<exists>canonical stored i. pg_jsonb pg (rv_Payload arg) = Some canonical \<and> pg_jsonb pg canonical = Some stored
        \<and> row = arg\<lparr>rv_ID := i, rv_Payload := stored, rv_IntegrityHash := pg_sha pg canonical, rv_CreatedAt := pg_now pg\<rparr>)"

lemma canonicalizeRelationAndHash_Inr:
  "canonicalizeRelationAndHash pg arg db = Inr (ins, db') \<longleftrightarrow> db' = db \<and>
     (\<exists>canonical. pg_jsonb pg (rv_Payload arg) = Some canonical
        \<and> ins = arg\<lparr>rv_Payload := canonical, rv_IntegrityHash := pg_sha pg canonical\<rparr>)"
  by (auto simp: canonicalizeRelationAndHash_def CanonicalizePayload_def tx_simps split: option.splits)

lemma CreateRelationVersion_effect:
  assumes "CreateRelationVersion pg arg db = Inr (row, db')"
  shows "rv_ID row \<notin> rv_ID ` set (db_relation_versions db)"
    and "db' = db\<lparr>db_relation_versions := db_relation_versions db @ [row], db_seq := Suc (db_seq db)\<rparr>"
    and "\<exists>stored i. pg_jsonb pg (rv_Payload arg) = Some stored
      \<and> row = arg\<lparr>rv_ID := i, rv_Payload := stored, rv_CreatedAt := pg_now pg\<rparr>"
    and "{rv_SourceObjectVersionID arg, rv_TargetObjectVersionID arg} \<subseteq> sv_ID ` vr_version ` set (db_object_versions db)"
    and "rv_StateID arg \<in> ps_ID ` set (db_states db)"
proof -
  from assms obtain x where x: "pg_jsonb pg (rv_Payload arg) = Some x"
    by (auto simp: CreateRelationVersion_def split: option.splits)
  note * = assms [unfolded CreateRelationVersion_def Let_def x option.case violation_guard violation_ok]
  from * show "rv_ID row \<notin> rv_ID ` set (db_relation_versions db)"
    "db' = db\<lparr>db_relation_versions := db_relation_versions db @ [row], db_seq := Suc (db_seq db)\<rparr>"
    "{rv_SourceObjectVersionID arg, rv_TargetObjectVersionID arg} \<subseteq> sv_ID ` vr_version ` set (db_object_versions db)"
    "rv_StateID arg \<in> ps_ID ` set (db_states db)"
    by (auto simp: image_image)
  from * show "\<exists>stored i. pg_jsonb pg (rv_Payload arg) = Some stored
      \<and> row = arg\<lparr>rv_ID := i, rv_Payload := stored, rv_CreatedAt := pg_now pg\<rparr>"
    unfolding x by (intro exI [of _ x] exI [of _ "pg_uuid pg (db_seq db)"]) simp
qed

lemma relation_stored_asI:
  assumes "canonicalizeRelationAndHash pg arg db = Inr (ins, db')"
    and "\<exists>stored i. pg_jsonb pg (rv_Payload ins) = Some stored
      \<and> row = ins\<lparr>rv_ID := i, rv_Payload := stored, rv_CreatedAt := pg_now pg\<rparr>"
  shows "relation_stored_as pg arg row"
proof -
  from assms(1) obtain canonical where c: "pg_jsonb pg (rv_Payload arg) = Some canonical"
    and ins: "ins = arg\<lparr>rv_Payload := canonical, rv_IntegrityHash := pg_sha pg canonical\<rparr>"
    by (auto simp: canonicalizeRelationAndHash_Inr)
  from assms(2) obtain stored i where s: "pg_jsonb pg (rv_Payload ins) = Some stored"
    and row: "row = ins\<lparr>rv_ID := i, rv_Payload := stored, rv_CreatedAt := pg_now pg\<rparr>" by blast
  have "pg_jsonb pg canonical = Some stored" using s by (simp add: ins)
  then show ?thesis
    unfolding relation_stored_as_def using c
    by (intro exI [of _ canonical] exI [of _ stored] exI [of _ i]) (simp add: row ins)
qed

lemma create_relation_effect:
  assumes "create_relation_statements pg (CreateRelationWithID pg i p) arg db = Inr ((rel, v), db')"
  shows "i \<notin> rn_ID ` set (db_relations db)" and "rn_ID rel = i" and "rn_CurrentVersionNo rel = 1"
    and "db' = db\<lparr>db_relations := db_relations db @ [rel], db_relation_versions := db_relation_versions db @ [v],
      db_seq := Suc (db_seq db)\<rparr>"
    and "relation_stored_as pg (arg\<lparr>rv_RelationID := i\<rparr>) v"
    and "rv_ID v \<notin> rv_ID ` set (db_relation_versions db)"
    and "rv_StateID arg \<in> ps_ID ` set (db_states db)"
proof -
  from assms obtain o1 db1 ins db2 n where
    o: "CreateRelationWithID pg i p db = Inr (o1, db1)"
    and h: "canonicalizeRelationAndHash pg (arg\<lparr>rv_RelationID := rn_ID o1\<rparr>) db1 = Inr (ins, db1)"
    and r: "CreateRelationVersion pg ins db1 = Inr (v, db2)"
    and b: "BumpRelationVersionNo (rn_ID o1) 0 db2 = Inr (n, db')"
    and rel: "rel = o1\<lparr>rn_CurrentVersionNo := 1\<rparr>"
    by (auto simp: create_relation_statements_def tx_simps canonicalizeRelationAndHash_Inr split: if_splits)
  from o show i: "i \<notin> rn_ID ` set (db_relations db)"
    by (auto simp: CreateRelationWithID_def Let_def split: option.splits if_splits)
  from o have o1: "rn_ID o1 = i" "rn_CurrentVersionNo o1 = 0" and db1: "db1 = db\<lparr>db_relations := db_relations db @ [o1]\<rparr>"
    by (auto simp: CreateRelationWithID_def Let_def split: option.splits if_splits)
  note R = CreateRelationVersion_effect [OF r]
  have keep: "map (\<lambda>r. if rn_ID r = i \<and> rn_CurrentVersionNo r = 0 then r\<lparr>rn_CurrentVersionNo := 0 + 1\<rparr> else r)
      (db_relations db) = db_relations db"
    using i by (intro map_idI) (auto simp: image_iff)
  show "db' = db\<lparr>db_relations := db_relations db @ [rel], db_relation_versions := db_relation_versions db @ [v],
      db_seq := Suc (db_seq db)\<rparr>"
    using b R(2) o1 keep by (auto simp: BumpRelationVersionNo_def rel db1 split: if_splits)
  show "relation_stored_as pg (arg\<lparr>rv_RelationID := i\<rparr>) v"
    using relation_stored_asI [OF h R(3)] by (simp only: o1)
  show "rv_StateID arg \<in> ps_ID ` set (db_states db)"
    using R(5) h by (auto simp: canonicalizeRelationAndHash_Inr db1)
  show "rv_ID v \<notin> rv_ID ` set (db_relation_versions db)" using R(1) by (simp add: db1)
  show "rn_ID rel = i" "rn_CurrentVersionNo rel = 1" using o1 by (simp_all add: rel)
qed

lemma bump_relation_Inr:
  assumes "bump_relation wrap relationID i expected db = Inr (n, db')"
  shows "n = int32 expected + 1"
    and "list_ex (\<lambda>r. rn_ID r = i \<and> rn_CurrentVersionNo r = int32 expected) (db_relations db)"
    and "db' = db\<lparr>db_relations := map (\<lambda>r. if rn_ID r = i \<and> rn_CurrentVersionNo r = int32 expected
            then r\<lparr>rn_CurrentVersionNo := int32 expected + 1\<rparr> else r) (db_relations db)\<rparr>"
proof -
  have "BumpRelationVersionNo i (int32 expected) db = Inr (n, db')"
    using assms by (auto simp: bump_relation_def tx_catch_Inr tx_simps split: if_splits)
  then show "n = int32 expected + 1"
    and "list_ex (\<lambda>r. rn_ID r = i \<and> rn_CurrentVersionNo r = int32 expected) (db_relations db)"
    and "db' = db\<lparr>db_relations := map (\<lambda>r. if rn_ID r = i \<and> rn_CurrentVersionNo r = int32 expected
            then r\<lparr>rn_CurrentVersionNo := int32 expected + 1\<rparr> else r) (db_relations db)\<rparr>"
    by (auto simp: BumpRelationVersionNo_def split: if_splits)
qed

lemma append_relation_effect:
  assumes b: "bump_relation wrap relationID i expected db = Inr (n, db1)"
    and h: "canonicalizeRelationAndHash pg (arg\<lparr>rv_VersionNo := n\<rparr>) db1 = Inr (ins, db2)"
    and r: "CreateRelationVersion pg ins db2 = Inr (row, db')"
  shows "list_ex (\<lambda>r. rn_ID r = i \<and> rn_CurrentVersionNo r = int32 expected) (db_relations db)"
    and "db' = db\<lparr>db_relations := map (\<lambda>r. if rn_ID r = i \<and> rn_CurrentVersionNo r = int32 expected
            then r\<lparr>rn_CurrentVersionNo := int32 expected + 1\<rparr> else r) (db_relations db),
      db_relation_versions := db_relation_versions db @ [row], db_seq := Suc (db_seq db)\<rparr>"
    and "relation_stored_as pg (arg\<lparr>rv_VersionNo := int32 expected + 1\<rparr>) row"
    and "rv_ID row \<notin> rv_ID ` set (db_relation_versions db)"
    and "rv_StateID arg \<in> ps_ID ` set (db_states db)"
proof -
  note B = bump_relation_Inr [OF b] and R = CreateRelationVersion_effect [OF r]
  have db2: "db2 = db1" using h by (simp add: canonicalizeRelationAndHash_Inr)
  show "list_ex (\<lambda>r. rn_ID r = i \<and> rn_CurrentVersionNo r = int32 expected) (db_relations db)" by (rule B(2))
  show "db' = db\<lparr>db_relations := map (\<lambda>r. if rn_ID r = i \<and> rn_CurrentVersionNo r = int32 expected
            then r\<lparr>rn_CurrentVersionNo := int32 expected + 1\<rparr> else r) (db_relations db),
      db_relation_versions := db_relation_versions db @ [row], db_seq := Suc (db_seq db)\<rparr>"
    using R(2) B(3) by (simp add: db2)
  show "relation_stored_as pg (arg\<lparr>rv_VersionNo := int32 expected + 1\<rparr>) row"
    using relation_stored_asI [OF h R(3)] by (simp only: B(1))
  show "rv_ID row \<notin> rv_ID ` set (db_relation_versions db)" using R(1) B(3) by (simp add: db2)
  show "rv_StateID arg \<in> ps_ID ` set (db_states db)"
    using R(5) h B(3) by (auto simp: canonicalizeRelationAndHash_Inr)
qed

end
