(* ===== verification/SemanticWrites.thy ===== *)
theory SemanticWrites
  imports RelationStore
begin

text \<open>
  The semantic writes a state transition consists of, as one step relation over the database:
  creating an object or a relation with its first version and appending a version to either,
  inside a commit (\<open>CreateObjectInTx\<close>, \<open>CreateVersionInTx\<close>,
  \<open>CreateRelationInTx\<close>, \<open>AppendRelationVersionInTx\<close>) or through the services on the
  pool.  The theory interprets the interface of counted logs for both kinds of log and states what
  the version numbers, the compare-and-swap and the stored payloads satisfy.
\<close>

section \<open>Steps and keys\<close>

text \<open>The primary keys of the tables.\<close>

definition keys_ok :: "database \<Rightarrow> bool" where
  "keys_ok db \<longleftrightarrow>
     distinct (map bn_ID (db_branches db)) \<and> distinct (map ps_ID (db_states db)) \<and> distinct (map cm_ID (db_commits db))
     \<and> distinct (map so_ID (db_objects db)) \<and> distinct (map (sv_ID \<circ> vr_version) (db_object_versions db))
     \<and> distinct (map rn_ID (db_relations db)) \<and> distinct (map rv_ID (db_relation_versions db))"

inductive semantic_write :: "database \<Rightarrow> database \<Rightarrow> bool" where
  create_object: "CreateObjectInTx pg inp db = Inr (r, db') \<Longrightarrow> semantic_write db db'"
| create_version: "CreateVersionInTx pg objectID expected vp db = Inr (v, db') \<Longrightarrow> semantic_write db db'"
| create_relation: "CreateRelationInTx pg cinp db = Inr (rr, db') \<Longrightarrow> semantic_write db db'"
| append_relation: "AppendRelationVersionInTx pg relationID expected rp db = Inr (rv, db') \<Longrightarrow> semantic_write db db'"
| pool_object: "sciobjects_CreateObject pg renum oinp db = (Inr r, db') \<Longrightarrow> semantic_write db db'"
| pool_version: "sciobjects_CreateVersion pg renum objectID expected vp db = (Inr v, db') \<Longrightarrow> semantic_write db db'"
| pool_relation: "relations_CreateRelation pg renum rinp db = (Inr rr, db') \<Longrightarrow> semantic_write db db'"
| pool_relation_version: "relations_CreateVersion pg renum relationID expected rp db = (Inr rv, db') \<Longrightarrow> semantic_write db db'"

definition object_counter :: "database \<Rightarrow> string \<Rightarrow> int option" where
  "object_counter db = map_of (map (\<lambda>r. (so_ID r, so_CurrentVersionNo r)) (db_objects db))"

definition object_log :: "database \<Rightarrow> (string \<times> int) list" where
  "object_log db = map (\<lambda>r. (sv_ObjectID (vr_version r), sv_VersionNo (vr_version r))) (db_object_versions db)"

definition relation_counter :: "database \<Rightarrow> string \<Rightarrow> int option" where
  "relation_counter db = map_of (map (\<lambda>r. (rn_ID r, rn_CurrentVersionNo r)) (db_relations db))"

definition relation_log :: "database \<Rightarrow> (string \<times> int) list" where
  "relation_log db = map (\<lambda>r. (rv_RelationID r, rv_VersionNo r)) (db_relation_versions db)"

lemmas log_defs = object_counter_def object_log_def relation_counter_def relation_log_def

section \<open>The four shapes of a write\<close>

text \<open>What a step does to the database, whichever call made it: a container with its first version is
  added, or a counter is stepped and the next version added.  The version row that is stored comes
  from the parameters by \<open>stored_as\<close>.\<close>

inductive write_shape :: "database \<Rightarrow> database \<Rightarrow> bool" where
  object_opened: "so_ID obj \<notin> so_ID ` set (db_objects db) \<Longrightarrow> so_CurrentVersionNo obj = 1 \<Longrightarrow>
    stored_as pg arg row \<Longrightarrow> sv_ObjectID (vr_version row) = so_ID obj \<Longrightarrow> sv_VersionNo (vr_version row) = 1 \<Longrightarrow>
    sv_ID (vr_version row) \<notin> sv_ID ` vr_version ` set (db_object_versions db) \<Longrightarrow>
    sv_StateID (vr_version row) \<in> ps_ID ` set (db_states db) \<Longrightarrow>
    write_shape db (db\<lparr>db_objects := db_objects db @ [obj], db_object_versions := db_object_versions db @ [row], db_seq := n\<rparr>)"
| version_appended: "list_ex (\<lambda>r. so_ID r = i \<and> so_CurrentVersionNo r = e) (db_objects db) \<Longrightarrow>
    stored_as pg arg row \<Longrightarrow> sv_ObjectID (vr_version row) = i \<Longrightarrow> sv_VersionNo (vr_version row) = e + 1 \<Longrightarrow>
    sv_ID (vr_version row) \<notin> sv_ID ` vr_version ` set (db_object_versions db) \<Longrightarrow>
    sv_StateID (vr_version row) \<in> ps_ID ` set (db_states db) \<Longrightarrow>
    write_shape db (db\<lparr>db_objects := map (\<lambda>r. if so_ID r = i \<and> so_CurrentVersionNo r = e
         then r\<lparr>so_CurrentVersionNo := e + 1\<rparr> else r) (db_objects db),
       db_object_versions := db_object_versions db @ [row], db_seq := n\<rparr>)"
| relation_opened: "rn_ID rel \<notin> rn_ID ` set (db_relations db) \<Longrightarrow> rn_CurrentVersionNo rel = 1 \<Longrightarrow>
    relation_stored_as pg rarg v \<Longrightarrow> rv_RelationID v = rn_ID rel \<Longrightarrow> rv_VersionNo v = 1 \<Longrightarrow>
    rv_ID v \<notin> rv_ID ` set (db_relation_versions db) \<Longrightarrow> rv_StateID v \<in> ps_ID ` set (db_states db) \<Longrightarrow>
    write_shape db (db\<lparr>db_relations := db_relations db @ [rel], db_relation_versions := db_relation_versions db @ [v], db_seq := n\<rparr>)"
| relation_appended: "list_ex (\<lambda>r. rn_ID r = i \<and> rn_CurrentVersionNo r = e) (db_relations db) \<Longrightarrow>
    relation_stored_as pg rarg v \<Longrightarrow> rv_RelationID v = i \<Longrightarrow> rv_VersionNo v = e + 1 \<Longrightarrow>
    rv_ID v \<notin> rv_ID ` set (db_relation_versions db) \<Longrightarrow> rv_StateID v \<in> ps_ID ` set (db_states db) \<Longrightarrow>
    write_shape db (db\<lparr>db_relations := map (\<lambda>r. if rn_ID r = i \<and> rn_CurrentVersionNo r = e
         then r\<lparr>rn_CurrentVersionNo := e + 1\<rparr> else r) (db_relations db),
       db_relation_versions := db_relation_versions db @ [v], db_seq := n\<rparr>)"

lemma stored_as_same:
  "stored_as pg arg row \<Longrightarrow> sv_ObjectID (vr_version row) = sv_ObjectID (vr_version arg)"
  "stored_as pg arg row \<Longrightarrow> sv_VersionNo (vr_version row) = sv_VersionNo (vr_version arg)"
  "stored_as pg arg row \<Longrightarrow> sv_StateID (vr_version row) = sv_StateID (vr_version arg)"
  by (auto simp: stored_as_def)

lemma relation_stored_as_same:
  "relation_stored_as pg arg row \<Longrightarrow> rv_RelationID row = rv_RelationID arg"
  "relation_stored_as pg arg row \<Longrightarrow> rv_VersionNo row = rv_VersionNo arg"
  "relation_stored_as pg arg row \<Longrightarrow> rv_StateID row = rv_StateID arg"
  by (auto simp: relation_stored_as_def)

lemma versionInsertParams_ids:
  assumes "versionInsertParams pg objectID n inp = Some arg"
  shows "sv_VersionNo (vr_version arg) = int32 n"
    and "textUUID pg objectID = Some i \<Longrightarrow> objectID \<noteq> [] \<Longrightarrow> sv_ObjectID (vr_version arg) = i"
    and "objectID = [] \<Longrightarrow> sv_ObjectID (vr_version arg) = []"
  using assms by (auto simp: versionInsertParams_def split: Option.bind_splits prod.splits if_splits)

lemma int32_0 [simp]: "int32 0 = 0" and int32_1 [simp]: "int32 1 = 1"
  by (simp_all add: int32_def)

lemma textUUID_nonempty: "textUUID pg s = Some i \<Longrightarrow> s \<noteq> []"
  by (auto simp: textUUID_def)

lemma object_opened_by:
  assumes "create_object_statements pg (CreateScientificObjectWithID pg i p t c) arg db = Inr (r, db')"
    and "sv_VersionNo (vr_version arg) = 1"
  shows "write_shape db db'"
proof -
  obtain obj v where "r = (obj, v)" by fastforce
  with assms(1) have "create_object_statements pg (CreateScientificObjectWithID pg i p t c) arg db = Inr ((obj, v), db')"
    by simp
  then obtain row where i: "i \<notin> so_ID ` set (db_objects db)" and o: "so_ID obj = i" "so_CurrentVersionNo obj = 1"
    and D: "db' = db\<lparr>db_objects := db_objects db @ [obj], db_object_versions := db_object_versions db @ [row],
      db_seq := Suc (db_seq db)\<rparr>"
    and v: "vr_version row = v" and S: "stored_as pg (on_version (\<lambda>v. v\<lparr>sv_ObjectID := i\<rparr>) arg) row"
    and N: "sv_ID v \<notin> sv_ID ` vr_version ` set (db_object_versions db)"
    and T: "sv_StateID (vr_version arg) \<in> ps_ID ` set (db_states db)"
    by (rule create_object_effect)
  show ?thesis unfolding D
    by (rule object_opened [OF _ o(2) S])
      (use i o N T assms(2) stored_as_same [OF S] in \<open>simp_all add: v\<close>)
qed

lemma version_appended_by:
  assumes "bump_object wrap objectID i expected db = Inr (n, db1)"
    and "canonicalizeAndHash pg (on_version (\<lambda>v. v\<lparr>sv_VersionNo := n\<rparr>) arg) db1 = Inr (ins, db2)"
    and "CreateScientificObjectVersion pg ins db2 = Inr (row, db')"
    and "sv_ObjectID (vr_version arg) = i"
  shows "write_shape db db'"
proof -
  note E = append_version_effect [OF assms(1-3)]
  show ?thesis unfolding E(2)
    by (rule version_appended [OF E(1) E(3)]) (use E assms(4) stored_as_same [OF E(3)] in simp_all)
qed

lemma relation_opened_by:
  assumes "create_relation_statements pg (CreateRelationWithID pg i p) arg db = Inr (r, db')"
    and "rv_VersionNo arg = 1"
  shows "write_shape db db'"
proof -
  obtain rel v where "r = (rel, v)" by fastforce
  with assms(1) have "create_relation_statements pg (CreateRelationWithID pg i p) arg db = Inr ((rel, v), db')" by simp
  note E = create_relation_effect [OF this]
  show ?thesis unfolding E(4)
    by (rule relation_opened [OF _ E(3) E(5)]) (use E assms(2) relation_stored_as_same [OF E(5)] in simp_all)
qed

lemma relation_appended_by:
  assumes "bump_relation wrap relationID i expected db = Inr (n, db1)"
    and "canonicalizeRelationAndHash pg (arg\<lparr>rv_VersionNo := n\<rparr>) db1 = Inr (ins, db2)"
    and "CreateRelationVersion pg ins db2 = Inr (row, db')"
    and "rv_RelationID arg = i"
  shows "write_shape db db'"
proof -
  note E = append_relation_effect [OF assms(1-3)]
  show ?thesis unfolding E(2)
    by (rule relation_appended [OF E(1) E(3)]) (use E assms(4) relation_stored_as_same [OF E(3)] in simp_all)
qed

lemma relationInsertParams_ids:
  assumes "relationInsertParams pg relationID n inp = Some arg"
  shows "rv_VersionNo arg = int32 n"
    and "textUUID pg relationID = Some i \<Longrightarrow> rv_RelationID arg = i"
  using assms by (auto simp: relationInsertParams_def dest: textUUID_nonempty split: Option.bind_splits if_splits)

lemma pool_create_object_statements:
  "create_object_statements pg (CreateScientificObject pg p t c) arg db =
   create_object_statements pg (CreateScientificObjectWithID pg (pg_uuid pg (db_seq db)) p t c) arg (db\<lparr>db_seq := Suc (db_seq db)\<rparr>)"
  by (simp add: create_object_statements_def tx_bind_def CreateScientificObject_def)

lemma pool_create_relation_statements:
  "create_relation_statements pg (CreateRelation_query pg p) arg db =
   create_relation_statements pg (CreateRelationWithID pg (pg_uuid pg (db_seq db)) p) arg (db\<lparr>db_seq := Suc (db_seq db)\<rparr>)"
  by (simp add: create_relation_statements_def tx_bind_def CreateRelation_query_def)

text \<open>The counter of generated ids is no part of the shape.\<close>

lemma write_shape_seq:
  assumes "write_shape (db\<lparr>db_seq := n\<rparr>) db'"
  shows "write_shape db db'"
  using assms
proof (cases rule: write_shape.cases)
  case (object_opened obj pg arg row m)
  then show ?thesis using write_shape.object_opened [of obj db pg arg row m] by simp
next
  case (version_appended i e pg arg row m)
  then show ?thesis using write_shape.version_appended [of i e db pg arg row m] by simp
next
  case (relation_opened rel pg rarg v m)
  then show ?thesis using write_shape.relation_opened [of rel db pg rarg v m] by simp
next
  case (relation_appended i e pg rarg v m)
  then show ?thesis using write_shape.relation_appended [of i e db pg rarg v m] by simp
qed

lemma service_result:
  "map_prod (map_sum f (\<lambda>r. r)) (\<lambda>d. d) x = (Inr r, db) \<longleftrightarrow> x = (Inr r, db)"
  by (cases x; cases "fst x") auto

lemma CreateObjectInTx_shape:
  assumes "CreateObjectInTx pg inp db = Inr (r, db')"
  shows "write_shape db db'"
proof -
  from assms obtain i p arg where "versionInsertParams pg (ct_ObjectID inp) 1 (ct_Version inp) = Some arg"
    and "create_object_statements pg (CreateScientificObjectWithID pg i p (ct_ObjectType inp) (sv_CreatedBy (vr_version arg)))
      arg db = Inr (r, db')"
    by (auto simp: CreateObjectInTx_def tx_simps split: option.splits)
  then show ?thesis by (intro object_opened_by) (auto dest: versionInsertParams_ids(1))
qed

lemma CreateVersionInTx_shape:
  assumes "CreateVersionInTx pg objectID expected vp db = Inr (v, db')"
  shows "write_shape db db'"
proof -
  from assms obtain i arg n db1 ins db2 row where i: "textUUID pg objectID = Some i"
    and arg: "versionInsertParams pg objectID 0 vp = Some arg"
    and b: "bump_object mapObjectTxWriteError objectID i expected db = Inr (n, db1)"
    and h: "canonicalizeAndHash pg (on_version (\<lambda>v. v\<lparr>sv_VersionNo := n\<rparr>) arg) db1 = Inr (ins, db2)"
    and r: "CreateScientificObjectVersion pg ins db2 = Inr (row, db')"
    by (auto simp: CreateVersionInTx_def tx_simps split: option.splits)
  show ?thesis
    by (rule version_appended_by [OF b h r]) (rule versionInsertParams_ids(2) [OF arg i textUUID_nonempty [OF i]])
qed

lemma CreateRelationInTx_shape:
  assumes "CreateRelationInTx pg inp db = Inr (r, db')"
  shows "write_shape db db'"
proof -
  from assms obtain i p arg where "relationInsertParams pg (ci_RelationID inp) 1 (ci_Version inp) = Some arg"
    and "create_relation_statements pg (CreateRelationWithID pg i p) arg db = Inr (r, db')"
    by (auto simp: CreateRelationInTx_def tx_simps split: option.splits)
  then show ?thesis by (intro relation_opened_by) (auto dest: relationInsertParams_ids(1))
qed

lemma AppendRelationVersionInTx_shape:
  assumes "AppendRelationVersionInTx pg relationID expected rp db = Inr (v, db')"
  shows "write_shape db db'"
proof -
  define wrap where "wrap = mapRelationTxWriteError (rp_SourceObjectVersionID rp) (rp_TargetObjectVersionID rp)"
  from assms obtain i arg n db1 ins db2 where i: "textUUID pg relationID = Some i"
    and arg: "relationInsertParams pg relationID 0 rp = Some arg"
    and b: "bump_relation wrap relationID i expected db = Inr (n, db1)"
    and h: "canonicalizeRelationAndHash pg (arg\<lparr>rv_VersionNo := n\<rparr>) db1 = Inr (ins, db2)"
    and r: "CreateRelationVersion pg ins db2 = Inr (v, db')"
    by (auto simp: AppendRelationVersionInTx_def wrap_def tx_simps Let_def split: option.splits)
  show ?thesis
    by (rule relation_appended_by [OF b h r]) (rule relationInsertParams_ids(2) [OF arg i])
qed

lemma pool_object_shape:
  assumes "sciobjects_CreateObject pg renum inp db = (Inr r, db')"
  shows "write_shape db db'"
proof -
  from assms obtain arg p where arg: "versionInsertParams pg [] 1 (co_Version inp) = Some arg"
    and "WithTx pg (create_object_statements pg (CreateScientificObject pg p (co_ObjectType inp) (sv_CreatedBy (vr_version arg))) arg) db
      = (Inr r, db')"
    by (auto simp: sciobjects_CreateObject_def service_result objectstore_CreateObject_def
      split: if_splits option.splits prod.splits sum.splits)
  then have "create_object_statements pg (CreateScientificObjectWithID pg (pg_uuid pg (db_seq db)) p (co_ObjectType inp)
      (sv_CreatedBy (vr_version arg))) arg (db\<lparr>db_seq := Suc (db_seq db)\<rparr>) = Inr (r, db')"
    by (simp add: WithTx_result pool_create_object_statements)
  then show ?thesis
    using versionInsertParams_ids(1) [OF arg] by (intro write_shape_seq [OF object_opened_by]) auto
qed

lemma pool_version_shape:
  assumes "sciobjects_CreateVersion pg renum objectID expected vp db = (Inr v, db')"
  shows "write_shape db db'"
proof -
  from assms obtain i arg where i: "textUUID pg objectID = Some i" and arg: "versionInsertParams pg objectID 0 vp = Some arg"
    and "WithTx pg (create_version_statements pg objectID i expected arg) db = (Inr v, db')"
    by (auto simp: sciobjects_CreateVersion_def service_result objectstore_CreateVersion_def Let_def
      split: if_splits option.splits prod.splits sum.splits)
  then obtain n db1 ins db2 row where b: "bump_object (\<lambda>e. e) objectID i expected db = Inr (n, db1)"
    and h: "canonicalizeAndHash pg (on_version (\<lambda>v. v\<lparr>sv_VersionNo := n\<rparr>) arg) db1 = Inr (ins, db2)"
    and r: "CreateScientificObjectVersion pg ins db2 = Inr (row, db')"
    by (auto simp: WithTx_result create_version_statements_def tx_simps)
  show ?thesis
    by (rule version_appended_by [OF b h r]) (rule versionInsertParams_ids(2) [OF arg i textUUID_nonempty [OF i]])
qed

lemma pool_relation_shape:
  assumes "relations_CreateRelation pg renum inp db = (Inr r, db')"
  shows "write_shape db db'"
proof -
  from assms obtain w arg p where arg: "relationInsertParams pg [] 1 w = Some arg"
    and "WithTx pg (create_relation_statements pg (CreateRelation_query pg p) arg) db = (Inr r, db')"
    by (auto simp: relations_CreateRelation_def service_result relationstore_CreateRelation_def
      split: if_splits option.splits prod.splits sum.splits)
  then have "create_relation_statements pg (CreateRelationWithID pg (pg_uuid pg (db_seq db)) p) arg
      (db\<lparr>db_seq := Suc (db_seq db)\<rparr>) = Inr (r, db')"
    by (simp add: WithTx_result pool_create_relation_statements)
  then show ?thesis
    using relationInsertParams_ids(1) [OF arg] by (intro write_shape_seq [OF relation_opened_by]) auto
qed

lemma pool_relation_version_shape:
  assumes "relations_CreateVersion pg renum relationID expected rp db = (Inr v, db')"
  shows "write_shape db db'"
proof -
  from assms obtain w i arg where i: "textUUID pg relationID = Some i" and arg: "relationInsertParams pg relationID 0 w = Some arg"
    and "WithTx pg (create_relation_version_statements pg relationID i expected arg) db = (Inr v, db')"
    by (auto simp: relations_CreateVersion_def service_result relationstore_CreateVersion_def Let_def
      split: if_splits option.splits prod.splits sum.splits)
  then obtain n db1 ins db2 where b: "bump_relation (\<lambda>e. e) relationID i expected db = Inr (n, db1)"
    and h: "canonicalizeRelationAndHash pg (arg\<lparr>rv_VersionNo := n\<rparr>) db1 = Inr (ins, db2)"
    and r: "CreateRelationVersion pg ins db2 = Inr (v, db')"
    by (auto simp: WithTx_result create_relation_version_statements_def tx_simps)
  show ?thesis
    by (rule relation_appended_by [OF b h r]) (rule relationInsertParams_ids(2) [OF arg i])
qed

lemma semantic_write_shape: "semantic_write db db' \<Longrightarrow> write_shape db db'"
  by (induction rule: semantic_write.induct)
    (blast intro: CreateObjectInTx_shape CreateVersionInTx_shape CreateRelationInTx_shape AppendRelationVersionInTx_shape
      pool_object_shape pool_version_shape pool_relation_shape pool_relation_version_shape)+

section \<open>Counters\<close>

lemma map_of_cas:
  assumes "distinct (map f xs)" and "list_ex (\<lambda>x. f x = i \<and> g x = e) xs"
    and "\<And>x. f (u x) = f x" and "\<And>x. g (u x) = e'"
  shows "map_of (map (\<lambda>x. (f x, g x)) xs) i = Some e"
    and "map_of (map (\<lambda>x. (f x, g x)) (map (\<lambda>x. if f x = i \<and> g x = e then u x else x) xs)) =
      (map_of (map (\<lambda>x. (f x, g x)) xs))(i \<mapsto> e')"
proof -
  show "map_of (map (\<lambda>x. (f x, g x)) xs) i = Some e"
    using assms(1,2) by (induction xs) (auto simp: list_ex_iff image_iff)
  have rest: "map (\<lambda>x. if f x = i \<and> g x = e then u x else x) xs = xs" if "i \<notin> f ` set xs" for xs
    using that by (intro map_idI) (auto simp: image_iff)
  show "map_of (map (\<lambda>x. (f x, g x)) (map (\<lambda>x. if f x = i \<and> g x = e then u x else x) xs)) =
      (map_of (map (\<lambda>x. (f x, g x)) xs))(i \<mapsto> e')"
    using assms(1,2)
  proof (induction xs)
    case Nil
    then show ?case by simp
  next
    case (Cons x xs)
    show ?case
    proof (cases "f x = i")
      case True
      with Cons.prems have "i \<notin> f ` set xs" "g x = e" by (auto simp: list_ex_iff image_iff)
      with True show ?thesis using assms(3,4) rest [of xs] by (simp add: fun_eq_iff)
    next
      case False
      with Cons show ?thesis by (auto simp: fun_upd_twist)
    qed
  qed
qed

lemma write_shape_keys:
  assumes "write_shape db db'" and "keys_ok db"
  shows "keys_ok db'"
proof -
  have keep: "map so_ID (map (\<lambda>r. if so_ID r = i \<and> so_CurrentVersionNo r = e then r\<lparr>so_CurrentVersionNo := e + 1\<rparr> else r) xs)
      = map so_ID xs" for i e xs by (induction xs) auto
  have keepr: "map rn_ID (map (\<lambda>r. if rn_ID r = i \<and> rn_CurrentVersionNo r = e then r\<lparr>rn_CurrentVersionNo := e + 1\<rparr> else r) xs)
      = map rn_ID xs" for i e xs by (induction xs) auto
  from assms show ?thesis
    by (cases rule: write_shape.cases) (auto simp: keys_ok_def keep keepr image_image simp del: map_map)
qed

lemma object_shape_cases:
  assumes "keys_ok db" and "write_shape db db'"
  shows "(object_counter db' = object_counter db \<and> object_log db' = object_log db)
    \<or> (\<exists>k. object_counter db k = None \<and> object_counter db' = (object_counter db)(k \<mapsto> 1) \<and> object_log db' = object_log db @ [(k, 1)])
    \<or> (\<exists>k n. object_counter db k = Some n \<and> object_counter db' = (object_counter db)(k \<mapsto> n + 1)
         \<and> object_log db' = object_log db @ [(k, n + 1)])"
  using assms(2)
proof (cases rule: write_shape.cases)
  case (object_opened obj pg arg row n)
  have "object_counter db (so_ID obj) = None"
    using object_opened(2) by (simp add: object_counter_def map_of_eq_None_iff image_image)
  moreover have "object_counter db' = (object_counter db)(so_ID obj \<mapsto> 1)"
    using calculation object_opened(3) unfolding object_opened(1)
    by (auto simp: object_counter_def map_add_def fun_eq_iff split: option.splits)
  ultimately show ?thesis using object_opened by (auto simp: object_log_def)
next
  case (version_appended i e pg arg row n)
  have d: "distinct (map so_ID (db_objects db))" using assms(1) by (simp add: keys_ok_def)
  note C = map_of_cas [OF d version_appended(2), where u = "\<lambda>r. r\<lparr>so_CurrentVersionNo := e + 1\<rparr>" and e' = "e + 1"]
  have "object_counter db i = Some e" using C(1) by (simp add: object_counter_def)
  moreover have "object_counter db' = (object_counter db)(i \<mapsto> e + 1)"
    using C(2) unfolding version_appended(1) by (simp add: object_counter_def)
  ultimately show ?thesis using version_appended by (auto simp: object_log_def)
qed (simp_all add: log_defs)

lemma relation_shape_cases:
  assumes "keys_ok db" and "write_shape db db'"
  shows "(relation_counter db' = relation_counter db \<and> relation_log db' = relation_log db)
    \<or> (\<exists>k. relation_counter db k = None \<and> relation_counter db' = (relation_counter db)(k \<mapsto> 1)
         \<and> relation_log db' = relation_log db @ [(k, 1)])
    \<or> (\<exists>k n. relation_counter db k = Some n \<and> relation_counter db' = (relation_counter db)(k \<mapsto> n + 1)
         \<and> relation_log db' = relation_log db @ [(k, n + 1)])"
  using assms(2)
proof (cases rule: write_shape.cases)
  case (relation_opened rel pg rarg v n)
  have "relation_counter db (rn_ID rel) = None"
    using relation_opened(2) by (simp add: relation_counter_def map_of_eq_None_iff image_image)
  moreover have "relation_counter db' = (relation_counter db)(rn_ID rel \<mapsto> 1)"
    using calculation relation_opened(3) unfolding relation_opened(1)
    by (auto simp: relation_counter_def map_add_def fun_eq_iff split: option.splits)
  ultimately show ?thesis using relation_opened by (auto simp: relation_log_def)
next
  case (relation_appended i e pg rarg v n)
  have d: "distinct (map rn_ID (db_relations db))" using assms(1) by (simp add: keys_ok_def)
  note C = map_of_cas [OF d relation_appended(2), where u = "\<lambda>r. r\<lparr>rn_CurrentVersionNo := e + 1\<rparr>" and e' = "e + 1"]
  have "relation_counter db i = Some e" using C(1) by (simp add: relation_counter_def)
  moreover have "relation_counter db' = (relation_counter db)(i \<mapsto> e + 1)"
    using C(2) unfolding relation_appended(1) by (simp add: relation_counter_def)
  ultimately show ?thesis using relation_appended by (auto simp: relation_log_def)
qed (simp_all add: log_defs)

interpretation objects: counted_log keys_ok semantic_write object_counter object_log
  by unfold_locales (use write_shape_keys object_shape_cases semantic_write_shape in blast)+

interpretation relations: counted_log keys_ok semantic_write relation_counter relation_log
  by unfold_locales (use write_shape_keys relation_shape_cases semantic_write_shape in blast)+

section \<open>A sample database\<close>

definition sample_pg :: pg where
  "sample_pg = \<lparr>pg_uuid = (\<lambda>n. replicate (Suc n) (CHR ''x'')), pg_now = \<lparr>instant = 1, zone = 0\<rparr>, pg_parse = Some,
     pg_jsonb = Some, pg_sha = (\<lambda>_. ''h''), pg_record_check = (\<lambda>_. None), pg_read = None, pg_begin = None,
     pg_commit = (\<lambda>_. None), pg_rollback = None\<rparr>"

definition sample_branch :: Branch where
  "sample_branch = \<lparr>bn_ID = ''b'', bn_ProjectID = ''p'', bn_Name = ''main'', bn_Visibility = ''public'', bn_Purpose = None,
     bn_GitRef = ''refs/heads/main'', bn_BaseStateID = Some ''s1'', bn_Lifecycle = ''active'', bn_CreatedBy = ''u'',
     bn_CreatedAt = \<lparr>instant = 1, zone = 0\<rparr>\<rparr>"

definition sample_db :: database where
  "sample_db = \<lparr>db_users = [''u''], db_projects = [\<lparr>pj_ID = ''p'', pj_Visibility = ''public'', pj_MainFrozen = False\<rparr>],
     db_branches = [sample_branch], db_states = [(sample_state_row ''s1'' None)\<lparr>ps_BranchID := None\<rparr>], db_commits = [],
     db_objects = [\<lparr>so_ID = ''o'', so_ProjectID = ''p'', so_ObjectType = ''claim'', so_CurrentVersionNo = 1, so_CreatedBy = ''u'',
       so_CreatedAt = \<lparr>instant = 1, zone = 0\<rparr>\<rparr>],
     db_object_versions = [\<lparr>vr_version = sample_version\<lparr>sv_StateID := ''s1''\<rparr>, vr_AbortRequestKey = None, vr_ReopenRequestKey = None\<rparr>],
     db_relations = [], db_relation_versions = [], db_pull_requests = [], db_merges = [], db_merge_conflicts = [],
     db_merge_creations = [], db_audit = [], db_outbox = [], db_seq = 0\<rparr>"

definition sample_params :: VersionParams where
  "sample_params = \<lparr>vp_StateID = ''s1'', vp_BranchID = None, vp_SchemaID = ''lab:x'', vp_SchemaVersion = ''2'', vp_Title = ''t'',
     vp_LifecycleState = ''active'', vp_Payload = [TLBrace, TRBrace], vp_VisibilityPolicyID = None, vp_CreatedBy = ''u'',
     vp_Abort = None, vp_AbortRequestKey = [], vp_Reopen = None, vp_ReopenRequestKey = []\<rparr>"

definition sample_append :: "go_error + ScientificObjectVersion \<times> database" where
  "sample_append = CreateVersionInTx sample_pg ''o'' 1 sample_params sample_db"

section \<open>Properties\<close>

text \<open>C29: Version numbers have no gaps.  Whatever semantic writes run, in whatever order and with
  whatever outcome of the others, the numbers of every object's and every relation's versions, in
  the order they were stored, are exactly 1, 2, ..., up to the container's counter; and the logs
  only grow.\<close>

theorem version_logs_gapless:
  assumes "semantic_write\<^sup>*\<^sup>* db db'" and "keys_ok db"
    and "numbered (object_counter db) (object_log db)" and "numbered (relation_counter db) (relation_log db)"
  shows "numbers_of (object_log db') k = (case object_counter db' k of None \<Rightarrow> [] | Some n \<Rightarrow> [1..n])
    \<and> numbers_of (relation_log db') k = (case relation_counter db' k of None \<Rightarrow> [] | Some n \<Rightarrow> [1..n])
    \<and> prefix (object_log db) (object_log db') \<and> prefix (relation_log db) (relation_log db')"
  using objects.numbered_steps [OF assms(1,2,3)] relations.numbered_steps [OF assms(1,2,4)]
    objects.log_grows [OF assms(1,2)] relations.log_grows [OF assms(1,2)]
  by (simp_all add: numbered_def)

theorem version_logs_gapless_witness:
  "numbers_of (object_log (snd (projr sample_append))) ''o'' = [1, 2]"
proof -
  let ?db = "snd (projr sample_append)"
  have ev: "case sample_append of Inr (v, db) \<Rightarrow> object_counter db ''o'' = Some 2 | _ \<Rightarrow> False" by code_simp
  then obtain v db where ap: "sample_append = Inr (v, db)" and n: "object_counter db ''o'' = Some 2" by (auto split: sum.splits)
  have "sample_append = Inr (projr sample_append)" unfolding ap by simp
  then have "semantic_write sample_db ?db"
    unfolding sample_append_def by (metis semantic_write.create_version prod.collapse)
  then have s: "semantic_write\<^sup>*\<^sup>* sample_db ?db" by (rule r_into_rtranclp)
  have k: "keys_ok sample_db" by code_simp
  have o: "numbered (object_counter sample_db) (object_log sample_db)"
    by (auto simp: numbered_def numbers_of_def log_defs sample_db_def sample_version_def upto.simps)
  have r: "numbered (relation_counter sample_db) (relation_log sample_db)"
    by (simp add: numbered_def numbers_of_def log_defs sample_db_def)
  have c: "object_counter ?db ''o'' = Some 2" using n unfolding ap by simp
  show ?thesis unfolding conjunct1 [OF version_logs_gapless [OF s k o r]] c by (simp add: upto.simps)
qed

text \<open>The leaf of an error's chain decides \<open>errors.Is\<close> for every sentinel.\<close>

lemma errors_Is_unique: "errors_Is e s \<Longrightarrow> errors_Is e t \<Longrightarrow> s = t"
  by (induction e rule: error_chain.induct) (auto simp: errors_Is_def)

lemma conflict_is_no_sentinel: "as_ObjectVersionConflictError e \<Longrightarrow> \<not> errors_Is e s"
  by (induction e rule: error_chain.induct) (auto simp: errors_Is_def as_ObjectVersionConflictError_def)

lemma find_counter: "map_of (map (\<lambda>r. (f r, g r)) xs) i = map_option g (find (\<lambda>r. f r = i) xs)"
  by (induction xs) auto

lemma list_ex_counter:
  assumes "distinct (map f xs)"
  shows "list_ex (\<lambda>r. f r = i \<and> g r = e) xs \<longleftrightarrow> map_of (map (\<lambda>r. (f r, g r)) xs) i = Some e"
  using assms by (induction xs) (auto simp: list_ex_iff image_iff dest: map_of_SomeD)

text \<open>The expected-version compare-and-swap.  Appending a version to an unknown object is
  \<open>ErrObjectNotFound\<close>; to an object whose counter is not the expected number it is the version
  conflict that names the counter; and when it succeeds the counter was the expected number, the
  new version carries the next one, and the counter moved to it.\<close>

theorem expected_version_cas:
  assumes "keys_ok db" and "textUUID pg objectID = Some i" and "versionInsertParams pg objectID 0 vp \<noteq> None"
    and "int32 expected = expected"
  shows "case object_counter db i of
      None \<Rightarrow> CreateVersionInTx pg objectID expected vp db = Inl (Sentinel sciobjects_ErrObjectNotFound)
    | Some n \<Rightarrow>
        (n \<noteq> expected \<longrightarrow> CreateVersionInTx pg objectID expected vp db = Inl (ObjectVersionConflictError objectID expected n))
        \<and> (\<forall>v db'. CreateVersionInTx pg objectID expected vp db = Inr (v, db') \<longrightarrow>
             n = expected \<and> sv_VersionNo v = n + 1 \<and> sv_ObjectID v = i
             \<and> object_counter db' = (object_counter db)(i \<mapsto> n + 1) \<and> object_log db' = object_log db @ [(i, n + 1)])"
proof -
  obtain arg where arg: "versionInsertParams pg objectID 0 vp = Some arg" using assms(3) by auto
  have d: "distinct (map so_ID (db_objects db))" using assms(1) by (simp add: keys_ok_def)
  have ex: "list_ex (\<lambda>r. so_ID r = i \<and> so_CurrentVersionNo r = expected) (db_objects db)
      \<longleftrightarrow> object_counter db i = Some expected"
    unfolding object_counter_def by (rule list_ex_counter [OF d])
  have lost: "CreateVersionInTx pg objectID expected vp db =
      Inl (case object_counter db i of None \<Rightarrow> Sentinel sciobjects_ErrObjectNotFound
           | Some n \<Rightarrow> ObjectVersionConflictError objectID expected n)"
    if "object_counter db i \<noteq> Some expected"
    using that ex assms(2,4) arg unfolding object_counter_def find_counter
    by (auto simp: CreateVersionInTx_def bump_object_def tx_bind_def tx_catch_def tx_raise_def BumpScientificObjectVersionNo_def
      GetScientificObjectByID_def errors_Is_def split: option.splits)
  have won: "n = expected \<and> sv_VersionNo v = n + 1 \<and> sv_ObjectID v = i
      \<and> object_counter db' = (object_counter db)(i \<mapsto> n + 1) \<and> object_log db' = object_log db @ [(i, n + 1)]"
    if n: "object_counter db i = Some n" and w: "CreateVersionInTx pg objectID expected vp db = Inr (v, db')" for n v db'
  proof -
    from w obtain m db1 ins db2 row where
      b: "bump_object mapObjectTxWriteError objectID i expected db = Inr (m, db1)"
      and h: "canonicalizeAndHash pg (on_version (\<lambda>v. v\<lparr>sv_VersionNo := m\<rparr>) arg) db1 = Inr (ins, db2)"
      and r: "CreateScientificObjectVersion pg ins db2 = Inr (row, db')" and v: "v = vr_version row"
      using assms(2) arg by (auto simp: CreateVersionInTx_def tx_simps)
    note E = append_version_effect [OF b h r]
    have e: "n = expected" using lost n w by (cases "n = expected") auto
    note C = map_of_cas [OF d, of i so_CurrentVersionNo expected "\<lambda>r. r\<lparr>so_CurrentVersionNo := expected + 1\<rparr>" "expected + 1"]
    have "object_counter db' = (object_counter db)(i \<mapsto> n + 1)"
      using C(2) E(1) unfolding E(2) assms(4) e object_counter_def by simp
    moreover have "sv_ObjectID v = i" "sv_VersionNo v = n + 1"
      using stored_as_same [OF E(3)] versionInsertParams_ids(2) [OF arg assms(2) textUUID_nonempty [OF assms(2)]]
      by (simp_all add: v e assms(4))
    ultimately show ?thesis using e by (simp add: object_log_def E(2) v)
  qed
  show ?thesis
  proof (cases "object_counter db i")
    case None
    then show ?thesis using lost by simp
  next
    case (Some n)
    then show ?thesis using lost won by auto
  qed
qed

theorem expected_version_cas_witness:
  "CreateVersionInTx sample_pg ''o'' 4 sample_params sample_db = Inl (ObjectVersionConflictError ''o'' 4 1)"
proof -
  have k: "keys_ok sample_db" by code_simp
  have u: "textUUID sample_pg ''o'' = Some ''o''" by code_simp
  have i: "versionInsertParams sample_pg ''o'' 0 sample_params \<noteq> None" by code_simp
  have c: "object_counter sample_db ''o'' = Some 1" by code_simp
  have "int32 4 = 4" by (simp add: int32_def)
  from expected_version_cas [OF k u i this] show ?thesis unfolding c by simp
qed



text \<open>The object service reports the store's validation outcomes as store failures.  A request
  that passes the shape checks and that the store refuses with \<open>ErrValidation\<close> (an unknown
  project, state or user, a malformed id) reaches the caller as \<open>ErrStore\<close>, never as
  \<open>ErrValidation\<close>; the relation service keeps the distinction.\<close>

theorem object_service_hides_validation:
  assumes "validateCreateObject renum inp" and "sciobjects_CreateObject pg renum inp db = (Inl e, db')"
  shows "\<not> errors_Is e sciobjects_ErrValidation
    \<and> (objectstore_CreateObject pg inp db = (Inl (Sentinel sciobjects_ErrValidation), db) \<longrightarrow> errors_Is e sciobjects_ErrStore)
    \<and> relations_wrapStoreError (Sentinel relations_ErrValidation) = Sentinel relations_ErrValidation"
proof -
  from assms obtain e0 where s: "objectstore_CreateObject pg inp db = (Inl e0, db')" and e: "e = sciobjects_wrapStoreError e0"
    by (cases "objectstore_CreateObject pg inp db"; cases "fst (objectstore_CreateObject pg inp db)")
      (auto simp: sciobjects_CreateObject_def)
  have "\<not> errors_Is e sciobjects_ErrValidation"
  proof
    assume a: "errors_Is e sciobjects_ErrValidation"
    show False
    proof (cases "errors_Is e0 sciobjects_ErrObjectNotFound \<or> errors_Is e0 sciobjects_ErrVersionNotFound
        \<or> as_ObjectVersionConflictError e0")
      case True
      then have "e = e0" by (simp add: e sciobjects_wrapStoreError_def)
      with a True errors_Is_unique [of e0] conflict_is_no_sentinel [of e0] show False by blast
    next
      case False
      with a show False by (simp add: e sciobjects_wrapStoreError_def errors_Is_def)
    qed
  qed
  moreover have "errors_Is (sciobjects_wrapStoreError (Sentinel sciobjects_ErrValidation)) sciobjects_ErrStore"
    by (simp add: sciobjects_wrapStoreError_def errors_Is_def as_ObjectVersionConflictError_def)
  ultimately show ?thesis using s by (auto simp: e relations_wrapStoreError_def errors_Is_def)
qed

theorem object_service_hides_validation_witness:
  "errors_Is (projl (fst (sciobjects_CreateObject sample_pg Some
      \<lparr>co_ProjectID = ''nowhere'', co_ObjectType = ''claim'', co_CreatedBy = ''u'', co_Version = sample_params\<rparr> sample_db)))
     sciobjects_ErrStore"
proof -
  let ?inp = "\<lparr>co_ProjectID = ''nowhere'', co_ObjectType = ''claim'', co_CreatedBy = ''u'', co_Version = sample_params\<rparr>"
  have v: "validateCreateObject Some ?inp" by code_simp
  have s: "objectstore_CreateObject sample_pg ?inp sample_db = (Inl (Sentinel sciobjects_ErrValidation), sample_db)"
    by (simp add: objectstore_CreateObject_def versionInsertParams_def abortInsertParams_def reopenInsertParams_def ptr_uuid_def
      sample_params_def sample_pg_def textUUID_def WithTx_def create_object_statements_def tx_bind_def CreateScientificObject_def
      CreateScientificObjectWithID_def sample_db_def as_PgError_def)
  then have "sciobjects_CreateObject sample_pg Some ?inp sample_db
      = (Inl (sciobjects_wrapStoreError (Sentinel sciobjects_ErrValidation)), sample_db)"
    using v by (simp add: sciobjects_CreateObject_def)
  from object_service_hides_validation [OF v this] s this show ?thesis by simp
qed

text \<open>A unique violation is not only a drifted counter: an abort whose request key another version of
  the object already carries is reported as a version conflict, although the counter was the
  expected one.\<close>

lemma repeated_abort_key_reported_as_version_conflict:
  "CreateVersionInTx sample_pg ''o'' 1
     (sample_params\<lparr>vp_LifecycleState := ''aborted'', vp_AbortRequestKey := ''12345678'',
        vp_Abort := Some \<lparr>ab_ReasonCode = ''r'', ab_Explanation = ''e'', ab_ReplacementRef = [], ab_DecidedBy = ''u'',
          ab_DecidedAt = \<lparr>instant = 1, zone = 0\<rparr>\<rparr>\<rparr>)
     (sample_db\<lparr>db_object_versions := map (\<lambda>r. r\<lparr>vr_AbortRequestKey := Some ''12345678''\<rparr>) (db_object_versions sample_db)\<rparr>)
   = Inl (ObjectVersionConflictError ''o'' 1 2)"
  "object_counter sample_db ''o'' = Some 1"
  by code_simp+

end
