(* ===== verification/Branches.thy ===== *)
theory Branches
  imports Store
begin

text \<open>
  Research branches: the branch vocabulary and names (internal/domain/branch.go), the PostgreSQL
  adapter (internal/persistence/branch_store.go) and the branch service
  (internal/application/branches/service.go).
\<close>

section \<open>Names, visibility and lifecycle\<close>

definition MainBranchName :: string where "MainBranchName = ''main''"

definition IsMain :: "Branch \<Rightarrow> bool" where
  "IsMain b \<longleftrightarrow> bn_Name b = MainBranchName"

definition ValidBranchVisibility :: "string \<Rightarrow> bool" where
  "ValidBranchVisibility v \<longleftrightarrow> v = ''public'' \<or> v = ''private''"

definition ValidBranchLifecycle :: "string \<Rightarrow> bool" where
  "ValidBranchLifecycle l \<longleftrightarrow> l = ''active'' \<or> l = ''merged'' \<or> l = ''aborted''"

definition AcceptsCommits :: "string \<Rightarrow> bool" where
  "AcceptsCommits l \<longleftrightarrow> l = ''active''"

text \<open>The functions of package \<open>strings\<close> the name check calls.\<close>

definition HasPrefix :: "string \<Rightarrow> string \<Rightarrow> bool" where
  "HasPrefix s p \<longleftrightarrow> take (length p) s = p"

definition HasSuffix :: "string \<Rightarrow> string \<Rightarrow> bool" where
  "HasSuffix s p \<longleftrightarrow> length p \<le> length s \<and> drop (length s - length p) s = p"

definition Contains :: "string \<Rightarrow> string \<Rightarrow> bool" where
  "Contains s p \<longleftrightarrow> list_ex (\<lambda>i. HasPrefix (drop i s) p) [0..<Suc (length s)]"

fun Split_on :: "char \<Rightarrow> string \<Rightarrow> string list" where
  "Split_on c [] = [[]]"
| "Split_on c (x # xs) =
     (if x = c then [] # Split_on c xs
      else (case Split_on c xs of [] \<Rightarrow> [[x]] | seg # segs \<Rightarrow> (x # seg) # segs))"

definition name_rune :: "char \<Rightarrow> bool" where
  "name_rune r \<longleftrightarrow>
     (CHR ''a'' \<le> r \<and> r \<le> CHR ''z'') \<or> (CHR ''A'' \<le> r \<and> r \<le> CHR ''Z'') \<or> (CHR ''0'' \<le> r \<and> r \<le> CHR ''9'')
     \<or> r = CHR ''.'' \<or> r = CHR ''_'' \<or> r = CHR ''-'' \<or> r = CHR ''/''"

definition ValidBranchName :: "string \<Rightarrow> bool" where
  "ValidBranchName name =
     (let n = TrimSpace name in
      if n = [] \<or> n \<noteq> name \<or> length n > 128 then False
      else if HasPrefix n ''/'' \<or> HasSuffix n ''/'' \<or> Contains n ''//'' then False
      else if HasSuffix n ''.lock'' \<or> HasSuffix n ''.'' \<or> HasPrefix n ''.'' then False
      else if Contains n (CHR ''@'' # ''{'') then False
      else if ToLower n = ''head'' then False
      else if list_ex (\<lambda>segment. segment = ''.'' \<or> segment = ''..'' \<or> segment = []) (Split_on (CHR ''/'') n) then False
      else list_all name_rune n)"

definition ValidBranchPurpose :: "string option \<Rightarrow> bool" where
  "ValidBranchPurpose purpose =
     (case purpose of
        None \<Rightarrow> True
      | Some s \<Rightarrow> (let p = TrimSpace s in p \<noteq> [] \<and> length p \<le> 2000))"

section \<open>The store\<close>

record CreateBranchParams =
  cb_ProjectID :: string
  cb_Name :: string
  cb_Visibility :: string
  cb_Purpose :: "string option"
  cb_BaseStateID :: string
  cb_CreatedBy :: string
  cb_GitRef :: string

definition mapBranchWriteError :: "go_error \<Rightarrow> go_error" where
  "mapBranchWriteError e =
     (case as_PgError e of
        Some (code, _) \<Rightarrow>
          if code = ''23505'' then Sentinel branches_ErrBranchNameTaken
          else if code = ''23503'' \<or> code = ''23502'' \<or> code = ''22P02'' then Sentinel branches_ErrValidation else e
      | None \<Rightarrow> e)"

definition create_branch_tx :: "pg \<Rightarrow> CreateBranchParams \<Rightarrow> string \<Rightarrow> string \<Rightarrow> string \<Rightarrow> Branch tx" where
  "create_branch_tx pg inp projectID baseStateID createdBy =
     tx_bind
       (tx_catch (GetProjectByID projectID)
          (\<lambda>e. tx_raise (if errors_Is e pgx_ErrNoRows then Sentinel projects_ErrProjectNotFound else e)))
       (\<lambda>project.
          let visibility = (if cb_Visibility inp = [] then pj_Visibility project else cb_Visibility inp) in
          if visibility = ''public'' \<and> pj_Visibility project = ''private''
          then tx_raise (Sentinel branches_ErrPublicBranchInPrivateProject)
          else tx_catch
            (CreateBranchFromState pg projectID (cb_Name inp) visibility (cb_Purpose inp) (cb_GitRef inp) baseStateID createdBy)
            (\<lambda>e. tx_raise (if errors_Is e pgx_ErrNoRows then Sentinel branches_ErrBaseStateNotFound
                           else mapBranchWriteError e)))"

definition store_CreateBranch :: "pg \<Rightarrow> CreateBranchParams \<Rightarrow> database \<Rightarrow> (go_error + Branch) \<times> database" where
  "store_CreateBranch pg inp db =
     (case (textUUID pg (cb_ProjectID inp), textUUID pg (cb_BaseStateID inp), textUUID pg (cb_CreatedBy inp)) of
        (Some projectID, Some baseStateID, Some createdBy) \<Rightarrow>
          if cb_Visibility inp \<noteq> [] \<and> \<not> ValidBranchVisibility (cb_Visibility inp)
          then (Inl (Sentinel branches_ErrValidation), db)
          else
            (case WithTx pg (create_branch_tx pg inp projectID baseStateID createdBy) db of
               (Inr created, db') \<Rightarrow> (Inr created, db')
             | (Inl e, db') \<Rightarrow>
                 (Inl (if list_ex (errors_Is e) [branches_ErrBaseStateNotFound, branches_ErrBranchNameTaken,
                            branches_ErrPublicBranchInPrivateProject, branches_ErrValidation, projects_ErrProjectNotFound]
                       then e else Errorf e), db'))
      | _ \<Rightarrow> (Inl (Sentinel branches_ErrValidation), db))"

definition store_GetBranch :: "pg \<Rightarrow> string \<Rightarrow> string \<Rightarrow> database \<Rightarrow> go_error + Branch" where
  "store_GetBranch pg projectID branchID db =
     (case (textUUID pg projectID, textUUID pg branchID) of
        (Some pid, Some i) \<Rightarrow>
          (case pool_query pg (GetBranchByProjectAndID i pid) db of
             Inl e \<Rightarrow> Inl (if errors_Is e pgx_ErrNoRows \<or> isInvalidText e then Sentinel branches_ErrBranchNotFound else Errorf e)
           | Inr b \<Rightarrow> Inr b)
      | _ \<Rightarrow> Inl (Sentinel branches_ErrBranchNotFound))"

definition store_ListBranches :: "pg \<Rightarrow> string \<Rightarrow> database \<Rightarrow> go_error + Branch list" where
  "store_ListBranches pg projectID db =
     (case textUUID pg projectID of
        None \<Rightarrow> Inr []
      | Some i \<Rightarrow> map_sum Errorf (\<lambda>rows. rows) (pool_list pg (ListBranchesByProject i) db))"

definition store_SetBranchLifecycle ::
  "pg \<Rightarrow> string \<Rightarrow> string \<Rightarrow> string \<Rightarrow> database \<Rightarrow> (go_error + Branch) \<times> database" where
  "store_SetBranchLifecycle pg projectID branchID to db =
     (if \<not> ValidBranchLifecycle to \<or> to = ''active'' then (Inl (Sentinel branches_ErrValidation), db)
      else case (textUUID pg projectID, textUUID pg branchID) of
        (Some pid, Some i) \<Rightarrow>
          (case pool_exec pg (SetBranchLifecycle_query i pid to) db of
             (Inr b, db') \<Rightarrow> (Inr b, db')
           | (Inl e, db') \<Rightarrow>
               (Inl (if errors_Is e pgx_ErrNoRows then
                       (case store_GetBranch pg projectID branchID db' of
                          Inl g \<Rightarrow> if errors_Is g branches_ErrBranchNotFound then Sentinel branches_ErrBranchNotFound else g
                        | Inr current \<Rightarrow>
                            if bn_Name current = MainBranchName then Sentinel branches_ErrMainProtected
                            else NotActiveError branchID (bn_Lifecycle current))
                     else if isInvalidText e then Sentinel branches_ErrBranchNotFound else Errorf e), db'))
      | _ \<Rightarrow> (Inl (Sentinel branches_ErrBranchNotFound), db))"

definition branchstore_GetBranchHead :: "pg \<Rightarrow> string \<Rightarrow> database \<Rightarrow> go_error + ProjectState" where
  "branchstore_GetBranchHead pg branchID db =
     (case textUUID pg branchID of
        None \<Rightarrow> Inl (Sentinel branches_ErrBranchNotFound)
      | Some i \<Rightarrow>
          (case pool_query pg (GetBranchByID i) db of
             Inl e \<Rightarrow> Inl (if errors_Is e pgx_ErrNoRows \<or> isInvalidText e then Sentinel branches_ErrBranchNotFound else Errorf e)
           | Inr branch \<Rightarrow>
               (case bn_BaseStateID branch of
                  None \<Rightarrow> Inl (Sentinel branches_ErrStateNotFound)
                | Some h \<Rightarrow>
                    (case pool_query pg (GetProjectStateByID h) db of
                       Inl e \<Rightarrow> Inl (if errors_Is e pgx_ErrNoRows then Sentinel branches_ErrStateNotFound else Errorf e)
                     | Inr s \<Rightarrow> Inr s))))"

definition store_GetBranchProject :: "pg \<Rightarrow> string \<Rightarrow> database \<Rightarrow> go_error + string" where
  "store_GetBranchProject pg branchID db =
     (case textUUID pg branchID of
        None \<Rightarrow> Inl (Sentinel branches_ErrBranchNotFound)
      | Some i \<Rightarrow>
          (case pool_query pg (GetBranchByID i) db of
             Inl e \<Rightarrow> Inl (if errors_Is e pgx_ErrNoRows \<or> isInvalidText e then Sentinel branches_ErrBranchNotFound else Errorf e)
           | Inr branch \<Rightarrow> Inr (bn_ProjectID branch)))"

section \<open>The service\<close>

definition branches_wrapStoreError :: "go_error \<Rightarrow> go_error" where
  "branches_wrapStoreError e =
     (if list_ex (errors_Is e) [branches_ErrBranchNotFound, branches_ErrBranchNameTaken, branches_ErrBaseStateNotFound,
           branches_ErrBranchNotActive, branches_ErrMainProtected, branches_ErrPublicBranchInPrivateProject,
           branches_ErrStateNotFound, branches_ErrValidation, projects_ErrProjectNotFound]
         \<or> as_NotActiveError e
      then e else Errorf (Sentinel branches_ErrStore))"

text \<open>The shape checks of a creation request: \<open>True\<close> when the request passes.  Every
  refusal is \<open>ErrValidation\<close> with its own message.\<close>

definition validateCreate :: "CreateBranchParams \<Rightarrow> bool" where
  "validateCreate inp \<longleftrightarrow>
     cb_ProjectID inp \<noteq> []
     \<and> ValidBranchName (cb_Name inp)
     \<and> \<not> (cb_Visibility inp \<noteq> [] \<and> \<not> ValidBranchVisibility (cb_Visibility inp))
     \<and> ValidBranchPurpose (cb_Purpose inp)
     \<and> cb_BaseStateID inp \<noteq> []
     \<and> cb_CreatedBy inp \<noteq> []"

definition branches_Create :: "pg \<Rightarrow> CreateBranchParams \<Rightarrow> database \<Rightarrow> (go_error + Branch) \<times> database" where
  "branches_Create pg inp db =
     (if \<not> validateCreate inp then (Inl (Errorf (Sentinel branches_ErrValidation)), db)
      else
        (case store_CreateBranch pg (inp\<lparr>cb_GitRef := ''refs/heads/'' @ cb_Name inp\<rparr>) db of
           (Inr b, db') \<Rightarrow> (Inr b, db')
         | (Inl e, db') \<Rightarrow> (Inl (branches_wrapStoreError e), db')))"

definition branches_Get :: "pg \<Rightarrow> string \<Rightarrow> string \<Rightarrow> database \<Rightarrow> go_error + Branch" where
  "branches_Get pg projectID branchID db =
     (if projectID = [] \<or> branchID = [] then Inl (Errorf (Sentinel branches_ErrValidation))
      else map_sum branches_wrapStoreError (\<lambda>b. b) (store_GetBranch pg projectID branchID db))"

definition branches_List :: "pg \<Rightarrow> string \<Rightarrow> database \<Rightarrow> go_error + Branch list" where
  "branches_List pg projectID db =
     (if projectID = [] then Inl (Errorf (Sentinel branches_ErrValidation))
      else map_sum branches_wrapStoreError (\<lambda>b. b) (store_ListBranches pg projectID db))"

definition branches_setLifecycle ::
  "pg \<Rightarrow> string \<Rightarrow> string \<Rightarrow> string \<Rightarrow> database \<Rightarrow> (go_error + Branch) \<times> database" where
  "branches_setLifecycle pg projectID branchID to db =
     (if projectID = [] \<or> branchID = [] then (Inl (Errorf (Sentinel branches_ErrValidation)), db)
      else
        (case store_SetBranchLifecycle pg projectID branchID to db of
           (Inr b, db') \<Rightarrow> (Inr b, db')
         | (Inl e, db') \<Rightarrow> (Inl (branches_wrapStoreError e), db')))"

definition branches_Merge :: "pg \<Rightarrow> string \<Rightarrow> string \<Rightarrow> database \<Rightarrow> (go_error + Branch) \<times> database" where
  "branches_Merge pg projectID branchID = branches_setLifecycle pg projectID branchID ''merged''"

definition branches_Abort :: "pg \<Rightarrow> string \<Rightarrow> string \<Rightarrow> database \<Rightarrow> (go_error + Branch) \<times> database" where
  "branches_Abort pg projectID branchID = branches_setLifecycle pg projectID branchID ''aborted''"

definition branches_GetHead :: "pg \<Rightarrow> string \<Rightarrow> database \<Rightarrow> go_error + ProjectState" where
  "branches_GetHead pg branchID db =
     (if branchID = [] then Inl (Errorf (Sentinel branches_ErrValidation))
      else map_sum branches_wrapStoreError (\<lambda>b. b) (branchstore_GetBranchHead pg branchID db))"

end
