(* ===== verification/StateCommits.thy ===== *)
theory StateCommits
  imports SemanticWrites Branches
begin

text \<open>
  State transitions: the commit transaction of the PostgreSQL adapter
  (internal/persistence/state_store.go), the validation guard that runs inside it
  (internal/application/validation/guard.go with the probe of
  internal/persistence/validation_adapters.go) and the states service
  (internal/application/states/service.go).  A commit inserts the result state, advances the
  branch head by a compare-and-swap, runs the caller's semantic writes and the gate over the rows
  they left, and records the commit, in one transaction.
\<close>

section \<open>The commit transaction\<close>

record CommitStateParams =
  cs_ProjectID :: string
  cs_BranchID :: string
  cs_ActorID :: string
  cs_Via :: StateVia
  cs_Message :: string
  cs_Operations :: "StateOperation list"
  cs_BaseStateID :: "string option"
  cs_StateHash :: string
  cs_GitCommitSHA :: "string option"
  cs_ManifestVersion :: string
  cs_ResearchPRMerge :: bool

type_synonym WriteFunc = "string \<Rightarrow> unit tx"

text \<open>Step 0, the refusal of direct writes to a frozen main.\<close>

definition require_not_frozen :: "string \<Rightarrow> string \<Rightarrow> unit tx" where
  "require_not_frozen branchID projectID = (\<lambda>db.
     case GetMainFrozenForBranch branchID projectID db of
       Inl e \<Rightarrow> if errors_Is e pgx_ErrNoRows then Inr ((), db) else Inl e
     | Inr (frozen, _) \<Rightarrow> if frozen then Inl (MainFrozenDirectWriteError projectID branchID) else Inr ((), db))"

definition branchCASConflict :: "string \<Rightarrow> string \<Rightarrow> string option \<Rightarrow> 'a tx" where
  "branchCASConflict branchID projectID expected =
     tx_bind
       (tx_catch (GetBranchByID branchID)
          (\<lambda>e. tx_raise (if errors_Is e pgx_ErrNoRows then Sentinel states_ErrBranchNotFound else e)))
       (\<lambda>branch.
          if bn_ProjectID branch \<noteq> projectID then tx_raise (Sentinel states_ErrBranchNotFound)
          else if bn_Lifecycle branch \<noteq> ''active'' then tx_raise (BranchNotActiveError branchID (bn_Lifecycle branch))
          else tx_raise (StateConflictError branchID expected (bn_BaseStateID branch)))"

definition nonempty_text :: "string option \<Rightarrow> string option" where
  "nonempty_text s = (case s of None \<Rightarrow> None | Some t \<Rightarrow> if t = [] then None else Some t)"

definition commit_statements ::
  "pg \<Rightarrow> CommitStateParams \<Rightarrow> WriteFunc \<Rightarrow> string \<Rightarrow> string \<Rightarrow> string \<Rightarrow> string option \<Rightarrow> raw \<Rightarrow> (ProjectState \<times> StateCommit) tx" where
  "commit_statements pg inp write projectID branchID actorID base opsJSON =
     tx_bind (if cs_ResearchPRMerge inp then tx_return () else require_not_frozen branchID projectID) (\<lambda>_.
     tx_bind (CreateProjectState pg projectID (Some branchID) base (cs_StateHash inp)
                (nonempty_text (cs_GitCommitSHA inp)) (cs_ManifestVersion inp)) (\<lambda>sRow.
     tx_bind (tx_catch (UpdateBranchBaseState branchID projectID (ps_ID sRow) base)
                (\<lambda>e. if errors_Is e pgx_ErrNoRows then branchCASConflict branchID projectID (cs_BaseStateID inp)
                     else tx_raise e)) (\<lambda>_.
     tx_bind (mapping_errors CommitWriteError (write (ps_ID sRow))) (\<lambda>_.
     tx_bind (CreateStateCommit pg projectID branchID base (ps_ID sRow) actorID (cs_Via inp) (cs_Message inp) opsJSON) (\<lambda>cRow.
       tx_return (sRow, cRow))))))"

definition containsBranchFK :: "string \<Rightarrow> bool" where
  "containsBranchFK con \<longleftrightarrow> con = ''project_states_branch_id_fkey'' \<or> con = ''state_commits_branch_id_fkey''"

definition mapStateWriteError :: "go_error \<Rightarrow> go_error" where
  "mapStateWriteError e =
     (if errors_Is e states_ErrStateExists \<or> errors_Is e states_ErrBranchNotFound \<or> errors_Is e states_ErrValidation
         \<or> as_StateConflictError e \<or> as_CommitWriteError e \<noteq> None \<or> as_MainFrozenDirectWriteError e
      then e
      else case as_PgError e of
        Some (code, con) \<Rightarrow>
          if code = ''23505'' then Sentinel states_ErrStateExists
          else if code = ''23503'' then (if containsBranchFK con then Sentinel states_ErrBranchNotFound else Sentinel states_ErrValidation)
          else if code = ''23514'' \<or> code = ''23502'' \<or> code = ''22P02'' then Sentinel states_ErrValidation
          else Errorf e
      | None \<Rightarrow> Errorf e)"

definition CommitState ::
  "pg \<Rightarrow> CommitStateParams \<Rightarrow> WriteFunc \<Rightarrow> database \<Rightarrow> (go_error + ProjectState \<times> StateCommit) \<times> database" where
  "CommitState pg inp write db =
     (case (textUUID pg (cs_ProjectID inp), textUUID pg (cs_BranchID inp), textUUID pg (cs_ActorID inp), optionalUUIDPtr pg (cs_BaseStateID inp)) of
        (Some projectID, Some branchID, Some actorID, Some base) \<Rightarrow>
          (case marshal_operations (cs_Operations inp) of
             None \<Rightarrow> (Inl (Errorf (Sentinel states_ErrValidation)), db)
           | Some opsJSON \<Rightarrow>
               map_prod (map_sum mapStateWriteError (\<lambda>r. r)) (\<lambda>d. d)
                 (WithTx pg (commit_statements pg inp write projectID branchID actorID base opsJSON) db))
      | _ \<Rightarrow> (Inl (Sentinel states_ErrValidation), db))"

text \<open>The genesis state: no parent, no branch, no commit.\<close>

definition store_CreateInitialState ::
  "pg \<Rightarrow> string \<Rightarrow> string \<Rightarrow> string option \<Rightarrow> string \<Rightarrow> database \<Rightarrow> (go_error + ProjectState) \<times> database" where
  "store_CreateInitialState pg projectID hash gitSha manifest db =
     (case textUUID pg projectID of
        None \<Rightarrow> (Inl (Sentinel states_ErrValidation), db)
      | Some p \<Rightarrow>
          (case pool_exec pg (CreateProjectState pg p None None hash (nonempty_text gitSha) manifest) db of
             (Inr row, db') \<Rightarrow> (Inr row, db')
           | (Inl e, db') \<Rightarrow>
               (Inl (case as_PgError e of
                       Some (code, _) \<Rightarrow>
                         if code = ''23505'' then Sentinel states_ErrStateExists
                         else if code = ''23503'' \<or> code = ''23502'' \<or> code = ''22P02'' then Sentinel states_ErrValidation
                         else Errorf e
                     | None \<Rightarrow> Errorf e), db')))"

section \<open>Reads\<close>

definition store_GetState :: "pg \<Rightarrow> string \<Rightarrow> database \<Rightarrow> go_error + ProjectState" where
  "store_GetState pg stateID db =
     (case textUUID pg stateID of
        None \<Rightarrow> Inl (Sentinel states_ErrStateNotFound)
      | Some i \<Rightarrow> map_sum (not_found_as states_ErrStateNotFound) (\<lambda>r. r) (pool_query pg (GetProjectStateByID i) db))"

definition store_GetStateByHash :: "pg \<Rightarrow> string \<Rightarrow> string \<Rightarrow> database \<Rightarrow> go_error + ProjectState" where
  "store_GetStateByHash pg projectID hash db =
     (case textUUID pg projectID of
        None \<Rightarrow> Inl (Sentinel states_ErrStateNotFound)
      | Some i \<Rightarrow> map_sum (not_found_as states_ErrStateNotFound) (\<lambda>r. r) (pool_query pg (GetProjectStateByHash i hash) db))"

definition store_GetLatestState :: "pg \<Rightarrow> string \<Rightarrow> database \<Rightarrow> go_error + ProjectState" where
  "store_GetLatestState pg projectID db =
     (case textUUID pg projectID of
        None \<Rightarrow> Inl (Sentinel states_ErrStateNotFound)
      | Some i \<Rightarrow> map_sum (not_found_as states_ErrStateNotFound) (\<lambda>r. r) (pool_query pg (GetLatestProjectState i) db))"

definition store_GetBranchHead :: "pg \<Rightarrow> string \<Rightarrow> database \<Rightarrow> go_error + ProjectState" where
  "store_GetBranchHead pg branchID db =
     (case textUUID pg branchID of
        None \<Rightarrow> Inl (Sentinel states_ErrBranchNotFound)
      | Some i \<Rightarrow>
          (case pool_query pg (GetBranchByID i) db of
             Inl e \<Rightarrow> Inl (not_found_as states_ErrBranchNotFound e)
           | Inr branch \<Rightarrow>
               (case bn_BaseStateID branch of
                  None \<Rightarrow> Inl (Sentinel states_ErrStateNotFound)
                | Some h \<Rightarrow> store_GetState pg h db)))"

definition store_ListStates :: "pg \<Rightarrow> string \<Rightarrow> database \<Rightarrow> go_error + ProjectState list" where
  "store_ListStates pg branchID db =
     (case textUUID pg branchID of
        None \<Rightarrow> Inr []
      | Some i \<Rightarrow> map_sum Errorf (\<lambda>r. r) (pool_list pg (ListProjectStatesByBranch i) db))"

definition store_GetCommit :: "pg \<Rightarrow> string \<Rightarrow> database \<Rightarrow> go_error + StateCommit" where
  "store_GetCommit pg commitID db =
     (case textUUID pg commitID of
        None \<Rightarrow> Inl (Sentinel states_ErrCommitNotFound)
      | Some i \<Rightarrow> map_sum (not_found_as states_ErrCommitNotFound) (\<lambda>r. r) (pool_query pg (GetStateCommitByID i) db))"

definition store_ListCommits :: "pg \<Rightarrow> string \<Rightarrow> database \<Rightarrow> go_error + StateCommit list" where
  "store_ListCommits pg branchID db =
     (case textUUID pg branchID of
        None \<Rightarrow> Inr []
      | Some i \<Rightarrow> map_sum Errorf (\<lambda>r. r) (pool_list pg (ListStateCommitsByBranch i) db))"

definition store_ListStateObjectVersions :: "pg \<Rightarrow> string \<Rightarrow> database \<Rightarrow> go_error + ScientificObjectVersion list" where
  "store_ListStateObjectVersions pg stateID db =
     (case textUUID pg stateID of
        None \<Rightarrow> Inr []
      | Some i \<Rightarrow> map_sum Errorf (\<lambda>r. r) (pool_list pg (ListStateObjectVersionsByState i) db))"

definition store_ListStateRelationVersions :: "pg \<Rightarrow> string \<Rightarrow> database \<Rightarrow> go_error + RelationVersion list" where
  "store_ListStateRelationVersions pg stateID db =
     (case textUUID pg stateID of
        None \<Rightarrow> Inr []
      | Some i \<Rightarrow> map_sum Errorf (\<lambda>r. r) (pool_list pg (ListStateRelationVersionsByState i) db))"

section \<open>The guard\<close>

record CommitFacts =
  cf_ProjectID :: string
  cf_BranchID :: string
  cf_ActorID :: string
  cf_BaseStateID :: "string option"
  cf_ResultStateID :: string
  cf_Operations :: "StateOperation list"

text \<open>The probe reads through the transaction; a malformed id is its error.\<close>

definition probe_list :: "pg \<Rightarrow> (string \<Rightarrow> database \<Rightarrow> 'a list) \<Rightarrow> string \<Rightarrow> database \<Rightarrow> go_error + 'a list" where
  "probe_list pg q i db =
     (case textUUID pg i of None \<Rightarrow> Inl (Errorf (Sentinel validation_ErrValidation)) | Some u \<Rightarrow> Inr (q u db))"

definition add_unseen :: "('r \<Rightarrow> string) \<Rightarrow> 'r \<Rightarrow> 'r list \<Rightarrow> 'r list" where
  "add_unseen rid r rs = (if rid r \<in> set (map rid rs) then rs else rs @ [r])"

text \<open>One round of the member loop: the versions of a state that no earlier state listed.\<close>

definition collect_members ::
  "pg \<Rightarrow> database \<Rightarrow> ProjectState \<Rightarrow> ScientificObjectVersion list \<times> RelationVersion list \<Rightarrow>
   go_error + ScientificObjectVersion list \<times> RelationVersion list" where
  "collect_members pg db st acc =
     (case probe_list pg ListStateObjectVersionsByState (ps_ID st) db of
        Inl _ \<Rightarrow> Inl (Errorf (Sentinel validation_ErrStore))
      | Inr ovs \<Rightarrow>
          (case probe_list pg ListStateRelationVersionsByState (ps_ID st) db of
             Inl _ \<Rightarrow> Inl (Errorf (Sentinel validation_ErrStore))
           | Inr rvs \<Rightarrow> Inr (fold (add_unseen sv_ID) ovs (fst acc), fold (add_unseen rv_ID) rvs (snd acc))))"

definition in_flight :: "CommitFacts \<Rightarrow> raw \<Rightarrow> StateCommit" where
  "in_flight facts summary = \<lparr>cm_ID = ''in-flight'', cm_ProjectID = cf_ProjectID facts, cm_BranchID = cf_BranchID facts,
     cm_BaseStateID = cf_BaseStateID facts, cm_ResultStateID = cf_ResultStateID facts, cm_ActorID = cf_ActorID facts,
     cm_Via = [], cm_Message = [], cm_OperationSummary = summary, cm_CreatedAt = \<lparr>instant = 0, zone = 0\<rparr>\<rparr>"

definition commit_snapshot ::
  "CommitFacts \<Rightarrow> ProjectState \<Rightarrow> ProjectState list \<Rightarrow> StateCommit list \<Rightarrow> ScientificObjectVersion list \<Rightarrow> RelationVersion list \<Rightarrow> raw
   \<Rightarrow> GateSnapshot" where
  "commit_snapshot facts head states commits objs rels summary =
     \<lparr>vs_ProjectID = cf_ProjectID facts, vs_BranchID = cf_BranchID facts, vs_Head = Some head, vs_States = states,
      vs_Commits = commits @ [in_flight facts summary], vs_ObjectVersions = objs, vs_RelationVersions = rels,
      vs_Release = None, vs_Asset = None\<rparr>"

text \<open>\<open>RequireCommitGate\<close> reads and judges; \<open>None\<close> is the nil error.\<close>

definition RequireCommitGate :: "pg \<Rightarrow> 'c Validator \<Rightarrow> Gate \<Rightarrow> CommitFacts \<Rightarrow> database \<Rightarrow> go_error option" where
  "RequireCommitGate pg val gate facts db =
     (if \<not> ValidCommitGate gate then Some (Errorf (Sentinel validation_ErrValidation))
      else case (probe_list pg ListProjectStatesByBranch (cf_BranchID facts) db, probe_list pg ListStateCommitsByBranch (cf_BranchID facts) db) of
        (Inr states, Inr commits) \<Rightarrow>
          (case find (\<lambda>s. ps_ID s = cf_ResultStateID facts) states of
             None \<Rightarrow> Some (Errorf (Sentinel validation_ErrStore))
           | Some head \<Rightarrow>
               (case fold_err (collect_members pg db) states ([], []) of
                  Inl e \<Rightarrow> Some e
                | Inr (objs, rels) \<Rightarrow>
                    (case marshal_operations (cf_Operations facts) of
                       None \<Rightarrow> Some (Errorf (Sentinel validation_ErrValidation))
                     | Some summary \<Rightarrow>
                         let report = Validate val gate (commit_snapshot facts head states commits objs rels summary)
                         in if Blocked report then Some (GateBlockedError report) else None)))
      | _ \<Rightarrow> Some (Errorf (Sentinel validation_ErrStore)))"

section \<open>The service\<close>

record CommitParams =
  cp_ProjectID :: string
  cp_BranchID :: string
  cp_ActorID :: string
  cp_Via :: StateVia
  cp_Message :: string
  cp_Operations :: "StateOperation list"
  cp_BaseStateID :: "string option"
  cp_GitCommitSHA :: "string option"
  cp_ManifestVersion :: string
  cp_Gate :: Gate
  cp_ResearchPRMerge :: bool

text \<open>\<open>json.Unmarshal\<close> into \<open>any\<close>.\<close>

definition decodes :: "(string \<Rightarrow> string option) \<Rightarrow> raw \<Rightarrow> bool" where
  "decodes renum r = (case unmarshal_doc r of Some v \<Rightarrow> float_ok renum v | None \<Rightarrow> False)"

definition valid_operation :: "(string \<Rightarrow> string option) \<Rightarrow> StateOperation \<Rightarrow> bool" where
  "valid_operation renum op \<longleftrightarrow>
     ValidStateOperationKind (op_Kind op) \<and> op_EntityID op \<noteq> [] \<and> (op_Detail op \<noteq> [] \<longrightarrow> decodes renum (op_Detail op))"

text \<open>\<open>True\<close> when the parameters pass; every refusal is \<open>ErrValidation\<close>.\<close>

definition validateCommitParams :: "(string \<Rightarrow> string option) \<Rightarrow> CommitParams \<Rightarrow> bool" where
  "validateCommitParams renum inp \<longleftrightarrow>
     cp_ProjectID inp \<noteq> []
     \<and> cp_BranchID inp \<noteq> []
     \<and> cp_ActorID inp \<noteq> []
     \<and> ValidStateVia (cp_Via inp)
     \<and> TrimSpace (cp_Message inp) \<noteq> []
     \<and> cp_Operations inp \<noteq> []
     \<and> list_all (valid_operation renum) (cp_Operations inp)
     \<and> TrimSpace (cp_ManifestVersion inp) \<noteq> []
     \<and> ValidCommitGate (cp_Gate inp)"

definition states_wrapStoreError :: "go_error \<Rightarrow> go_error" where
  "states_wrapStoreError e =
     (if list_ex (errors_Is e) [states_ErrStateNotFound, states_ErrCommitNotFound, states_ErrBranchNotFound,
           states_ErrStateExists, states_ErrValidation]
         \<or> as_StateConflictError e \<or> as_BranchNotActiveError e \<or> as_MainFrozenDirectWriteError e
      then e
      else case as_CommitWriteError e of Some w \<Rightarrow> w | None \<Rightarrow> Errorf (Sentinel states_ErrStore))"

definition commit_facts :: "CommitParams \<Rightarrow> string \<Rightarrow> CommitFacts" where
  "commit_facts inp stateID = \<lparr>cf_ProjectID = cp_ProjectID inp, cf_BranchID = cp_BranchID inp, cf_ActorID = cp_ActorID inp,
     cf_BaseStateID = cp_BaseStateID inp, cf_ResultStateID = stateID, cf_Operations = cp_Operations inp\<rparr>"

definition guarded :: "pg \<Rightarrow> 'c Validator \<Rightarrow> CommitParams \<Rightarrow> WriteFunc \<Rightarrow> WriteFunc" where
  "guarded pg val inp write = (\<lambda>stateID.
     tx_bind (write stateID) (\<lambda>_ db.
       case RequireCommitGate pg val (cp_Gate inp) (commit_facts inp stateID) db of
         Some e \<Rightarrow> Inl e | None \<Rightarrow> Inr ((), db)))"

definition commit_state_params :: "CommitParams \<Rightarrow> string \<Rightarrow> CommitStateParams" where
  "commit_state_params inp hash =
     \<lparr>cs_ProjectID = cp_ProjectID inp, cs_BranchID = cp_BranchID inp, cs_ActorID = cp_ActorID inp,
      cs_Via = cp_Via inp, cs_Message = cp_Message inp, cs_Operations = cp_Operations inp,
      cs_BaseStateID = cp_BaseStateID inp, cs_StateHash = hash, cs_GitCommitSHA = cp_GitCommitSHA inp,
      cs_ManifestVersion = cp_ManifestVersion inp, cs_ResearchPRMerge = cp_ResearchPRMerge inp\<rparr>"

text \<open>\<open>Commit\<close> with the callback and the guard possibly nil; \<open>sha\<close> is the digest of
  the state's content address.\<close>

definition Commit ::
  "pg \<Rightarrow> (raw \<Rightarrow> string) \<Rightarrow> (string \<Rightarrow> string option) \<Rightarrow> 'c Validator option \<Rightarrow> CommitParams \<Rightarrow> WriteFunc option \<Rightarrow> database \<Rightarrow>
   (go_error + ProjectState \<times> StateCommit) \<times> database" where
  "Commit pg sha renum guard inp write db =
     (case write of
        None \<Rightarrow> (Inl (Errorf (Sentinel states_ErrValidation)), db)
      | Some w \<Rightarrow>
          (case guard of
             None \<Rightarrow> (Inl (Errorf (Sentinel states_ErrStore)), db)
           | Some val \<Rightarrow>
               if \<not> validateCommitParams renum inp then (Inl (Errorf (Sentinel states_ErrValidation)), db)
               else
                 (case ComputeStateHash sha (cp_BaseStateID inp) (cp_Operations inp) of
                    None \<Rightarrow> (Inl (Errorf (Sentinel states_ErrValidation)), db)
                  | Some hash \<Rightarrow>
                      map_prod (map_sum states_wrapStoreError (\<lambda>r. r)) (\<lambda>d. d)
                        (CommitState pg (commit_state_params inp hash) (guarded pg val inp w) db))))"

definition CreateInitialState ::
  "pg \<Rightarrow> (raw \<Rightarrow> string) \<Rightarrow> string \<Rightarrow> string option \<Rightarrow> string \<Rightarrow> database \<Rightarrow> (go_error + ProjectState) \<times> database" where
  "CreateInitialState pg sha projectID gitSha manifest db =
     (if projectID = [] then (Inl (Errorf (Sentinel states_ErrValidation)), db)
      else if TrimSpace manifest = [] then (Inl (Errorf (Sentinel states_ErrValidation)), db)
      else
        (case ComputeStateHash sha None [] of
           None \<Rightarrow> (Inl (Errorf (Sentinel states_ErrValidation)), db)
         | Some hash \<Rightarrow>
             map_prod (map_sum states_wrapStoreError (\<lambda>r. r)) (\<lambda>d. d)
               (store_CreateInitialState pg projectID hash gitSha manifest db)))"

text \<open>The reads of the service: an empty id is \<open>ErrValidation\<close>, the store's errors are
  wrapped.\<close>

definition service_read :: "bool \<Rightarrow> go_error + 'a \<Rightarrow> go_error + 'a" where
  "service_read present r =
     (if \<not> present then Inl (Errorf (Sentinel states_ErrValidation)) else map_sum states_wrapStoreError (\<lambda>r. r) r)"

definition states_GetState :: "pg \<Rightarrow> string \<Rightarrow> database \<Rightarrow> go_error + ProjectState" where
  "states_GetState pg stateID db = service_read (stateID \<noteq> []) (store_GetState pg stateID db)"

definition states_GetStateByHash :: "pg \<Rightarrow> string \<Rightarrow> string \<Rightarrow> database \<Rightarrow> go_error + ProjectState" where
  "states_GetStateByHash pg projectID hash db =
     service_read (\<not> (projectID = [] \<or> hash = [])) (store_GetStateByHash pg projectID hash db)"

definition states_GetBranchHead :: "pg \<Rightarrow> string \<Rightarrow> database \<Rightarrow> go_error + ProjectState" where
  "states_GetBranchHead pg branchID db = service_read (branchID \<noteq> []) (store_GetBranchHead pg branchID db)"

definition states_ListStates :: "pg \<Rightarrow> string \<Rightarrow> database \<Rightarrow> go_error + ProjectState list" where
  "states_ListStates pg branchID db = service_read (branchID \<noteq> []) (store_ListStates pg branchID db)"

definition states_GetCommit :: "pg \<Rightarrow> string \<Rightarrow> database \<Rightarrow> go_error + StateCommit" where
  "states_GetCommit pg commitID db = service_read (commitID \<noteq> []) (store_GetCommit pg commitID db)"

definition states_ListCommits :: "pg \<Rightarrow> string \<Rightarrow> database \<Rightarrow> go_error + StateCommit list" where
  "states_ListCommits pg branchID db = service_read (branchID \<noteq> []) (store_ListCommits pg branchID db)"

definition states_ListStateObjectVersions :: "pg \<Rightarrow> string \<Rightarrow> database \<Rightarrow> go_error + ScientificObjectVersion list" where
  "states_ListStateObjectVersions pg stateID db = service_read (stateID \<noteq> []) (store_ListStateObjectVersions pg stateID db)"

definition states_ListStateRelationVersions :: "pg \<Rightarrow> string \<Rightarrow> database \<Rightarrow> go_error + RelationVersion list" where
  "states_ListStateRelationVersions pg stateID db = service_read (stateID \<noteq> []) (store_ListStateRelationVersions pg stateID db)"

section \<open>The effect of a commit\<close>

lemma CreateProjectState_effect:
  assumes "CreateProjectState pg p branch parent hash sha mv db = Inr (s, db')"
  shows "ps_ID s \<notin> ps_ID ` set (db_states db)"
    and "db' = db\<lparr>db_states := db_states db @ [s], db_seq := Suc (db_seq db)\<rparr>"
    and "ps_ProjectID s = p" "ps_BranchID s = branch" "ps_ParentStateID s = parent" "ps_StateHash s = hash"
    and "\<And>i. branch = Some i \<Longrightarrow> i \<in> bn_ID ` set (db_branches db)"
    and "\<And>i. parent = Some i \<Longrightarrow> i = ps_ID s \<or> i \<in> ps_ID ` set (db_states db)"
    and "\<forall>t \<in> set (db_states db). \<not> (ps_ProjectID t = p \<and> ps_StateHash t = hash)"
proof -
  note * = assms [unfolded CreateProjectState_def Let_def violation_guard violation_ok]
  from * have s: "s = \<lparr>ps_ID = pg_uuid pg (db_seq db), ps_ProjectID = p, ps_BranchID = branch, ps_ParentStateID = parent,
      ps_StateHash = hash, ps_GitCommitSHA = sha, ps_ManifestVersion = mv, ps_CreatedAt = pg_now pg\<rparr>" by simp
  then show "ps_ProjectID s = p" "ps_BranchID s = branch" "ps_ParentStateID s = parent" "ps_StateHash s = hash" by simp_all
  from * show "ps_ID s \<notin> ps_ID ` set (db_states db)" "db' = db\<lparr>db_states := db_states db @ [s], db_seq := Suc (db_seq db)\<rparr>"
    by (auto simp: s)
  from * show "\<And>i. branch = Some i \<Longrightarrow> i \<in> bn_ID ` set (db_branches db)"
    and "\<And>i. parent = Some i \<Longrightarrow> i = ps_ID s \<or> i \<in> ps_ID ` set (db_states db)"
    by (simp_all add: s references_def)
  from * show "\<forall>t \<in> set (db_states db). \<not> (ps_ProjectID t = p \<and> ps_StateHash t = hash)"
    by (simp add: list_ex_iff)
qed

lemma CreateStateCommit_effect:
  assumes "CreateStateCommit pg p i base res actor via msg summary db = Inr (c, db')"
  shows "cm_ID c \<notin> cm_ID ` set (db_commits db)"
    and "db' = db\<lparr>db_commits := db_commits db @ [c], db_seq := Suc (db_seq db)\<rparr>"
    and "cm_ProjectID c = p" "cm_BranchID c = i" "cm_BaseStateID c = base" "cm_ResultStateID c = res" "cm_ActorID c = actor"
    and "pg_jsonb pg summary = Some (cm_OperationSummary c)"
proof -
  from assms obtain x where x: "pg_jsonb pg summary = Some x" by (auto simp: CreateStateCommit_def split: option.splits)
  note * = assms [unfolded CreateStateCommit_def Let_def x option.case violation_guard violation_ok]
  from * show "cm_ID c \<notin> cm_ID ` set (db_commits db)"
    "db' = db\<lparr>db_commits := db_commits db @ [c], db_seq := Suc (db_seq db)\<rparr>"
    "cm_ProjectID c = p" "cm_BranchID c = i" "cm_BaseStateID c = base" "cm_ResultStateID c = res" "cm_ActorID c = actor"
    "pg_jsonb pg summary = Some (cm_OperationSummary c)"
    by (auto simp: x split: if_splits)
qed

text \<open>The heads of the branches, the only part of them a state chain depends on.\<close>

definition branch_heads :: "database \<Rightarrow> (string \<times> string option) list" where
  "branch_heads db = map (\<lambda>b. (bn_ID b, bn_BaseStateID b)) (db_branches db)"

definition move_head :: "string \<Rightarrow> string \<Rightarrow> (string \<times> string option) list \<Rightarrow> (string \<times> string option) list" where
  "move_head i s hs = map (\<lambda>(j, h). if j = i then (j, Some s) else (j, h)) hs"

definition advance_head :: "string \<Rightarrow> string \<Rightarrow> string option \<Rightarrow> string \<Rightarrow> Branch list \<Rightarrow> Branch list" where
  "advance_head i p expected s bs =
     map (\<lambda>b. if head_match i p expected b then b\<lparr>bn_BaseStateID := Some s\<rparr> else b) bs"

lemma advance_head_ids [simp]: "map bn_ID (advance_head i p expected s bs) = map bn_ID bs"
  by (simp add: advance_head_def)

lemma UpdateBranchBaseState_effect:
  assumes "UpdateBranchBaseState i p s expected db = Inr (b, db')" and "distinct (map bn_ID (db_branches db))"
  shows "(i, expected) \<in> set (branch_heads db)"
    and "branch_heads db' = move_head i s (branch_heads db)"
    and "\<exists>br \<in> set (db_branches db). head_match i p expected br"
    and "db' = db\<lparr>db_branches := advance_head i p expected s (db_branches db)\<rparr>"
proof -
  from assms(1) obtain b0 where f: "find (head_match i p expected) (db_branches db) = Some b0"
    and D: "db' = db\<lparr>db_branches := advance_head i p expected s (db_branches db)\<rparr>"
    by (auto simp: UpdateBranchBaseState_def advance_head_def split: option.splits if_splits)
  from f have b0: "b0 \<in> set (db_branches db)" "head_match i p expected b0" by (auto simp: find_Some_iff)
  show "\<exists>br \<in> set (db_branches db). head_match i p expected br" using b0 by blast
  show "(i, expected) \<in> set (branch_heads db)" using b0 by (auto simp: branch_heads_def head_match_def image_iff)
  have "head_match i p expected b \<longleftrightarrow> bn_ID b = i" if "b \<in> set (db_branches db)" for b
    using b0 that assms(2) by (auto simp: head_match_def distinct_map dest: inj_onD)
  then show "branch_heads db' = move_head i s (branch_heads db)"
    unfolding D branch_heads_def move_head_def advance_head_def by auto
  show "db' = db\<lparr>db_branches := advance_head i p expected s (db_branches db)\<rparr>" by (rule D)
qed

lemma CASConflict_no_success: "branchCASConflict i p expected db \<noteq> Inr r"
  by (auto simp: branchCASConflict_def tx_simps tx_catch_Inr split: if_splits)

text \<open>A branch of the project that is main while the project is frozen.\<close>

definition frozen_main :: "string \<Rightarrow> string \<Rightarrow> database \<Rightarrow> bool" where
  "frozen_main i p db \<longleftrightarrow>
     (\<exists>b pr. find (\<lambda>b. bn_ID b = i \<and> bn_ProjectID b = p \<and> bn_Name b = ''main'') (db_branches db) = Some b
        \<and> find (\<lambda>pr. pj_ID pr = bn_ProjectID b) (db_projects db) = Some pr \<and> pj_MainFrozen pr)"

lemma require_not_frozen_iff:
  "require_not_frozen i p db =
     (if frozen_main i p db then Inl (MainFrozenDirectWriteError p i) else Inr ((), db))"
  by (auto simp: require_not_frozen_def GetMainFrozenForBranch_def frozen_main_def errors_Is_def split: option.splits)

lemma commit_statements_effect:
  assumes "commit_statements pg inp write p i actor base ops db = Inr ((s, c), db')"
    and "distinct (map bn_ID (db_branches db))"
  obtains db2 db3 where
    "\<not> cs_ResearchPRMerge inp \<Longrightarrow> \<not> frozen_main i p db"
    and "ps_ID s \<notin> ps_ID ` set (db_states db)" and "ps_BranchID s = Some i" and "ps_ParentStateID s = base"
    and "ps_ProjectID s = p" and "ps_StateHash s = cs_StateHash inp"
    and "\<forall>t \<in> set (db_states db). \<not> (ps_ProjectID t = p \<and> ps_StateHash t = cs_StateHash inp)"
    and "(i, base) \<in> set (branch_heads db)" and "\<exists>br \<in> set (db_branches db). head_match i p base br"
    and "branch_heads db2 = move_head i (ps_ID s) (branch_heads db)"
    and "db2 = db\<lparr>db_states := db_states db @ [s], db_branches := advance_head i p base (ps_ID s) (db_branches db),
      db_seq := Suc (db_seq db)\<rparr>"
    and "write (ps_ID s) db2 = Inr ((), db3)"
    and "cm_ID c \<notin> cm_ID ` set (db_commits db3)"
    and "db' = db3\<lparr>db_commits := db_commits db3 @ [c], db_seq := Suc (db_seq db3)\<rparr>"
    and "cm_BranchID c = i" and "cm_BaseStateID c = base" and "cm_ResultStateID c = ps_ID s"
    and "cm_ActorID c = actor" and "pg_jsonb pg ops = Some (cm_OperationSummary c)"
proof -
  from assms(1) obtain db1 b db2 db3 where
    f: "(if cs_ResearchPRMerge inp then tx_return () else require_not_frozen i p) db = Inr ((), db)"
    and s: "CreateProjectState pg p (Some i) base (cs_StateHash inp) (nonempty_text (cs_GitCommitSHA inp))
        (cs_ManifestVersion inp) db = Inr (s, db1)"
    and u: "UpdateBranchBaseState i p (ps_ID s) base db1 = Inr (b, db2)"
    and w: "write (ps_ID s) db2 = Inr ((), db3)"
    and c: "CreateStateCommit pg p i base (ps_ID s) actor (cs_Via inp) (cs_Message inp) ops db3 = Inr (c, db')"
    by (auto simp: commit_statements_def tx_simps tx_catch_Inr require_not_frozen_iff CASConflict_no_success
      split: if_splits)
  note S = CreateProjectState_effect [OF s]
  have h: "branch_heads db1 = branch_heads db" "db_branches db1 = db_branches db" using S(2) by (simp_all add: branch_heads_def)
  note U = UpdateBranchBaseState_effect [OF u, unfolded h, OF assms(2)]
  note C = CreateStateCommit_effect [OF c]
  have nf: "\<not> frozen_main i p db" if "\<not> cs_ResearchPRMerge inp"
    using f that by (auto simp: require_not_frozen_iff split: if_splits)
  have d2: "db2 = db\<lparr>db_states := db_states db @ [s], db_branches := advance_head i p base (ps_ID s) (db_branches db),
      db_seq := Suc (db_seq db)\<rparr>"
    using U(4) unfolding S(2) by simp
  show ?thesis
    by (rule that [OF nf S(1) S(4) S(5) S(3) S(6) S(9) U(1) U(3) U(2) d2 w C(1) C(2) C(4) C(5) C(6) C(7) C(8)])
qed

lemma commit_state_params_simps [simp]:
  "cs_ProjectID (commit_state_params inp hash) = cp_ProjectID inp"
  "cs_BranchID (commit_state_params inp hash) = cp_BranchID inp"
  "cs_ActorID (commit_state_params inp hash) = cp_ActorID inp"
  "cs_Operations (commit_state_params inp hash) = cp_Operations inp"
  "cs_BaseStateID (commit_state_params inp hash) = cp_BaseStateID inp"
  "cs_StateHash (commit_state_params inp hash) = hash"
  "cs_ResearchPRMerge (commit_state_params inp hash) = cp_ResearchPRMerge inp"
  by (simp_all add: commit_state_params_def)

text \<open>The ids of a request as the adapter reads them.\<close>

definition commit_ids :: "pg \<Rightarrow> CommitParams \<Rightarrow> (string \<times> string \<times> string \<times> string option) option" where
  "commit_ids pg inp =
     Option.bind (textUUID pg (cp_ProjectID inp)) (\<lambda>p.
     Option.bind (textUUID pg (cp_BranchID inp)) (\<lambda>i.
     Option.bind (textUUID pg (cp_ActorID inp)) (\<lambda>a.
     Option.bind (optionalUUIDPtr pg (cp_BaseStateID inp)) (\<lambda>base. Some (p, i, a, base)))))"

lemma Commit_success:
  "Commit pg sha renum guard inp write db = (Inr r, db') \<longleftrightarrow>
     (\<exists>w val hash p i a base ops. write = Some w \<and> guard = Some val \<and> validateCommitParams renum inp
        \<and> ComputeStateHash sha (cp_BaseStateID inp) (cp_Operations inp) = Some hash
        \<and> commit_ids pg inp = Some (p, i, a, base) \<and> marshal_operations (cp_Operations inp) = Some ops
        \<and> pg_begin pg = None
        \<and> commit_statements pg (commit_state_params inp hash) (guarded pg val inp w) p i a base ops db = Inr (r, db')
        \<and> pg_commit pg db' = None)"
  by (auto simp: Commit_def CommitState_def service_result commit_ids_def WithTx_result split: option.splits)

lemma guarded_Inr:
  "guarded pg val inp w sid db = Inr ((), db') \<longleftrightarrow>
     w sid db = Inr ((), db') \<and> RequireCommitGate pg val (cp_Gate inp) (commit_facts inp sid) db' = None"
  by (auto simp: guarded_def tx_bind_def split: sum.splits option.splits)

lemma service_error:
  "map_prod (map_sum f (\<lambda>r. r)) (\<lambda>d. d) y = (Inl e, d) \<longleftrightarrow> (\<exists>x. y = (Inl x, d) \<and> e = f x)"
  by (cases y; cases "fst y") auto

lemma CommitState_refused_unchanged: "CommitState pg inp w db = (Inl e, db') \<Longrightarrow> db' = db"
  by (auto simp: CommitState_def service_error split: option.splits dest: WithTx_unchanged)

lemma Commit_refused_unchanged: "Commit pg sha renum guard inp write db = (Inl e, db') \<Longrightarrow> db' = db"
  by (auto simp: Commit_def service_error split: option.splits if_splits dest: CommitState_refused_unchanged)

end
