(* ===== verification/StateHistory.thy ===== *)
theory StateHistory
  imports StateCommits
begin

text \<open>
  Histories of the store: the step relation of everything that changes branches, states, commits
  and version logs, the invariant of the state chains it keeps, and the properties of the commit
  protocol that follow.
\<close>

section \<open>Steps\<close>

text \<open>What a commit's callback may do inside the transaction: semantic writes, closing a
  branch (the merge closes its source) and writes of the review, merge, audit and outbox tables, on which
  no chain depends.\<close>

definition closing :: "(Branch \<Rightarrow> Branch) \<Rightarrow> bool" where
  "closing f \<longleftrightarrow> (\<forall>b. f b = b \<or> bn_Name b \<noteq> ''main'' \<and> bn_Lifecycle b = ''active''
     \<and> (f b = b\<lparr>bn_Lifecycle := ''merged''\<rparr> \<or> f b = b\<lparr>bn_Lifecycle := ''aborted''\<rparr>))"

inductive callback_step :: "database \<Rightarrow> database \<Rightarrow> bool" where
  write_row: "semantic_write db db' \<Longrightarrow> callback_step db db'"
| close_branch: "closing f \<Longrightarrow> callback_step db (db\<lparr>db_branches := map f (db_branches db)\<rparr>)"
| record_row: "callback_step db (db\<lparr>db_pull_requests := prs, db_merges := ms, db_merge_conflicts := cs,
    db_merge_creations := ks, db_audit := as, db_outbox := os, db_seq := n\<rparr>)"

definition well_behaved :: "WriteFunc \<Rightarrow> bool" where
  "well_behaved w \<longleftrightarrow> (\<forall>sid db db'. w sid db = Inr ((), db') \<longrightarrow> callback_step\<^sup>*\<^sup>* db db')"

text \<open>A step of the platform with the validator its guard is wired with.  Users and projects change
  in ways the chains do not depend on.\<close>

inductive platform_step :: "'c Validator option \<Rightarrow> database \<Rightarrow> database \<Rightarrow> bool" for guard where
  commit: "Commit pg sha renum guard inp (Some w) db = (Inr r, db') \<Longrightarrow> well_behaved w \<Longrightarrow> platform_step guard db db'"
| genesis: "CreateInitialState pg sha projectID gitSha manifest db = (Inr s, db') \<Longrightarrow> platform_step guard db db'"
| fork: "branches_Create pg binp db = (Inr b, db') \<Longrightarrow> platform_step guard db db'"
| lifecycle: "branches_setLifecycle pg projectID branchID to db = (Inr b, db') \<Longrightarrow> platform_step guard db db'"
| pool_write: "semantic_write db db' \<Longrightarrow> platform_step guard db db'"
| administration: "platform_step guard db (db\<lparr>db_users := us, db_projects := ps, db_pull_requests := prs, db_merges := ms,
    db_merge_conflicts := cs, db_merge_creations := ks, db_audit := as, db_outbox := os\<rparr>)"

section \<open>The invariant of state chains\<close>

definition own_states :: "database \<Rightarrow> string \<Rightarrow> ProjectState list" where
  "own_states db i = filter (\<lambda>s. ps_BranchID s = Some i) (db_states db)"

definition own_commits :: "database \<Rightarrow> string \<Rightarrow> StateCommit list" where
  "own_commits db i = filter (\<lambda>c. cm_BranchID c = i) (db_commits db)"

fun linked :: "ProjectState list \<Rightarrow> bool" where
  "linked (s # t # ss) = (ps_ParentStateID t = Some (ps_ID s) \<and> linked (t # ss))"
| "linked _ = True"

text \<open>The chain of one branch: its states are linked in the order they were committed, the first
  one's parent is another branch's state (or none), the branch head is the last one, and the commits
  are the edges of the chain.\<close>

definition chain_of :: "database \<Rightarrow> string \<Rightarrow> string option \<Rightarrow> bool" where
  "chain_of db i head \<longleftrightarrow>
     linked (own_states db i)
     \<and> (own_states db i \<noteq> [] \<longrightarrow> head = Some (ps_ID (last (own_states db i)))
          \<and> (\<forall>p. ps_ParentStateID (hd (own_states db i)) = Some p \<longrightarrow> p \<notin> ps_ID ` set (own_states db i)))
     \<and> map (\<lambda>c. (cm_BaseStateID c, cm_ResultStateID c)) (own_commits db i)
         = map (\<lambda>s. (ps_ParentStateID s, ps_ID s)) (own_states db i)"

definition references_ok :: "database \<Rightarrow> bool" where
  "references_ok db \<longleftrightarrow>
     (\<forall>s \<in> set (db_states db). \<forall>i. ps_BranchID s = Some i \<longrightarrow> i \<in> bn_ID ` set (db_branches db))
     \<and> (\<forall>s \<in> set (db_states db). \<forall>p. ps_ParentStateID s = Some p \<longrightarrow> p \<in> ps_ID ` set (db_states db))
     \<and> (\<forall>c \<in> set (db_commits db). cm_BranchID c \<in> bn_ID ` set (db_branches db))
     \<and> (\<forall>i h. (i, Some h) \<in> set (branch_heads db) \<longrightarrow> h \<in> ps_ID ` set (db_states db))"

definition chains_ok :: "database \<Rightarrow> bool" where
  "chains_ok db \<longleftrightarrow> keys_ok db \<and> references_ok db \<and> (\<forall>(i, h) \<in> set (branch_heads db). chain_of db i h)"

text \<open>The states of a project are content-addressed.\<close>

definition hashes_ok :: "database \<Rightarrow> bool" where
  "hashes_ok db \<longleftrightarrow> distinct (map (\<lambda>s. (ps_ProjectID s, ps_StateHash s)) (db_states db))"

lemma linked_snoc: "linked (ss @ [t]) \<longleftrightarrow> linked ss \<and> (ss \<noteq> [] \<longrightarrow> ps_ParentStateID t = Some (ps_ID (last ss)))"
  by (induction ss rule: linked.induct) auto

lemma linked_rev:
  assumes "linked ss" and "ss \<noteq> []" and "\<And>p. ps_ParentStateID (hd ss) = Some p \<Longrightarrow> p \<notin> K"
  shows "parent_linked K (rev ss)"
  using assms
proof (induction ss rule: rev_induct)
  case Nil
  then show ?case by simp
next
  case (snoc t ss)
  show ?case
  proof (cases ss rule: rev_cases)
    case Nil
    then show ?thesis using snoc.prems by (auto split: option.splits)
  next
    case last: (snoc us u)
    have l: "linked ss" "ps_ParentStateID t = Some (ps_ID u)"
      using snoc.prems(1) unfolding linked_snoc by (simp_all add: last)
    have "parent_linked K (rev ss)"
      using snoc.prems(3) by (intro snoc.IH l(1)) (simp_all add: last hd_append split: if_splits)
    then show ?thesis using l(2) by (simp add: last)
  qed
qed

lemma branch_heads_ids: "fst ` set (branch_heads db) = bn_ID ` set (db_branches db)"
  by (auto simp: branch_heads_def image_iff)

lemma branch_heads_unique:
  assumes "keys_ok db" and "(i, h) \<in> set (branch_heads db)" and "(i, h') \<in> set (branch_heads db)"
  shows "h = h'"
proof -
  have "distinct (map fst (branch_heads db))"
    using assms(1) by (simp add: branch_heads_def keys_ok_def comp_def)
  then show ?thesis using assms(2,3) by (meson eq_key_imp_eq_value)
qed

section \<open>Steps that leave the chains alone\<close>

text \<open>What the chains and their references depend on.\<close>

definition same_chains :: "database \<Rightarrow> database \<Rightarrow> bool" where
  "same_chains db db' \<longleftrightarrow>
     db_states db' = db_states db \<and> db_commits db' = db_commits db \<and> branch_heads db' = branch_heads db
     \<and> (keys_ok db \<longrightarrow> keys_ok db')"

lemma same_chains_keep:
  assumes "same_chains db db'"
  shows "chains_ok db \<Longrightarrow> chains_ok db'" and "hashes_ok db \<Longrightarrow> hashes_ok db'"
proof -
  have s: "db_states db' = db_states db" "db_commits db' = db_commits db" "branch_heads db' = branch_heads db"
    using assms by (auto simp: same_chains_def)
  have b: "bn_ID ` set (db_branches db') = bn_ID ` set (db_branches db)"
    unfolding branch_heads_ids [symmetric] s ..
  have c: "chain_of db' = chain_of db" by (intro ext) (simp add: chain_of_def own_states_def own_commits_def s)
  show "chains_ok db \<Longrightarrow> chains_ok db'"
    using assms by (simp add: chains_ok_def references_ok_def same_chains_def s b c)
  show "hashes_ok db \<Longrightarrow> hashes_ok db'" by (simp add: hashes_ok_def s)
qed

lemma same_chains_refl: "same_chains db db"
  by (simp add: same_chains_def)

lemma same_chains_trans: "same_chains db db' \<Longrightarrow> same_chains db' db'' \<Longrightarrow> same_chains db db''"
  by (simp add: same_chains_def)

lemma semantic_write_same_chains: "semantic_write db db' \<Longrightarrow> same_chains db db'"
  using semantic_write_shape write_shape_keys
  by (fastforce simp: same_chains_def branch_heads_def elim: write_shape.cases)

lemma closing_fields:
  assumes "closing f"
  shows "bn_ID (f b) = bn_ID b" and "bn_BaseStateID (f b) = bn_BaseStateID b"
  using assms by (auto simp: closing_def dest!: spec [of _ b])

lemma closing_same_chains:
  assumes "closing f"
  shows "same_chains db (db\<lparr>db_branches := map f (db_branches db)\<rparr>)"
  using closing_fields [OF assms] by (simp add: same_chains_def keys_ok_def branch_heads_def comp_def)

lemma set_lifecycle_closing:
  assumes "SetBranchLifecycle_query i p to db = Inr (b, db')"
  obtains f where "closing f" and "db' = db\<lparr>db_branches := map f (db_branches db)\<rparr>"
proof -
  let ?f = "\<lambda>b. if lifecycle_match i p b then b\<lparr>bn_Lifecycle := to\<rparr> else b"
  from assms have to: "to \<in> {''active'', ''merged'', ''aborted''}" and D: "db' = db\<lparr>db_branches := map ?f (db_branches db)\<rparr>"
    by (auto simp: SetBranchLifecycle_query_def split: option.splits if_splits)
  have "?f b = b \<or> bn_Name b \<noteq> ''main'' \<and> bn_Lifecycle b = ''active''
     \<and> (?f b = b\<lparr>bn_Lifecycle := ''merged''\<rparr> \<or> ?f b = b\<lparr>bn_Lifecycle := ''aborted''\<rparr>)" for b
    using to by (cases b) (auto simp: lifecycle_match_def)
  then have "closing ?f" unfolding closing_def by blast
  then show ?thesis using D by (rule that)
qed

lemma set_lifecycle_same_chains: "SetBranchLifecycle_query i p to db = Inr (b, db') \<Longrightarrow> same_chains db db'"
  by (erule set_lifecycle_closing) (simp add: closing_same_chains)

lemma callback_step_same_chains:
  assumes "callback_step db db'"
  shows "same_chains db db'"
  using assms
proof cases
  case write_row
  then show ?thesis by (rule semantic_write_same_chains)
next
  case close_branch
  then show ?thesis by (simp add: closing_same_chains)
next
  case record_row
  then show ?thesis by (simp add: same_chains_def branch_heads_def keys_ok_def)
qed

lemma callback_same_chains: "callback_step\<^sup>*\<^sup>* db db' \<Longrightarrow> same_chains db db'"
  by (induction rule: rtranclp_induct) (auto intro: same_chains_refl same_chains_trans callback_step_same_chains)

section \<open>Steps that extend a chain\<close>

lemma move_head_mem:
  "(j, h) \<in> set (move_head i s hs) \<longleftrightarrow> (if j = i then h = Some s \<and> i \<in> fst ` set hs else (j, h) \<in> set hs)"
  by (force simp: move_head_def split: if_splits prod.splits)

lemma chains_ok_extend:
  assumes ok: "chains_ok db" and head: "(i, base) \<in> set (branch_heads db)"
    and fresh: "ps_ID s \<notin> ps_ID ` set (db_states db)"
    and s: "ps_BranchID s = Some i" "ps_ParentStateID s = base"
    and c: "cm_BranchID c = i" "cm_BaseStateID c = base" "cm_ResultStateID c = ps_ID s"
    and st: "db_states db' = db_states db @ [s]" and cm: "db_commits db' = db_commits db @ [c]"
    and hs: "branch_heads db' = move_head i (ps_ID s) (branch_heads db)" and keys: "keys_ok db'"
  shows "chains_ok db'"
proof -
  have R: "references_ok db" and C: "\<And>j h. (j, h) \<in> set (branch_heads db) \<Longrightarrow> chain_of db j h"
    using ok by (auto simp: chains_ok_def)
  have ids: "bn_ID ` set (db_branches db') = bn_ID ` set (db_branches db)"
    unfolding branch_heads_ids [symmetric] hs by (force simp: move_head_def split: if_splits)
  have ib: "i \<in> bn_ID ` set (db_branches db)" using head unfolding branch_heads_ids [symmetric] by force
  have base: "h \<in> ps_ID ` set (db_states db)" if "base = Some h" for h
    using R head that by (auto simp: references_ok_def)
  have refs: "references_ok db'"
    unfolding references_ok_def st cm hs ids
  proof (intro conjI)
    show "\<forall>x \<in> set (db_states db @ [s]). \<forall>j. ps_BranchID x = Some j \<longrightarrow> j \<in> bn_ID ` set (db_branches db)"
      using R s ib by (auto simp: references_ok_def)
    show "\<forall>x \<in> set (db_states db @ [s]). \<forall>p. ps_ParentStateID x = Some p \<longrightarrow> p \<in> ps_ID ` set (db_states db @ [s])"
      using R s base by (auto simp: references_ok_def)
    show "\<forall>x \<in> set (db_commits db @ [c]). cm_BranchID x \<in> bn_ID ` set (db_branches db)"
      using R c ib by (auto simp: references_ok_def)
    show "\<forall>j h. (j, Some h) \<in> set (move_head i (ps_ID s) (branch_heads db)) \<longrightarrow> h \<in> ps_ID ` set (db_states db @ [s])"
      using R by (auto simp: move_head_mem references_ok_def split: if_splits)
  qed
  have "chain_of db' j h" if "(j, h) \<in> set (branch_heads db')" for j h
  proof (cases "j = i")
    case False
    then have "own_states db' j = own_states db j" "own_commits db' j = own_commits db j"
      using s c by (simp_all add: own_states_def own_commits_def st cm)
    moreover have "chain_of db j h" using that False C by (simp add: hs move_head_mem)
    ultimately show ?thesis by (simp add: chain_of_def)
  next
    case True
    then have h: "h = Some (ps_ID s)" using that by (simp add: hs move_head_mem)
    have own: "own_states db' i = own_states db i @ [s]" "own_commits db' i = own_commits db i @ [c]"
      using s c by (simp_all add: own_states_def own_commits_def st cm)
    have sub: "set (own_states db i) \<subseteq> set (db_states db)" by (auto simp: own_states_def)
    note K = C [OF head]
    have "p \<notin> ps_ID ` set (own_states db i @ [s])"
      if p: "ps_ParentStateID (hd (own_states db i @ [s])) = Some p" for p
    proof (cases "own_states db i = []")
      case True
      then have "p \<in> ps_ID ` set (db_states db)" using p s base by simp
      then have "p \<noteq> ps_ID s" using fresh by metis
      then show ?thesis using True by simp
    next
      case False
      then have "p \<notin> ps_ID ` set (own_states db i)" using K p by (simp add: chain_of_def)
      moreover have "hd (own_states db i) \<in> set (db_states db)" using False sub by auto
      then have "p \<in> ps_ID ` set (db_states db)" using R p False by (auto simp: references_ok_def)
      then have "p \<noteq> ps_ID s" using fresh by metis
      ultimately show ?thesis by simp
    qed
    then show ?thesis
      using K s c unfolding chain_of_def True own h by (auto simp: linked_snoc)
  qed
  then show ?thesis using keys refs by (auto simp: chains_ok_def)
qed

text \<open>What a successful commit did, step by step.\<close>

lemma commit_effect:
  fixes guard :: "'c Validator option"
  assumes "Commit pg sha renum guard inp (Some w) db = (Inr (s, c), db')" and "keys_ok db"
  obtains val :: "'c Validator" and hash p i a base ops db2 db3 where
    "guard = Some val" and "validateCommitParams renum inp"
    and "ComputeStateHash sha (cp_BaseStateID inp) (cp_Operations inp) = Some hash"
    and "commit_ids pg inp = Some (p, i, a, base)" and "marshal_operations (cp_Operations inp) = Some ops"
    and "\<not> cp_ResearchPRMerge inp \<Longrightarrow> \<not> frozen_main i p db"
    and "ps_ID s \<notin> ps_ID ` set (db_states db)" and "ps_BranchID s = Some i" and "ps_ParentStateID s = base"
    and "ps_ProjectID s = p" and "ps_StateHash s = hash"
    and "\<forall>t \<in> set (db_states db). \<not> (ps_ProjectID t = p \<and> ps_StateHash t = hash)"
    and "(i, base) \<in> set (branch_heads db)" and "\<exists>br \<in> set (db_branches db). head_match i p base br"
    and "branch_heads db2 = move_head i (ps_ID s) (branch_heads db)"
    and "db2 = db\<lparr>db_states := db_states db @ [s], db_branches := advance_head i p base (ps_ID s) (db_branches db),
      db_seq := Suc (db_seq db)\<rparr>"
    and "w (ps_ID s) db2 = Inr ((), db3)"
    and "RequireCommitGate pg val (cp_Gate inp) (commit_facts inp (ps_ID s)) db3 = None"
    and "cm_ID c \<notin> cm_ID ` set (db_commits db3)"
    and "db' = db3\<lparr>db_commits := db_commits db3 @ [c], db_seq := Suc (db_seq db3)\<rparr>"
    and "cm_BranchID c = i" and "cm_BaseStateID c = base" and "cm_ResultStateID c = ps_ID s"
    and "cm_ActorID c = a" and "pg_jsonb pg ops = Some (cm_OperationSummary c)"
proof -
  have d: "distinct (map bn_ID (db_branches db))" using assms(2) by (simp add: keys_ok_def)
  from assms(1) obtain val :: "'c Validator" and hash p i a base ops where
    v: "guard = Some val" "validateCommitParams renum inp"
    and h: "ComputeStateHash sha (cp_BaseStateID inp) (cp_Operations inp) = Some hash"
    and ids: "commit_ids pg inp = Some (p, i, a, base)" "marshal_operations (cp_Operations inp) = Some ops"
    and cs: "commit_statements pg (commit_state_params inp hash) (guarded pg val inp w) p i a base ops db = Inr ((s, c), db')"
    unfolding Commit_success by blast
  show ?thesis
    by (rule commit_statements_effect [OF cs d]) (rule that [OF v h ids]; unfold guarded_Inr commit_state_params_simps; blast)
qed

lemma commit_keeps_chains:
  fixes guard :: "'c Validator option"
  assumes "Commit pg sha renum guard inp (Some w) db = (Inr (s, c), db')" and "well_behaved w" and "chains_ok db"
  shows "chains_ok db'" and "hashes_ok db \<Longrightarrow> hashes_ok db'"
proof -
  have keys: "keys_ok db" using assms(3) by (simp add: chains_ok_def)
  from assms(1) this obtain hash p i base db2 db3 where fresh: "ps_ID s \<notin> ps_ID ` set (db_states db)"
    and s: "ps_BranchID s = Some i" "ps_ParentStateID s = base" and sp: "ps_ProjectID s = p" "ps_StateHash s = hash"
    and uniq: "\<forall>t \<in> set (db_states db). \<not> (ps_ProjectID t = p \<and> ps_StateHash t = hash)"
    and head: "(i, base) \<in> set (branch_heads db)"
    and h2: "branch_heads db2 = move_head i (ps_ID s) (branch_heads db)"
    and d2: "db2 = db\<lparr>db_states := db_states db @ [s], db_branches := advance_head i p base (ps_ID s) (db_branches db),
      db_seq := Suc (db_seq db)\<rparr>"
    and wr: "w (ps_ID s) db2 = Inr ((), db3)"
    and cf: "cm_ID c \<notin> cm_ID ` set (db_commits db3)"
    and d': "db' = db3\<lparr>db_commits := db_commits db3 @ [c], db_seq := Suc (db_seq db3)\<rparr>"
    and c: "cm_BranchID c = i" "cm_BaseStateID c = base" "cm_ResultStateID c = ps_ID s"
    by (rule commit_effect)
  have "same_chains db2 db3"
    using wr assms(2) by (auto simp: well_behaved_def intro: callback_same_chains)
  then have e: "db_states db3 = db_states db2" "db_commits db3 = db_commits db2" "branch_heads db3 = branch_heads db2"
    and k3: "keys_ok db2 \<longrightarrow> keys_ok db3" by (simp_all add: same_chains_def)
  have k2: "keys_ok db2" using keys fresh by (simp add: d2 keys_ok_def)
  have "db_branches db' = db_branches db3" by (simp add: d')
  then have hs: "branch_heads db' = move_head i (ps_ID s) (branch_heads db)" using e h2 by (simp add: branch_heads_def)
  have st: "db_states db' = db_states db @ [s]" and cm: "db_commits db' = db_commits db @ [c]"
    using e by (simp_all add: d' d2)
  have k': "keys_ok db'" using k2 k3 cf by (simp add: d' keys_ok_def)
  show "chains_ok db'" by (rule chains_ok_extend [OF assms(3) head fresh s c st cm hs k'])
  show "hashes_ok db'" if "hashes_ok db"
    using that uniq sp by (auto simp: hashes_ok_def st)
qed

lemma genesis_keeps_chains:
  assumes "CreateInitialState pg sha projectID gitSha manifest db = (Inr s, db')" and "chains_ok db"
  shows "chains_ok db'" and "hashes_ok db \<Longrightarrow> hashes_ok db'"
proof -
  from assms(1) obtain p hash where "CreateProjectState pg p None None hash (nonempty_text gitSha) manifest db = Inr (s, db')"
    by (auto simp: CreateInitialState_def service_result store_CreateInitialState_def pool_exec_def
      split: if_splits option.splits prod.splits sum.splits)
  note S = CreateProjectState_effect [OF this]
  have st: "db_states db' = db_states db @ [s]" "db_commits db' = db_commits db" "branch_heads db' = branch_heads db"
    "db_branches db' = db_branches db" by (simp_all add: S(2) branch_heads_def)
  have c: "chain_of db' = chain_of db"
    by (intro ext) (simp add: chain_of_def own_states_def own_commits_def st S(4))
  have "keys_ok db'" using assms(2) S(1) by (simp add: S(2) chains_ok_def keys_ok_def)
  moreover have "references_ok db'" using assms(2) S(4,5) by (auto simp: chains_ok_def references_ok_def st)
  ultimately show "chains_ok db'" using assms(2) by (simp add: chains_ok_def st c)
  show "hashes_ok db'" if "hashes_ok db" using that S(3,6,9) by (auto simp: hashes_ok_def st)
qed

lemma CreateBranchFromState_effect:
  assumes "CreateBranchFromState pg p name vis purpose ref base u db = Inr (b, db')"
  shows "db' = db\<lparr>db_branches := db_branches db @ [b], db_seq := Suc (db_seq db)\<rparr>"
    and "bn_ID b \<notin> bn_ID ` set (db_branches db)"
    and "\<exists>s \<in> set (db_states db). bn_BaseStateID b = Some (ps_ID s) \<and> ps_ProjectID s = bn_ProjectID b"
    and "bn_Lifecycle b = ''active''" and "bn_Name b = name"
    and "\<forall>x \<in> set (db_branches db). \<not> (bn_ProjectID x = bn_ProjectID b \<and> bn_Name x = bn_Name b)"
proof -
  have ex: "list_ex (\<lambda>s. ps_ID s = base \<and> ps_ProjectID s = p) (db_states db)"
    using assms by (auto simp: CreateBranchFromState_def split: if_splits)
  then have "\<not> \<not> list_ex (\<lambda>s. ps_ID s = base \<and> ps_ProjectID s = p) (db_states db)" by simp
  note * = assms [unfolded CreateBranchFromState_def Let_def if_not_P [OF this] violation_guard violation_ok]
  from * show "db' = db\<lparr>db_branches := db_branches db @ [b], db_seq := Suc (db_seq db)\<rparr>"
    "bn_ID b \<notin> bn_ID ` set (db_branches db)" "bn_Lifecycle b = ''active''" "bn_Name b = name"
    by auto
  from * show "\<forall>x \<in> set (db_branches db). \<not> (bn_ProjectID x = bn_ProjectID b \<and> bn_Name x = bn_Name b)"
    by (auto simp: list_ex_iff)
  from * show "\<exists>s \<in> set (db_states db). bn_BaseStateID b = Some (ps_ID s) \<and> ps_ProjectID s = bn_ProjectID b"
    using ex by (auto simp: list_ex_iff)
qed

lemma fork_effect:
  assumes "branches_Create pg binp db = (Inr b, db')"
  shows "db' = db\<lparr>db_branches := db_branches db @ [b], db_seq := Suc (db_seq db)\<rparr>"
    and "bn_ID b \<notin> bn_ID ` set (db_branches db)"
    and "\<exists>s \<in> set (db_states db). bn_BaseStateID b = Some (ps_ID s) \<and> ps_ProjectID s = bn_ProjectID b"
    and "bn_Lifecycle b = ''active''" and "ValidBranchName (bn_Name b)"
    and "\<forall>x \<in> set (db_branches db). \<not> (bn_ProjectID x = bn_ProjectID b \<and> bn_Name x = bn_Name b)"
proof -
  define inp where "inp = binp\<lparr>cb_GitRef := ''refs/heads/'' @ cb_Name binp\<rparr>"
  have v: "ValidBranchName (cb_Name inp)" and sc: "store_CreateBranch pg inp db = (Inr b, db')"
    using assms unfolding branches_Create_def validateCreate_def inp_def [symmetric]
    by (auto simp: inp_def split: if_splits prod.splits sum.splits)
  from sc obtain p s u where "create_branch_tx pg inp p s u db = Inr (b, db')"
    by (auto simp: store_CreateBranch_def WithTx_result split: if_splits option.splits prod.splits sum.splits)
  then obtain vis where c: "CreateBranchFromState pg p (cb_Name inp) vis (cb_Purpose inp) (cb_GitRef inp) s u db = Inr (b, db')"
    by (auto simp: create_branch_tx_def tx_simps tx_catch_Inr GetProjectByID_def Let_def
      split: if_splits option.splits)
  then show "db' = db\<lparr>db_branches := db_branches db @ [b], db_seq := Suc (db_seq db)\<rparr>"
    and "bn_ID b \<notin> bn_ID ` set (db_branches db)"
    and "\<exists>s \<in> set (db_states db). bn_BaseStateID b = Some (ps_ID s) \<and> ps_ProjectID s = bn_ProjectID b"
    and "bn_Lifecycle b = ''active''" and "ValidBranchName (bn_Name b)"
    and "\<forall>x \<in> set (db_branches db). \<not> (bn_ProjectID x = bn_ProjectID b \<and> bn_Name x = bn_Name b)"
    using v CreateBranchFromState_effect [OF c] by simp_all
qed

lemma fork_keeps_chains:
  assumes "branches_Create pg binp db = (Inr b, db')" and "chains_ok db"
  shows "chains_ok db'" and "hashes_ok db \<Longrightarrow> hashes_ok db'"
proof -
  note F = fork_effect [OF assms(1)]
  have R: "references_ok db" using assms(2) by (simp add: chains_ok_def)
  have e: "db_states db' = db_states db" "db_commits db' = db_commits db" by (simp_all add: F(1))
  have "own_states db (bn_ID b) = []"
    using R F(2) by (auto simp: own_states_def references_ok_def filter_empty_conv)
  moreover have "own_commits db (bn_ID b) = []"
    using R F(2) unfolding own_commits_def references_ok_def filter_empty_conv by metis
  ultimately have n: "chain_of db (bn_ID b) h" for h by (simp add: chain_of_def)
  have c: "chain_of db' = chain_of db" by (intro ext) (simp add: chain_of_def own_states_def own_commits_def e)
  have hs: "branch_heads db' = branch_heads db @ [(bn_ID b, bn_BaseStateID b)]" by (simp add: F(1) branch_heads_def)
  have "keys_ok db'" using assms(2) F(2) by (simp add: F(1) chains_ok_def keys_ok_def)
  moreover have "references_ok db'"
    using R F(3) unfolding references_ok_def hs by (auto simp: F(1))
  ultimately show "chains_ok db'" using assms(2) n by (auto simp: chains_ok_def hs c)
  show "hashes_ok db'" if "hashes_ok db" using that by (simp add: hashes_ok_def e)
qed

lemma lifecycle_query:
  assumes "branches_setLifecycle pg projectID branchID to db = (Inr b, db')"
  obtains i p where "SetBranchLifecycle_query i p to db = Inr (b, db')"
  using assms
  by (auto simp: branches_setLifecycle_def store_SetBranchLifecycle_def pool_exec_def
    split: if_splits option.splits prod.splits sum.splits)

lemma platform_step_keeps:
  assumes "platform_step guard db db'" and "chains_ok db"
  shows "chains_ok db' \<and> (hashes_ok db \<longrightarrow> hashes_ok db')"
  using assms(1)
proof (cases rule: platform_step.cases)
  case (commit pg sha renum inp w r)
  then show ?thesis using commit_keeps_chains [OF _ commit(2) assms(2)] by (metis prod.collapse)
next
  case genesis
  then show ?thesis using genesis_keeps_chains assms(2) by blast
next
  case fork
  then show ?thesis using fork_keeps_chains assms(2) by blast
next
  case (lifecycle pg projectID branchID to b)
  then obtain i p where "SetBranchLifecycle_query i p to db = Inr (b, db')" by (rule lifecycle_query)
  then show ?thesis using same_chains_keep [OF set_lifecycle_same_chains] assms(2) by blast
next
  case pool_write
  then show ?thesis using same_chains_keep [OF semantic_write_same_chains] assms(2) by blast
next
  case administration
  have "same_chains db db'" by (simp add: administration same_chains_def branch_heads_def keys_ok_def)
  then show ?thesis using same_chains_keep assms(2) by blast
qed

lemma platform_steps_keep:
  assumes "(platform_step guard)\<^sup>*\<^sup>* db db'" and "chains_ok db"
  shows "chains_ok db' \<and> (hashes_ok db \<longrightarrow> hashes_ok db')"
  using assms by (induction rule: rtranclp_induct) (auto dest: platform_step_keeps)

section \<open>Branch rows\<close>

text \<open>How a branch row may change: its identity never, a closed branch not at all, the lifecycle of
  an active one to merged or aborted, and that of main never.\<close>

definition branch_evolves :: "Branch \<Rightarrow> Branch \<Rightarrow> bool" where
  "branch_evolves b b' \<longleftrightarrow>
     b' = b\<lparr>bn_BaseStateID := bn_BaseStateID b', bn_Lifecycle := bn_Lifecycle b'\<rparr>
     \<and> (bn_Lifecycle b \<noteq> ''active'' \<longrightarrow> b' = b)
     \<and> (bn_Lifecycle b' \<noteq> bn_Lifecycle b \<longrightarrow> bn_Lifecycle b' \<in> {''merged'', ''aborted''} \<and> bn_Name b \<noteq> ''main'')"

definition branches_evolve :: "database \<Rightarrow> database \<Rightarrow> bool" where
  "branches_evolve db db' \<longleftrightarrow>
     (\<forall>b \<in> set (db_branches db). \<exists>b' \<in> set (db_branches db'). branch_evolves b b'
        \<and> (bn_Lifecycle b \<noteq> ''active'' \<longrightarrow> own_states db' (bn_ID b) = own_states db (bn_ID b)))"

lemma branch_evolves_refl [simp]: "branch_evolves b b"
  by (simp add: branch_evolves_def)

lemma branch_evolves_trans: "branch_evolves a b \<Longrightarrow> branch_evolves b c \<Longrightarrow> branch_evolves a c"
proof -
  assume ab: "branch_evolves a b" and bc: "branch_evolves b c"
  have b: "bn_Name b = bn_Name a"
    using ab unfolding branch_evolves_def by (metis Branch.select_convs(3) Branch.surjective Branch.update_convs(7,8))
  have "c = a\<lparr>bn_BaseStateID := bn_BaseStateID c, bn_Lifecycle := bn_Lifecycle c\<rparr>"
    using ab bc unfolding branch_evolves_def
    by (cases a; cases b; cases c) (auto)
  then show ?thesis using ab bc b unfolding branch_evolves_def by metis
qed

lemma branches_evolve_trans:
  assumes "branches_evolve db1 db2" and "branches_evolve db2 db3"
  shows "branches_evolve db1 db3"
  unfolding branches_evolve_def
proof
  fix b
  assume "b \<in> set (db_branches db1)"
  then obtain b' where b': "b' \<in> set (db_branches db2)" "branch_evolves b b'"
      "bn_Lifecycle b \<noteq> ''active'' \<longrightarrow> own_states db2 (bn_ID b) = own_states db1 (bn_ID b)"
    using assms(1) by (auto simp: branches_evolve_def)
  then obtain b'' where b'': "b'' \<in> set (db_branches db3)" "branch_evolves b' b''"
      "bn_Lifecycle b' \<noteq> ''active'' \<longrightarrow> own_states db3 (bn_ID b') = own_states db2 (bn_ID b')"
    using assms(2) by (auto simp: branches_evolve_def)
  have "bn_Lifecycle b \<noteq> ''active'' \<longrightarrow> b' = b" using b'(2) unfolding branch_evolves_def by blast
  then show "\<exists>b'' \<in> set (db_branches db3). branch_evolves b b''
      \<and> (bn_Lifecycle b \<noteq> ''active'' \<longrightarrow> own_states db3 (bn_ID b) = own_states db1 (bn_ID b))"
    using b'(3) b''(1,3) branch_evolves_trans [OF b'(2) b''(2)] by (intro bexI [of _ b'']) auto
qed

lemma evolve_by_map:
  assumes "db_branches db' = map f (db_branches db)" and "db_states db' = db_states db"
    and "\<And>b. b \<in> set (db_branches db) \<Longrightarrow> branch_evolves b (f b)"
  shows "branches_evolve db db'"
  using assms by (auto simp: branches_evolve_def own_states_def)

lemma closing_evolves:
  assumes "closing f"
  shows "branches_evolve db (db\<lparr>db_branches := map f (db_branches db)\<rparr>)"
proof (rule evolve_by_map [of _ f])
  fix b
  have "f b = b \<or> bn_Name b \<noteq> ''main'' \<and> bn_Lifecycle b = ''active''
     \<and> (f b = b\<lparr>bn_Lifecycle := ''merged''\<rparr> \<or> f b = b\<lparr>bn_Lifecycle := ''aborted''\<rparr>)"
    using assms unfolding closing_def by blast
  then show "branch_evolves b (f b)" by (cases b) (auto simp: branch_evolves_def)
qed simp_all

lemma set_lifecycle_evolves: "SetBranchLifecycle_query i p to db = Inr (b, db') \<Longrightarrow> branches_evolve db db'"
  by (erule set_lifecycle_closing) (simp add: closing_evolves)

lemma semantic_write_evolves: "semantic_write db db' \<Longrightarrow> branches_evolve db db'"
proof -
  assume "semantic_write db db'"
  then have "write_shape db db'" by (rule semantic_write_shape)
  then have "db_branches db' = db_branches db" "db_states db' = db_states db" by (auto elim: write_shape.cases)
  then show ?thesis by (intro evolve_by_map [of _ "\<lambda>b. b"]) simp_all
qed

lemma callback_step_evolves:
  assumes "callback_step db db'"
  shows "branches_evolve db db'"
  using assms
proof cases
  case write_row
  then show ?thesis by (rule semantic_write_evolves)
next
  case close_branch
  then show ?thesis by (simp add: closing_evolves)
next
  case record_row
  then show ?thesis by (intro evolve_by_map [of _ "\<lambda>b. b"]) simp_all
qed

lemma callback_evolves: "callback_step\<^sup>*\<^sup>* db db' \<Longrightarrow> branches_evolve db db'"
proof (induction rule: rtranclp_induct)
  case base
  then show ?case by (intro evolve_by_map [of _ "\<lambda>b. b"]) simp_all
next
  case (step y z)
  then show ?case
    by (meson branches_evolve_trans callback_step_evolves)
qed

lemma commit_evolves:
  fixes guard :: "'c Validator option"
  assumes "Commit pg sha renum guard inp (Some w) db = (Inr (s, c), db')" and "well_behaved w" and "keys_ok db"
  shows "branches_evolve db db'"
proof -
  have d: "distinct (map bn_ID (db_branches db))" using assms(3) by (simp add: keys_ok_def)
  from assms(1,3) obtain p i base db2 db3 where s: "ps_BranchID s = Some i" and hm: "\<exists>br \<in> set (db_branches db). head_match i p base br"
    and d2: "db2 = db\<lparr>db_states := db_states db @ [s], db_branches := advance_head i p base (ps_ID s) (db_branches db),
      db_seq := Suc (db_seq db)\<rparr>"
    and wr: "w (ps_ID s) db2 = Inr ((), db3)"
    and d': "db' = db3\<lparr>db_commits := db_commits db3 @ [c], db_seq := Suc (db_seq db3)\<rparr>"
    by (rule commit_effect)
  have "branches_evolve db2 db3"
    using wr assms(2) by (auto simp: well_behaved_def intro: callback_evolves)
  moreover have "db_branches db' = db_branches db3" "db_states db' = db_states db3" by (simp_all add: d')
  ultimately have 2: "branches_evolve db2 db'" by (simp add: branches_evolve_def own_states_def)
  have 1: "branches_evolve db db2"
    unfolding branches_evolve_def
  proof
    fix b
    assume b: "b \<in> set (db_branches db)"
    let ?b = "if head_match i p base b then b\<lparr>bn_BaseStateID := Some (ps_ID s)\<rparr> else b"
    have "?b \<in> set (db_branches db2)" using b by (simp add: d2 advance_head_def)
    moreover have "branch_evolves b ?b" by (cases b) (auto simp: branch_evolves_def head_match_def)
    moreover have "own_states db2 (bn_ID b) = own_states db (bn_ID b)" if l: "bn_Lifecycle b \<noteq> ''active''"
    proof -
      from hm obtain br where "br \<in> set (db_branches db)" "bn_ID br = i" "bn_Lifecycle br = ''active''"
        by (auto simp: head_match_def)
      then have "bn_ID b \<noteq> i" using b d l by (auto simp: distinct_map dest: inj_onD)
      then show ?thesis using s by (simp add: d2 own_states_def)
    qed
    ultimately show "\<exists>b' \<in> set (db_branches db2). branch_evolves b b'
      \<and> (bn_Lifecycle b \<noteq> ''active'' \<longrightarrow> own_states db2 (bn_ID b) = own_states db (bn_ID b))" by blast
  qed
  show ?thesis by (rule branches_evolve_trans [OF 1 2])
qed

lemma platform_step_evolves:
  assumes "platform_step guard db db'" and "chains_ok db"
  shows "branches_evolve db db'"
  using assms(1)
proof (cases rule: platform_step.cases)
  case (commit pg sha renum inp w r)
  then show ?thesis using commit_evolves [OF _ commit(2)] assms(2) by (metis chains_ok_def prod.collapse)
next
  case (genesis pg sha projectID gitSha manifest s)
  then obtain p hash where "CreateProjectState pg p None None hash (nonempty_text gitSha) manifest db = Inr (s, db')"
    by (auto simp: CreateInitialState_def service_result store_CreateInitialState_def pool_exec_def
      split: if_splits option.splits prod.splits sum.splits)
  note S = CreateProjectState_effect [OF this]
  show ?thesis using S(4) by (auto simp: branches_evolve_def own_states_def S(2) intro: branch_evolves_refl)
next
  case (fork pg binp b)
  note F = fork_effect [OF this]
  show ?thesis by (auto simp: branches_evolve_def own_states_def F(1) intro: branch_evolves_refl)
next
  case (lifecycle pg projectID branchID to b)
  then obtain i p where "SetBranchLifecycle_query i p to db = Inr (b, db')" by (rule lifecycle_query)
  then show ?thesis by (rule set_lifecycle_evolves)
next
  case pool_write
  then show ?thesis by (rule semantic_write_evolves)
next
  case administration
  then show ?thesis by (intro evolve_by_map [of _ "\<lambda>b. b"]) simp_all
qed

lemma platform_steps_evolve:
  assumes "(platform_step guard)\<^sup>*\<^sup>* db db'" and "chains_ok db"
  shows "branches_evolve db db'"
  using assms
proof (induction rule: rtranclp_induct)
  case base
  then show ?case by (intro evolve_by_map [of _ "\<lambda>b. b"]) simp_all
next
  case (step y z)
  then show ?case
    using platform_steps_keep [OF step(1) step.prems] platform_step_evolves branches_evolve_trans by blast
qed

section \<open>A sample commit\<close>

definition sample_write :: WriteFunc where
  "sample_write = (\<lambda>sid. tx_bind (CreateVersionInTx sample_pg ''o'' 1 (sample_params\<lparr>vp_StateID := sid\<rparr>)) (\<lambda>_. tx_return ()))"

definition sample_commit_params :: CommitParams where
  "sample_commit_params = \<lparr>cp_ProjectID = ''p'', cp_BranchID = ''b'', cp_ActorID = ''u'', cp_Via = ''web'', cp_Message = ''m'',
     cp_Operations = [\<lparr>op_Kind = OperationObjectVersionCreated, op_EntityID = ''o'', op_VersionNo = 2, op_Detail = []\<rparr>],
     cp_BaseStateID = Some ''s1'', cp_GitCommitSHA = None, cp_ManifestVersion = ''1'', cp_Gate = GateDraft, cp_ResearchPRMerge = False\<rparr>"

definition accepting_validator :: "unit Validator" where
  "accepting_validator = sample_validator\<lparr>vd_reg :=
     [(\<lparr>rf_ID = ''lab:x'', rf_Version = ''2''\<rparr>, sample_ext), (coreRef, sample_ext)]\<rparr>"

definition sample_result :: "(go_error + ProjectState \<times> StateCommit) \<times> database" where
  "sample_result = Commit sample_pg (\<lambda>_. ''d'') Some (Some accepting_validator) sample_commit_params (Some sample_write) sample_db"

definition sample_state :: ProjectState where
  "sample_state = fst (projr (fst sample_result))"

lemma sample_commit_evaluates:
  "case sample_result of
     (Inr (s, c), db) \<Rightarrow> (\<forall>t \<in> set (db_states db). textUUID sample_pg (ps_ID t) = Some (ps_ID t)) \<and> s \<in> set (db_states db)
       \<and> sample_branch\<lparr>bn_BaseStateID := Some (ps_ID s)\<rparr> \<in> set (db_branches db) \<and> own_states db (bn_ID sample_branch) \<noteq> []
   | _ \<Rightarrow> False"
  by code_simp

lemma sample_resultE:
  obtains s c db where "sample_result = (Inr (s, c), db)" and "\<forall>t \<in> set (db_states db). textUUID sample_pg (ps_ID t) = Some (ps_ID t)"
    and "s \<in> set (db_states db)" and "sample_branch\<lparr>bn_BaseStateID := Some (ps_ID s)\<rparr> \<in> set (db_branches db)"
    and "own_states db (bn_ID sample_branch) \<noteq> []"
  using sample_commit_evaluates by (auto split: prod.splits sum.splits)

lemma sample_result_eq:
  "sample_result = (Inr (sample_state, snd (projr (fst sample_result))), snd sample_result)"
proof (rule sample_resultE)
  fix s c db
  assume r: "sample_result = (Inr (s, c), db)"
  show ?thesis unfolding sample_state_def r by simp
qed

lemma sample_result_facts:
  "(\<forall>t \<in> set (db_states (snd sample_result)). textUUID sample_pg (ps_ID t) = Some (ps_ID t))
   \<and> sample_state \<in> set (db_states (snd sample_result))
   \<and> sample_branch\<lparr>bn_BaseStateID := Some (ps_ID sample_state)\<rparr> \<in> set (db_branches (snd sample_result))
   \<and> own_states (snd sample_result) (bn_ID sample_branch) \<noteq> []"
proof (rule sample_resultE)
  fix s c db
  assume r: "sample_result = (Inr (s, c), db)" and "\<forall>t \<in> set (db_states db). textUUID sample_pg (ps_ID t) = Some (ps_ID t)"
    and "s \<in> set (db_states db)" and "sample_branch\<lparr>bn_BaseStateID := Some (ps_ID s)\<rparr> \<in> set (db_branches db)"
    and "own_states db (bn_ID sample_branch) \<noteq> []"
  then show ?thesis unfolding sample_state_def r by simp
qed

lemma sample_well_behaved: "well_behaved sample_write"
proof -
  have "callback_step db db'" if "sample_write sid db = Inr ((), db')" for sid db db'
  proof -
    from that obtain v where "CreateVersionInTx sample_pg ''o'' 1 (sample_params\<lparr>vp_StateID := sid\<rparr>) db = Inr (v, db')"
      by (auto simp: sample_write_def tx_simps)
    then show ?thesis by (intro write_row create_version)
  qed
  then show ?thesis by (auto simp: well_behaved_def)
qed

lemma sample_chains: "chains_ok sample_db"
  by (auto simp: chains_ok_def keys_ok_def references_ok_def chain_of_def own_states_def own_commits_def branch_heads_def
    sample_db_def sample_branch_def sample_state_row_def)

lemma sample_commit_step: "platform_step (Some accepting_validator) sample_db (snd sample_result)"
  using sample_result_eq unfolding sample_result_def by (rule commit) (rule sample_well_behaved)

section \<open>Lemmas on single commits\<close>

lemma validated_operations:
  assumes "validateCommitParams renum inp"
  obtains ops hash where "marshal_operations (cp_Operations inp) = Some ops"
    and "ComputeStateHash sha (cp_BaseStateID inp) (cp_Operations inp) = Some hash"
proof -
  have "list_all (\<lambda>op. op_Detail op = [] \<or> unmarshal_doc (op_Detail op) \<noteq> None) (cp_Operations inp)"
    using assms by (auto simp: validateCommitParams_def valid_operation_def decodes_def list_all_iff split: option.splits)
  then show ?thesis using that by (auto simp: marshal_operations_def ComputeStateHash_def)
qed

lemma chain_parents_precede:
  assumes "linked ss" and "ss \<noteq> []" and "\<And>p. ps_ParentStateID (hd ss) = Some p \<Longrightarrow> p \<notin> ps_ID ` set ss"
    and "distinct (map ps_ID ss)" and "s \<in> set ss"
  shows "ps_ParentStateID s \<noteq> Some (ps_ID (last ss))"
proof -
  have l: "linked ss \<Longrightarrow> Suc k < length ss \<Longrightarrow> ps_ParentStateID (ss ! Suc k) = Some (ps_ID (ss ! k))" for k ss
  proof (induction ss arbitrary: k rule: linked.induct)
    case (1 s t ss)
    then show ?case by (cases k) auto
  qed auto
  from assms(5) obtain k where k: "k < length ss" "s = ss ! k" by (auto simp: in_set_conv_nth)
  show ?thesis
  proof (cases k)
    case 0
    then show ?thesis using assms(2,3) k last_in_set [OF assms(2)] by (auto simp: hd_conv_nth)
  next
    case (Suc j)
    then have "ps_ParentStateID s = Some (ps_ID (ss ! j))" using l [OF assms(1), of j] k by simp
    moreover have "ps_ID (ss ! j) \<noteq> ps_ID (last ss)"
    proof -
      have "j < length ss - 1" using k Suc by simp
      then have "map ps_ID ss ! j \<noteq> map ps_ID ss ! (length ss - 1)"
        using nth_eq_iff_index_eq [OF assms(4), of j "length ss - 1"] by auto
      then show ?thesis using assms(2) k Suc by (simp add: last_conv_nth)
    qed
    ultimately show ?thesis by simp
  qed
qed

lemma fold_add_unseen:
  assumes "inj_on rid (set acc \<union> set rs)"
  shows "set (fold (add_unseen rid) rs acc) = set acc \<union> set rs"
  using assms
proof (induction rs arbitrary: acc)
  case Nil
  then show ?case by simp
next
  case (Cons r rs)
  have "set (add_unseen rid r acc) = insert r (set acc)"
    using Cons.prems by (auto simp: add_unseen_def inj_on_def)
  then show ?case using Cons.IH [of "add_unseen rid r acc"] Cons.prems by simp
qed

text \<open>The guard looks at exactly the version rows of the branch's states.\<close>

lemma collect_members_set:
  assumes "fold_err (collect_members pg db) states acc = Inr (objs, rels)"
    and "\<forall>s \<in> set states. textUUID pg (ps_ID s) = Some (ps_ID s)" and "keys_ok db"
    and "set (fst acc) \<subseteq> vr_version ` set (db_object_versions db)" and "set (snd acc) \<subseteq> set (db_relation_versions db)"
  shows "set objs = set (fst acc) \<union> {v \<in> vr_version ` set (db_object_versions db). sv_StateID v \<in> ps_ID ` set states}"
    and "set rels = set (snd acc) \<union> {v \<in> set (db_relation_versions db). rv_StateID v \<in> ps_ID ` set states}"
proof -
  have io: "inj_on sv_ID (vr_version ` set (db_object_versions db))"
    using assms(3) by (auto simp: keys_ok_def distinct_map inj_on_def)
  have ir: "inj_on rv_ID (set (db_relation_versions db))"
    using assms(3) by (auto simp: keys_ok_def distinct_map)
  have "set objs = set (fst acc) \<union> {v \<in> vr_version ` set (db_object_versions db). sv_StateID v \<in> ps_ID ` set states}
      \<and> set rels = set (snd acc) \<union> {v \<in> set (db_relation_versions db). rv_StateID v \<in> ps_ID ` set states}"
    using assms(1,2,4,5)
  proof (induction states arbitrary: acc)
    case Nil
    then show ?case by simp
  next
    case (Cons s states)
    let ?ov = "ListStateObjectVersionsByState (ps_ID s) db" and ?rv = "ListStateRelationVersionsByState (ps_ID s) db"
    let ?acc = "(fold (add_unseen sv_ID) ?ov (fst acc), fold (add_unseen rv_ID) ?rv (snd acc))"
    have c: "collect_members pg db s acc = Inr ?acc" using Cons.prems(2) by (simp add: collect_members_def probe_list_def)
    have so: "set ?ov = {v \<in> vr_version ` set (db_object_versions db). sv_StateID v = ps_ID s}"
      by (auto simp: ListStateObjectVersionsByState_def)
    have sr: "set ?rv = {v \<in> set (db_relation_versions db). rv_StateID v = ps_ID s}"
      by (auto simp: ListStateRelationVersionsByState_def)
    have o: "set (fst ?acc) = set (fst acc) \<union> set ?ov"
      unfolding fst_conv by (rule fold_add_unseen, rule inj_on_subset [OF io]) (use Cons.prems(3) so in auto)
    have r: "set (snd ?acc) = set (snd acc) \<union> set ?rv"
      unfolding snd_conv by (rule fold_add_unseen, rule inj_on_subset [OF ir]) (use Cons.prems(4) sr in auto)
    have f: "fold_err (collect_members pg db) states ?acc = Inr (objs, rels)" using Cons.prems(1) c by simp
    have p: "\<forall>s \<in> set states. textUUID pg (ps_ID s) = Some (ps_ID s)" using Cons.prems(2) by simp
    have q: "set (fst ?acc) \<subseteq> vr_version ` set (db_object_versions db)" unfolding o so using Cons.prems(3) by auto
    have t: "set (snd ?acc) \<subseteq> set (db_relation_versions db)" unfolding r sr using Cons.prems(4) by auto
    from Cons.IH [OF f p q t] show ?case unfolding o r so sr by auto
  qed
  then show "set objs = set (fst acc) \<union> {v \<in> vr_version ` set (db_object_versions db). sv_StateID v \<in> ps_ID ` set states}"
    and "set rels = set (snd acc) \<union> {v \<in> set (db_relation_versions db). rv_StateID v \<in> ps_ID ` set states}" by auto
qed

end
