(* ===== verification/CommitProtocol.thy ===== *)
theory CommitProtocol
  imports StateHistory
begin

text \<open>
  The properties of the commit protocol: what one commit leaves behind on success and on failure,
  what its gate saw, and what the histories of the platform keep.
\<close>

section \<open>Histories only grow\<close>

text \<open>The states and the commits are append-only.\<close>

definition grows :: "database \<Rightarrow> database \<Rightarrow> bool" where
  "grows db db' \<longleftrightarrow> prefix (db_states db) (db_states db') \<and> prefix (db_commits db) (db_commits db')"

lemma grows_refl [simp]: "grows db db"
  by (simp add: grows_def)



lemma commit_appends:
  fixes guard :: "'c Validator option"
  assumes "Commit pg sha renum guard inp (Some w) db = (Inr (s, c), db')" and "well_behaved w" and "keys_ok db"
  obtains p i a base where "commit_ids pg inp = Some (p, i, a, base)"
    and "(i, base) \<in> set (branch_heads db)"
    and "db_states db' = db_states db @ [s]" and "db_commits db' = db_commits db @ [c]"
    and "branch_heads db' = move_head i (ps_ID s) (branch_heads db)"
    and "ps_ProjectID s = p" and "ps_BranchID s = Some i" and "ps_ParentStateID s = base"
    and "cm_BranchID c = i" and "cm_BaseStateID c = base" and "cm_ResultStateID c = ps_ID s" and "cm_ActorID c = a"
proof -
  from assms(1,3) obtain p i a base db2 db3 where ids: "commit_ids pg inp = Some (p, i, a, base)"
    and s: "ps_BranchID s = Some i" "ps_ParentStateID s = base" "ps_ProjectID s = p"
    and head: "(i, base) \<in> set (branch_heads db)"
    and h2: "branch_heads db2 = move_head i (ps_ID s) (branch_heads db)"
    and d2: "db2 = db\<lparr>db_states := db_states db @ [s], db_branches := advance_head i p base (ps_ID s) (db_branches db),
      db_seq := Suc (db_seq db)\<rparr>"
    and wr: "w (ps_ID s) db2 = Inr ((), db3)"
    and d': "db' = db3\<lparr>db_commits := db_commits db3 @ [c], db_seq := Suc (db_seq db3)\<rparr>"
    and c: "cm_BranchID c = i" "cm_BaseStateID c = base" "cm_ResultStateID c = ps_ID s" "cm_ActorID c = a"
    by (rule commit_effect)
  have "same_chains db2 db3"
    using wr assms(2) by (auto simp: well_behaved_def intro: callback_same_chains)
  then have e: "db_states db3 = db_states db2" "db_commits db3 = db_commits db2" "branch_heads db3 = branch_heads db2"
    by (simp_all add: same_chains_def)
  have "db_branches db' = db_branches db3" by (simp add: d')
  then have hs: "branch_heads db' = move_head i (ps_ID s) (branch_heads db)" using e h2 by (simp add: branch_heads_def)
  have "db_states db' = db_states db @ [s]" and "db_commits db' = db_commits db @ [c]"
    using e by (simp_all add: d' d2)
  then show ?thesis using that ids head hs s c by blast
qed




section \<open>Properties\<close>

text \<open>C24: One commit, all or nothing.  A refused commit leaves the store as it was.  A successful
  one appends exactly one state, whose parent is the head the caller based it on and which was the
  branch's head, makes it the branch's head, leaves every other branch's head alone, and appends
  exactly one commit, the edge from the base to the new state by the acting user.\<close>

theorem commit_outcome:
  assumes "Commit pg sha renum guard inp (Some w) db = (res, db')" and "well_behaved w" and "keys_ok db"
  shows "case res of
      Inl e \<Rightarrow> db' = db
    | Inr (s, c) \<Rightarrow>
        \<exists>i base. textUUID pg (cp_BranchID inp) = Some i \<and> optionalUUIDPtr pg (cp_BaseStateID inp) = Some base
          \<and> (i, base) \<in> set (branch_heads db)
          \<and> db_states db' = db_states db @ [s] \<and> ps_BranchID s = Some i \<and> ps_ParentStateID s = base
          \<and> textUUID pg (cp_ProjectID inp) = Some (ps_ProjectID s)
          \<and> branch_heads db' = map (\<lambda>(j, h). if j = i then (j, Some (ps_ID s)) else (j, h)) (branch_heads db)
          \<and> db_commits db' = db_commits db @ [c] \<and> cm_BranchID c = i \<and> cm_BaseStateID c = base
          \<and> cm_ResultStateID c = ps_ID s \<and> textUUID pg (cp_ActorID inp) = Some (cm_ActorID c)"
proof (cases res)
  case (Inl e)
  then show ?thesis using assms(1) Commit_refused_unchanged by auto
next
  case (Inr r)
  obtain s c where r: "r = (s, c)" by (cases r)
  have "Commit pg sha renum guard inp (Some w) db = (Inr (s, c), db')" using assms(1) Inr r by simp
  then show ?thesis
    using assms(2,3) unfolding Inr r
    by (rule commit_appends) (auto simp: commit_ids_def bind_eq_Some_conv move_head_def)
qed
lemma sample_keys: "keys_ok sample_db"
  using sample_chains by (simp add: chains_ok_def)

theorem commit_outcome_witness:
  "db_states (snd sample_result) = db_states sample_db @ [sample_state]
    \<and> ps_ParentStateID sample_state = Some ''s1''"
proof -
  have u: "optionalUUIDPtr sample_pg (cp_BaseStateID sample_commit_params) = Some (Some ''s1'')" by code_simp
  have e: "Commit sample_pg (\<lambda>_. ''d'') Some (Some accepting_validator) sample_commit_params (Some sample_write) sample_db
      = (Inr (sample_state, snd (projr (fst sample_result))), snd sample_result)"
    using sample_result_eq by (simp only: sample_result_def)
  show ?thesis
    using commit_outcome [OF e sample_well_behaved sample_keys, unfolded sum.case prod.case u] by auto
qed

text \<open>C26: A frozen main is changed by a research merge only.  A well-formed commit to the main
  branch of a project whose main is frozen that is not marked as the merge of a research pull
  request is refused with the error that names the project and the branch, whatever the base, the
  callback and the gate are, and changes nothing.\<close>

theorem frozen_main_needs_merge:
  fixes val :: "'c Validator"
  assumes "validateCommitParams renum inp" and "\<not> cp_ResearchPRMerge inp"
    and "commit_ids pg inp = Some (p, i, a, base)" and "frozen_main i p db"
    and "pg_begin pg = None" and "pg_rollback pg = None"
  shows "Commit pg sha renum (Some val) inp (Some w) db = (Inl (MainFrozenDirectWriteError p i), db)"
proof -
  obtain ops hash where o: "marshal_operations (cp_Operations inp) = Some ops"
    and h: "ComputeStateHash sha (cp_BaseStateID inp) (cp_Operations inp) = Some hash"
    using assms(1) by (rule validated_operations)
  have cs: "commit_statements pg (commit_state_params inp hash) w' p i a base ops db = Inl (MainFrozenDirectWriteError p i)" for w'
    using assms(2,4) by (simp add: commit_statements_def tx_bind_def require_not_frozen_iff)
  have m: "states_wrapStoreError (mapStateWriteError (MainFrozenDirectWriteError p i)) = MainFrozenDirectWriteError p i"
    by (simp add: mapStateWriteError_def states_wrapStoreError_def error_defs)
  show ?thesis
    using assms(1,3,5,6) o h m
    by (auto simp: Commit_def CommitState_def commit_ids_def WithTx_def cs bind_eq_Some_conv)
qed

definition frozen_db :: database where
  "frozen_db = sample_db\<lparr>db_projects := [\<lparr>pj_ID = ''p'', pj_Visibility = ''public'', pj_MainFrozen = True\<rparr>]\<rparr>"

theorem frozen_main_needs_merge_witness:
  "Commit sample_pg (\<lambda>_. ''d'') Some (Some accepting_validator) sample_commit_params (Some sample_write) frozen_db
     = (Inl (MainFrozenDirectWriteError ''p'' ''b''), frozen_db)"
proof (rule frozen_main_needs_merge)
  show "validateCommitParams Some sample_commit_params" by code_simp
  show "\<not> cp_ResearchPRMerge sample_commit_params" by code_simp
  show "commit_ids sample_pg sample_commit_params = Some (''p'', ''b'', ''u'', Some ''s1'')" by code_simp
  show "frozen_main ''b'' ''p'' frozen_db"
    by (simp add: frozen_main_def frozen_db_def sample_db_def sample_branch_def)
  show "pg_begin sample_pg = None" and "pg_rollback sample_pg = None" by (simp_all add: sample_pg_def)
qed



text \<open>C25: A committed state passed its gate.  When a commit succeeds, the validator reported no
  blocking failure at the requested gate for the branch as the commit left it: the new state as head,
  all states of the branch, the earlier commits followed by the one in flight, and as members exactly
  the object and relation versions written in those states, the callback's own writes included.\<close>

theorem committed_state_passes_gate:
  fixes guard :: "'c Validator option"
  assumes "Commit pg sha renum guard inp (Some w) db = (Inr (s, c), db')" and "well_behaved w" and "keys_ok db"
    and "\<forall>t \<in> set (db_states db'). textUUID pg (ps_ID t) = Some (ps_ID t)"
    and "textUUID pg (cp_BranchID inp) = Some i"
  shows "\<exists>val objs rels summary.
      guard = Some val \<and> ValidCommitGate (cp_Gate inp)
      \<and> \<not> Blocked (Validate val (cp_Gate inp) (commit_snapshot (commit_facts inp (ps_ID s)) s
            (ListProjectStatesByBranch i db') (ListStateCommitsByBranch i db) objs rels summary))
      \<and> set objs = {v \<in> vr_version ` set (db_object_versions db'). sv_StateID v \<in> ps_ID ` set (own_states db' i)}
      \<and> set rels = {v \<in> set (db_relation_versions db'). rv_StateID v \<in> ps_ID ` set (own_states db' i)}"
proof -
  from assms(1,3) obtain val :: "'c Validator" and hash p j a base ops db2 db3 where
    v: "guard = Some val"
    and ids: "commit_ids pg inp = Some (p, j, a, base)"
    and fresh: "ps_ID s \<notin> ps_ID ` set (db_states db)" and sb: "ps_BranchID s = Some j"
    and d2: "db2 = db\<lparr>db_states := db_states db @ [s], db_branches := advance_head j p base (ps_ID s) (db_branches db),
      db_seq := Suc (db_seq db)\<rparr>"
    and wr: "w (ps_ID s) db2 = Inr ((), db3)"
    and gate: "RequireCommitGate pg val (cp_Gate inp) (commit_facts inp (ps_ID s)) db3 = None"
    and d': "db' = db3\<lparr>db_commits := db_commits db3 @ [c], db_seq := Suc (db_seq db3)\<rparr>"
    by (rule commit_effect)
  have j: "j = i" using ids assms(5) by (auto simp: commit_ids_def bind_eq_Some_conv)
  have sc: "same_chains db2 db3"
    using wr assms(2) by (auto simp: well_behaved_def intro: callback_same_chains)
  have "keys_ok db2" using assms(3) fresh by (simp add: d2 keys_ok_def)
  then have k3: "keys_ok db3" using sc by (simp add: same_chains_def)
  have st: "db_states db3 = db_states db @ [s]" "db_commits db3 = db_commits db" using sc by (simp_all add: same_chains_def d2)
  have e: "db_states db' = db_states db3" "db_object_versions db' = db_object_versions db3"
    "db_relation_versions db' = db_relation_versions db3" by (simp_all add: d')
  have ls: "ListProjectStatesByBranch i db3 = ListProjectStatesByBranch i db'"
    and lc: "ListStateCommitsByBranch i db3 = ListStateCommitsByBranch i db"
    by (simp_all add: ListProjectStatesByBranch_def ListStateCommitsByBranch_def e st)
  have own: "set (ListProjectStatesByBranch i db') = set (own_states db' i)"
    by (simp add: ListProjectStatesByBranch_def own_states_def)
  have f: "cf_BranchID (commit_facts inp (ps_ID s)) = cp_BranchID inp" "cf_ResultStateID (commit_facts inp (ps_ID s)) = ps_ID s"
    by (simp_all add: commit_facts_def)
  obtain head objs rels summary where g: "ValidCommitGate (cp_Gate inp)"
    and hd: "find (\<lambda>t. ps_ID t = ps_ID s) (ListProjectStatesByBranch i db') = Some head"
    and cm: "fold_err (collect_members pg db3) (ListProjectStatesByBranch i db') ([], []) = Inr (objs, rels)"
    and nb: "\<not> Blocked (Validate val (cp_Gate inp) (commit_snapshot (commit_facts inp (ps_ID s)) head
            (ListProjectStatesByBranch i db') (ListStateCommitsByBranch i db) objs rels summary))"
    using gate assms(5) unfolding RequireCommitGate_def probe_list_def f
    by (auto simp: ls lc Let_def split: if_splits option.splits sum.splits)
  have "head \<in> set (own_states db' i)" and hi: "ps_ID head = ps_ID s"
    using hd own unfolding find_Some_iff by auto
  then have "head \<in> set (db_states db @ [s])" by (simp add: own_states_def e st split: if_splits) blast+
  then have head: "head = s" using fresh [folded hi] by auto
  have can: "\<forall>t \<in> set (ListProjectStatesByBranch i db'). textUUID pg (ps_ID t) = Some (ps_ID t)"
    using assms(4) own by (auto simp: own_states_def)
  note M = collect_members_set [OF cm can k3, unfolded own fst_conv snd_conv]
  show ?thesis
    using v g nb M unfolding head e by (intro exI [of _ val] exI [of _ objs] exI [of _ rels] exI [of _ summary]) simp
qed

theorem committed_state_passes_gate_witness:
  "\<exists>objs rels summary. \<not> Blocked (Validate accepting_validator GateDraft
      (commit_snapshot (commit_facts sample_commit_params (ps_ID sample_state)) sample_state
         (ListProjectStatesByBranch ''b'' (snd sample_result)) (ListStateCommitsByBranch ''b'' sample_db) objs rels summary))
    \<and> set objs = {v \<in> vr_version ` set (db_object_versions (snd sample_result)).
         sv_StateID v \<in> ps_ID ` set (own_states (snd sample_result) ''b'')}"
proof -
  have e: "Commit sample_pg (\<lambda>_. ''d'') Some (Some accepting_validator) sample_commit_params (Some sample_write) sample_db
      = (Inr (sample_state, snd (projr (fst sample_result))), snd sample_result)"
    using sample_result_eq by (simp only: sample_result_def)
  have u: "\<forall>t \<in> set (db_states (snd sample_result)). textUUID sample_pg (ps_ID t) = Some (ps_ID t)" using sample_result_facts by blast
  have i: "textUUID sample_pg (cp_BranchID sample_commit_params) = Some ''b''" by code_simp
  have g: "cp_Gate sample_commit_params = GateDraft" by (simp add: sample_commit_params_def)
  show ?thesis
    using committed_state_passes_gate [OF e sample_well_behaved sample_keys u i] unfolding g by blast
qed





text \<open>The outcomes of the states service among the errors in a chain.\<close>

definition states_outcome :: "go_error \<Rightarrow> bool" where
  "states_outcome e \<longleftrightarrow>
     (\<exists>s \<in> {states_ErrStateNotFound, states_ErrCommitNotFound, states_ErrBranchNotFound, states_ErrStateExists, states_ErrValidation}.
        errors_Is e s)
     \<or> as_StateConflictError e \<or> as_BranchNotActiveError e \<or> as_MainFrozenDirectWriteError e"

lemma wrap_callback_error:
  "states_wrapStoreError (mapStateWriteError (CommitWriteError e)) = (if states_outcome e then CommitWriteError e else e)"
  by (auto simp: states_wrapStoreError_def mapStateWriteError_def states_outcome_def error_defs)

text \<open>The error of a callback.  When the state row and the head move went through and the
  callback fails, the transaction is rolled back and the caller gets the callback's own error; only
  when that error is or wraps an outcome of the states service itself does the caller get it inside
  the marker of a callback failure.\<close>

theorem callback_error_outcome:
  fixes val :: "'c Validator"
  assumes "validateCommitParams renum inp" and "commit_ids pg inp = Some (p, i, a, base)"
    and "cp_ResearchPRMerge inp \<or> \<not> frozen_main i p db"
    and "ComputeStateHash sha (cp_BaseStateID inp) (cp_Operations inp) = Some hash"
    and "CreateProjectState pg p (Some i) base hash (nonempty_text (cp_GitCommitSHA inp)) (cp_ManifestVersion inp) db = Inr (s, db1)"
    and "UpdateBranchBaseState i p (ps_ID s) base db1 = Inr (b, db2)"
    and "w (ps_ID s) db2 = Inl e" and "pg_begin pg = None" and "pg_rollback pg = None"
  shows "Commit pg sha renum (Some val) inp (Some w) db = (Inl (if states_outcome e then CommitWriteError e else e), db)"
proof -
  obtain ops where o: "marshal_operations (cp_Operations inp) = Some ops"
    using assms(1) by (rule validated_operations [where sha = sha])
  have "guarded pg val inp w (ps_ID s) db2 = Inl e" by (simp add: guarded_def tx_bind_def assms(7))
  then have cs: "commit_statements pg (commit_state_params inp hash) (guarded pg val inp w) p i a base ops db
      = Inl (CommitWriteError e)"
    using assms(3,5,6)
    by (auto simp: commit_statements_def tx_bind_def tx_return_def tx_raise_def tx_catch_def require_not_frozen_iff mapping_errors_def
      commit_state_params_def)
  show ?thesis
    using assms(1,2,4,8,9) o
    by (auto simp: Commit_def CommitState_def commit_ids_def WithTx_def cs bind_eq_Some_conv wrap_callback_error)
qed

theorem callback_error_outcome_witness:
  "Commit sample_pg (\<lambda>_. ''d'') Some (Some accepting_validator) sample_commit_params (Some (\<lambda>_ _. Inl (ErrorText ''x''))) sample_db
     = (Inl (ErrorText ''x''), sample_db)"
proof -
  let ?c = "CreateProjectState sample_pg ''p'' (Some ''b'') (Some ''s1'') ''d'' None ''1'' sample_db"
  let ?s = "fst (projr ?c)" and ?db1 = "snd (projr ?c)"
  let ?u = "UpdateBranchBaseState ''b'' ''p'' (ps_ID ?s) (Some ''s1'') ?db1"
  have v: "validateCommitParams Some sample_commit_params" by code_simp
  have i: "commit_ids sample_pg sample_commit_params = Some (''p'', ''b'', ''u'', Some ''s1'')" by code_simp
  have f: "cp_ResearchPRMerge sample_commit_params \<or> \<not> frozen_main ''b'' ''p'' sample_db"
    by (simp add: frozen_main_def sample_db_def sample_branch_def)
  have h: "ComputeStateHash (\<lambda>_. ''d'') (cp_BaseStateID sample_commit_params) (cp_Operations sample_commit_params) = Some ''d''"
    by code_simp
  have c: "CreateProjectState sample_pg ''p'' (Some ''b'') (Some ''s1'') ''d'' (nonempty_text (cp_GitCommitSHA sample_commit_params))
      (cp_ManifestVersion sample_commit_params) sample_db = Inr (?s, ?db1)" by code_simp
  have u: "?u = Inr (fst (projr ?u), snd (projr ?u))" by code_simp
  have b: "pg_begin sample_pg = None" "pg_rollback sample_pg = None" by (simp_all add: sample_pg_def)
  have n: "\<not> states_outcome (ErrorText ''x'')" by (simp add: states_outcome_def error_defs)
  show ?thesis
    using callback_error_outcome [where w = "\<lambda>_ _. Inl (ErrorText ''x'')" and val = accepting_validator, OF v i f h c u refl b] n
    by simp
qed

end
