(* ===== verification/Outbox.thy ===== *)
theory Outbox
  imports SemanticWrites
begin

text \<open>
  The two records a governed command writes inside its own transaction: the domain event in the
  outbox (internal/events/event.go) and the audit row (internal/persistence/audit_store.go).  The
  request context (the caller's identity and correlation id) and the randomness behind a fresh
  correlation id are the fields of \<open>CallCtx\<close>; \<open>renum\<close> is the conversion of a JSON
  number's text to \<open>float64\<close> and back.
\<close>

section \<open>Events\<close>

record RequestInfo =
  ri_ActorID :: string
  ri_Via :: string
  ri_CorrelationID :: string

record CallCtx =
  cx_request :: "RequestInfo option"
  cx_newUUID :: "string option"

record Event =
  ev_EventType :: string
  ev_ActorID :: string
  ev_ProjectID :: string
  ev_Visibility :: string
  ev_Via :: string
  ev_CorrelationID :: string
  ev_Payload :: raw

definition VisibilityPublic :: string where "VisibilityPublic = ''public''"
definition VisibilityPrivate :: string where "VisibilityPrivate = ''private''"

definition absent_payload :: "raw \<Rightarrow> bool" where
  "absent_payload p \<longleftrightarrow> p = [] \<or> p = [TNull]"

text \<open>\<open>validate\<close>; every refusal is an error of its own text.\<close>

definition event_validate :: "(string \<Rightarrow> string option) \<Rightarrow> Event \<Rightarrow> bool" where
  "event_validate renum e \<longleftrightarrow>
     ev_EventType e \<noteq> []
     \<and> (ev_Visibility e = VisibilityPublic \<or> ev_Visibility e = VisibilityPrivate)
     \<and> (ev_Via e = [] \<or> ValidStateVia (ev_Via e))
     \<and> (absent_payload (ev_Payload e) \<or> decodes_to_object renum (ev_Payload e))"

text \<open>\<open>withPayloadVersion\<close>: the object with its members sorted, and the default version
  when it has none.\<close>

definition withPayloadVersion :: "raw \<Rightarrow> raw option" where
  "withPayloadVersion p =
     map_option (\<lambda>kvs. marshal (JObj (if ''payload_version'' \<in> fst ` set kvs then kvs
                                       else kvs @ [(''payload_version'', JStr ''1'')])))
       (if absent_payload p then Some []
        else case unmarshal_doc p of Some (JObj kvs) \<Rightarrow> Some kvs | _ \<Rightarrow> None)"

definition correlation_id :: "CallCtx \<Rightarrow> string \<Rightarrow> string option" where
  "correlation_id cx own =
     (if own \<noteq> [] then Some own
      else case cx_request cx of
        Some info \<Rightarrow> if ri_CorrelationID info \<noteq> [] then Some (ri_CorrelationID info) else cx_newUUID cx
      | None \<Rightarrow> cx_newUUID cx)"

text \<open>A text bound to a nullable uuid column: the empty text is NULL, a text that is no uuid is the
  server's error.\<close>

definition uuid_column :: "pg \<Rightarrow> string \<Rightarrow> string option option" where
  "uuid_column pg s = (if s = [] then Some None else map_option Some (pg_parse pg s))"

definition insertOutboxEvent :: "pg \<Rightarrow> Event \<Rightarrow> raw \<Rightarrow> string \<Rightarrow> unit tx" where
  "insertOutboxEvent pg e payload corr = (\<lambda>db.
     case (uuid_column pg (ev_ActorID e), uuid_column pg (ev_ProjectID e), pg_jsonb pg payload) of
       (Some actor, Some project, Some stored) \<Rightarrow>
         (case violation
           [(references actor (db_users db), ''23503'', ''outbox_events_actor_id_fkey''),
            (references project (map pj_ID (db_projects db)), ''23503'', ''outbox_events_project_id_fkey'')]
          of Some v \<Rightarrow> Inl v
           | None \<Rightarrow> Inr ((), db\<lparr>db_outbox := db_outbox db @
               [\<lparr>ob_EventType = ev_EventType e, ob_ActorID = actor, ob_ProjectID = project, ob_Visibility = ev_Visibility e,
                 ob_Payload = stored, ob_CorrelationID = corr, ob_Via = (if ev_Via e = [] then None else Some (ev_Via e))\<rparr>]\<rparr>))
     | _ \<Rightarrow> Inl (PgError ''22P02'' []))"

definition Record :: "pg \<Rightarrow> (string \<Rightarrow> string option) \<Rightarrow> CallCtx \<Rightarrow> Event \<Rightarrow> unit tx" where
  "Record pg renum cx e =
     (if \<not> event_validate renum e then tx_raise (ErrorText ''events: invalid event'')
      else case withPayloadVersion (ev_Payload e) of
        None \<Rightarrow> tx_raise (ErrorText ''events: payload is not valid JSON'')
      | Some payload \<Rightarrow>
          (case correlation_id cx (ev_CorrelationID e) of
             None \<Rightarrow> tx_raise (ErrorText ''events: correlation id'')
           | Some corr \<Rightarrow> mapping_errors Errorf (insertOutboxEvent pg e payload corr)))"

section \<open>Audit rows\<close>

text \<open>The summaries and the metadata of an entry are the JSON they marshal to.\<close>

record AuditEntry =
  ae_ActorID :: string
  ae_Via :: string
  ae_Action :: string
  ae_TargetRef :: string
  ae_ProjectID :: string
  ae_OrganizationID :: string
  ae_CorrelationID :: string
  ae_BeforeSummary :: "raw option"
  ae_AfterSummary :: "raw option"
  ae_Metadata :: "raw option"

definition ViaSession :: string where "ViaSession = ''session''"
definition ViaInternal :: string where "ViaInternal = ''internal''"

definition or_else :: "string \<Rightarrow> string \<Rightarrow> string" where
  "or_else s t = (if s = [] then t else s)"

text \<open>\<open>auditParams\<close> with the request's fields filled in: the row to insert, or \<open>None\<close> for
  an id that is no uuid.\<close>

definition auditParams :: "pg \<Rightarrow> CallCtx \<Rightarrow> AuditEntry \<Rightarrow> audit_row option" where
  "auditParams pg cx e =
     (let info = (case cx_request cx of Some i \<Rightarrow> i | None \<Rightarrow> \<lparr>ri_ActorID = [], ri_Via = [], ri_CorrelationID = []\<rparr>);
          nullable = (\<lambda>s. if s = [] then Some None else map_option Some (textUUID pg s)) in
      Option.bind (nullable (or_else (ae_ActorID e) (ri_ActorID info))) (\<lambda>actor.
      Option.bind (nullable (ae_ProjectID e)) (\<lambda>project.
      Option.bind (nullable (ae_OrganizationID e)) (\<lambda>org.
        Some \<lparr>au_ActorID = actor, au_Via = or_else (or_else (ae_Via e) (ri_Via info)) ViaInternal,
          au_Action = ae_Action e, au_TargetRef = (if ae_TargetRef e = [] then None else Some (ae_TargetRef e)),
          au_ProjectID = project, au_OrganizationID = org,
          au_CorrelationID = or_else (ae_CorrelationID e) (ri_CorrelationID info),
          au_BeforeSummary = ae_BeforeSummary e, au_AfterSummary = ae_AfterSummary e,
          au_Metadata = (case ae_Metadata e of None \<Rightarrow> [TLBrace, TRBrace] | Some m \<Rightarrow> m)\<rparr>))))"

text \<open>The organizations are rows no component here reads: \<open>references\<close> on them is left to
  the server (the modelled callers write \<open>None\<close> or an organization whose row they hold locked).\<close>

definition RecordAuditLogEntry :: "pg \<Rightarrow> audit_row \<Rightarrow> unit tx" where
  "RecordAuditLogEntry pg row = (\<lambda>db.
     let stored = (\<lambda>r. case r of None \<Rightarrow> Some None | Some t \<Rightarrow> map_option Some (pg_jsonb pg t)) in
     case (stored (au_BeforeSummary row), stored (au_AfterSummary row), pg_jsonb pg (au_Metadata row)) of
       (Some before, Some after, Some metadata) \<Rightarrow>
         (case violation
           [(references (au_ActorID row) (db_users db), ''23503'', ''audit_log_actor_id_fkey''),
            (references (au_ProjectID row) (map pj_ID (db_projects db)), ''23503'', ''audit_log_project_id_fkey'')]
          of Some v \<Rightarrow> Inl v
           | None \<Rightarrow> Inr ((), db\<lparr>db_audit := db_audit db @
               [row\<lparr>au_BeforeSummary := before, au_AfterSummary := after, au_Metadata := metadata\<rparr>]\<rparr>))
     | _ \<Rightarrow> Inl (PgError ''22P02'' []))"

definition appendAudit :: "pg \<Rightarrow> CallCtx \<Rightarrow> AuditEntry \<Rightarrow> unit tx" where
  "appendAudit pg cx e =
     (case auditParams pg cx e of
        None \<Rightarrow> tx_raise (Errorf (ErrorText ''invalid uuid''))
      | Some row \<Rightarrow> mapping_errors Errorf (RecordAuditLogEntry pg row))"

section \<open>Effects\<close>

lemma insertOutboxEvent_Inr:
  "insertOutboxEvent pg e payload corr db = Inr ((), db') \<longleftrightarrow>
     (\<exists>actor project stored. uuid_column pg (ev_ActorID e) = Some actor \<and> uuid_column pg (ev_ProjectID e) = Some project
        \<and> pg_jsonb pg payload = Some stored \<and> references actor (db_users db) \<and> references project (map pj_ID (db_projects db))
        \<and> db' = db\<lparr>db_outbox := db_outbox db @
            [\<lparr>ob_EventType = ev_EventType e, ob_ActorID = actor, ob_ProjectID = project, ob_Visibility = ev_Visibility e,
              ob_Payload = stored, ob_CorrelationID = corr, ob_Via = (if ev_Via e = [] then None else Some (ev_Via e))\<rparr>]\<rparr>)"
  by (auto simp: insertOutboxEvent_def split: option.splits)

lemma Record_effect:
  assumes "Record pg renum cx e db = Inr ((), db')"
  obtains row where "db' = db\<lparr>db_outbox := db_outbox db @ [row]\<rparr>" and "ob_EventType row = ev_EventType e"
    and "ob_Visibility row = ev_Visibility e" and "ob_Visibility row = VisibilityPublic \<or> ob_Visibility row = VisibilityPrivate"
proof -
  from assms obtain payload corr where v: "event_validate renum e"
    and i: "insertOutboxEvent pg e payload corr db = Inr ((), db')"
    by (auto simp: Record_def mapping_errors_Inr tx_raise_def split: if_splits option.splits)
  from i obtain actor project stored where
    "db' = db\<lparr>db_outbox := db_outbox db @
       [\<lparr>ob_EventType = ev_EventType e, ob_ActorID = actor, ob_ProjectID = project, ob_Visibility = ev_Visibility e,
         ob_Payload = stored, ob_CorrelationID = corr, ob_Via = (if ev_Via e = [] then None else Some (ev_Via e))\<rparr>]\<rparr>"
    unfolding insertOutboxEvent_Inr by blast
  then show ?thesis by (rule that) (use v in \<open>simp_all add: event_validate_def\<close>)
qed

lemma RecordAuditLogEntry_effect:
  assumes "RecordAuditLogEntry pg row db = Inr ((), db')"
  obtains before after metadata where "db' = db\<lparr>db_audit := db_audit db @
      [row\<lparr>au_BeforeSummary := before, au_AfterSummary := after, au_Metadata := metadata\<rparr>]\<rparr>"
  using assms by (auto simp: RecordAuditLogEntry_def Let_def split: option.splits)

lemma appendAudit_effect:
  assumes "appendAudit pg cx e db = Inr ((), db')"
  obtains row where "db' = db\<lparr>db_audit := db_audit db @ [row]\<rparr>" and "au_Action row = ae_Action e"
    and "au_TargetRef row = (if ae_TargetRef e = [] then None else Some (ae_TargetRef e))"
proof -
  from assms obtain row where r: "auditParams pg cx e = Some row" and w: "RecordAuditLogEntry pg row db = Inr ((), db')"
    by (auto simp: appendAudit_def mapping_errors_Inr tx_raise_def split: option.splits)
  have f: "au_Action row = ae_Action e" "au_TargetRef row = (if ae_TargetRef e = [] then None else Some (ae_TargetRef e))"
    using r by (auto simp: auditParams_def Let_def bind_eq_Some_conv)
  obtain before after metadata where
    "db' = db\<lparr>db_audit := db_audit db @ [row\<lparr>au_BeforeSummary := before, au_AfterSummary := after, au_Metadata := metadata\<rparr>]\<rparr>"
    using w by (rule RecordAuditLogEntry_effect)
  then show ?thesis by (rule that) (simp_all add: f)
qed

end
