(* ===== verification/MergeStore.thy ===== *)
theory MergeStore
  imports Outbox Branches
begin

text \<open>
  Research PRs and merge records: the state machine of a PR (internal/domain/pullrequest.go), the
  Git saga states (internal/domain/semantic_merge.go) and the merge's PostgreSQL adapter
  (internal/persistence/merge_store.go) with its queries (internal/persistence/sqlc).
\<close>

section \<open>The PR state machine\<close>

definition PullRequestStateOpen :: string where "PullRequestStateOpen = ''open''"
definition PullRequestStateReviewRequired :: string where "PullRequestStateReviewRequired = ''review_required''"
definition PullRequestStateChangesRequested :: string where "PullRequestStateChangesRequested = ''changes_requested''"
definition PullRequestStateApproved :: string where "PullRequestStateApproved = ''approved''"
definition PullRequestStateMergeReady :: string where "PullRequestStateMergeReady = ''merge_ready''"
definition PullRequestStateMerged :: string where "PullRequestStateMerged = ''merged''"
definition PullRequestStateClosed :: string where "PullRequestStateClosed = ''closed''"
definition PullRequestStateAborted :: string where "PullRequestStateAborted = ''aborted''"

lemmas pr_state_defs = PullRequestStateOpen_def PullRequestStateReviewRequired_def PullRequestStateChangesRequested_def
  PullRequestStateApproved_def PullRequestStateMergeReady_def PullRequestStateMerged_def PullRequestStateClosed_def
  PullRequestStateAborted_def

definition ValidPullRequestState :: "string \<Rightarrow> bool" where
  "ValidPullRequestState s \<longleftrightarrow> s \<in> {PullRequestStateOpen, PullRequestStateReviewRequired, PullRequestStateChangesRequested,
     PullRequestStateApproved, PullRequestStateMergeReady, PullRequestStateMerged, PullRequestStateClosed, PullRequestStateAborted}"

definition prStateTransitions :: "(string \<times> string list) list" where
  "prStateTransitions =
     [(PullRequestStateOpen, [PullRequestStateReviewRequired, PullRequestStateClosed, PullRequestStateAborted]),
      (PullRequestStateReviewRequired,
        [PullRequestStateChangesRequested, PullRequestStateApproved, PullRequestStateClosed, PullRequestStateAborted]),
      (PullRequestStateChangesRequested, [PullRequestStateReviewRequired, PullRequestStateClosed, PullRequestStateAborted]),
      (PullRequestStateApproved, [PullRequestStateMergeReady, PullRequestStateClosed, PullRequestStateAborted]),
      (PullRequestStateMergeReady, [PullRequestStateMerged, PullRequestStateClosed, PullRequestStateAborted]),
      (PullRequestStateMerged, []),
      (PullRequestStateClosed, []),
      (PullRequestStateAborted, [])]"

definition CanTransitionPullRequestState :: "string \<Rightarrow> string \<Rightarrow> bool" where
  "CanTransitionPullRequestState from to \<longleftrightarrow>
     (case map_of prStateTransitions from of None \<Rightarrow> False | Some ts \<Rightarrow> to \<in> set ts)"

definition IsTerminalPullRequestState :: "string \<Rightarrow> bool" where
  "IsTerminalPullRequestState s \<longleftrightarrow> s \<in> {PullRequestStateMerged, PullRequestStateClosed, PullRequestStateAborted}"

text \<open>Lengths are in bytes, which is what a character of a \<open>string\<close> is.\<close>

definition ValidPullRequestTitle :: "string \<Rightarrow> bool" where
  "ValidPullRequestTitle title \<longleftrightarrow> TrimSpace title \<noteq> [] \<and> length (TrimSpace title) \<le> 200"

definition ValidPullRequestBody :: "string \<Rightarrow> bool" where
  "ValidPullRequestBody body \<longleftrightarrow> length body \<le> 50000"

section \<open>Merge records\<close>

definition GitStatePending :: string where "GitStatePending = ''pending''"
definition GitStateUpdated :: string where "GitStateUpdated = ''updated''"
definition GitStateFailed :: string where "GitStateFailed = ''failed''"
definition GitStateSkipped :: string where "GitStateSkipped = ''skipped''"

lemmas git_state_defs = GitStatePending_def GitStateUpdated_def GitStateFailed_def GitStateSkipped_def

definition ValidSemanticMergeGitState :: "string \<Rightarrow> bool" where
  "ValidSemanticMergeGitState s \<longleftrightarrow> s \<in> {GitStatePending, GitStateUpdated, GitStateFailed, GitStateSkipped}"

record CarriedConflict =
  wc_TargetKind :: string
  wc_TargetID :: string
  wc_Code :: string
  wc_Category :: string
  wc_Fields :: "string list"
  wc_PayloadKeys :: "string list"
  wc_OtherObjectID :: "string option"
  wc_Detail :: string
  wc_Decision :: string
  wc_DecidedBy :: string
  wc_Note :: string
  wc_SourceVersionID :: string
  wc_TargetVersionID :: "string option"

record WriteMergeParams =
  wm_ProjectID :: string
  wm_PullRequestID :: string
  wm_SourceBranchID :: string
  wm_TargetBranchID :: string
  wm_BaseStateID :: string
  wm_SourceStateID :: string
  wm_TargetStateID :: string
  wm_ResultStateID :: string
  wm_ActorID :: string
  wm_PlanVersion :: string
  wm_PlanJSON :: raw
  wm_PlanDigest :: string
  wm_Applied :: int
  wm_KeptTarget :: int
  wm_Carried :: int
  wm_Aborted :: int
  wm_Withheld :: int
  wm_CarriedConflicts :: "CarriedConflict list"
  wm_GitRef :: "string option"
  wm_GitState :: string
  wm_IdempotencyKey :: "string option"
  wm_Audit :: AuditEntry

record LockScopeParams =
  ls_ProjectID :: string
  ls_SourceProjectID :: string
  ls_PRNumber :: int
  ls_SourceBranchID :: string
  ls_TargetBranchID :: string

record MergeScope =
  ms_PullRequest :: PullRequest
  ms_Source :: Branch
  ms_Target :: Branch

text \<open>The version counters of a merge's containers, each map as its entries.\<close>

record VersionHeads =
  vh_Objects :: "(string \<times> int) list"
  vh_Relations :: "(string \<times> int) list"

record GitStepParams =
  gs_MergeID :: string
  gs_Ref :: "string option"
  gs_SHA :: string
  gs_State :: string
  gs_Error :: string

section \<open>Queries\<close>

definition GetPullRequestByProjectAndNumber :: "string \<Rightarrow> int \<Rightarrow> PullRequest tx" where
  "GetPullRequestByProjectAndNumber projectID n = (\<lambda>db.
     case find (\<lambda>r. pq_ProjectID r = projectID \<and> pq_Number r = n) (db_pull_requests db) of
       None \<Rightarrow> Inl (Sentinel pgx_ErrNoRows) | Some r \<Rightarrow> Inr (r, db))"

definition object_counter_query :: "string \<Rightarrow> int tx" where
  "object_counter_query i = (\<lambda>db.
     case find (\<lambda>r. so_ID r = i) (db_objects db) of
       None \<Rightarrow> Inl (Sentinel pgx_ErrNoRows) | Some r \<Rightarrow> Inr (so_CurrentVersionNo r, db))"

definition relation_counter_query :: "string \<Rightarrow> int tx" where
  "relation_counter_query i = (\<lambda>db.
     case find (\<lambda>r. rn_ID r = i) (db_relations db) of
       None \<Rightarrow> Inl (Sentinel pgx_ErrNoRows) | Some r \<Rightarrow> Inr (rn_CurrentVersionNo r, db))"

definition GetMergeCreation :: "string \<Rightarrow> string \<Rightarrow> string tx" where
  "GetMergeCreation projectID key = (\<lambda>db.
     case find (\<lambda>r. mk_ProjectID r = projectID \<and> mk_IdempotencyKey r = key) (db_merge_creations db) of
       None \<Rightarrow> Inl (Sentinel pgx_ErrNoRows) | Some r \<Rightarrow> Inr (mk_MergeID r, db))"

definition CreateMergeCreation :: "string \<Rightarrow> string \<Rightarrow> string \<Rightarrow> unit tx" where
  "CreateMergeCreation projectID key mergeID = (\<lambda>db.
     case violation
       [(\<not> list_ex (\<lambda>r. mk_ProjectID r = projectID \<and> mk_IdempotencyKey r = key) (db_merge_creations db),
          ''23505'', ''merge_creations_project_id_idempotency_key_key''),
        (projectID \<in> set (map pj_ID (db_projects db)), ''23503'', ''merge_creations_project_id_fkey''),
        (mergeID \<in> set (map sg_ID (db_merges db)), ''23503'', ''merge_creations_merge_id_fkey'')]
     of Some e \<Rightarrow> Inl e
      | None \<Rightarrow> Inr ((), db\<lparr>db_merge_creations := db_merge_creations db @
           [\<lparr>mk_ProjectID = projectID, mk_IdempotencyKey = key, mk_MergeID = mergeID\<rparr>]\<rparr>))"

definition merge_by_id :: "string \<Rightarrow> SemanticMerge tx" where
  "merge_by_id i = (\<lambda>db.
     case find (\<lambda>r. sg_ID r = i) (db_merges db) of None \<Rightarrow> Inl (Sentinel pgx_ErrNoRows) | Some r \<Rightarrow> Inr (r, db))"

section \<open>Reads\<close>

definition mergestore_GetPullRequest :: "pg \<Rightarrow> string \<Rightarrow> int \<Rightarrow> database \<Rightarrow> go_error + PullRequest" where
  "mergestore_GetPullRequest pg projectID n db =
     (case textUUID pg projectID of
        None \<Rightarrow> Inl (Sentinel merge_ErrPullRequestNotFound)
      | Some i \<Rightarrow> map_sum (not_found_as merge_ErrPullRequestNotFound) (\<lambda>r. r)
                    (pool_query pg (GetPullRequestByProjectAndNumber i n) db))"

definition mergestore_GetBranch :: "pg \<Rightarrow> string \<Rightarrow> string \<Rightarrow> database \<Rightarrow> go_error + Branch" where
  "mergestore_GetBranch pg projectID branchID db =
     (case (textUUID pg projectID, textUUID pg branchID) of
        (Some p, Some i) \<Rightarrow> map_sum (not_found_as merge_ErrBranchNotFound) (\<lambda>r. r) (pool_query pg (GetBranchByProjectAndID i p) db)
      | _ \<Rightarrow> Inl (Sentinel merge_ErrBranchNotFound))"

definition mergestore_GetBranchByID :: "pg \<Rightarrow> string \<Rightarrow> database \<Rightarrow> go_error + Branch" where
  "mergestore_GetBranchByID pg branchID db =
     (case textUUID pg branchID of
        None \<Rightarrow> Inl (Sentinel merge_ErrBranchNotFound)
      | Some i \<Rightarrow> map_sum (not_found_as merge_ErrBranchNotFound) (\<lambda>r. r) (pool_query pg (GetBranchByID i) db))"

text \<open>The walk over one side's containers in ascending id order; a container without a row is
  absent.  \<open>run\<close> is the query's runner, the pool or the commit transaction.\<close>

definition read_head :: "pg \<Rightarrow> (string \<Rightarrow> go_error + int) \<Rightarrow> string \<Rightarrow> (string \<times> int) list \<Rightarrow> go_error + (string \<times> int) list" where
  "read_head pg run i m =
     (case textUUID pg i of
        None \<Rightarrow> Inl (Sentinel merge_ErrValidation)
      | Some u \<Rightarrow>
          (case run u of
             Inl e \<Rightarrow> if errors_Is e pgx_ErrNoRows then Inr m else Inl (Errorf e)
           | Inr n \<Rightarrow> Inr (AList.update i n m)))"

definition readVersionHeads ::
  "pg \<Rightarrow> (int tx \<Rightarrow> go_error + int) \<Rightarrow> string list \<Rightarrow> string list \<Rightarrow> go_error + VersionHeads" where
  "readVersionHeads pg run objectIDs relationIDs =
     (case fold_err (read_head pg (\<lambda>u. run (object_counter_query u))) (sort objectIDs) [] of
        Inl e \<Rightarrow> Inl e
      | Inr os \<Rightarrow>
          (case fold_err (read_head pg (\<lambda>u. run (relation_counter_query u))) (sort relationIDs) [] of
             Inl e \<Rightarrow> Inl e
           | Inr rs \<Rightarrow> Inr \<lparr>vh_Objects = os, vh_Relations = rs\<rparr>))"

definition mergestore_VersionHeads :: "pg \<Rightarrow> string list \<Rightarrow> string list \<Rightarrow> database \<Rightarrow> go_error + VersionHeads" where
  "mergestore_VersionHeads pg objectIDs relationIDs db = readVersionHeads pg (\<lambda>q. pool_query pg q db) objectIDs relationIDs"

definition LockVersionHeads :: "pg \<Rightarrow> string list \<Rightarrow> string list \<Rightarrow> VersionHeads tx" where
  "LockVersionHeads pg objectIDs relationIDs = (\<lambda>db.
     case readVersionHeads pg (\<lambda>q. map_sum (\<lambda>e. e) fst (q db)) objectIDs relationIDs of
       Inl e \<Rightarrow> Inl e | Inr heads \<Rightarrow> Inr (heads, db))"

definition lock_side :: "pg \<Rightarrow> string \<times> string \<Rightarrow> Branch tx" where
  "lock_side pg side =
     (case textUUID pg (snd side) of
        None \<Rightarrow> tx_raise (Sentinel merge_ErrBranchNotFound)
      | Some u \<Rightarrow> mapping_errors (not_found_as merge_ErrBranchNotFound) (GetBranchByProjectAndID u (fst side)))"

definition LockMergeScope :: "pg \<Rightarrow> LockScopeParams \<Rightarrow> MergeScope tx" where
  "LockMergeScope pg inp =
     (case textUUID pg (ls_ProjectID inp) of
        None \<Rightarrow> tx_raise (Sentinel merge_ErrValidation)
      | Some projectUUID \<Rightarrow>
          (case textUUID pg (ls_SourceProjectID inp) of
             None \<Rightarrow> tx_raise (Sentinel merge_ErrBranchNotFound)
           | Some sourceProjectUUID \<Rightarrow>
               let source = (sourceProjectUUID, ls_SourceBranchID inp);
                   target = (projectUUID, ls_TargetBranchID inp);
                   (side1, side2) = (if snd target < snd source then (target, source) else (source, target)) in
               tx_bind (lock_side pg side1) (\<lambda>b1.
               tx_bind (lock_side pg side2) (\<lambda>b2.
               tx_bind (mapping_errors (not_found_as merge_ErrPullRequestNotFound)
                          (GetPullRequestByProjectAndNumber projectUUID (ls_PRNumber inp))) (\<lambda>pr.
                 let locked = AList.update (snd side2) b2 [(snd side1, b1)] in
                 tx_return \<lparr>ms_PullRequest = pr, ms_Source = the (map_of locked (ls_SourceBranchID inp)),
                   ms_Target = the (map_of locked (ls_TargetBranchID inp))\<rparr>)))))"
section \<open>Writes on the commit transaction\<close>

text \<open>\<open>nullText\<close>: nil and the empty text are NULL.\<close>

definition merge_text :: "string option \<Rightarrow> string option" where
  "merge_text s = (case s of None \<Rightarrow> None | Some t \<Rightarrow> if t = [] then None else Some t)"

definition nullable_uuid :: "pg \<Rightarrow> string option \<Rightarrow> string option option" where
  "nullable_uuid pg s =
     (case s of None \<Rightarrow> Some None | Some t \<Rightarrow> if t = [] then Some None else map_option Some (textUUID pg t))"

definition insertCarriedConflict :: "pg \<Rightarrow> string \<Rightarrow> string \<Rightarrow> string \<Rightarrow> CarriedConflict \<Rightarrow> unit tx" where
  "insertCarriedConflict pg mergeID projectUUID resultStateID c =
     (case textUUID pg (wc_TargetID c) of
        None \<Rightarrow> tx_raise (Sentinel merge_ErrValidation)
      | Some targetID \<Rightarrow>
          (case textUUID pg (wc_DecidedBy c) of
             None \<Rightarrow> tx_raise (Errorf (Sentinel merge_ErrValidation))
           | Some decidedBy \<Rightarrow>
               (case (textUUID pg (wc_SourceVersionID c), nullable_uuid pg (wc_TargetVersionID c), nullable_uuid pg (wc_OtherObjectID c)) of
                  (Some sourceVersionID, Some targetVersionID, Some otherObjectID) \<Rightarrow> (\<lambda>db.
                    case violation
                      [(wc_TargetKind c \<in> {''object'', ''relation''}, ''23514'', ''semantic_merge_conflicts_target_kind_check''),
                       (wc_Decision c \<in> {''keep_both'', ''explicit_coexistence'', ''unresolved''}, ''23514'',
                          ''semantic_merge_conflicts_decision_check''),
                       (mergeID \<in> set (map sg_ID (db_merges db)), ''23503'', ''semantic_merge_conflicts_merge_id_fkey''),
                       (projectUUID \<in> set (map pj_ID (db_projects db)), ''23503'', ''semantic_merge_conflicts_project_id_fkey''),
                       (resultStateID \<in> set (map ps_ID (db_states db)), ''23503'', ''semantic_merge_conflicts_result_state_id_fkey''),
                       (decidedBy \<in> set (db_users db), ''23503'', ''semantic_merge_conflicts_decided_by_fkey'')]
                    of Some e \<Rightarrow> Inl (Errorf e)
                     | None \<Rightarrow> Inr ((), db\<lparr>db_merge_conflicts := db_merge_conflicts db @
                          [\<lparr>mc_ID = pg_uuid pg (db_seq db), mc_MergeID = mergeID, mc_ProjectID = projectUUID,
                            mc_ResultStateID = resultStateID, mc_TargetKind = wc_TargetKind c, mc_TargetID = targetID,
                            mc_Code = wc_Code c, mc_Category = wc_Category c, mc_Fields = wc_Fields c,
                            mc_PayloadKeys = wc_PayloadKeys c, mc_OtherObjectID = otherObjectID, mc_Detail = wc_Detail c,
                            mc_Kind = wc_Decision c, mc_DecidedBy = decidedBy, mc_Note = wc_Note c,
                            mc_SourceVersionID = sourceVersionID, mc_TargetVersionID = targetVersionID,
                            mc_CreatedAt = pg_now pg\<rparr>], db_seq := Suc (db_seq db)\<rparr>))
                | _ \<Rightarrow> tx_raise (Sentinel merge_ErrValidation))))"

fun insertCarriedConflicts :: "pg \<Rightarrow> string \<Rightarrow> string \<Rightarrow> string \<Rightarrow> CarriedConflict list \<Rightarrow> unit tx" where
  "insertCarriedConflicts pg m p r [] = tx_return ()"
| "insertCarriedConflicts pg m p r (c # cs) =
     tx_bind (insertCarriedConflict pg m p r c) (\<lambda>_. insertCarriedConflicts pg m p r cs)"

text \<open>The merge row.  The plan column is the decoded plan encoded again, with its numbers as
  \<open>float64\<close>.\<close>

definition stored_plan :: "(string \<Rightarrow> string option) \<Rightarrow> raw \<Rightarrow> raw option option" where
  "stored_plan renum r =
     (case unmarshal_doc r of
        Some JNull \<Rightarrow> Some None
      | Some (JObj kvs) \<Rightarrow> if float_ok renum (JObj kvs) then Some (Some (marshal (float_value renum (JObj kvs)))) else None
      | _ \<Rightarrow> None)"

definition merge_uuids :: "pg \<Rightarrow> WriteMergeParams \<Rightarrow> SemanticMerge option" where
  "merge_uuids pg inp =
     (case map (textUUID pg) [wm_PullRequestID inp, wm_SourceBranchID inp, wm_TargetBranchID inp, wm_BaseStateID inp,
             wm_SourceStateID inp, wm_TargetStateID inp, wm_ResultStateID inp, wm_ActorID inp] of
        [Some pr, Some sb, Some tb, Some bs, Some ss, Some ts, Some rs, Some actor] \<Rightarrow>
          Some \<lparr>sg_ID = [], sg_ProjectID = [], sg_PullRequestID = pr, sg_SourceBranchID = sb, sg_TargetBranchID = tb,
            sg_BaseStateID = bs, sg_SourceStateID = ss, sg_TargetStateID = ts, sg_ResultStateID = rs, sg_ActorID = actor,
            sg_PlanVersion = wm_PlanVersion inp, sg_Plan = [], sg_PlanDigest = wm_PlanDigest inp, sg_Applied = wm_Applied inp,
            sg_KeptTarget = wm_KeptTarget inp, sg_Carried = wm_Carried inp, sg_Aborted = wm_Aborted inp,
            sg_Withheld = wm_Withheld inp, sg_GitRef = merge_text (wm_GitRef inp), sg_GitSHA = None,
            sg_GitState = wm_GitState inp, sg_GitError = [], sg_GitAttempts = 0,
            sg_CreatedAt = \<lparr>instant = 0, zone = 0\<rparr>, sg_UpdatedAt = \<lparr>instant = 0, zone = 0\<rparr>\<rparr>
      | _ \<Rightarrow> None)"

definition insert_merge :: "pg \<Rightarrow> SemanticMerge \<Rightarrow> raw option \<Rightarrow> SemanticMerge tx" where
  "insert_merge pg row plan = (\<lambda>db.
     case Option.bind plan (pg_jsonb pg) of
       None \<Rightarrow> Inl (PgError (if plan = None then ''23502'' else ''22P02'') [])
     | Some stored \<Rightarrow>
         let r = row\<lparr>sg_ID := pg_uuid pg (db_seq db), sg_Plan := stored, sg_CreatedAt := pg_now pg, sg_UpdatedAt := pg_now pg\<rparr> in
         (case violation
           [(sg_ID r \<notin> set (map sg_ID (db_merges db)), ''23505'', ''semantic_merges_pkey''),
            (sg_PullRequestID r \<notin> set (map sg_PullRequestID (db_merges db)), ''23505'', ''semantic_merges_pull_request_id_key''),
            (sg_ProjectID r \<in> set (map pj_ID (db_projects db)), ''23503'', ''semantic_merges_project_id_fkey''),
            (sg_PullRequestID r \<in> set (map pq_ID (db_pull_requests db)), ''23503'', ''semantic_merges_pull_request_id_fkey''),
            (sg_SourceBranchID r \<in> set (map bn_ID (db_branches db)), ''23503'', ''semantic_merges_source_branch_id_fkey''),
            (sg_TargetBranchID r \<in> set (map bn_ID (db_branches db)), ''23503'', ''semantic_merges_target_branch_id_fkey''),
            (sg_BaseStateID r \<in> set (map ps_ID (db_states db)), ''23503'', ''semantic_merges_base_state_id_fkey''),
            (sg_SourceStateID r \<in> set (map ps_ID (db_states db)), ''23503'', ''semantic_merges_source_state_id_fkey''),
            (sg_TargetStateID r \<in> set (map ps_ID (db_states db)), ''23503'', ''semantic_merges_target_state_id_fkey''),
            (sg_ResultStateID r \<in> set (map ps_ID (db_states db)), ''23503'', ''semantic_merges_result_state_id_fkey''),
            (sg_ActorID r \<in> set (db_users db), ''23503'', ''semantic_merges_actor_id_fkey'')]
          of Some e \<Rightarrow> Inl e
           | None \<Rightarrow> Inr (r, db\<lparr>db_merges := db_merges db @ [r], db_seq := Suc (db_seq db)\<rparr>)))"

definition returned_merge :: "string \<Rightarrow> WriteMergeParams \<Rightarrow> SemanticMerge" where
  "returned_merge i inp =
     \<lparr>sg_ID = i, sg_ProjectID = wm_ProjectID inp, sg_PullRequestID = wm_PullRequestID inp,
      sg_SourceBranchID = wm_SourceBranchID inp, sg_TargetBranchID = wm_TargetBranchID inp,
      sg_BaseStateID = wm_BaseStateID inp, sg_SourceStateID = wm_SourceStateID inp, sg_TargetStateID = wm_TargetStateID inp,
      sg_ResultStateID = wm_ResultStateID inp, sg_ActorID = wm_ActorID inp, sg_PlanVersion = wm_PlanVersion inp,
      sg_Plan = wm_PlanJSON inp, sg_PlanDigest = wm_PlanDigest inp, sg_Applied = wm_Applied inp,
      sg_KeptTarget = wm_KeptTarget inp, sg_Carried = wm_Carried inp, sg_Aborted = wm_Aborted inp, sg_Withheld = wm_Withheld inp,
      sg_GitRef = wm_GitRef inp, sg_GitSHA = None, sg_GitState = wm_GitState inp, sg_GitError = [], sg_GitAttempts = 0,
      sg_CreatedAt = \<lparr>instant = 0, zone = 0\<rparr>, sg_UpdatedAt = \<lparr>instant = 0, zone = 0\<rparr>\<rparr>"

definition WriteMerge :: "pg \<Rightarrow> (string \<Rightarrow> string option) \<Rightarrow> CallCtx \<Rightarrow> WriteMergeParams \<Rightarrow> SemanticMerge tx" where
  "WriteMerge pg renum cx inp =
     (case (textUUID pg (wm_ProjectID inp), stored_plan renum (wm_PlanJSON inp)) of
        (None, _) \<Rightarrow> tx_raise (Sentinel merge_ErrValidation)
      | (Some _, None) \<Rightarrow> tx_raise (Errorf (Sentinel merge_ErrValidation))
      | (Some project, Some plan) \<Rightarrow>
          (case merge_uuids pg inp of
             None \<Rightarrow> tx_raise (Sentinel merge_ErrValidation)
           | Some row \<Rightarrow>
               if \<not> ValidSemanticMergeGitState (wm_GitState inp) then tx_raise (Errorf (Sentinel merge_ErrValidation))
               else
                 tx_bind (mapping_errors (\<lambda>e. case as_PgError e of
                       Some (code, _) \<Rightarrow> if code = ''23505'' then AlreadyMergedError (wm_PullRequestID inp) else Errorf e
                     | None \<Rightarrow> Errorf e)
                   (insert_merge pg (row\<lparr>sg_ProjectID := project\<rparr>) plan)) (\<lambda>r.
                 tx_bind (insertCarriedConflicts pg (sg_ID r) project (sg_ResultStateID r) (wm_CarriedConflicts inp)) (\<lambda>_.
                 tx_bind (case wm_IdempotencyKey inp of
                     None \<Rightarrow> tx_return ()
                   | Some key \<Rightarrow> mapping_errors Errorf (CreateMergeCreation project key (sg_ID r))) (\<lambda>_.
                 tx_bind (if ae_Action (wm_Audit inp) \<noteq> []
                          then appendAudit pg cx ((wm_Audit inp)\<lparr>ae_TargetRef := ''merge:'' @ sg_ID r\<rparr>)
                          else tx_return ()) (\<lambda>_.
                   tx_return (returned_merge (sg_ID r) inp)))))))"

text \<open>The transition of the PR and the close of the source branch: updates whose WHERE clause is
  their guard; not exactly one row affected is the refusal.\<close>

definition merge_ready_row :: "string \<Rightarrow> string \<Rightarrow> PullRequest \<Rightarrow> bool" where
  "merge_ready_row i projectID r \<longleftrightarrow> pq_ID r = i \<and> pq_ProjectID r = projectID \<and> pq_State r = PullRequestStateMergeReady"

definition MarkPullRequestMerged :: "pg \<Rightarrow> string \<Rightarrow> string \<Rightarrow> unit tx" where
  "MarkPullRequestMerged pg projectID pullRequestID =
     (case (textUUID pg projectID, textUUID pg pullRequestID) of
        (Some p, Some i) \<Rightarrow> (\<lambda>db.
          if length (filter (merge_ready_row i p) (db_pull_requests db)) \<noteq> 1
          then Inl (PullRequestNotMergeableError pullRequestID)
          else Inr ((), db\<lparr>db_pull_requests := map (\<lambda>r. if merge_ready_row i p r
                 then r\<lparr>pq_State := PullRequestStateMerged, pq_MergedAt := Some (pg_now pg)\<rparr> else r) (db_pull_requests db)\<rparr>))
      | _ \<Rightarrow> tx_raise (Sentinel merge_ErrValidation))"

definition closable :: "string \<Rightarrow> Branch \<Rightarrow> bool" where
  "closable i b \<longleftrightarrow> bn_ID b = i \<and> bn_Name b \<noteq> ''main'' \<and> bn_Lifecycle b = ''active''"

definition MarkBranchMerged :: "pg \<Rightarrow> string \<Rightarrow> unit tx" where
  "MarkBranchMerged pg branchID =
     (case textUUID pg branchID of
        None \<Rightarrow> tx_raise (Sentinel merge_ErrValidation)
      | Some i \<Rightarrow> (\<lambda>db.
          if length (filter (closable i) (db_branches db)) \<noteq> 1 then Inl (MergeBranchNotActiveError branchID)
          else Inr ((), db\<lparr>db_branches := map (\<lambda>b. if closable i b then b\<lparr>bn_Lifecycle := ''merged''\<rparr> else b) (db_branches db)\<rparr>)))"

section \<open>The Git saga\<close>

definition update_unfinished :: "pg \<Rightarrow> string \<Rightarrow> (SemanticMerge \<Rightarrow> SemanticMerge) \<Rightarrow> unit tx" where
  "update_unfinished pg i f = (\<lambda>db. Inr ((), db\<lparr>db_merges := map (\<lambda>m.
     if sg_ID m = i \<and> sg_GitState m \<noteq> GitStateUpdated
     then (f m)\<lparr>sg_GitAttempts := sg_GitAttempts m + 1, sg_UpdatedAt := pg_now pg\<rparr> else m) (db_merges db)\<rparr>))"

definition coalesce :: "'a option \<Rightarrow> 'a option \<Rightarrow> 'a option" where
  "coalesce a b = (case a of None \<Rightarrow> b | Some _ \<Rightarrow> a)"

definition rereadMerge :: "pg \<Rightarrow> string \<Rightarrow> database \<Rightarrow> go_error + SemanticMerge" where
  "rereadMerge pg i db =
     map_sum (\<lambda>e. if errors_Is e pgx_ErrNoRows then Sentinel domain_ErrSemanticMergeNotFound else Errorf e) (\<lambda>r. r)
       (pool_query pg (merge_by_id i) db)"

definition saga_write :: "pg \<Rightarrow> string \<Rightarrow> (SemanticMerge \<Rightarrow> SemanticMerge) \<Rightarrow> database \<Rightarrow> (go_error + SemanticMerge) \<times> database" where
  "saga_write pg i f db =
     (case pool_exec pg (update_unfinished pg i f) db of
        (Inl e, db') \<Rightarrow> (Inl (Errorf e), db')
      | (Inr _, db') \<Rightarrow> (rereadMerge pg i db', db'))"

definition CompleteGitStep :: "pg \<Rightarrow> GitStepParams \<Rightarrow> database \<Rightarrow> (go_error + SemanticMerge) \<times> database" where
  "CompleteGitStep pg inp db =
     (case textUUID pg (gs_MergeID inp) of
        None \<Rightarrow> (Inl (Sentinel merge_ErrValidation), db)
      | Some i \<Rightarrow>
          if gs_SHA inp = [] then (Inl (Errorf (Sentinel merge_ErrValidation)), db)
          else saga_write pg i (\<lambda>m. m\<lparr>sg_GitState := GitStateUpdated, sg_GitSHA := Some (gs_SHA inp),
                 sg_GitRef := coalesce (merge_text (gs_Ref inp)) (sg_GitRef m), sg_GitError := []\<rparr>) db)"

definition RecordGitAttempt :: "pg \<Rightarrow> GitStepParams \<Rightarrow> database \<Rightarrow> (go_error + SemanticMerge) \<times> database" where
  "RecordGitAttempt pg inp db =
     (case textUUID pg (gs_MergeID inp) of
        None \<Rightarrow> (Inl (Sentinel merge_ErrValidation), db)
      | Some i \<Rightarrow>
          if gs_State inp \<notin> {GitStatePending, GitStateFailed, GitStateSkipped} then (Inl (Errorf (Sentinel merge_ErrValidation)), db)
          else saga_write pg i (\<lambda>m. m\<lparr>sg_GitState := gs_State inp, sg_GitError := gs_Error inp,
                 sg_GitRef := coalesce (merge_text (gs_Ref inp)) (sg_GitRef m)\<rparr>) db)"

section \<open>Merge reads\<close>

definition GetMergeByPullRequest :: "pg \<Rightarrow> string \<Rightarrow> string \<Rightarrow> database \<Rightarrow> go_error + SemanticMerge" where
  "GetMergeByPullRequest pg projectID pullRequestID db =
     (case (textUUID pg projectID, textUUID pg pullRequestID) of
        (Some p, Some i) \<Rightarrow>
          (case pg_read pg of
             Some e \<Rightarrow> Inl (if errors_Is e pgx_ErrNoRows then Sentinel domain_ErrSemanticMergeNotFound else Errorf e)
           | None \<Rightarrow> (case find (\<lambda>m. sg_ProjectID m = p \<and> sg_PullRequestID m = i) (db_merges db) of
                None \<Rightarrow> Inl (Sentinel domain_ErrSemanticMergeNotFound) | Some m \<Rightarrow> Inr m))
      | _ \<Rightarrow> Inl (Sentinel domain_ErrSemanticMergeNotFound))"

definition ListPendingGitMerges :: "pg \<Rightarrow> int \<Rightarrow> database \<Rightarrow> go_error + SemanticMerge list" where
  "ListPendingGitMerges pg limit db =
     map_sum Errorf (\<lambda>r. r) (pool_list pg (\<lambda>db. take (nat (if limit \<le> 0 then 50 else limit))
       (order_rows sg_CreatedAt sg_ID (filter (\<lambda>m. sg_GitState m \<noteq> GitStateUpdated) (db_merges db)))) db)"

definition LookupMergeCreation :: "pg \<Rightarrow> string \<Rightarrow> string \<Rightarrow> database \<Rightarrow> go_error + SemanticMerge option" where
  "LookupMergeCreation pg projectID key db =
     (if key = [] then Inr None
      else case textUUID pg projectID of
        None \<Rightarrow> Inr None
      | Some p \<Rightarrow>
          (case pool_query pg (GetMergeCreation p key) db of
             Inl e \<Rightarrow> if errors_Is e pgx_ErrNoRows then Inr None else Inl (Errorf e)
           | Inr mergeID \<Rightarrow>
               (case pool_query pg (merge_by_id mergeID) db of
                  Inl e \<Rightarrow> Inl (if errors_Is e pgx_ErrNoRows then Sentinel domain_ErrSemanticMergeNotFound else Errorf e)
                | Inr m \<Rightarrow> Inr (Some m))))"

definition ListCarriedConflicts :: "pg \<Rightarrow> string \<Rightarrow> database \<Rightarrow> go_error + SemanticMergeConflict list" where
  "ListCarriedConflicts pg mergeID db =
     (case textUUID pg mergeID of
        None \<Rightarrow> Inl (Sentinel merge_ErrValidation)
      | Some i \<Rightarrow> map_sum Errorf (\<lambda>r. r)
          (pool_list pg (\<lambda>db. order_rows mc_CreatedAt mc_ID (filter (\<lambda>c. mc_MergeID c = i) (db_merge_conflicts db))) db))"

end
