(* ===== verification/Integrity.thy ===== *)
theory Integrity
  imports Validation RelationCatalog
begin

text \<open>
  The integrity review of a pull request (internal/rsg/integrity: check.go, snapshot.go, report.go,
  engine.go): fourteen checks over the pinned base and proposed states, the chains of the two
  branches and the lineage members, in six dimensions, and the report with its verdict.

  \<open>Engine\<close> is the gate validator's record: the schema registry and what stands for code
  below the model.  Severities and verdicts are the gate ladder's, as in the source.  The rationale
  of a check (\<open>Why\<close>) is prose nothing reads and is left out; a rendered explanation is
  the data it is rendered from.  Details are texts where the code renders them from identifiers,
  and the arguments where it renders an error or a JSON value.

  The lemmas give the set-level meaning of every check: in particular the walk of the source chain
  accepts exactly the linear chains that root in a boundary, and the linkage check accepts exactly
  the bijections between states and commits that agree on edges.
\<close>

section \<open>Dimensions, checks and their declaration (check.go)\<close>

type_synonym Dimension = string

definition DimensionSchema :: Dimension where "DimensionSchema = ''schema''"
definition DimensionProvenance :: Dimension where "DimensionProvenance = ''provenance''"
definition DimensionDependency :: Dimension where "DimensionDependency = ''dependency''"
definition DimensionRights :: Dimension where "DimensionRights = ''rights''"
definition DimensionVisibility :: Dimension where "DimensionVisibility = ''visibility''"
definition DimensionBlob :: Dimension where "DimensionBlob = ''blob''"

lemmas dimension_defs = DimensionSchema_def DimensionProvenance_def DimensionDependency_def
  DimensionRights_def DimensionVisibility_def DimensionBlob_def

definition ValidDimension :: "Dimension \<Rightarrow> bool" where
  "ValidDimension d \<longleftrightarrow> d \<in> {DimensionSchema, DimensionProvenance, DimensionDependency,
     DimensionRights, DimensionVisibility, DimensionBlob}"

datatype integrity_CheckID =
    CheckSchemaRegistered
  | CheckSchemaPayloadConforms
  | CheckBaseOnTargetChain
  | CheckProposedOnSourceChain
  | CheckSourceChainUnbroken
  | CheckSourceCommitLinkage
  | CheckStoredPayloadIntegrity
  | CheckRelationTypeKnown
  | CheckRelationEndpointsInProposal
  | CheckRelationEndpointTypesValid
  | CheckRightsPolicyResolves
  | CheckRightsPinInheritsDefault
  | CheckVisibilityChangeFlagged
  | CheckBlobRefsResolve

record integrity_Spec =
  is_Check :: integrity_CheckID
  is_Dimension :: Dimension
  is_Severity :: Severity

definition integrity_specs :: "integrity_Spec list" where
  "integrity_specs = map (\<lambda>(c, d, s). \<lparr>is_Check = c, is_Dimension = d, is_Severity = s\<rparr>)
     [(CheckSchemaRegistered, DimensionSchema, SeverityBlocking),
      (CheckSchemaPayloadConforms, DimensionSchema, SeverityBlocking),
      (CheckBaseOnTargetChain, DimensionProvenance, SeverityBlocking),
      (CheckProposedOnSourceChain, DimensionProvenance, SeverityBlocking),
      (CheckSourceChainUnbroken, DimensionProvenance, SeverityBlocking),
      (CheckSourceCommitLinkage, DimensionProvenance, SeverityBlocking),
      (CheckStoredPayloadIntegrity, DimensionProvenance, SeverityWarning),
      (CheckRelationTypeKnown, DimensionDependency, SeverityBlocking),
      (CheckRelationEndpointsInProposal, DimensionDependency, SeverityBlocking),
      (CheckRelationEndpointTypesValid, DimensionDependency, SeverityBlocking),
      (CheckRightsPolicyResolves, DimensionRights, SeverityBlocking),
      (CheckRightsPinInheritsDefault, DimensionRights, SeverityWarning),
      (CheckVisibilityChangeFlagged, DimensionVisibility, SeverityBlocking),
      (CheckBlobRefsResolve, DimensionBlob, SeverityBlocking)]"

section \<open>Reports (report.go)\<close>

datatype blob_problem =
    NotReferenceString string jval
  | DoesNotResolve string string

datatype integrity_detail =
    Text string
  | NotRegistered Ref schemareg_error
  | CannotValidate Ref
  | DocumentInvalid schemareg_error
  | EndpointTypes endpoint_error string string
  | PayloadNotDecodable
  | Unresolved "blob_problem list"

record integrity_Result =
  ir_Dimension :: Dimension
  ir_Check :: integrity_CheckID
  ir_Severity :: Severity
  ir_Passed :: bool
  ir_Subject :: string
  ir_Detail :: "integrity_detail option"

record integrity_Report =
  ig_Kind :: string
  ig_ProjectID :: string
  ig_PRNumber :: int
  ig_BaseStateID :: string
  ig_ProposedStateID :: string
  ig_Verdict :: string
  ig_Results :: "integrity_Result list"
  ig_Explanation :: "(int \<times> string \<times> integrity_Result list) option"
  ig_ComputedAt :: string

definition integrity_Blocked :: "integrity_Report \<Rightarrow> bool" where
  "integrity_Blocked r \<longleftrightarrow> ig_Verdict r = VerdictBlocked"

definition integrity_BlockingFailures :: "integrity_Report \<Rightarrow> integrity_Result list" where
  "integrity_BlockingFailures r =
     filter (\<lambda>res. \<not> ir_Passed res \<and> ir_Severity res = SeverityBlocking) (ig_Results r)"

definition integrity_Warnings :: "integrity_Report \<Rightarrow> integrity_Result list" where
  "integrity_Warnings r =
     filter (\<lambda>res. \<not> ir_Passed res \<and> ir_Severity res = SeverityWarning) (ig_Results r)"

definition failures_step :: "integrity_Result \<Rightarrow> integrity_Result list \<times> integrity_Result list
    \<Rightarrow> integrity_Result list \<times> integrity_Result list" where
  "failures_step res st =
     (case st of (blocks, warns) \<Rightarrow>
        if \<not> ir_Passed res
        then if ir_Severity res = SeverityBlocking then (blocks @ [res], warns)
             else (blocks, warns @ [res])
        else st)"

definition integrity_Failures :: "integrity_Report \<Rightarrow> integrity_Result list" where
  "integrity_Failures r =
     (case fold failures_step (ig_Results r) ([], []) of (blocks, warns) \<Rightarrow> blocks @ warns)"

definition integrity_explainReport :: "integrity_Report \<Rightarrow> int \<times> string \<times> integrity_Result list" where
  "integrity_explainReport r = (ig_PRNumber r, ig_Verdict r, integrity_Failures r)"

definition integrity_finalize_step :: "integrity_Result \<Rightarrow> bool \<times> bool \<Rightarrow> bool \<times> bool" where
  "integrity_finalize_step res st =
     (case st of (blocked, warned) \<Rightarrow>
        if ir_Passed res then st
        else if ir_Severity res = SeverityBlocking then (True, warned) else (blocked, True))"

definition integrity_finalize :: "integrity_Report \<Rightarrow> integrity_Report" where
  "integrity_finalize r =
     (case fold integrity_finalize_step (ig_Results r) (False, False) of (blocked, warned) \<Rightarrow>
        let r' = r\<lparr>ig_Verdict :=
              (if blocked then VerdictBlocked else if warned then VerdictPassWithWarn else VerdictPass)\<rparr>
        in r'\<lparr>ig_Explanation := Some (integrity_explainReport r')\<rparr>)"

section \<open>Snapshots (snapshot.go)\<close>

text \<open>A map from state ids to \<open>bool\<close> is the set of its true keys; of a policy version
  the checks read the id.\<close>

record integrity_Snapshot =
  it_ProjectID :: string
  it_PRNumber :: int
  it_Base :: string
  it_Proposed :: string
  it_TargetStates :: "ProjectState list"
  it_SourceStates :: "ProjectState list"
  it_SourceCommits :: "StateCommit list"
  it_TargetBoundaries :: "string list"
  it_SourceBoundaries :: "string list"
  it_BaseObjects :: "ObjectVersion list"
  it_ProposedObjects :: "ObjectVersion list"
  it_BaseRelations :: "RelationVersion list"
  it_ProposedRelations :: "RelationVersion list"
  it_BaseBlobRefs :: "BlobRef list"
  it_ProposedBlobRefs :: "BlobRef list"
  it_PolicyVersions :: "string list"

definition manifest_ref_step :: "BlobRef \<Rightarrow> string list \<times> BlobRef list \<Rightarrow> string list \<times> BlobRef list" where
  "manifest_ref_step ref st =
     (case st of (seen, out) \<Rightarrow>
        if br_ID ref \<notin> set seen then (br_ID ref # seen, out @ [ref]) else st)"

definition ManifestRefs :: "integrity_Snapshot \<Rightarrow> BlobRef list" where
  "ManifestRefs s =
     snd (fold manifest_ref_step (it_ProposedBlobRefs s) (fold manifest_ref_step (it_BaseBlobRefs s) ([], [])))"

text \<open>\<open>sort.Slice\<close> leaves the order of rows with equal keys open; the rows of a snapshot
  have distinct keys, and the stable sort stands for it.\<close>

definition canonical_snapshot :: "integrity_Snapshot \<Rightarrow> integrity_Snapshot" where
  "canonical_snapshot s = s\<lparr>
     it_BaseObjects := sort_key objectKey (it_BaseObjects s),
     it_ProposedObjects := sort_key objectKey (it_ProposedObjects s),
     it_BaseRelations := sort_key relationKey (it_BaseRelations s),
     it_ProposedRelations := sort_key relationKey (it_ProposedRelations s),
     it_BaseBlobRefs := sort_key br_ID (it_BaseBlobRefs s),
     it_ProposedBlobRefs := sort_key br_ID (it_ProposedBlobRefs s),
     it_TargetStates := sort_key ps_ID (it_TargetStates s),
     it_SourceStates := sort_key ps_ID (it_SourceStates s),
     it_SourceCommits := sort_key cm_ID (it_SourceCommits s),
     it_PolicyVersions := sort (it_PolicyVersions s)\<rparr>"

section \<open>The checks (engine.go)\<close>

text \<open>The two shapes of result literals.\<close>

definition held :: "integrity_Spec \<Rightarrow> string \<Rightarrow> integrity_detail option \<Rightarrow> integrity_Result" where
  "held spec subj d = \<lparr>ir_Dimension = is_Dimension spec, ir_Check = is_Check spec,
     ir_Severity = is_Severity spec, ir_Passed = True, ir_Subject = subj, ir_Detail = d\<rparr>"

definition broke :: "integrity_Spec \<Rightarrow> string \<Rightarrow> integrity_detail \<Rightarrow> integrity_Result" where
  "broke spec subj d = \<lparr>ir_Dimension = is_Dimension spec, ir_Check = is_Check spec,
     ir_Severity = is_Severity spec, ir_Passed = False, ir_Subject = subj, ir_Detail = Some d\<rparr>"

definition strings_Join :: "string list \<Rightarrow> string \<Rightarrow> string" where
  "strings_Join xs sep = (case xs of [] \<Rightarrow> [] | x # rest \<Rightarrow> x @ concat (map (\<lambda>y. sep @ y) rest))"

definition objectSubject :: "ObjectVersion \<Rightarrow> string" where
  "objectSubject ov = ov_ObjectType ov @ '' v'' @ show_int (ov_VersionNo ov) @ '' ('' @ ov_ObjectID ov @ '')''"

definition relationSubject :: "RelationVersion \<Rightarrow> string" where
  "relationSubject rv = ''relation v'' @ show_int (rv_VersionNo rv) @ '' ('' @ rv_RelationID rv @ '')''"

definition schemaRefOf :: "ObjectVersion \<Rightarrow> Ref" where
  "schemaRefOf ov = \<lparr>rf_ID = sr_ID (ov_SchemaRef ov), rf_Version = sr_Version (ov_SchemaRef ov)\<rparr>"

type_synonym 'c Engine = "'c Validator"

definition checkSchemaRegistered :: "'c Engine \<Rightarrow> integrity_Spec \<Rightarrow> ObjectVersion \<Rightarrow> integrity_Result" where
  "checkSchemaRegistered e spec ov =
     (case registry_Lookup (vd_reg e) (schemaRefOf ov) of
        Inl err \<Rightarrow> broke spec (objectSubject ov) (NotRegistered (schemaRefOf ov) err)
      | Inr _ \<Rightarrow> held spec (objectSubject ov) None)"

definition integrity_rowDoc :: "'c Engine \<Rightarrow> integrity_Snapshot \<Rightarrow> ObjectVersion \<Rightarrow> (string \<times> jval) list" where
  "integrity_rowDoc e snap ov =
     (let doc = [(''id'', JStr (ov_ObjectID ov)), (''version'', JNum (show_int (ov_VersionNo ov))),
                 (''project_id'', JStr (it_ProjectID snap)), (''title'', JStr (ov_Title ov)),
                 (''lifecycle_state'', JStr (ov_LifecycleState ov)),
                 (''schema_ref'', JObj [(''id'', JStr (sr_ID (ov_SchemaRef ov))),
                                        (''version'', JStr (sr_Version (ov_SchemaRef ov)))]),
                 (''created_by'', JStr (ov_CreatedBy ov)),
                 (''created_at'', JStr (vd_rfc3339 e (ov_CreatedAt ov)))];
          doc = (case ov_BranchID ov of None \<Rightarrow> doc | Some b \<Rightarrow> AList.update ''branch_id'' (JStr b) doc);
          doc = (case ov_VisibilityPolicyID ov of None \<Rightarrow> doc
                 | Some p \<Rightarrow> AList.update ''visibility_policy_id'' (JStr p) doc)
      in case registry_TypeConst (vd_lx e) (vd_reg e) (schemaRefOf ov) of None \<Rightarrow> doc
         | Some t \<Rightarrow> AList.update ''type'' (JStr t) doc)"

definition integrity_assembleDoc :: "'c Engine \<Rightarrow> integrity_Snapshot \<Rightarrow> ObjectVersion \<Rightarrow> (string \<times> jval) list" where
  "integrity_assembleDoc e snap ov =
     (case unmarshal_map (vd_renum e) (ov_Payload ov) of
        None \<Rightarrow> integrity_rowDoc e snap ov
      | Some payload \<Rightarrow>
          fold (\<lambda>(k, val) doc. if k \<in> set authoritativeFields then doc else AList.update k val doc)
            payload (integrity_rowDoc e snap ov))"

text \<open>Marshalling a document of decoded values cannot fail.\<close>

definition checkSchemaConforms ::
  "'c Engine \<Rightarrow> integrity_Spec \<Rightarrow> integrity_Snapshot \<Rightarrow> ObjectVersion \<Rightarrow> integrity_Result" where
  "checkSchemaConforms e spec snap ov =
     (case registry_Lookup (vd_reg e) (schemaRefOf ov) of
        Inl err \<Rightarrow> broke spec (objectSubject ov) (CannotValidate (schemaRefOf ov))
      | Inr _ \<Rightarrow>
          (case registry_Validate (vd_check e) (vd_reg e) (schemaRefOf ov)
                  (marshal (JObj (integrity_assembleDoc e snap ov))) of
             Some err \<Rightarrow> broke spec (objectSubject ov) (DocumentInvalid err)
           | None \<Rightarrow> held spec (objectSubject ov) None))"

definition stateIn :: "ProjectState list \<Rightarrow> string \<Rightarrow> bool" where
  "stateIn states i \<longleftrightarrow> list_ex (\<lambda>s. ps_ID s = i) states"

definition checkBaseOnTargetChain :: "integrity_Spec \<Rightarrow> integrity_Snapshot \<Rightarrow> integrity_Result" where
  "checkBaseOnTargetChain spec snap =
     (if stateIn (it_TargetStates snap) (it_Base snap) \<or> it_Base snap \<in> set (it_TargetBoundaries snap)
      then held spec [] None
      else broke spec [] (Text (''base state '' @ it_Base snap @ '' is not on the target branch's chain'')))"

definition checkProposedOnSourceChain :: "integrity_Spec \<Rightarrow> integrity_Snapshot \<Rightarrow> integrity_Result" where
  "checkProposedOnSourceChain spec snap =
     (if stateIn (it_SourceStates snap) (it_Proposed snap) \<or> it_Proposed snap \<in> set (it_SourceBoundaries snap)
      then held spec [] None
      else broke spec [] (Text (''proposed state '' @ it_Proposed snap @ '' is not on the source branch's chain'')))"

text \<open>A map from ids to states: of states with one id, the last.\<close>

definition index_states :: "ProjectState list \<Rightarrow> state_index" where
  "index_states states = fold (\<lambda>s m. AList.update (ps_ID s) s m) states []"

text \<open>The walk from the head: the failure, or the states walked.  The map read of an absent
  state is the zero state.\<close>

function source_walk :: "state_index \<Rightarrow> string list \<Rightarrow> string list \<Rightarrow> string \<Rightarrow> string + string list" where
  "source_walk byID bounds walked cur =
     (if cur \<in> set walked then Inl (''parent cycle at state '' @ cur)
      else
        (let walked' = cur # walked in
         case Option.bind (map_of byID cur) ps_ParentStateID of
           None \<Rightarrow> Inl (''state '' @ cur @ '' has no parent and is not a resolved branch boundary'')
         | Some parent \<Rightarrow>
             if map_of byID parent = None
             then if parent \<in> set bounds then Inr walked'
                  else Inl (''state '' @ cur @ CHR 0x27 # ''s parent '' @ parent @ '' is outside the source chain and is not a resolved branch boundary (broken parent link)'')
             else source_walk byID bounds walked' parent))"
  by pat_completeness auto
termination
proof (relation "measure (\<lambda>(byID, bounds, walked, cur). card (fst ` set byID - set walked))")
  fix byID :: state_index and bounds walked walked' :: "string list" and cur parent
  assume "cur \<notin> set walked" and w: "walked' = cur # walked"
    and "Option.bind (map_of byID cur) ps_ParentStateID = Some parent"
  then have "cur \<in> fst ` set byID - set walked"
    by (auto simp: bind_eq_Some_conv dest: map_of_SomeD intro: rev_image_eqI)
  then have "fst ` set byID - set walked' \<subset> fst ` set byID - set walked"
    using w by auto
  then show "((byID, bounds, walked', parent), byID, bounds, walked, cur)
      \<in> measure (\<lambda>(byID, bounds, walked, cur). card (fst ` set byID - set walked))"
    by (simp add: psubset_card_mono)
qed simp

declare source_walk.simps [simp del]

definition chain_heads :: "ProjectState list \<Rightarrow> string list" where
  "chain_heads states =
     (let children = List.map_filter ps_ParentStateID states
      in filter (\<lambda>i. i \<notin> set children) (map ps_ID states))"

definition checkSourceChainUnbroken :: "integrity_Spec \<Rightarrow> integrity_Snapshot \<Rightarrow> integrity_Result" where
  "checkSourceChainUnbroken spec snap =
     (let states = it_SourceStates snap in
      if length states = 0 then held spec [] None
      else
        let heads = sort (chain_heads states) in
        if length heads \<noteq> 1
        then broke spec [] (Text (''the source chain has '' @ show_nat (length heads)
               @ '' head(s), expected exactly one: '' @ strings_Join heads '', ''))
        else (case source_walk (index_states states) (it_SourceBoundaries snap) [] (hd heads) of
                Inl d \<Rightarrow> broke spec [] (Text d)
              | Inr walked \<Rightarrow>
                  (let forked = filter (\<lambda>i. i \<notin> set walked) (map ps_ID states) in
                   if length forked > 0
                   then broke spec [] (Text (''state(s) not on the head's ancestor walk (forked chain): ''
                          @ strings_Join (sort forked) '', ''))
                   else held spec [] None)))"

definition arrow :: string where
  "arrow = [CHR 0xE2, CHR 0x86, CHR 0x92]"

definition outside_problem :: "state_index \<Rightarrow> StateCommit \<Rightarrow> string option" where
  "outside_problem byID c =
     (if map_of byID (cm_ResultStateID c) = None
      then Some (''commit '' @ cm_ID c @ '' names result state '' @ cm_ResultStateID c @ '' outside the source chain'')
      else None)"

definition or_none :: "string option \<Rightarrow> string" where
  "or_none p = (case p of None \<Rightarrow> ''<none>'' | Some s \<Rightarrow> s)"

definition edge_problem :: "state_index \<Rightarrow> StateCommit \<Rightarrow> string option" where
  "edge_problem byID c =
     (case map_of byID (cm_ResultStateID c) of
        None \<Rightarrow> None
      | Some s \<Rightarrow>
          if (ps_ParentStateID s = None) \<noteq> (cm_BaseStateID c = None)
             \<or> (ps_ParentStateID s \<noteq> None \<and> the (ps_ParentStateID s) \<noteq> the (cm_BaseStateID c))
          then Some (''commit '' @ cm_ID c @ '' base'' @ arrow @ ''result edge ('' @ or_none (cm_BaseStateID c)
            @ arrow @ cm_ResultStateID c @ '') does not match the state's parent edge (''
            @ or_none (ps_ParentStateID s) @ arrow @ ps_ID s @ '')'')
          else None)"

definition named_by :: "StateCommit list \<Rightarrow> string \<Rightarrow> string list" where
  "named_by commits i = map cm_ID (filter (\<lambda>c. cm_ResultStateID c = i) commits)"

definition checkCommitLinkage_problems :: "integrity_Snapshot \<Rightarrow> string list" where
  "checkCommitLinkage_problems snap =
     (let byID = index_states (it_SourceStates snap);
          unnamed = filter (\<lambda>i. named_by (it_SourceCommits snap) i = []) (map ps_ID (it_SourceStates snap));
          duplicated = map (\<lambda>i. ''state '' @ i @ '' is named by commits ''
                             @ strings_Join (sort (named_by (it_SourceCommits snap) i)) '', '')
                         (filter (\<lambda>i. length (named_by (it_SourceCommits snap) i) > 1)
                           (map ps_ID (it_SourceStates snap)))
      in List.map_filter (outside_problem byID) (it_SourceCommits snap)
         @ (if length unnamed > 0
            then [''state(s) not named by any source commit: '' @ strings_Join (sort unnamed) '', ''] else [])
         @ (if length duplicated > 0 then [strings_Join (sort duplicated) ''; ''] else [])
         @ List.map_filter (edge_problem byID) (it_SourceCommits snap))"

definition integrity_checkCommitLinkage :: "integrity_Spec \<Rightarrow> integrity_Snapshot \<Rightarrow> integrity_Result" where
  "integrity_checkCommitLinkage spec snap =
     (let problems = checkCommitLinkage_problems snap in
      if length problems > 0 then broke spec [] (Text (strings_Join (sort problems) ''; ''))
      else held spec [] None)"

definition integrity_checkPayloadIntegrity ::
  "'c Engine \<Rightarrow> integrity_Spec \<Rightarrow> string \<Rightarrow> raw \<Rightarrow> string \<Rightarrow> integrity_Result" where
  "integrity_checkPayloadIntegrity e spec subj payload integrityHash =
     (if integrityHash = [] then broke spec subj (Text ''no integrity hash stored'')
      else if vd_sha e payload \<noteq> integrityHash
      then broke spec subj (Text ''stored payload bytes do not re-hash to the stored integrity hash'')
      else held spec subj None)"

text \<open>The quoting of \<open>%q\<close>, for a text that needs no escapes.\<close>

definition checkRelationTypeKnown :: "integrity_Spec \<Rightarrow> RelationVersion \<Rightarrow> integrity_Result" where
  "checkRelationTypeKnown spec rv =
     (if \<not> Valid (rv_RelationType rv)
      then broke spec (relationSubject rv)
        (Text (''relation type '' @ CHR 0x22 # rv_RelationType rv @ CHR 0x22 # '' is not in the relation catalog''))
      else held spec (relationSubject rv) None)"

definition checkRelationEndpoints :: "integrity_Spec \<Rightarrow> integrity_Snapshot \<Rightarrow> RelationVersion \<Rightarrow> integrity_Result" where
  "checkRelationEndpoints spec snap rv =
     (let ids = map ov_ID (it_ProposedObjects snap);
          missing = (if rv_SourceObjectVersionID rv \<notin> set ids then [''source '' @ rv_SourceObjectVersionID rv] else [])
            @ (if rv_TargetObjectVersionID rv \<notin> set ids then [''target '' @ rv_TargetObjectVersionID rv] else [])
      in if length missing > 0
         then broke spec (relationSubject rv)
           (Text (''pinned endpoint(s) do not exist among the proposal's object versions: ''
              @ strings_Join (sort missing) '', ''))
         else held spec (relationSubject rv) None)"

definition index_types :: "ObjectVersion list \<Rightarrow> (string \<times> string) list" where
  "index_types objs = fold (\<lambda>ov m. AList.update (ov_ID ov) (ov_ObjectType ov) m) objs []"

definition checkRelationEndpointTypes :: "integrity_Spec \<Rightarrow> integrity_Snapshot \<Rightarrow> RelationVersion \<Rightarrow> integrity_Result" where
  "checkRelationEndpointTypes spec snap rv =
     (let types = index_types (it_ProposedObjects snap) in
      case (map_of types (rv_SourceObjectVersionID rv), map_of types (rv_TargetObjectVersionID rv)) of
        (Some src, Some tgt) \<Rightarrow>
          (case EndpointsValid (rv_RelationType rv) src tgt of
             Some err \<Rightarrow> broke spec (relationSubject rv) (EndpointTypes err src tgt)
           | None \<Rightarrow> held spec (relationSubject rv) None)
      | _ \<Rightarrow> broke spec (relationSubject rv)
               (Text ''pinned endpoint version(s) not found; cannot check endpoint types''))"

definition checkRightsPolicyResolves :: "integrity_Spec \<Rightarrow> integrity_Snapshot \<Rightarrow> ObjectVersion \<Rightarrow> integrity_Result" where
  "checkRightsPolicyResolves spec snap ov =
     (case ov_VisibilityPolicyID ov of
        None \<Rightarrow> held spec (objectSubject ov) None
      | Some p \<Rightarrow>
          if p \<in> set (it_PolicyVersions snap) then held spec (objectSubject ov) None
          else broke spec (objectSubject ov)
            (Text (''pinned policy '' @ p @ '' is not a policy version of the project or its organization'')))"

definition checkRightsPinInheritsDefault :: "integrity_Spec \<Rightarrow> ObjectVersion \<Rightarrow> integrity_Result" where
  "checkRightsPinInheritsDefault spec ov =
     (if ov_VisibilityPolicyID ov \<noteq> None then held spec (objectSubject ov) None
      else broke spec (objectSubject ov)
        (Text ''no visibility policy pinned; this version inherits the project default''))"

definition pinString :: "string option \<Rightarrow> string" where
  "pinString pin = (case pin of None \<Rightarrow> ''<project default>'' | Some p \<Rightarrow> p)"

text \<open>A map read of an absent object is 0.\<close>

definition highest_of :: "(string \<times> int) list \<Rightarrow> string \<Rightarrow> int" where
  "highest_of m i = (case map_of m i of None \<Rightarrow> 0 | Some n \<Rightarrow> n)"

definition highest_step :: "ObjectVersion \<Rightarrow> (string \<times> int) list \<Rightarrow> (string \<times> int) list" where
  "highest_step ov m =
     (if ov_VersionNo ov > highest_of m (ov_ObjectID ov) then AList.update (ov_ObjectID ov) (ov_VersionNo ov) m else m)"

definition headPolicyPins :: "ObjectVersion list \<Rightarrow> (string \<times> string) list" where
  "headPolicyPins objs =
     (let highest = fold highest_step objs [] in
      fold (\<lambda>ov m. if ov_VersionNo ov = highest_of highest (ov_ObjectID ov)
                   then AList.update (ov_ObjectID ov) (pinString (ov_VisibilityPolicyID ov)) m else m) objs [])"

definition visibility_change :: "integrity_Spec \<Rightarrow> (string \<times> string) list \<Rightarrow> string \<times> string \<Rightarrow> integrity_Result option" where
  "visibility_change spec proposedHeads basePinOf =
     (case basePinOf of (objectID, basePin) \<Rightarrow>
        case map_of proposedHeads objectID of
          None \<Rightarrow> None
        | Some proposedPin \<Rightarrow>
            if basePin \<noteq> proposedPin
            then Some (broke spec objectID (Text (''rights/visibility policy pin changes from '' @ basePin
                   @ '' to '' @ proposedPin @ ''; widening needs an authorized person's explicit confirmation (docs/12 ''
                   @ CHR 0xC2 # CHR 0xA7 # ''3)'')))
            else None)"

definition checkVisibilityChanges :: "integrity_Spec \<Rightarrow> integrity_Snapshot \<Rightarrow> integrity_Result list" where
  "checkVisibilityChanges spec snap =
     (let out = List.map_filter (visibility_change spec (headPolicyPins (it_ProposedObjects snap)))
                  (headPolicyPins (it_BaseObjects snap))
      in if length out = 0
         then [held spec [] (Some (Text ''no rights/visibility policy change between the base and the proposal''))]
         else sort_key ir_Subject out)"

definition blobRefFields :: "(string \<times> string list) list" where
  "blobRefFields =
     [(''dataset'', [''blob_ids'']), (''calculation'', [''output_blob_ids'']),
      (''experiment'', [''raw_blob_ids'', ''processed_blob_ids'']),
      (''material'', [''structure_blob_ids'']), (''external_reference'', [''snapshot_blob_id''])]"

definition blob_items :: "jval \<Rightarrow> jval list" where
  "blob_items val = (case val of JArr items \<Rightarrow> items | _ \<Rightarrow> [val])"

definition blob_item_problem :: "BlobRef list \<Rightarrow> string \<Rightarrow> jval \<Rightarrow> blob_problem option" where
  "blob_item_problem refs f item =
     (case item of
        JStr s \<Rightarrow> if s \<notin> set (map br_ID refs) \<and> s \<notin> set (map br_Hash refs) then Some (DoesNotResolve f s) else None
      | _ \<Rightarrow> Some (NotReferenceString f item))"

definition blob_field_problems :: "BlobRef list \<Rightarrow> (string \<times> jval) list \<Rightarrow> string \<Rightarrow> blob_problem list" where
  "blob_field_problems refs payload f =
     (case map_of payload f of
        None \<Rightarrow> []
      | Some val \<Rightarrow> if val = JNull then [] else List.map_filter (blob_item_problem refs f) (blob_items val))"

text \<open>The code sorts the rendered problems; they are kept in the order of the fields.\<close>

definition checkBlobRefs :: "'c Engine \<Rightarrow> integrity_Spec \<Rightarrow> integrity_Snapshot \<Rightarrow> ObjectVersion \<Rightarrow> integrity_Result" where
  "checkBlobRefs e spec snap ov =
     (let fs = (case map_of blobRefFields (ov_ObjectType ov) of None \<Rightarrow> [] | Some fs \<Rightarrow> fs) in
      if length fs = 0 then held spec (objectSubject ov) None
      else (case unmarshal_map (vd_renum e) (ov_Payload ov) of
              None \<Rightarrow> broke spec (objectSubject ov) PayloadNotDecodable
            | Some payload \<Rightarrow>
                (let unresolved = concat (map (blob_field_problems (ManifestRefs snap) payload) fs)
                 in if length unresolved > 0 then broke spec (objectSubject ov) (Unresolved unresolved)
                    else held spec (objectSubject ov) None)))"

section \<open>The run (engine.go, Check and runCheck)\<close>

definition integrity_runCheck :: "'c Engine \<Rightarrow> integrity_Snapshot \<Rightarrow> integrity_Spec \<Rightarrow> integrity_Result list" where
  "integrity_runCheck e snap spec =
     (case is_Check spec of
        CheckSchemaRegistered \<Rightarrow> map (checkSchemaRegistered e spec) (it_ProposedObjects snap)
      | CheckSchemaPayloadConforms \<Rightarrow> map (checkSchemaConforms e spec snap) (it_ProposedObjects snap)
      | CheckBaseOnTargetChain \<Rightarrow> [checkBaseOnTargetChain spec snap]
      | CheckProposedOnSourceChain \<Rightarrow> [checkProposedOnSourceChain spec snap]
      | CheckSourceChainUnbroken \<Rightarrow> [checkSourceChainUnbroken spec snap]
      | CheckSourceCommitLinkage \<Rightarrow> [integrity_checkCommitLinkage spec snap]
      | CheckStoredPayloadIntegrity \<Rightarrow>
          map (\<lambda>ov. integrity_checkPayloadIntegrity e spec (objectSubject ov) (ov_Payload ov) (ov_IntegrityHash ov))
            (it_ProposedObjects snap)
          @ map (\<lambda>rv. integrity_checkPayloadIntegrity e spec (relationSubject rv) (rv_Payload rv) (rv_IntegrityHash rv))
            (it_ProposedRelations snap)
      | CheckRelationTypeKnown \<Rightarrow> map (checkRelationTypeKnown spec) (it_ProposedRelations snap)
      | CheckRelationEndpointsInProposal \<Rightarrow> map (checkRelationEndpoints spec snap) (it_ProposedRelations snap)
      | CheckRelationEndpointTypesValid \<Rightarrow> map (checkRelationEndpointTypes spec snap) (it_ProposedRelations snap)
      | CheckRightsPolicyResolves \<Rightarrow> map (checkRightsPolicyResolves spec snap) (it_ProposedObjects snap)
      | CheckRightsPinInheritsDefault \<Rightarrow> map (checkRightsPinInheritsDefault spec) (it_ProposedObjects snap)
      | CheckVisibilityChangeFlagged \<Rightarrow> checkVisibilityChanges spec snap
      | CheckBlobRefsResolve \<Rightarrow> map (checkBlobRefs e spec snap) (it_ProposedObjects snap))"

definition integrity_Check :: "'c Engine \<Rightarrow> integrity_Snapshot \<Rightarrow> integrity_Report" where
  "integrity_Check e snap0 =
     (let snap = canonical_snapshot snap0 in
      integrity_finalize \<lparr>ig_Kind = ''integrity'', ig_ProjectID = it_ProjectID snap, ig_PRNumber = it_PRNumber snap,
        ig_BaseStateID = it_Base snap, ig_ProposedStateID = it_Proposed snap, ig_Verdict = [],
        ig_Results = concat (map (integrity_runCheck e snap) integrity_specs),
        ig_Explanation = None, ig_ComputedAt = []\<rparr>)"

section \<open>The walk of the source chain\<close>

definition rooted_chain :: "string set \<Rightarrow> ProjectState set \<Rightarrow> ProjectState list \<Rightarrow> bool" where
  "rooted_chain bounds S ps \<longleftrightarrow> parent_linked (ps_ID ` S) ps \<and> distinct (map ps_ID ps)
     \<and> ps_ParentStateID (last ps) \<in> Some ` bounds"

lemma indexes_Some: "indexes byID S \<Longrightarrow> s \<in> S \<Longrightarrow> map_of byID (ps_ID s) = Some s"
  unfolding indexes_def by blast

lemma source_walk_sound:
  assumes "indexes byID S" and "source_walk byID bounds walked cur = Inr w"
  shows "\<exists>ps. rooted_chain (set bounds) S ps \<and> ps_ID (hd ps) = cur \<and> set ps \<subseteq> S
    \<and> ps_ID ` set ps \<inter> set walked = {} \<and> set w = set walked \<union> ps_ID ` set ps"
  using assms
proof (induction byID bounds walked cur rule: source_walk.induct)
  case (1 byID bounds walked cur)
  note eq = source_walk.simps [of byID bounds walked cur]
  have n: "cur \<notin> set walked" using "1.prems"(2) by (auto simp: eq)
  obtain p s where p: "map_of byID cur = Some s" "ps_ParentStateID s = Some p"
    using "1.prems"(2) n by (cases "Option.bind (map_of byID cur) ps_ParentStateID")
      (auto simp: eq bind_eq_Some_conv)
  then have sS: "s \<in> S" "ps_ID s = cur" using "1.prems"(1) by (auto simp: indexes_def)
  have b: "Option.bind (map_of byID cur) ps_ParentStateID = Some p" by (simp add: p)
  show ?case
  proof (cases "map_of byID p = None")
    case True
    then have "p \<in> set bounds" "w = cur # walked"
      using "1.prems"(2) n p by (auto simp: eq split: if_splits)
    moreover have "parent_linked (ps_ID ` S) [s]"
      using True p(2) by (simp add: indexes_None [OF "1.prems"(1)])
    ultimately show ?thesis using sS n p(2)
      by (intro exI [of _ "[s]"]) (auto simp: rooted_chain_def)
  next
    case False
    then have q: "source_walk byID bounds (cur # walked) p = Inr w"
      using "1.prems"(2) n p by (auto simp: eq)
    from "1.IH" [OF n refl b False "1.prems"(1) q] obtain ps where ps:
      "rooted_chain (set bounds) S ps" "ps_ID (hd ps) = p" "set ps \<subseteq> S"
      "ps_ID ` set ps \<inter> set (cur # walked) = {}" "set w = set (cur # walked) \<union> ps_ID ` set ps" by blast
    then obtain t ts where t: "ps = t # ts" by (cases ps) (auto simp: rooted_chain_def)
    have "rooted_chain (set bounds) S (s # ps)"
      using ps(1,2,4) p(2) sS(2) by (auto simp: rooted_chain_def t)
    moreover have "ps_ID ` set (s # ps) \<inter> set walked = {}" using ps(4) sS(2) n by auto
    moreover have "set w = set walked \<union> ps_ID ` set (s # ps)" using ps(5) sS(2) by auto
    ultimately show ?thesis using ps(3) sS by (intro exI [of _ "s # ps"]) auto
  qed
qed

lemma source_walk_complete:
  assumes "indexes byID S"
  shows "rooted_chain (set bounds) S ps \<Longrightarrow> set ps \<subseteq> S \<Longrightarrow> ps_ID ` set ps \<inter> set walked = {}
    \<Longrightarrow> \<exists>w. source_walk byID bounds walked (ps_ID (hd ps)) = Inr w \<and> set w = set walked \<union> ps_ID ` set ps"
proof (induction ps arbitrary: walked)
  case (Cons s ps)
  note eq = source_walk.simps [of byID bounds walked]
  have s: "map_of byID (ps_ID s) = Some s" using Cons.prems(2) by (intro indexes_Some [OF assms]) simp
  have n: "ps_ID s \<notin> set walked" using Cons.prems(3) by auto
  show ?case
  proof (cases ps)
    case Nil
    then obtain p where "ps_ParentStateID s = Some p" "p \<in> set bounds" "map_of byID p = None"
      using Cons.prems(1) by (auto simp: rooted_chain_def indexes_None [OF assms])
    with Nil s n show ?thesis by (auto simp: eq)
  next
    case (Cons t ts)
    have p: "ps_ParentStateID s = Some (ps_ID t)" using Cons.prems(1) by (simp add: rooted_chain_def Cons)
    have t: "map_of byID (ps_ID t) = Some t" using Cons.prems(2) by (intro indexes_Some [OF assms]) (simp add: Cons)
    have "source_walk byID bounds walked (ps_ID s) = source_walk byID bounds (ps_ID s # walked) (ps_ID t)"
      using s p t n by (simp add: eq)
    moreover have "\<exists>w. source_walk byID bounds (ps_ID s # walked) (ps_ID (hd ps)) = Inr w
        \<and> set w = set (ps_ID s # walked) \<union> ps_ID ` set ps"
      using Cons.prems by (intro Cons.IH) (auto simp: Cons rooted_chain_def)
    ultimately show ?thesis by (auto simp: Cons)
  qed
qed (simp add: rooted_chain_def)

lemma parent_linked_parents:
  "parent_linked K ps \<Longrightarrow> i \<in> K \<Longrightarrow> (\<exists>s \<in> set ps. ps_ParentStateID s = Some i) \<longleftrightarrow> i \<in> ps_ID ` set (tl ps)"
  by (induction ps rule: induct_list012) (auto split: option.splits)

lemma chain_heads_linear:
  assumes "distinct (map ps_ID states)" and "rooted_chain bounds (set states) ps" and "set ps = set states"
  shows "chain_heads states = [ps_ID (hd ps)]"
proof -
  obtain t ts where ps: "ps = t # ts" using assms(2) by (cases ps) (auto simp: rooted_chain_def)
  have C: "set (List.map_filter ps_ParentStateID states) = {p. \<exists>s \<in> set ps. ps_ParentStateID s = Some p}"
    by (force simp: List.map_filter_def assms(3) image_iff)
  have P: "(\<exists>s \<in> set ps. ps_ParentStateID s = Some i) \<longleftrightarrow> i \<in> ps_ID ` set (tl ps)"
    if "i \<in> ps_ID ` set states" for i
    using assms(2) that by (intro parent_linked_parents) (simp_all add: rooted_chain_def)
  have "ps_ID t \<notin> ps_ID ` set ts" using assms(2) by (auto simp: rooted_chain_def ps)
  have "set (chain_heads states) = {i \<in> ps_ID ` set states. i \<notin> ps_ID ` set (tl ps)}"
    using P unfolding chain_heads_def Let_def set_filter C set_map by blast
  then have "set (chain_heads states) = {ps_ID t}"
    using \<open>ps_ID t \<notin> ps_ID ` set ts\<close> unfolding assms(3) [symmetric] by (auto simp: ps)
  moreover have "distinct (chain_heads states)" using assms(1) by (simp add: chain_heads_def)
  ultimately show ?thesis
    by (cases "chain_heads states"; cases "tl (chain_heads states)") (auto simp: ps)
qed

lemma held_simps [simp]: "ir_Passed (held spec subj d)" "\<not> ir_Passed (broke spec subj d')"
  by (simp_all add: held_def broke_def)

lemma source_chain_iff:
  assumes "distinct (map ps_ID (it_SourceStates snap))"
  shows "ir_Passed (checkSourceChainUnbroken spec snap) \<longleftrightarrow> it_SourceStates snap = []
    \<or> (\<exists>ps. rooted_chain (set (it_SourceBoundaries snap)) (set (it_SourceStates snap)) ps
         \<and> set ps = set (it_SourceStates snap))"
proof -
  let ?ss = "it_SourceStates snap" and ?b = "it_SourceBoundaries snap"
  have I: "indexes (index_states ?ss) (set ?ss)" unfolding index_states_def using assms by (rule indexes_fold)
  have U: "ir_Passed (checkSourceChainUnbroken spec snap) \<longleftrightarrow> ?ss = []
      \<or> (\<exists>x w. chain_heads ?ss = [x] \<and> source_walk (index_states ?ss) ?b [] x = Inr w \<and> ps_ID ` set ?ss \<subseteq> set w)"
    (is "_ \<longleftrightarrow> _ \<or> ?walk")
  proof (cases "length (chain_heads ?ss) = 1")
    case True
    then obtain x where "chain_heads ?ss = [x]" by (auto simp: length_Suc_conv)
    then show ?thesis
      by (auto simp: checkSourceChainUnbroken_def Let_def filter_empty_conv split: sum.splits)
  next
    case False
    then show ?thesis by (auto simp: checkSourceChainUnbroken_def Let_def)
  qed
  also have "\<dots> \<longleftrightarrow> ?ss = [] \<or> (\<exists>ps. rooted_chain (set ?b) (set ?ss) ps \<and> set ps = set ?ss)"
  proof (intro disj_cong refl iffI)
    assume ?walk
    then obtain x w where w: "source_walk (index_states ?ss) ?b [] x = Inr w" "ps_ID ` set ?ss \<subseteq> set w" by blast
    from source_walk_sound [OF I w(1)] obtain ps where ps: "rooted_chain (set ?b) (set ?ss) ps" "set ps \<subseteq> set ?ss"
      "set w = ps_ID ` set ps" by auto
    have "s \<in> set ps" if "s \<in> set ?ss" for s
    proof -
      from that w(2) ps(3) obtain t where "t \<in> set ps" "ps_ID t = ps_ID s" by auto
      moreover then have "t = s" using assms that ps(2) by (metis distinct_map inj_onD subsetD)
      ultimately show ?thesis by simp
    qed
    with ps show "\<exists>ps. rooted_chain (set ?b) (set ?ss) ps \<and> set ps = set ?ss" by blast
  next
    assume "\<exists>ps. rooted_chain (set ?b) (set ?ss) ps \<and> set ps = set ?ss"
    then obtain ps where ps: "rooted_chain (set ?b) (set ?ss) ps" "set ps = set ?ss" by blast
    from source_walk_complete [OF I ps(1), of "[]"] ps(2) obtain w where
      "source_walk (index_states ?ss) ?b [] (ps_ID (hd ps)) = Inr w" "set w = ps_ID ` set ?ss" by auto
    with chain_heads_linear [OF assms ps] show ?walk by auto
  qed
  finally show ?thesis .
qed

section \<open>The other checks\<close>

lemma count_results:
  "count (mset (map f xs)) i = length (filter (\<lambda>x. f x = i) xs)"
  by (induction xs) auto

lemma edge_problem_None:
  assumes "indexes byID S"
  shows "edge_problem byID c = None \<longleftrightarrow>
     (\<forall>s \<in> S. ps_ID s = cm_ResultStateID c \<longrightarrow> ps_ParentStateID s = cm_BaseStateID c)"
proof -
  have "edge_problem byID c = None \<longleftrightarrow> commit_edge byID c = None"
    by (auto simp: edge_problem_def commit_edge_def split: option.splits)
  then show ?thesis unfolding commit_edge_None [OF assms] .
qed

lemma named_exactly_once:
  assumes "distinct (map ps_ID ss)"
  shows "(\<forall>c \<in> set cs. cm_ResultStateID c \<in> ps_ID ` set ss)
      \<and> (\<forall>s \<in> set ss. length (named_by cs (ps_ID s)) = 1)
    \<longleftrightarrow> mset (map cm_ResultStateID cs) = mset (map ps_ID ss)"
proof -
  have L: "length (named_by cs i) = count (mset (map cm_ResultStateID cs)) i" for i
    unfolding count_results by (simp add: named_by_def)
  have C: "count (mset (map ps_ID ss)) i = (if i \<in> ps_ID ` set ss then 1 else 0)" for i
    using distinct_count_atmost_1 [of "map ps_ID ss"] assms by auto
  show ?thesis unfolding L
  proof (safe intro!: multiset_eqI)
    fix i
    assume a: "\<forall>c \<in> set cs. cm_ResultStateID c \<in> ps_ID ` set ss"
      "\<forall>s \<in> set ss. count (mset (map cm_ResultStateID cs)) (ps_ID s) = 1"
    show "count (mset (map cm_ResultStateID cs)) i = count (mset (map ps_ID ss)) i"
    proof (cases "i \<in> ps_ID ` set ss")
      case True
      then show ?thesis using a(2) by (auto simp: C simp del: mset_map)
    next
      case False
      then have "i \<notin># mset (map cm_ResultStateID cs)" using a(1) by auto
      then show ?thesis using False by (simp add: C not_in_iff del: mset_map)
    qed
  next
    fix c assume m: "mset (map cm_ResultStateID cs) = mset (map ps_ID ss)" and "c \<in> set cs"
    have "set (map cm_ResultStateID cs) = set (map ps_ID ss)" using m by (rule mset_eq_setD)
    with \<open>c \<in> set cs\<close> show "cm_ResultStateID c \<in> ps_ID ` set ss" by auto
  next
    fix s assume "mset (map cm_ResultStateID cs) = mset (map ps_ID ss)" and "s \<in> set ss"
    then show "count (mset (map cm_ResultStateID cs)) (ps_ID s) = 1" by (simp add: C del: mset_map)
  qed
qed

lemma linkage_iff:
  assumes "distinct (map ps_ID (it_SourceStates snap))"
  shows "ir_Passed (integrity_checkCommitLinkage spec snap) \<longleftrightarrow>
    mset (map (\<lambda>c. (cm_BaseStateID c, cm_ResultStateID c)) (it_SourceCommits snap))
    = mset (map (\<lambda>s. (ps_ParentStateID s, ps_ID s)) (it_SourceStates snap))"
proof -
  let ?ss = "it_SourceStates snap" and ?cs = "it_SourceCommits snap"
  let ?E = "\<lambda>c. (cm_BaseStateID c, cm_ResultStateID c)" and ?F = "\<lambda>s. (ps_ParentStateID s, ps_ID s)"
  have I: "indexes (index_states ?ss) (set ?ss)" unfolding index_states_def using assms by (rule indexes_fold)
  have O: "outside_problem (index_states ?ss) c = None \<longleftrightarrow> cm_ResultStateID c \<in> ps_ID ` set ?ss" for c
    using indexes_None [OF I, of "cm_ResultStateID c"] by (simp add: outside_problem_def)
  have one: "n \<noteq> [] \<and> \<not> length n > 1 \<longleftrightarrow> length n = 1" for n :: "string list"
    by (cases n) auto
  have "ir_Passed (integrity_checkCommitLinkage spec snap) \<longleftrightarrow> checkCommitLinkage_problems snap = []"
    by (simp add: integrity_checkCommitLinkage_def Let_def)
  also have "\<dots> \<longleftrightarrow> ((\<forall>c \<in> set ?cs. cm_ResultStateID c \<in> ps_ID ` set ?ss)
      \<and> (\<forall>s \<in> set ?ss. length (named_by ?cs (ps_ID s)) = 1))
      \<and> (\<forall>c \<in> set ?cs. \<forall>s \<in> set ?ss. ps_ID s = cm_ResultStateID c \<longrightarrow> ps_ParentStateID s = cm_BaseStateID c)"
    unfolding one [symmetric]
    by (auto simp: checkCommitLinkage_problems_def Let_def map_filter_Nil_iff O edge_problem_None [OF I] filter_empty_conv)
  also have "\<dots> \<longleftrightarrow> mset (map cm_ResultStateID ?cs) = mset (map ps_ID ?ss)
      \<and> (\<forall>c \<in> set ?cs. \<forall>s \<in> set ?ss. ps_ID s = cm_ResultStateID c \<longrightarrow> ps_ParentStateID s = cm_BaseStateID c)"
    unfolding named_exactly_once [OF assms] ..
  also have "\<dots> \<longleftrightarrow> mset (map ?E ?cs) = mset (map ?F ?ss)"
  proof safe
    assume m: "mset (map cm_ResultStateID ?cs) = mset (map ps_ID ?ss)"
      and e: "\<forall>c \<in> set ?cs. \<forall>s \<in> set ?ss. ps_ID s = cm_ResultStateID c \<longrightarrow> ps_ParentStateID s = cm_BaseStateID c"
    have d: "distinct (map cm_ResultStateID ?cs)" using assms m by (metis mset_eq_imp_distinct_iff)
    have s: "cm_ResultStateID ` set ?cs = ps_ID ` set ?ss" using arg_cong [OF m, of set_mset] by simp
    have "distinct (map ?E ?cs)" "distinct (map ?F ?ss)"
      using d assms by (auto simp: distinct_map inj_on_def)
    moreover have "set (map ?E ?cs) = set (map ?F ?ss)"
    proof safe
      fix b r assume "(b, r) \<in> set (map ?E ?cs)"
      then obtain c where c: "c \<in> set ?cs" "b = cm_BaseStateID c" "r = cm_ResultStateID c" by auto
      with s obtain t where "t \<in> set ?ss" "ps_ID t = r" by (metis image_iff)
      with c e show "(b, r) \<in> set (map ?F ?ss)" by force
    next
      fix p i assume "(p, i) \<in> set (map ?F ?ss)"
      then obtain t where t: "t \<in> set ?ss" "p = ps_ParentStateID t" "i = ps_ID t" by auto
      with s obtain c where "c \<in> set ?cs" "cm_ResultStateID c = i" by (metis image_iff)
      with t e show "(p, i) \<in> set (map ?E ?cs)" by force
    qed
    ultimately show "mset (map ?E ?cs) = mset (map ?F ?ss)" by (simp only: set_eq_iff_mset_eq_distinct)
  next
    assume "mset (map ?E ?cs) = mset (map ?F ?ss)"
    from arg_cong [OF this, of "image_mset snd"]
    show "mset (map cm_ResultStateID ?cs) = mset (map ps_ID ?ss)"
      by (simp add: multiset.map_comp comp_def)
  next
    fix c s assume m: "mset (map ?E ?cs) = mset (map ?F ?ss)" and c: "c \<in> set ?cs" "s \<in> set ?ss" "ps_ID s = cm_ResultStateID c"
    have "set (map ?E ?cs) = set (map ?F ?ss)" using m by (rule mset_eq_setD)
    moreover have "?E c \<in> set (map ?E ?cs)" using c(1) by simp
    ultimately obtain t where "t \<in> set ?ss" "?F t = ?E c" by auto
    with c assms show "ps_ParentStateID s = cm_BaseStateID c" by (metis distinct_map inj_onD prod.inject)
  qed
  finally show ?thesis .
qed

section \<open>The verdict\<close>

lemma fold_integrity_finalize:
  "fold integrity_finalize_step rs (b, w) =
     (b \<or> (\<exists>r \<in> set rs. \<not> ir_Passed r \<and> ir_Severity r = SeverityBlocking),
      w \<or> (\<exists>r \<in> set rs. \<not> ir_Passed r \<and> ir_Severity r \<noteq> SeverityBlocking))"
  by (induction rs arbitrary: b w) (auto simp: integrity_finalize_step_def)

lemma finalize_Blocked:
  "integrity_Blocked (integrity_finalize r) \<longleftrightarrow> (\<exists>x \<in> set (ig_Results r). \<not> ir_Passed x \<and> ir_Severity x = SeverityBlocking)"
  by (simp add: integrity_finalize_def fold_integrity_finalize integrity_Blocked_def Let_def report_verdict_defs)

lemmas integrity_check_defs = checkSchemaRegistered_def checkSchemaConforms_def checkBaseOnTargetChain_def
  checkProposedOnSourceChain_def checkSourceChainUnbroken_def integrity_checkCommitLinkage_def
  integrity_checkPayloadIntegrity_def checkRelationTypeKnown_def checkRelationEndpoints_def
  checkRelationEndpointTypes_def checkRightsPolicyResolves_def checkRightsPinInheritsDefault_def checkBlobRefs_def

lemma result_severity [simp]:
  "ir_Severity (held spec subj d) = is_Severity spec" "ir_Severity (broke spec subj d') = is_Severity spec"
  by (simp_all add: held_def broke_def)

lemma set_map_filter: "y \<in> set (List.map_filter f xs) \<longleftrightarrow> (\<exists>x \<in> set xs. f x = Some y)"
  by (force simp: List.map_filter_def image_iff)

lemma visibility_change_Some:
  "visibility_change spec ps (i, b) = Some r \<Longrightarrow> ir_Severity r = is_Severity spec \<and> \<not> ir_Passed r"
  by (auto simp: visibility_change_def split: option.splits if_splits)

lemma visibility_change_None:
  "visibility_change spec ps (i, b) = None \<longleftrightarrow> (\<forall>p. map_of ps i = Some p \<longrightarrow> b = p)"
  by (auto simp: visibility_change_def simp del: append.simps append_Cons split: option.splits if_splits)

lemma visibility_severity: "r \<in> set (checkVisibilityChanges spec snap) \<Longrightarrow> ir_Severity r = is_Severity spec"
  by (auto simp: checkVisibilityChanges_def Let_def set_map_filter dest: visibility_change_Some split: if_splits)

lemma single_severity:
  "ir_Severity (checkSchemaRegistered e spec ov) = is_Severity spec"
  "ir_Severity (checkSchemaConforms e spec snap ov) = is_Severity spec"
  "ir_Severity (checkBaseOnTargetChain spec snap) = is_Severity spec"
  "ir_Severity (checkProposedOnSourceChain spec snap) = is_Severity spec"
  "ir_Severity (checkSourceChainUnbroken spec snap) = is_Severity spec"
  "ir_Severity (integrity_checkCommitLinkage spec snap) = is_Severity spec"
  "ir_Severity (integrity_checkPayloadIntegrity e spec subj pl h) = is_Severity spec"
  "ir_Severity (checkRelationTypeKnown spec rv) = is_Severity spec"
  "ir_Severity (checkRelationEndpoints spec snap rv) = is_Severity spec"
  "ir_Severity (checkRelationEndpointTypes spec snap rv) = is_Severity spec"
  "ir_Severity (checkRightsPolicyResolves spec snap ov) = is_Severity spec"
  "ir_Severity (checkRightsPinInheritsDefault spec ov) = is_Severity spec"
  "ir_Severity (checkBlobRefs e spec snap ov) = is_Severity spec"
  by (simp_all add: integrity_check_defs Let_def split: option.splits sum.splits)

lemma runCheck_severity: "r \<in> set (integrity_runCheck e snap spec) \<Longrightarrow> ir_Severity r = is_Severity spec"
  unfolding integrity_runCheck_def
  by (cases "is_Check spec") (auto simp: single_severity dest: visibility_severity)

lemma Check_Blocked:
  "\<not> integrity_Blocked (integrity_Check e snap) \<longleftrightarrow>
     (\<forall>spec \<in> set integrity_specs. is_Severity spec = SeverityBlocking \<longrightarrow>
        (\<forall>r \<in> set (integrity_runCheck e (canonical_snapshot snap) spec). ir_Passed r))"
proof -
  have "\<not> integrity_Blocked (integrity_Check e snap) \<longleftrightarrow>
      (\<forall>spec \<in> set integrity_specs. \<forall>r \<in> set (integrity_runCheck e (canonical_snapshot snap) spec).
         ir_Severity r = SeverityBlocking \<longrightarrow> ir_Passed r)"
    unfolding integrity_Check_def Let_def finalize_Blocked by auto
  then show ?thesis using runCheck_severity by metis
qed

section \<open>What a sound proposal is\<close>

text \<open>The keys of the rows: ids of states and object versions, version numbers of an object (from 1),
  and blob references, whose id determines the hash.\<close>

definition rows_ok :: "integrity_Snapshot \<Rightarrow> bool" where
  "rows_ok snap \<longleftrightarrow>
     distinct (map ps_ID (it_SourceStates snap)) \<and> distinct (map ov_ID (it_ProposedObjects snap))
     \<and> (\<forall>objs \<in> {it_BaseObjects snap, it_ProposedObjects snap}.
          distinct (map (\<lambda>ov. (ov_ObjectID ov, ov_VersionNo ov)) objs) \<and> (\<forall>ov \<in> set objs. 0 < ov_VersionNo ov))
     \<and> inj_on br_ID (set (it_BaseBlobRefs snap) \<union> set (it_ProposedBlobRefs snap))"

definition head_version :: "ObjectVersion list \<Rightarrow> ObjectVersion \<Rightarrow> bool" where
  "head_version objs ov \<longleftrightarrow> ov \<in> set objs
     \<and> (\<forall>w \<in> set objs. ov_ObjectID w = ov_ObjectID ov \<longrightarrow> ov_VersionNo w \<le> ov_VersionNo ov)"

definition blobs_resolve :: "'c Engine \<Rightarrow> BlobRef set \<Rightarrow> ObjectVersion \<Rightarrow> bool" where
  "blobs_resolve e refs ov \<longleftrightarrow>
     (case map_of blobRefFields (ov_ObjectType ov) of
        None \<Rightarrow> True
      | Some fs \<Rightarrow> \<exists>payload. unmarshal_map (vd_renum e) (ov_Payload ov) = Some payload
          \<and> (\<forall>f \<in> set fs. \<forall>val. map_of payload f = Some val \<and> val \<noteq> JNull
               \<longrightarrow> (\<forall>item \<in> set (blob_items val). \<exists>s. item = JStr s \<and> s \<in> br_ID ` refs \<union> br_Hash ` refs)))"

text \<open>A proposal without blocking failure, in terms of the sets of its rows.\<close>

definition proposal_sound :: "'c Engine \<Rightarrow> integrity_Snapshot \<Rightarrow> bool" where
  "proposal_sound e snap \<longleftrightarrow>
     (\<forall>ov \<in> set (it_ProposedObjects snap).
        (\<exists>s. registry_Lookup (vd_reg e) (schemaRefOf ov) = Inr s)
        \<and> registry_Validate (vd_check e) (vd_reg e) (schemaRefOf ov) (marshal (JObj (integrity_assembleDoc e snap ov))) = None
        \<and> (\<forall>p. ov_VisibilityPolicyID ov = Some p \<longrightarrow> p \<in> set (it_PolicyVersions snap))
        \<and> blobs_resolve e (set (it_BaseBlobRefs snap) \<union> set (it_ProposedBlobRefs snap)) ov)
     \<and> it_Base snap \<in> ps_ID ` set (it_TargetStates snap) \<union> set (it_TargetBoundaries snap)
     \<and> it_Proposed snap \<in> ps_ID ` set (it_SourceStates snap) \<union> set (it_SourceBoundaries snap)
     \<and> (it_SourceStates snap = []
        \<or> (\<exists>ps. rooted_chain (set (it_SourceBoundaries snap)) (set (it_SourceStates snap)) ps
             \<and> set ps = set (it_SourceStates snap)))
     \<and> mset (map (\<lambda>c. (cm_BaseStateID c, cm_ResultStateID c)) (it_SourceCommits snap))
        = mset (map (\<lambda>s. (ps_ParentStateID s, ps_ID s)) (it_SourceStates snap))
     \<and> (\<forall>rv \<in> set (it_ProposedRelations snap). \<exists>s \<in> set (it_ProposedObjects snap). \<exists>t \<in> set (it_ProposedObjects snap).
          rv_SourceObjectVersionID rv = ov_ID s \<and> rv_TargetObjectVersionID rv = ov_ID t
          \<and> EndpointsValid (rv_RelationType rv) (ov_ObjectType s) (ov_ObjectType t) = None)
     \<and> (\<forall>b p. head_version (it_BaseObjects snap) b \<and> head_version (it_ProposedObjects snap) p
          \<and> ov_ObjectID b = ov_ObjectID p
          \<longrightarrow> pinString (ov_VisibilityPolicyID b) = pinString (ov_VisibilityPolicyID p))"

lemma canonical_rowDoc: "integrity_rowDoc e (canonical_snapshot s) = integrity_rowDoc e s"
  by (simp add: integrity_rowDoc_def canonical_snapshot_def fun_eq_iff)

lemma canonical_simps [simp]:
  "set (it_ProposedObjects (canonical_snapshot s)) = set (it_ProposedObjects s)"
  "head_version (it_BaseObjects (canonical_snapshot s)) = head_version (it_BaseObjects s)"
  "head_version (it_ProposedObjects (canonical_snapshot s)) = head_version (it_ProposedObjects s)"
  "integrity_assembleDoc e (canonical_snapshot s) ov = integrity_assembleDoc e s ov"
  unfolding integrity_assembleDoc_def canonical_rowDoc
  by (simp_all add: canonical_snapshot_def head_version_def fun_eq_iff)

lemma sound_canonical: "proposal_sound e (canonical_snapshot s) = proposal_sound e s"
proof -
  have N: "sort_key k xs = [] \<longleftrightarrow> xs = []" for k :: "'x \<Rightarrow> string" and xs
    by (metis set_empty set_sort)
  show ?thesis unfolding proposal_sound_def canonical_simps
    by (simp add: canonical_snapshot_def N)
qed

lemma rows_ok_canonical: "rows_ok (canonical_snapshot s) = rows_ok s"
proof -
  have D: "distinct (map f (sort_key k xs)) = distinct (map f xs)" for f :: "'x \<Rightarrow> 'y" and k :: "'x \<Rightarrow> 'z::linorder" and xs
    by (metis mset_eq_imp_distinct_iff mset_map mset_sort)
  show ?thesis by (simp add: rows_ok_def canonical_snapshot_def D)
qed

section \<open>Each check against its meaning\<close>

lemma fold_if_filter: "fold (\<lambda>x m. if P x then f x m else m) xs m0 = fold f (filter P xs) m0"
  by (induction xs arbitrary: m0) auto

lemma highest_fold:
  "highest_of m0 i \<le> highest_of (fold highest_step objs m0) i
   \<and> (\<forall>ov \<in> set objs. ov_ObjectID ov = i \<longrightarrow> ov_VersionNo ov \<le> highest_of (fold highest_step objs m0) i)
   \<and> (highest_of (fold highest_step objs m0) i = highest_of m0 i
      \<or> (\<exists>ov \<in> set objs. ov_ObjectID ov = i \<and> ov_VersionNo ov = highest_of (fold highest_step objs m0) i))"
proof (induction objs arbitrary: m0)
  case (Cons o1 objs)
  have "highest_of (highest_step o1 m0) i
      = (if ov_ObjectID o1 = i then max (ov_VersionNo o1) (highest_of m0 i) else highest_of m0 i)"
    by (auto simp: highest_step_def highest_of_def)
  with Cons [of "highest_step o1 m0"] show ?case by (auto simp: max_def split: if_splits)
qed simp

lemma highest_head:
  assumes "\<forall>w \<in> set objs. 0 < ov_VersionNo w" and "ov \<in> set objs"
  shows "ov_VersionNo ov = highest_of (fold highest_step objs []) (ov_ObjectID ov) \<longleftrightarrow> head_version objs ov"
  using highest_fold [of "[]" "ov_ObjectID ov" objs] assms
  by (force simp: head_version_def highest_of_def)

lemma headPolicyPins_iff:
  assumes "distinct (map (\<lambda>ov. (ov_ObjectID ov, ov_VersionNo ov)) objs)" and "\<forall>w \<in> set objs. 0 < ov_VersionNo w"
  shows "map_of (headPolicyPins objs) i = Some p \<longleftrightarrow>
      (\<exists>ov. head_version objs ov \<and> ov_ObjectID ov = i \<and> pinString (ov_VisibilityPolicyID ov) = p)"
    and "distinct (map fst (headPolicyPins objs))"
proof -
  let ?P = "\<lambda>ov. ov_VersionNo ov = highest_of (fold highest_step objs []) (ov_ObjectID ov)"
  let ?hs = "filter ?P objs"
  have E: "headPolicyPins objs
      = fold (\<lambda>ov m. AList.update (ov_ObjectID ov) (pinString (ov_VisibilityPolicyID ov)) m) ?hs []"
    unfolding headPolicyPins_def Let_def fold_if_filter ..
  have d: "distinct (map ov_ObjectID ?hs)"
    using assms(1) by (auto simp: distinct_map inj_on_def)
  then have M: "map_of (headPolicyPins objs) i = map_of (map (\<lambda>ov. (ov_ObjectID ov, pinString (ov_VisibilityPolicyID ov))) ?hs) i"
    unfolding E fold_update_map_of [OF d] by (simp split: option.splits)
  have "map_of (headPolicyPins objs) i = Some p \<longleftrightarrow>
      (\<exists>ov \<in> set ?hs. ov_ObjectID ov = i \<and> pinString (ov_VisibilityPolicyID ov) = p)"
    unfolding M using d by (subst map_of_eq_Some_iff) (auto simp: comp_def)
  also have "\<dots> \<longleftrightarrow> (\<exists>ov. head_version objs ov \<and> ov_ObjectID ov = i \<and> pinString (ov_VisibilityPolicyID ov) = p)"
    using highest_head [OF assms(2)] by (auto simp: head_version_def)
  finally show "map_of (headPolicyPins objs) i = Some p \<longleftrightarrow>
      (\<exists>ov. head_version objs ov \<and> ov_ObjectID ov = i \<and> pinString (ov_VisibilityPolicyID ov) = p)" .
  have D: "distinct (map fst (fold (\<lambda>ov m. AList.update (ov_ObjectID ov) (pinString (ov_VisibilityPolicyID ov)) m) hs m))"
    if "distinct (map fst m)" for hs and m :: "(string \<times> string) list"
    using that by (induction hs arbitrary: m) (simp_all add: distinct_update)
  show "distinct (map fst (headPolicyPins objs))" unfolding E by (rule D) simp
qed

lemma visibility_iff:
  assumes "rows_ok snap"
  shows "(\<forall>r \<in> set (checkVisibilityChanges spec snap). ir_Passed r) \<longleftrightarrow>
    (\<forall>b p. head_version (it_BaseObjects snap) b \<and> head_version (it_ProposedObjects snap) p
       \<and> ov_ObjectID b = ov_ObjectID p
       \<longrightarrow> pinString (ov_VisibilityPolicyID b) = pinString (ov_VisibilityPolicyID p))"
proof -
  let ?B = "headPolicyPins (it_BaseObjects snap)" and ?P = "headPolicyPins (it_ProposedObjects snap)"
  let ?out = "List.map_filter (visibility_change spec ?P) ?B"
  note B = headPolicyPins_iff [of "it_BaseObjects snap"] and P = headPolicyPins_iff [of "it_ProposedObjects snap"]
  have k: "distinct (map (\<lambda>ov. (ov_ObjectID ov, ov_VersionNo ov)) (it_BaseObjects snap))" "\<forall>w \<in> set (it_BaseObjects snap). 0 < ov_VersionNo w"
    "distinct (map (\<lambda>ov. (ov_ObjectID ov, ov_VersionNo ov)) (it_ProposedObjects snap))" "\<forall>w \<in> set (it_ProposedObjects snap). 0 < ov_VersionNo w"
    using assms by (auto simp: rows_ok_def)
  have "(\<forall>r \<in> set (checkVisibilityChanges spec snap). ir_Passed r) \<longleftrightarrow> ?out = []"
  proof
    assume a: "\<forall>r \<in> set (checkVisibilityChanges spec snap). ir_Passed r"
    have "\<not> ir_Passed r" if "r \<in> set ?out" for r
      using that visibility_change_Some by (auto simp: set_map_filter)
    moreover have "set ?out \<subseteq> set (checkVisibilityChanges spec snap)"
      by (auto simp: checkVisibilityChanges_def Let_def)
    ultimately show "?out = []" using a by (metis list.set_intros(1) neq_Nil_conv subsetD)
  qed (simp add: checkVisibilityChanges_def)
  also have "\<dots> \<longleftrightarrow> (\<forall>(i, b) \<in> set ?B. \<forall>p. map_of ?P i = Some p \<longrightarrow> b = p)"
    unfolding map_filter_Nil_iff by (rule ball_cong) (auto simp: visibility_change_None)
  also have "\<dots> \<longleftrightarrow> (\<forall>i b p. map_of ?B i = Some b \<longrightarrow> map_of ?P i = Some p \<longrightarrow> b = p)"
    unfolding map_of_eq_Some_iff [OF B(2) [OF k(1,2)]] by blast
  also have "\<dots> \<longleftrightarrow> (\<forall>b p. head_version (it_BaseObjects snap) b \<and> head_version (it_ProposedObjects snap) p
       \<and> ov_ObjectID b = ov_ObjectID p
       \<longrightarrow> pinString (ov_VisibilityPolicyID b) = pinString (ov_VisibilityPolicyID p))"
    unfolding B(1) [OF k(1,2)] P(1) [OF k(3,4)] by metis
  finally show ?thesis .
qed

lemma endpoints_iff:
  assumes "distinct (map ov_ID (it_ProposedObjects snap))"
  shows "ir_Passed (checkRelationTypeKnown s1 rv) \<and> ir_Passed (checkRelationEndpoints s2 snap rv)
      \<and> ir_Passed (checkRelationEndpointTypes s3 snap rv) \<longleftrightarrow>
    (\<exists>s \<in> set (it_ProposedObjects snap). \<exists>t \<in> set (it_ProposedObjects snap).
       rv_SourceObjectVersionID rv = ov_ID s \<and> rv_TargetObjectVersionID rv = ov_ID t
       \<and> EndpointsValid (rv_RelationType rv) (ov_ObjectType s) (ov_ObjectType t) = None)"
proof -
  let ?os = "it_ProposedObjects snap"
  have M: "map_of (index_types ?os) i = map_of (map (\<lambda>ov. (ov_ID ov, ov_ObjectType ov)) ?os) i" for i
    unfolding index_types_def fold_update_map_of [OF assms] by (simp split: option.splits)
  have S: "map_of (index_types ?os) i = Some ty \<longleftrightarrow> (\<exists>ov \<in> set ?os. ov_ID ov = i \<and> ov_ObjectType ov = ty)" for i ty
    unfolding M using assms by (subst map_of_eq_Some_iff) (auto simp: comp_def)
  have T: "ir_Passed (checkRelationEndpointTypes s3 snap rv) \<longleftrightarrow>
      (\<exists>src tgt. map_of (index_types ?os) (rv_SourceObjectVersionID rv) = Some src
         \<and> map_of (index_types ?os) (rv_TargetObjectVersionID rv) = Some tgt
         \<and> EndpointsValid (rv_RelationType rv) src tgt = None)"
    by (auto simp: checkRelationEndpointTypes_def Let_def split: option.splits)
  have V: "EndpointsValid ty a b = None \<Longrightarrow> Valid ty" for ty a b
    by (auto simp: EndpointsValid_def Valid_def split: option.splits)
  have "ir_Passed (checkRelationEndpointTypes s3 snap rv) \<longleftrightarrow> (\<exists>s \<in> set ?os. \<exists>t \<in> set ?os.
       rv_SourceObjectVersionID rv = ov_ID s \<and> rv_TargetObjectVersionID rv = ov_ID t
       \<and> EndpointsValid (rv_RelationType rv) (ov_ObjectType s) (ov_ObjectType t) = None)"
    unfolding T S by metis
  then show ?thesis
    by (auto simp: checkRelationTypeKnown_def checkRelationEndpoints_def Let_def dest: V)
qed

lemma manifest_refs_fold:
  assumes "inj_on br_ID (set out \<union> set refs)" and "set seen = br_ID ` set out"
  shows "\<exists>seen' out'. fold manifest_ref_step refs (seen, out) = (seen', out') \<and> set out' = set out \<union> set refs
     \<and> set seen' = br_ID ` set out'"
  using assms
proof (induction refs arbitrary: seen out)
  case (Cons r refs)
  show ?case
  proof (cases "br_ID r \<in> set seen")
    case True
    then obtain q where "q \<in> set out" "br_ID q = br_ID r" using Cons.prems(2) by auto
    then have r: "r \<in> set out" using inj_onD [OF Cons.prems(1), of q r] by simp
    then have i: "inj_on br_ID (set out \<union> set refs)" using Cons.prems(1) by (simp add: insert_absorb)
    have "manifest_ref_step r (seen, out) = (seen, out)" using True by (simp add: manifest_ref_step_def)
    with Cons.IH [OF i Cons.prems(2)] r show ?thesis by (simp add: insert_absorb)
  next
    case False
    have "manifest_ref_step r (seen, out) = (br_ID r # seen, out @ [r])" using False by (simp add: manifest_ref_step_def)
    moreover have "inj_on br_ID (set (out @ [r]) \<union> set refs)" using Cons.prems(1) by simp
    moreover have "set (br_ID r # seen) = br_ID ` set (out @ [r])" using Cons.prems(2) by simp
    ultimately show ?thesis using Cons.IH [of "out @ [r]" "br_ID r # seen"] by simp
  qed
qed simp

lemma ManifestRefs_set:
  assumes "inj_on br_ID (set (it_BaseBlobRefs snap) \<union> set (it_ProposedBlobRefs snap))"
  shows "set (ManifestRefs snap) = set (it_BaseBlobRefs snap) \<union> set (it_ProposedBlobRefs snap)"
proof -
  obtain s1 o1 where 1: "fold manifest_ref_step (it_BaseBlobRefs snap) ([], []) = (s1, o1)"
    "set o1 = set (it_BaseBlobRefs snap)" "set s1 = br_ID ` set o1"
    using manifest_refs_fold [of "[]" "it_BaseBlobRefs snap" "[]"] inj_on_subset [OF assms] by auto
  then show ?thesis using manifest_refs_fold [of o1 "it_ProposedBlobRefs snap" s1] assms
    by (auto simp: ManifestRefs_def)
qed

lemma blobs_iff:
  assumes "inj_on br_ID (set (it_BaseBlobRefs snap) \<union> set (it_ProposedBlobRefs snap))"
  shows "ir_Passed (checkBlobRefs e spec snap ov) \<longleftrightarrow>
    blobs_resolve e (set (it_BaseBlobRefs snap) \<union> set (it_ProposedBlobRefs snap)) ov"
proof -
  have I: "blob_item_problem (ManifestRefs snap) f item = None \<longleftrightarrow>
      (\<exists>s. item = JStr s \<and> s \<in> br_ID ` (set (it_BaseBlobRefs snap) \<union> set (it_ProposedBlobRefs snap))
           \<union> br_Hash ` (set (it_BaseBlobRefs snap) \<union> set (it_ProposedBlobRefs snap)))" for f item
    unfolding ManifestRefs_set [OF assms, symmetric] by (cases item) (auto simp: blob_item_problem_def)
  have F: "blob_field_problems (ManifestRefs snap) payload f = [] \<longleftrightarrow>
      (\<forall>val. map_of payload f = Some val \<and> val \<noteq> JNull \<longrightarrow> (\<forall>item \<in> set (blob_items val).
        \<exists>s. item = JStr s \<and> s \<in> br_ID ` (set (it_BaseBlobRefs snap) \<union> set (it_ProposedBlobRefs snap))
           \<union> br_Hash ` (set (it_BaseBlobRefs snap) \<union> set (it_ProposedBlobRefs snap))))" for payload f
    unfolding I [symmetric, of _ f] by (auto simp: blob_field_problems_def map_filter_Nil_iff split: option.splits)
  have N: "map_of blobRefFields t = Some fs \<Longrightarrow> fs \<noteq> []" for t fs
    by (auto simp: blobRefFields_def split: if_splits)
  show ?thesis
    unfolding blobs_resolve_def F [symmetric]
    by (auto simp: checkBlobRefs_def Let_def dest: N split: option.splits)
qed

definition spec_of :: "integrity_CheckID \<Rightarrow> integrity_Spec" where
  "spec_of c = the (find (\<lambda>s. is_Check s = c) integrity_specs)"

lemma blocking_specs:
  "{s \<in> set integrity_specs. is_Severity s = SeverityBlocking} = spec_of ` {CheckSchemaRegistered,
     CheckSchemaPayloadConforms, CheckBaseOnTargetChain, CheckProposedOnSourceChain, CheckSourceChainUnbroken,
     CheckSourceCommitLinkage, CheckRelationTypeKnown, CheckRelationEndpointsInProposal,
     CheckRelationEndpointTypesValid, CheckRightsPolicyResolves, CheckVisibilityChangeFlagged, CheckBlobRefsResolve}"
  unfolding set_filter [symmetric] by (simp add: spec_of_def integrity_specs_def)

lemma spec_of_Check: "is_Check (spec_of c) = c"
  by (cases c) (simp_all add: spec_of_def integrity_specs_def)

lemma stateIn_iff: "stateIn ss i \<longleftrightarrow> i \<in> ps_ID ` set ss"
  by (auto simp: stateIn_def list_ex_iff)

lemma simple_checks_iff:
  "ir_Passed (checkSchemaRegistered e spec ov) \<longleftrightarrow> (\<exists>s. registry_Lookup (vd_reg e) (schemaRefOf ov) = Inr s)"
  "ir_Passed (checkSchemaConforms e spec snap ov) \<longleftrightarrow> (\<exists>s. registry_Lookup (vd_reg e) (schemaRefOf ov) = Inr s)
     \<and> registry_Validate (vd_check e) (vd_reg e) (schemaRefOf ov) (marshal (JObj (integrity_assembleDoc e snap ov))) = None"
  "ir_Passed (checkBaseOnTargetChain spec snap) \<longleftrightarrow>
     it_Base snap \<in> ps_ID ` set (it_TargetStates snap) \<union> set (it_TargetBoundaries snap)"
  "ir_Passed (checkProposedOnSourceChain spec snap) \<longleftrightarrow>
     it_Proposed snap \<in> ps_ID ` set (it_SourceStates snap) \<union> set (it_SourceBoundaries snap)"
  "ir_Passed (checkRightsPolicyResolves spec snap ov) \<longleftrightarrow>
     (\<forall>p. ov_VisibilityPolicyID ov = Some p \<longrightarrow> p \<in> set (it_PolicyVersions snap))"
  by (auto simp: checkSchemaRegistered_def checkSchemaConforms_def checkBaseOnTargetChain_def
      checkProposedOnSourceChain_def checkRightsPolicyResolves_def stateIn_iff split: option.splits sum.splits)

lemma blocking_checks_pass:
  assumes "rows_ok snap"
  shows "(\<forall>spec \<in> set integrity_specs. is_Severity spec = SeverityBlocking \<longrightarrow>
        (\<forall>r \<in> set (integrity_runCheck e snap spec). ir_Passed r)) \<longleftrightarrow> proposal_sound e snap"
proof -
  have k: "distinct (map ps_ID (it_SourceStates snap))" "distinct (map ov_ID (it_ProposedObjects snap))"
    "inj_on br_ID (set (it_BaseBlobRefs snap) \<union> set (it_ProposedBlobRefs snap))"
    using assms by (auto simp: rows_ok_def)
  have "(\<forall>spec \<in> set integrity_specs. is_Severity spec = SeverityBlocking \<longrightarrow> Q spec)
      \<longleftrightarrow> (\<forall>spec \<in> {s \<in> set integrity_specs. is_Severity s = SeverityBlocking}. Q spec)" for Q
    by blast
  then have "(\<forall>spec \<in> set integrity_specs. is_Severity spec = SeverityBlocking \<longrightarrow>
        (\<forall>r \<in> set (integrity_runCheck e snap spec). ir_Passed r))
    \<longleftrightarrow> (\<forall>ov \<in> set (it_ProposedObjects snap). ir_Passed (checkSchemaRegistered e (spec_of CheckSchemaRegistered) ov)
          \<and> ir_Passed (checkSchemaConforms e (spec_of CheckSchemaPayloadConforms) snap ov)
          \<and> ir_Passed (checkRightsPolicyResolves (spec_of CheckRightsPolicyResolves) snap ov)
          \<and> ir_Passed (checkBlobRefs e (spec_of CheckBlobRefsResolve) snap ov))
      \<and> ir_Passed (checkBaseOnTargetChain (spec_of CheckBaseOnTargetChain) snap)
      \<and> ir_Passed (checkProposedOnSourceChain (spec_of CheckProposedOnSourceChain) snap)
      \<and> ir_Passed (checkSourceChainUnbroken (spec_of CheckSourceChainUnbroken) snap)
      \<and> ir_Passed (integrity_checkCommitLinkage (spec_of CheckSourceCommitLinkage) snap)
      \<and> (\<forall>rv \<in> set (it_ProposedRelations snap). ir_Passed (checkRelationTypeKnown (spec_of CheckRelationTypeKnown) rv)
          \<and> ir_Passed (checkRelationEndpoints (spec_of CheckRelationEndpointsInProposal) snap rv)
          \<and> ir_Passed (checkRelationEndpointTypes (spec_of CheckRelationEndpointTypesValid) snap rv))
      \<and> (\<forall>r \<in> set (checkVisibilityChanges (spec_of CheckVisibilityChangeFlagged) snap). ir_Passed r)"
    unfolding blocking_specs by (simp add: integrity_runCheck_def spec_of_Check) blast
  also have "\<dots> \<longleftrightarrow> proposal_sound e snap"
    unfolding simple_checks_iff source_chain_iff [OF k(1)] linkage_iff [OF k(1)] endpoints_iff [OF k(2)]
      visibility_iff [OF assms] blobs_iff [OF k(3)] proposal_sound_def
    by blast
  finally show ?thesis .
qed

lemma canonical_order:
  assumes "mset (it_SourceStates s) = mset (it_SourceStates t)" and "mset (it_TargetStates s) = mset (it_TargetStates t)"
    and "mset (it_SourceCommits s) = mset (it_SourceCommits t)"
    and "mset (it_BaseObjects s) = mset (it_BaseObjects t)" and "mset (it_ProposedObjects s) = mset (it_ProposedObjects t)"
    and "mset (it_BaseRelations s) = mset (it_BaseRelations t)"
    and "mset (it_ProposedRelations s) = mset (it_ProposedRelations t)"
    and "mset (it_BaseBlobRefs s) = mset (it_BaseBlobRefs t)" and "mset (it_ProposedBlobRefs s) = mset (it_ProposedBlobRefs t)"
    and "mset (it_PolicyVersions s) = mset (it_PolicyVersions t)"
    and "inj_on ps_ID (set (it_SourceStates s))" and "inj_on ps_ID (set (it_TargetStates s))"
    and "inj_on cm_ID (set (it_SourceCommits s))"
    and "inj_on objectKey (set (it_BaseObjects s))" and "inj_on objectKey (set (it_ProposedObjects s))"
    and "inj_on relationKey (set (it_BaseRelations s))" and "inj_on relationKey (set (it_ProposedRelations s))"
    and "inj_on br_ID (set (it_BaseBlobRefs s))" and "inj_on br_ID (set (it_ProposedBlobRefs s))"
    and "it_ProjectID s = it_ProjectID t" and "it_PRNumber s = it_PRNumber t" and "it_Base s = it_Base t"
    and "it_Proposed s = it_Proposed t" and "it_TargetBoundaries s = it_TargetBoundaries t"
    and "it_SourceBoundaries s = it_SourceBoundaries t"
  shows "canonical_snapshot s = canonical_snapshot t"
proof -
  note r = sort_key_eq_sort_key
  show ?thesis
    unfolding canonical_snapshot_def using assms(20-25)
      r [OF assms(1,11)] r [OF assms(2,12)] r [OF assms(3,13)] r [OF assms(4,14)] r [OF assms(5,15)]
      r [OF assms(6,16)] r [OF assms(7,17)] r [OF assms(8,18)] r [OF assms(9,19)]
      r [OF assms(10), of "\<lambda>x. x"] inj_on_id [unfolded id_def]
    by (simp add: inj_on_def)
qed

section \<open>Properties\<close>

text \<open>C13: The integrity verdict means what the review says it means.  For rows with the keys the database
  enforces, a report blocks nothing exactly when the proposal is sound: every proposed version has
  a registered schema its document satisfies, a policy pin that resolves and blob references that
  are known; the pinned states lie on their own side's chain; the source chain is linear and roots in
  a boundary of the source; commits and states agree, as a multiset of edges; every edge is one the
  catalog allows between proposed versions; and no object's effective policy pin differs between the
  two lineages.  The last clause admits no confirmation: a proposal that changes a pin is blocked for
  good.\<close>

theorem integrity_verdict:
  assumes "rows_ok snap"
  shows "\<not> integrity_Blocked (integrity_Check e snap) \<longleftrightarrow> proposal_sound e snap"
  unfolding Check_Blocked blocking_checks_pass [OF assms [folded rows_ok_canonical [of snap]]] sound_canonical ..

definition sample_ov :: "int \<Rightarrow> string option \<Rightarrow> ObjectVersion" where
  "sample_ov n pin = (sample_row ''o'' n [TLBrace, TRBrace])\<lparr>ov_VisibilityPolicyID := pin\<rparr>"

definition sample_proposal :: "ObjectVersion list \<Rightarrow> ObjectVersion list \<Rightarrow> integrity_Snapshot" where
  "sample_proposal base proposed = \<lparr>it_ProjectID = ''p'', it_PRNumber = 1, it_Base = ''s0'', it_Proposed = ''s2'',
     it_TargetStates = [], it_SourceStates = [sample_state_row ''s1'' (Some ''s0''), sample_state_row ''s2'' (Some ''s1'')],
     it_SourceCommits = [sample_commit, sample_commit\<lparr>cm_BaseStateID := Some ''s0'', cm_ResultStateID := ''s1''\<rparr>],
     it_TargetBoundaries = [''s0''], it_SourceBoundaries = [''s0''],
     it_BaseObjects = base, it_ProposedObjects = proposed, it_BaseRelations = [], it_ProposedRelations = [],
     it_BaseBlobRefs = [], it_ProposedBlobRefs = [], it_PolicyVersions = [''q'']\<rparr>"

theorem integrity_verdict_witness:
  "\<not> integrity_Blocked (integrity_Check sample_validator (sample_proposal [] []))
   \<and> integrity_Blocked (integrity_Check sample_validator (sample_proposal [sample_ov 1 None] [sample_ov 2 (Some ''q'')]))"
proof
  have r: "rows_ok (sample_proposal [] [])"
    by (simp add: rows_ok_def sample_proposal_def sample_state_row_def)
  have c: "rooted_chain {''s0''} {sample_state_row ''s1'' (Some ''s0''), sample_state_row ''s2'' (Some ''s1'')}
      [sample_state_row ''s2'' (Some ''s1''), sample_state_row ''s1'' (Some ''s0'')]"
    by (simp add: rooted_chain_def sample_state_row_def)
  have "proposal_sound sample_validator (sample_proposal [] [])"
    unfolding proposal_sound_def
  proof (intro conjI)
    show "it_SourceStates (sample_proposal [] []) = [] \<or> (\<exists>ps. rooted_chain (set (it_SourceBoundaries (sample_proposal [] [])))
        (set (it_SourceStates (sample_proposal [] []))) ps \<and> set ps = set (it_SourceStates (sample_proposal [] [])))"
      using c by (intro disjI2 exI conjI) (simp add: sample_proposal_def, simp add: sample_proposal_def insert_commute)
  qed (simp_all add: sample_proposal_def head_version_def sample_state_row_def sample_commit_def)
  then show "\<not> integrity_Blocked (integrity_Check sample_validator (sample_proposal [] []))"
    by (simp add: integrity_verdict [OF r])
next
  let ?s = "sample_proposal [sample_ov 1 None] [sample_ov 2 (Some ''q'')]"
  have r: "rows_ok ?s"
    by (simp add: rows_ok_def sample_proposal_def sample_state_row_def sample_ov_def sample_row_def)
  have "head_version (it_BaseObjects ?s) (sample_ov 1 None)" "head_version (it_ProposedObjects ?s) (sample_ov 2 (Some ''q''))"
    "ov_ObjectID (sample_ov 1 None) = ov_ObjectID (sample_ov 2 (Some ''q''))"
    "pinString (ov_VisibilityPolicyID (sample_ov 1 None)) \<noteq> pinString (ov_VisibilityPolicyID (sample_ov 2 (Some ''q'')))"
    by (simp_all add: head_version_def sample_proposal_def sample_ov_def sample_row_def pinString_def)
  then have "\<not> proposal_sound sample_validator ?s" unfolding proposal_sound_def by blast
  then show "integrity_Blocked (integrity_Check sample_validator ?s)" using integrity_verdict [OF r] by blast
qed

end
