(* ===== verification/Policy.thy ===== *)
theory Policy
  imports Validation
begin

text \<open>
  The policy documents of organizations and projects (internal/domain/policy.go) and the rule evaluator
  (internal/application/policy/evaluate.go): a flat set of named rules, the strictness order of each
  rule, the lower bound an organization sets for its projects, and the typed questions enforcement
  sites ask.

  A document is its list of rules with distinct keys.  Go iterates it in random order, so of several
  faults of one document any may be the one reported: the model reports the first of the list.  Values
  are JSON texts; \<open>renum\<close> reads a number literal into a \<open>float64\<close> and prints it back, as in
  theory Validation.
\<close>

section \<open>Rules and documents\<close>

definition RuleMainProtected :: string where "RuleMainProtected = ''main_protected''"
definition RuleReleaseMinReviewers :: string where "RuleReleaseMinReviewers = ''release_min_reviewers''"
definition RuleRawDataRetentionDays :: string where "RuleRawDataRetentionDays = ''raw_data_retention_days''"
definition RulePublicAssetIPReview :: string where "RulePublicAssetIPReview = ''public_asset_ip_review''"
definition RuleRequiredSchemaProfiles :: string where "RuleRequiredSchemaProfiles = ''required_schema_profiles''"

datatype RuleKind = RuleKindUnknown | RuleKindBool | RuleKindInt | RuleKindStringList

definition RuleKindOf :: "string \<Rightarrow> RuleKind" where
  "RuleKindOf key =
     (if key = RuleMainProtected \<or> key = RulePublicAssetIPReview then RuleKindBool
      else if key = RuleReleaseMinReviewers \<or> key = RuleRawDataRetentionDays then RuleKindInt
      else if key = RuleRequiredSchemaProfiles then RuleKindStringList
      else RuleKindUnknown)"

definition MaxPolicyRuleKeyLen :: nat where "MaxPolicyRuleKeyLen = 64"
definition MaxPolicyRuleCount :: nat where "MaxPolicyRuleCount = 64"

definition char_in :: "char \<Rightarrow> char \<Rightarrow> char \<Rightarrow> bool" where
  "char_in a b c \<longleftrightarrow> (of_char a :: nat) \<le> of_char c \<and> (of_char c :: nat) \<le> of_char b"

definition ValidPolicyRuleKey :: "string \<Rightarrow> bool" where
  "ValidPolicyRuleKey key \<longleftrightarrow> key \<noteq> [] \<and> \<not> length key > MaxPolicyRuleKeyLen
     \<and> list_all (\<lambda>r. char_in CHR ''a'' CHR ''z'' r \<or> char_in CHR ''0'' CHR ''9'' r \<or> r = CHR ''_'') key"

type_synonym Policy = "(string \<times> raw) list"

definition EmptyPolicy :: Policy where "EmptyPolicy = []"

definition policy_Rule :: "Policy \<Rightarrow> string \<Rightarrow> raw option" where
  "policy_Rule p key = map_of p key"

section \<open>Rule values\<close>

text \<open>\<open>json.Unmarshal\<close> into a \<open>bool\<close>, an \<open>int\<close>, a \<open>[]string\<close> and an \<open>any\<close>: a null
  leaves the zero value, also as an element of a list.\<close>

definition unmarshal_bool :: "raw \<Rightarrow> bool option" where
  "unmarshal_bool v = (case unmarshal_doc v of Some (JBool b) \<Rightarrow> Some b | Some JNull \<Rightarrow> Some False | _ \<Rightarrow> None)"

definition unmarshal_int :: "raw \<Rightarrow> int option" where
  "unmarshal_int v = (case int_field v 0 of (n, err) \<Rightarrow> if err then None else Some n)"

primrec string_elems :: "jval list \<Rightarrow> string list option" where
  "string_elems [] = Some []"
| "string_elems (x # xs) =
     Option.bind (case x of JStr s \<Rightarrow> Some s | JNull \<Rightarrow> Some [] | _ \<Rightarrow> None)
       (\<lambda>s. map_option ((#) s) (string_elems xs))"

definition unmarshal_strings :: "raw \<Rightarrow> string list option" where
  "unmarshal_strings v = (case unmarshal_doc v of Some (JArr xs) \<Rightarrow> string_elems xs | Some JNull \<Rightarrow> Some [] | _ \<Rightarrow> None)"

definition unmarshal_any :: "(string \<Rightarrow> string option) \<Rightarrow> raw \<Rightarrow> jval option" where
  "unmarshal_any renum v =
     (case unmarshal_doc v of
        Some x \<Rightarrow> if float_ok renum x then Some (float_value renum x) else None
      | None \<Rightarrow> None)"

definition parseRuleValue :: "(string \<Rightarrow> string option) \<Rightarrow> string \<Rightarrow> raw \<Rightarrow> bool" where
  "parseRuleValue renum key v \<longleftrightarrow>
     (case RuleKindOf key of
        RuleKindBool \<Rightarrow> unmarshal_bool v \<noteq> None
      | RuleKindInt \<Rightarrow> unmarshal_int v \<noteq> None
      | RuleKindStringList \<Rightarrow> unmarshal_strings v \<noteq> None
      | RuleKindUnknown \<Rightarrow> unmarshal_any renum v \<noteq> None)"

datatype policy_fault = InvalidPolicyJSON | TooManyRules | InvalidRuleKey string | NullRule string | InvalidRuleValue string

definition rule_fault :: "(string \<Rightarrow> string option) \<Rightarrow> string \<times> raw \<Rightarrow> policy_fault option" where
  "rule_fault renum kv =
     (case kv of (key, v) \<Rightarrow>
        if \<not> ValidPolicyRuleKey key then Some (InvalidRuleKey key)
        else if v = [] \<or> v = [TNull] then Some (NullRule key)
        else if \<not> parseRuleValue renum key v then Some (InvalidRuleValue key) else None)"

definition policy_Validate :: "(string \<Rightarrow> string option) \<Rightarrow> Policy \<Rightarrow> policy_fault option" where
  "policy_Validate renum p =
     (if length p > MaxPolicyRuleCount then Some TooManyRules
      else case List.map_filter (rule_fault renum) p of [] \<Rightarrow> None | e # _ \<Rightarrow> Some e)"

definition PolicyFromJSON :: "(string \<Rightarrow> string option) \<Rightarrow> raw \<Rightarrow> policy_fault + Policy" where
  "PolicyFromJSON renum data =
     (case unmarshal_object data of
        Inl _ \<Rightarrow> Inl InvalidPolicyJSON
      | Inr rules \<Rightarrow>
          (let p = (case rules of None \<Rightarrow> [] | Some kvs \<Rightarrow> kvs) in
           case policy_Validate renum p of Some e \<Rightarrow> Inl e | None \<Rightarrow> Inr p))"

text \<open>\<open>MarshalJSON\<close>: \<open>None\<close> is the error for a null value, on which \<open>mustPolicyJSON\<close> panics.\<close>

definition object_text :: "(string \<times> raw) list \<Rightarrow> raw" where
  "object_text kvs = TLBrace # join_toks (map (\<lambda>(k, v). TStr k # TColon # v) kvs) @ [TRBrace]"

definition policy_MarshalJSON :: "Policy \<Rightarrow> raw option" where
  "policy_MarshalJSON p =
     (let kvs = sort_key fst p in
      if list_ex (\<lambda>(k, v). v = [TNull]) kvs then None else Some (object_text kvs))"

section \<open>Strictness\<close>

datatype Strictness = StrictnessIncomparable | StrictnessWeaker | StrictnessEqual | StrictnessStricter

definition setContainsAll :: "string list \<Rightarrow> string list \<Rightarrow> bool" where
  "setContainsAll superset sub \<longleftrightarrow> list_all (\<lambda>s. s \<in> set superset) sub"

definition jsonEqual :: "(string \<Rightarrow> string option) \<Rightarrow> raw \<Rightarrow> raw \<Rightarrow> bool" where
  "jsonEqual renum a b =
     (case (unmarshal_any renum a, unmarshal_any renum b) of
        (Some av, Some bv) \<Rightarrow> marshal av = marshal bv
      | _ \<Rightarrow> False)"

definition CompareRule :: "(string \<Rightarrow> string option) \<Rightarrow> string \<Rightarrow> raw \<Rightarrow> raw \<Rightarrow> Strictness option" where
  "CompareRule renum key baseline candidate =
     (case RuleKindOf key of
        RuleKindBool \<Rightarrow>
          Option.bind (unmarshal_bool baseline) (\<lambda>b. Option.bind (unmarshal_bool candidate) (\<lambda>c.
            Some (if c = b then StrictnessEqual else if c then StrictnessStricter else StrictnessWeaker)))
      | RuleKindInt \<Rightarrow>
          Option.bind (unmarshal_int baseline) (\<lambda>b. Option.bind (unmarshal_int candidate) (\<lambda>c.
            Some (if c = b then StrictnessEqual else if c > b then StrictnessStricter else StrictnessWeaker)))
      | RuleKindStringList \<Rightarrow>
          Option.bind (unmarshal_strings baseline) (\<lambda>b. Option.bind (unmarshal_strings candidate) (\<lambda>c.
            let bSet = remdups b; cSet = remdups c in
            Some (if length bSet = length cSet \<and> setContainsAll bSet cSet then StrictnessEqual
                  else if setContainsAll cSet bSet then StrictnessStricter
                  else if setContainsAll bSet cSet then StrictnessWeaker
                  else StrictnessIncomparable)))
      | RuleKindUnknown \<Rightarrow>
          Some (if jsonEqual renum baseline candidate then StrictnessEqual else StrictnessIncomparable))"

section \<open>The lower bound of an organization\<close>

record PolicyViolation =
  pn_Key :: string
  pn_OrgValue :: raw
  pn_ProjectValue :: raw
  pn_Relation :: Strictness

definition rule_violation :: "(string \<Rightarrow> string option) \<Rightarrow> Policy \<Rightarrow> string \<times> raw \<Rightarrow> PolicyViolation option" where
  "rule_violation renum org kv =
     (case kv of (key, pv) \<Rightarrow>
        (case policy_Rule org key of
           None \<Rightarrow> None
         | Some ov \<Rightarrow>
             (let rel = (case CompareRule renum key ov pv of None \<Rightarrow> StrictnessIncomparable | Some r \<Rightarrow> r) in
              if rel = StrictnessWeaker \<or> rel = StrictnessIncomparable
              then Some \<lparr>pn_Key = key, pn_OrgValue = ov, pn_ProjectValue = pv, pn_Relation = rel\<rparr> else None)))"

text \<open>The empty list is the nil error.\<close>

definition ValidateProjectPolicy :: "(string \<Rightarrow> string option) \<Rightarrow> Policy \<Rightarrow> Policy \<Rightarrow> PolicyViolation list" where
  "ValidateProjectPolicy renum org project = sort_key pn_Key (List.map_filter (rule_violation renum org) project)"

definition MergeEffective :: "(string \<Rightarrow> string option) \<Rightarrow> Policy \<Rightarrow> Policy \<Rightarrow> Policy" where
  "MergeEffective renum org project =
     map (\<lambda>(key, ov). case policy_Rule project key of
            None \<Rightarrow> (key, ov)
          | Some pv \<Rightarrow>
              (key, if CompareRule renum key ov pv \<in> {Some StrictnessStricter, Some StrictnessEqual} then pv else ov)) org
     @ filter (\<lambda>(key, pv). policy_Rule org key = None) project"

definition ValidPolicyVersion :: "string \<Rightarrow> bool" where
  "ValidPolicyVersion version \<longleftrightarrow>
     (let v = TrimSpace version in
      v \<noteq> [] \<and> \<not> length v > 64
      \<and> list_all (\<lambda>r. char_in CHR ''a'' CHR ''z'' r \<or> char_in CHR ''A'' CHR ''Z'' r \<or> char_in CHR ''0'' CHR ''9'' r
          \<or> r = CHR ''.'' \<or> r = CHR ''_'' \<or> r = CHR ''-'') v)"

section \<open>Typed questions\<close>

record PolicyDecision =
  pd_Found :: bool
  pd_Bool :: bool
  pd_Int :: int
  pd_List :: "string list"
  pd_Raw :: raw

definition no_decision :: PolicyDecision where
  "no_decision = \<lparr>pd_Found = False, pd_Bool = False, pd_Int = 0, pd_List = [], pd_Raw = []\<rparr>"

datatype evaluate_error = ErrUnknownRule string | EvaluateErrValidation string

definition Evaluate :: "Policy \<Rightarrow> string \<Rightarrow> evaluate_error + PolicyDecision" where
  "Evaluate p rule =
     (if RuleKindOf rule = RuleKindUnknown then Inl (ErrUnknownRule rule)
      else case policy_Rule p rule of
             None \<Rightarrow> Inr no_decision
           | Some v \<Rightarrow>
               (case RuleKindOf rule of
                  RuleKindBool \<Rightarrow>
                    (case unmarshal_bool v of None \<Rightarrow> Inl (EvaluateErrValidation rule)
                     | Some b \<Rightarrow> Inr (no_decision\<lparr>pd_Found := True, pd_Bool := b, pd_Raw := v\<rparr>))
                | RuleKindInt \<Rightarrow>
                    (case unmarshal_int v of None \<Rightarrow> Inl (EvaluateErrValidation rule)
                     | Some n \<Rightarrow> Inr (no_decision\<lparr>pd_Found := True, pd_Int := n, pd_Raw := v\<rparr>))
                | RuleKindStringList \<Rightarrow>
                    (case unmarshal_strings v of None \<Rightarrow> Inl (EvaluateErrValidation rule)
                     | Some xs \<Rightarrow> Inr (no_decision\<lparr>pd_Found := True, pd_List := xs, pd_Raw := v\<rparr>))
                | RuleKindUnknown \<Rightarrow> Inl (ErrUnknownRule rule)))"

section \<open>Documents\<close>

definition valid_policy :: "(string \<Rightarrow> string option) \<Rightarrow> Policy \<Rightarrow> bool" where
  "valid_policy renum p \<longleftrightarrow> distinct (map fst p) \<and> policy_Validate renum p = None"

lemma policy_Validate_None:
  "policy_Validate renum p = None \<longleftrightarrow> length p \<le> MaxPolicyRuleCount \<and> (\<forall>kv \<in> set p. rule_fault renum kv = None)"
  by (auto simp: policy_Validate_def map_filter_Nil_iff [symmetric] split: list.splits)

lemma valid_rule:
  assumes "valid_policy renum p" and "policy_Rule p k = Some v"
  shows "parseRuleValue renum k v" and "v \<noteq> [TNull]" and "ValidPolicyRuleKey k"
proof -
  have "(k, v) \<in> set p" using assms(2) by (simp add: policy_Rule_def map_of_SomeD)
  then have "rule_fault renum (k, v) = None" using assms(1) by (auto simp: valid_policy_def policy_Validate_None)
  then show "parseRuleValue renum k v" and "v \<noteq> [TNull]" and "ValidPolicyRuleKey k"
    by (auto simp: rule_fault_def split: if_splits)
qed

lemma parseRuleValue_doc: "parseRuleValue renum k v \<Longrightarrow> unmarshal_doc v \<noteq> None"
  by (auto simp: parseRuleValue_def unmarshal_bool_def unmarshal_int_def int_field_def unmarshal_strings_def unmarshal_any_def
      split: RuleKind.splits option.splits)

lemma unmarshal_object_distinct: "unmarshal_object d = Inr (Some kvs) \<Longrightarrow> distinct (map fst kvs)"
  by (auto simp: unmarshal_object_def distinct_mkobj split: option.splits jval.splits if_splits)

lemma PolicyFromJSON_valid: "PolicyFromJSON renum d = Inr p \<Longrightarrow> valid_policy renum p"
  by (auto simp: PolicyFromJSON_def Let_def valid_policy_def dest: unmarshal_object_distinct split: sum.splits option.splits)

text \<open>The text of an object whose member values are single JSON values.\<close>

abbreviation members_text :: "(string \<times> raw) list \<Rightarrow> raw" where
  "members_text kvs \<equiv> join_toks (map (\<lambda>(k, v). TStr k # TColon # v) kvs)"

definition single_values :: "(string \<times> raw) list \<Rightarrow> bool" where
  "single_values kvs \<longleftrightarrow> (\<forall>(k, v) \<in> set kvs. unmarshal_doc v \<noteq> None)"

lemma unmarshal_doc_decode: "unmarshal_doc v = Some x \<longleftrightarrow> decode v = Some (x, [])"
  by (auto simp: unmarshal_doc_def split: option.splits list.splits)

lemma parse_single:
  assumes "unmarshal_doc v = Some x" and "2 * length v < n"
  shows "parse_value n (v @ rest) = Some (x, rest)"
  using parse_append(1) [of n v x "[]" rest] parse_value_enough [OF assms(2)] assms(1) by (simp add: unmarshal_doc_decode)

lemma parse_members_text:
  assumes "single_values kvs" and "kvs \<noteq> []" and "2 * length (members_text kvs) < n"
  shows "parse_members n (members_text kvs @ TRBrace # rest) = Some (map (\<lambda>(k, v). (k, the (unmarshal_doc v))) kvs, rest)"
  using assms
proof (induction kvs arbitrary: n)
  case (Cons q kvs)
  obtain k v where q: "q = (k, v)" by (cases q)
  obtain x where x: "unmarshal_doc v = Some x" using Cons.prems(1) q by (auto simp: single_values_def)
  obtain m where n: "n = Suc m" using Cons.prems(3) by (cases n) auto
  show ?case
  proof (cases kvs)
    case Nil
    have "parse_value m (v @ TRBrace # rest) = Some (x, TRBrace # rest)"
      using Cons.prems(3) n q Nil by (intro parse_single [OF x]) simp
    with Nil q x n show ?thesis by simp
  next
    case (Cons w ws)
    have m: "members_text (q # kvs) = TStr k # TColon # v @ TComma # members_text kvs" using Cons q by simp
    let ?r = "members_text kvs @ TRBrace # rest"
    have l: "2 * length v < m" "2 * length (members_text kvs) < m"
      using Cons.prems(3) [unfolded m n] by simp_all
    have "parse_value m (v @ TComma # ?r) = Some (x, TComma # ?r)" by (rule parse_single [OF x l(1)])
    moreover have "parse_members m ?r = Some (map (\<lambda>(k, v). (k, the (unmarshal_doc v))) kvs, rest)"
      using Cons.prems(1) Cons l(2) by (intro Cons.IH) (auto simp: single_values_def)
    ultimately show ?thesis unfolding m n using x q by simp
  qed
qed simp

lemma raw_members_text:
  assumes "single_values kvs" and "kvs \<noteq> []" and "length kvs \<le> n"
  shows "raw_members n (members_text kvs @ TRBrace # rest) = kvs"
  using assms
proof (induction kvs arbitrary: n)
  case (Cons q kvs)
  obtain k v where q: "q = (k, v)" by (cases q)
  obtain x where x: "decode v = Some (x, [])" using Cons.prems(1) q by (auto simp: single_values_def unmarshal_doc_decode)
  obtain m where n: "n = Suc m" using Cons.prems(3) by (cases n) auto
  have d: "decode (v @ s) = Some (x, s)" for s using decode_append [OF x, of s] by simp
  show ?case
  proof (cases kvs)
    case Nil
    then show ?thesis by (simp add: q n d)
  next
    case (Cons w ws)
    have "members_text (q # kvs) = TStr k # TColon # v @ TComma # members_text kvs" using Cons q by simp
    moreover have "raw_members m (members_text kvs @ TRBrace # rest) = kvs"
      using Cons.prems Cons n by (intro Cons.IH) (auto simp: single_values_def)
    ultimately show ?thesis by (simp add: q n d)
  qed
qed simp

lemma length_members_text: "length kvs \<le> length (members_text kvs)"
  using length_join_toks [of "map (\<lambda>(k, v). TStr k # TColon # v) kvs"] by (simp add: split_def)

lemma unmarshal_object_text:
  assumes "single_values kvs" and "distinct (map fst kvs)"
  shows "unmarshal_object (object_text kvs) = Inr (Some kvs)"
proof (cases "kvs = []")
  case True
  have "unmarshal_doc [TLBrace, TRBrace] = Some (JObj [])" by code_simp
  then show ?thesis using True by (simp add: unmarshal_object_def object_text_def)
next
  case False
  let ?vs = "map (\<lambda>(k, v). (k, the (unmarshal_doc v))) kvs"
  have p: "parse_members n (members_text kvs @ [TRBrace]) = Some (?vs, [])" if "2 * length (members_text kvs) < n" for n
    using parse_members_text [OF assms(1) False that, of "[]"] by simp
  have "\<not> starts TRBrace (members_text kvs @ [TRBrace])" using False by (cases kvs; cases "tl kvs") (auto split: prod.splits)
  then have "decode (object_text kvs) = Some (JObj (mkobj ?vs), [])"
    using p [of "2 * length (object_text kvs)"]
    by (simp add: decode_def object_text_def del: parse_members.simps)
  moreover have "mkobj ?vs = ?vs" using assms(2) by (intro mkobj_distinct) (simp add: comp_def split_def)
  ultimately have "unmarshal_doc (object_text kvs) = Some (JObj ?vs)" by (simp add: unmarshal_doc_decode)
  moreover have "raw_members (length (object_text kvs)) (members_text kvs @ [TRBrace]) = kvs"
    using length_members_text [of kvs] by (intro raw_members_text [OF assms(1) False]) (simp add: object_text_def)
  ultimately show ?thesis using False assms(2) by (simp add: unmarshal_object_def object_text_def mkobj_distinct)
qed

lemma valid_single_values: "valid_policy renum p \<Longrightarrow> single_values p"
  using valid_rule(1) [THEN parseRuleValue_doc]
  by (fastforce simp: single_values_def policy_Rule_def valid_policy_def)

lemma valid_policy_perm:
  assumes "mset q = mset p" and "valid_policy renum p"
  shows "valid_policy renum q"
proof -
  have "distinct (map fst q) \<longleftrightarrow> distinct (map fst p)"
    by (rule mset_eq_imp_distinct_iff) (simp add: assms(1))
  moreover have "set q = set p" "length q = length p"
    using assms(1) by (auto dest: mset_eq_setD mset_eq_length)
  ultimately show ?thesis using assms(2) by (simp add: valid_policy_def policy_Validate_None)
qed

text \<open>A stored document reads back as it was written.  Every document the parser accepts can be
  rendered, whatever order its rules are iterated in gives the same text, and parsing that text gives the
  same rules with the same value texts.  The panic of the store on a document that does not render is
  out of reach.\<close>

theorem policy_roundtrip:
  assumes "PolicyFromJSON renum d = Inr p"
  shows "\<exists>t. (\<forall>q. mset q = mset p \<longrightarrow> policy_MarshalJSON q = Some t)
    \<and> PolicyFromJSON renum t = Inr (sort_key fst p) \<and> policy_Rule (sort_key fst p) = policy_Rule p"
proof -
  note v = PolicyFromJSON_valid [OF assms]
  have d: "distinct (map fst p)" using v by (simp add: valid_policy_def)
  let ?p = "sort_key fst p"
  have vp: "valid_policy renum ?p" by (rule valid_policy_perm [OF _ v]) simp
  have dp: "distinct (map fst ?p)" using vp by (simp add: valid_policy_def)
  have nn: "\<not> list_ex (\<lambda>(k, v). v = [TNull]) p"
    using valid_rule(2) [OF v] d by (auto simp: list_ex_iff policy_Rule_def)
  have "policy_MarshalJSON q = Some (object_text ?p)" if q: "mset q = mset p" for q
  proof -
    have "sort_key fst q = ?p"
      by (rule sort_key_eq_sort_key) (use q d in \<open>auto simp: distinct_map dest: mset_eq_setD\<close>)
    then show ?thesis using nn by (simp add: policy_MarshalJSON_def list_ex_iff)
  qed
  moreover have "PolicyFromJSON renum (object_text ?p) = Inr ?p"
    using unmarshal_object_text [OF valid_single_values [OF vp] dp] vp by (simp add: PolicyFromJSON_def valid_policy_def)
  moreover have "policy_Rule ?p = policy_Rule p"
    using map_of_inject_set [OF dp d] by (simp add: policy_Rule_def fun_eq_iff)
  ultimately show ?thesis by blast
qed

section \<open>The strictness order\<close>

text \<open>What it means that one value of a rule asks at least as much as another.\<close>

definition at_least :: "(string \<Rightarrow> string option) \<Rightarrow> string \<Rightarrow> raw \<Rightarrow> raw \<Rightarrow> bool" where
  "at_least renum key baseline candidate \<longleftrightarrow>
     (case RuleKindOf key of
        RuleKindBool \<Rightarrow> \<exists>b c. unmarshal_bool baseline = Some b \<and> unmarshal_bool candidate = Some c \<and> (b \<longrightarrow> c)
      | RuleKindInt \<Rightarrow> \<exists>b c. unmarshal_int baseline = Some b \<and> unmarshal_int candidate = Some c \<and> b \<le> c
      | RuleKindStringList \<Rightarrow> \<exists>b c. unmarshal_strings baseline = Some b \<and> unmarshal_strings candidate = Some c \<and> set b \<subseteq> set c
      | RuleKindUnknown \<Rightarrow> jsonEqual renum baseline candidate)"

lemma setContainsAll_iff [simp]: "setContainsAll xs ys \<longleftrightarrow> set ys \<subseteq> set xs"
  by (auto simp: setContainsAll_def list_all_iff)

lemma string_sets_equal: "length (remdups b) = length (remdups c) \<and> set c \<subseteq> set b \<longleftrightarrow> set b = set c"
  using card_subset_eq [of "set b" "set c"] by (auto simp: length_remdups_card_conv)

lemma CompareRule_at_least:
  "CompareRule renum k b c \<in> {Some StrictnessStricter, Some StrictnessEqual} \<longleftrightarrow> at_least renum k b c"
  by (cases "RuleKindOf k") (auto simp: CompareRule_def at_least_def Let_def string_sets_equal split: Option.bind_splits)

lemma CompareRule_Equal:
  "CompareRule renum k b c = Some StrictnessEqual \<longleftrightarrow> at_least renum k b c \<and> at_least renum k c b"
  by (cases "RuleKindOf k")
    (auto simp: CompareRule_def at_least_def Let_def string_sets_equal jsonEqual_def split: Option.bind_splits option.splits)

lemma CompareRule_Weaker:
  "CompareRule renum k b c = Some StrictnessWeaker \<longleftrightarrow> at_least renum k c b \<and> \<not> at_least renum k b c"
  by (cases "RuleKindOf k")
    (auto simp: CompareRule_def at_least_def Let_def string_sets_equal jsonEqual_def split: Option.bind_splits option.splits)

lemma at_least_trans: "at_least renum k a b \<Longrightarrow> at_least renum k b c \<Longrightarrow> at_least renum k a c"
  by (auto simp: at_least_def jsonEqual_def split: RuleKind.splits option.splits)

lemma at_least_refl: "parseRuleValue renum k v \<Longrightarrow> at_least renum k v v"
  by (auto simp: at_least_def parseRuleValue_def jsonEqual_def split: RuleKind.splits option.splits)

lemma CompareRule_Incomparable:
  "CompareRule renum k b c = Some StrictnessIncomparable
     \<longleftrightarrow> \<not> at_least renum k b c \<and> \<not> at_least renum k c b
       \<and> (RuleKindOf k = RuleKindUnknown \<or> parseRuleValue renum k b \<and> parseRuleValue renum k c)"
  by (cases "RuleKindOf k")
    (auto simp: CompareRule_def at_least_def parseRuleValue_def Let_def string_sets_equal jsonEqual_def
      split: Option.bind_splits option.splits)

text \<open>The strictness of rule values is an order.  Stricter and weaker are each other's converse,
  equality and incomparability are symmetric, at least as strict is transitive, and a value compares as
  equal to itself exactly when it is a value a document may store under that key.\<close>

theorem strictness_order:
  "(CompareRule renum k a b = Some StrictnessStricter \<longleftrightarrow> CompareRule renum k b a = Some StrictnessWeaker)
   \<and> (CompareRule renum k a b = Some StrictnessEqual \<longleftrightarrow> CompareRule renum k b a = Some StrictnessEqual)
   \<and> (CompareRule renum k a b = Some StrictnessIncomparable \<longleftrightarrow> CompareRule renum k b a = Some StrictnessIncomparable)
   \<and> (CompareRule renum k a a = Some StrictnessEqual \<longleftrightarrow> parseRuleValue renum k a)
   \<and> transp (\<lambda>b c. CompareRule renum k b c \<in> {Some StrictnessStricter, Some StrictnessEqual})"
proof -
  have "CompareRule renum k a b = Some StrictnessStricter \<longleftrightarrow> at_least renum k a b \<and> \<not> at_least renum k b a"
    using CompareRule_at_least [of renum k a b] CompareRule_Equal [of renum k a b] by auto
  moreover have "at_least renum k a a \<Longrightarrow> parseRuleValue renum k a"
    by (auto simp: at_least_def parseRuleValue_def jsonEqual_def split: RuleKind.splits option.splits)
  ultimately show ?thesis
    unfolding CompareRule_at_least using at_least_trans at_least_refl
    by (auto simp: CompareRule_Equal CompareRule_Weaker CompareRule_Incomparable transp_def)
qed

section \<open>The effective policy\<close>

lemma map_of_keyed: "map_of (map (\<lambda>(k, v). (k, f k v)) xs) key = map_option (f key) (map_of xs key)"
  by (induction xs) auto

lemma rule_MergeEffective:
  assumes "distinct (map fst org)" and "distinct (map fst project)"
  shows "policy_Rule (MergeEffective renum org project) k =
    (case policy_Rule org k of
       None \<Rightarrow> policy_Rule project k
     | Some ov \<Rightarrow> (case policy_Rule project k of
         None \<Rightarrow> Some ov | Some pv \<Rightarrow> Some (if at_least renum k ov pv then pv else ov)))"
proof -
  let ?f = "\<lambda>key ov. case policy_Rule project key of None \<Rightarrow> ov | Some pv \<Rightarrow> if at_least renum key ov pv then pv else ov"
  have "MergeEffective renum org project = map (\<lambda>(key, ov). (key, ?f key ov)) org
      @ filter (\<lambda>(key, pv). policy_Rule org key = None) project"
    unfolding MergeEffective_def CompareRule_at_least by (auto split: option.splits)
  moreover have "map_of (map (\<lambda>(key, ov). (key, ?f key ov)) org) k = map_option (?f k) (map_of org k)"
    by (rule map_of_keyed)
  moreover have "map_of (filter (\<lambda>(key, pv). policy_Rule org key = None) project) k
      = (if policy_Rule org k = None then map_of project k else None)"
    by (induction project) auto
  ultimately show ?thesis by (auto simp: policy_Rule_def map_add_def split: option.splits)
qed


text \<open>C22: The refusal names what would not take effect.  For stored documents the violations of a
  project document against an organization are, in key order and once each, exactly the rules whose
  project value the effective policy would ignore.  An accepted document is in force as written.\<close>

theorem violations_are_ineffective_rules:
  assumes "valid_policy renum org" and "valid_policy renum project"
  shows "set (map pn_Key (ValidateProjectPolicy renum org project))
      = {k. policy_Rule project k \<noteq> None \<and> policy_Rule (MergeEffective renum org project) k \<noteq> policy_Rule project k}
    \<and> sorted (map pn_Key (ValidateProjectPolicy renum org project)) \<and> distinct (map pn_Key (ValidateProjectPolicy renum org project))"
proof -
  have d: "distinct (map fst org)" "distinct (map fst project)" using assms by (auto simp: valid_policy_def)
  have viol: "rule_violation renum org (k, pv) = None \<longleftrightarrow> (\<forall>ov. policy_Rule org k = Some ov \<longrightarrow> at_least renum k ov pv)"
    if "parseRuleValue renum k pv" for k pv
  proof (cases "policy_Rule org k")
    case (Some ov)
    have "rule_violation renum org (k, pv) = None \<longleftrightarrow> CompareRule renum k ov pv \<in> {Some StrictnessStricter, Some StrictnessEqual}"
      using Some by (cases "CompareRule renum k ov pv"; cases "the (CompareRule renum k ov pv)")
        (auto simp: rule_violation_def Let_def)
    then show ?thesis using Some unfolding CompareRule_at_least by simp
  qed (simp add: rule_violation_def)
  have key: "rule_violation renum org (k, pv) = Some x \<Longrightarrow> pn_Key x = k" for k pv x
    by (auto simp: rule_violation_def Let_def split: option.splits if_splits)
  have keys: "map pn_Key (List.map_filter (rule_violation renum org) xs)
      = map fst (filter (\<lambda>kv. rule_violation renum org kv \<noteq> None) xs)" for xs
    by (induction xs) (auto simp: List.map_filter_simps key split: option.splits)
  have "k \<in> set (map pn_Key (ValidateProjectPolicy renum org project)) \<longleftrightarrow>
      policy_Rule project k \<noteq> None \<and> policy_Rule (MergeEffective renum org project) k \<noteq> policy_Rule project k" for k
  proof -
    have "set (map pn_Key (ValidateProjectPolicy renum org project)) = set (map fst (filter (\<lambda>kv. rule_violation renum org kv \<noteq> None) project))"
      unfolding keys [symmetric] by (simp add: ValidateProjectPolicy_def)
    then have "k \<in> set (map pn_Key (ValidateProjectPolicy renum org project))
        \<longleftrightarrow> (\<exists>pv. policy_Rule project k = Some pv \<and> rule_violation renum org (k, pv) \<noteq> None)"
      using map_of_eq_Some_iff [OF d(2)] by (simp add: policy_Rule_def image_iff Bex_def split_paired_Ex)
    also have "\<dots> \<longleftrightarrow> (\<exists>pv ov. policy_Rule project k = Some pv \<and> policy_Rule org k = Some ov \<and> \<not> at_least renum k ov pv)"
    proof (rule ex_cong1)
      fix pv
      show "policy_Rule project k = Some pv \<and> rule_violation renum org (k, pv) \<noteq> None
          \<longleftrightarrow> (\<exists>ov. policy_Rule project k = Some pv \<and> policy_Rule org k = Some ov \<and> \<not> at_least renum k ov pv)"
        using viol [of k pv] valid_rule(1) [OF assms(2), of k pv] by (cases "policy_Rule project k = Some pv") auto
    qed
    also have "\<dots> \<longleftrightarrow> policy_Rule project k \<noteq> None \<and> policy_Rule (MergeEffective renum org project) k \<noteq> policy_Rule project k"
    proof (cases "policy_Rule project k")
      case (Some pv)
      have "at_least renum k pv pv" by (rule at_least_refl [OF valid_rule(1) [OF assms(2) Some]])
      then show ?thesis using Some by (cases "policy_Rule org k") (auto simp: rule_MergeEffective [OF d])
    qed simp
    finally show ?thesis .
  qed
  moreover have "distinct (map pn_Key (ValidateProjectPolicy renum org project))"
  proof -
    have "distinct (map pn_Key (List.map_filter (rule_violation renum org) project))"
      unfolding keys using d(2) by (rule distinct_map_filter)
    then show ?thesis unfolding ValidateProjectPolicy_def
      by (rule iffD1 [OF mset_eq_imp_distinct_iff, rotated]) simp
  qed
  ultimately show ?thesis by (auto simp: ValidateProjectPolicy_def)
qed

text \<open>The evaluator fails closed, and only where it must.  On a stored document it answers every
  question about a registered rule, reporting the rule as found exactly when the document sets it; a
  question about any other rule is an error, also when the document sets that rule.\<close>

theorem evaluator_answers:
  assumes "PolicyFromJSON renum d = Inr p"
  shows "(RuleKindOf rule \<noteq> RuleKindUnknown \<and> (\<exists>x. Evaluate p rule = Inr x \<and> (pd_Found x \<longleftrightarrow> policy_Rule p rule \<noteq> None)))
    \<or> (RuleKindOf rule = RuleKindUnknown \<and> Evaluate p rule = Inl (ErrUnknownRule rule))"
proof (cases "policy_Rule p rule")
  case None
  then show ?thesis by (simp add: Evaluate_def no_decision_def)
next
  case (Some v)
  have "parseRuleValue renum rule v" using valid_rule(1) [OF PolicyFromJSON_valid [OF assms] Some] .
  then show ?thesis using Some
    by (cases "RuleKindOf rule") (auto simp: Evaluate_def parseRuleValue_def no_decision_def)
qed

section \<open>Witnesses\<close>

definition org_document :: raw where
  "org_document = object_text [(RuleMainProtected, [TTrue]), (RuleReleaseMinReviewers, [TNum ''2'']),
     (RuleRequiredSchemaProfiles, [TLBrack, TStr ''base'', TRBrack]), (''lab_rule'', [TStr ''x''])]"

definition project_document :: raw where
  "project_document = object_text [(RuleMainProtected, [TFalse]), (RuleReleaseMinReviewers, [TNum ''3'']),
     (RuleRequiredSchemaProfiles, [TLBrack, TStr ''lab'', TComma, TStr ''base'', TRBrack]), (''lab_rule'', [TStr ''y''])]"

lemma documents_evaluate:
  "case (PolicyFromJSON Some org_document, PolicyFromJSON Some project_document) of
     (Inr org, Inr project) \<Rightarrow> org = [(RuleMainProtected, [TTrue]), (RuleReleaseMinReviewers, [TNum ''2'']),
         (RuleRequiredSchemaProfiles, [TLBrack, TStr ''base'', TRBrack]), (''lab_rule'', [TStr ''x''])]
       \<and> map pn_Key (ValidateProjectPolicy Some org project) = [''lab_rule'', RuleMainProtected]
       \<and> (case Evaluate org RuleReleaseMinReviewers of Inr d \<Rightarrow> pd_Found d \<and> pd_Int d = 2 | _ \<Rightarrow> False)
       \<and> distinct (map fst org) \<and> distinct (map fst project)
   | _ \<Rightarrow> False"
  by code_simp

theorem policy_roundtrip_witness:
  "\<exists>p t. PolicyFromJSON Some org_document = Inr p \<and> policy_MarshalJSON p = Some t \<and> PolicyFromJSON Some t = Inr (sort_key fst p)"
proof -
  from documents_evaluate obtain p where p: "PolicyFromJSON Some org_document = Inr p" by (auto split: sum.splits)
  from policy_roundtrip [OF p] show ?thesis using p by blast
qed


theorem violations_are_ineffective_rules_witness:
  "\<exists>org project. PolicyFromJSON Some org_document = Inr org \<and> PolicyFromJSON Some project_document = Inr project
     \<and> policy_Rule (MergeEffective Some org project) RuleMainProtected \<noteq> policy_Rule project RuleMainProtected"
proof -
  from documents_evaluate obtain org project where p: "PolicyFromJSON Some org_document = Inr org"
    "PolicyFromJSON Some project_document = Inr project"
    "map pn_Key (ValidateProjectPolicy Some org project) = [''lab_rule'', RuleMainProtected]"
    by (auto split: sum.splits)
  have "RuleMainProtected \<in> set (map pn_Key (ValidateProjectPolicy Some org project))" unfolding p(3) by simp
  then show ?thesis
    using violations_are_ineffective_rules [OF PolicyFromJSON_valid [OF p(1)] PolicyFromJSON_valid [OF p(2)]] p(1,2) by auto
qed

theorem evaluator_answers_witness:
  "\<exists>p x. PolicyFromJSON Some org_document = Inr p \<and> Evaluate p RuleMainProtected = Inr x"
proof -
  from documents_evaluate obtain p where p: "PolicyFromJSON Some org_document = Inr p" by (auto split: sum.splits)
  have "RuleKindOf RuleMainProtected = RuleKindBool" by (simp add: RuleKindOf_def)
  with evaluator_answers [OF p, of RuleMainProtected] p show ?thesis by auto
qed

text \<open>Numbers are compared after rounding: under a key without a registered order, two different numbers
  that round to the same double count as the same value, so a project may replace one by the other.\<close>

lemma rounded_numbers_are_equal:
  assumes "RuleKindOf k = RuleKindUnknown" and "renum a = Some c" and "renum b = Some c"
  shows "ValidateProjectPolicy renum [(k, [TNum a])] [(k, [TNum b])] = []
    \<and> MergeEffective renum [(k, [TNum a])] [(k, [TNum b])] = [(k, [TNum b])]"
proof -
  have "unmarshal_doc [TNum s] = Some (JNum s)" for s
    using decode_print_Nil [of "JNum s"] by (simp add: unmarshal_doc_def)
  then have "CompareRule renum k [TNum a] [TNum b] = Some StrictnessEqual"
    using assms by (simp add: CompareRule_def jsonEqual_def unmarshal_any_def)
  then show ?thesis
    by (simp add: ValidateProjectPolicy_def MergeEffective_def rule_violation_def policy_Rule_def List.map_filter_simps Let_def)
qed

end
