(* ===== verification/MergeExec.thy ===== *)
theory MergeExec
  imports MergeStore StateHistory MergePlan Authz Integrity Policy
begin

text \<open>
  The execution of a Research PR merge (internal/application/merge: service.go, ports.go, errors.go,
  events.go; the ref guard of internal/gitprovider/refguard.go; the record reads of
  internal/persistence/scientific_object_store.go): authorization, the replay of an idempotency
  key, planning, the policy and integrity refusals, the commit with its write fence, and the Git
  step that follows it.

  The store, the states service and the version writers are the definitions of the other theories.
  The remaining ports are fields of \<open>MergeDeps\<close>, optional where the service tests for nil: the
  diff inputs, the recorded decisions, the membership, the policy documents of type \<open>'p\<close>, the
  fork lineage and the Git provider are code of other services; the authorization engine, the
  integrity review, the record readers and the outbox recorder have their production implementations
  in \<open>Authz\<close>, \<open>Integrity\<close> and \<open>Outbox\<close>.  The JSON form of a plan and the rendering of errors
  and of conflict details to text are fields as well.  The environment, the other clients of the
  database, acts between the service's transactions: \<open>env i\<close> is what it does at the \<open>i\<close>-th point.
\<close>

section \<open>Ports and requests\<close>

definition ViaAPI :: StateVia where "ViaAPI = ''api''"
definition mergeVia :: StateVia where "mergeVia = ViaAPI"
definition eventPullRequestMerged :: string where "eventPullRequestMerged = ''pull_request.merged''"
definition ActionPullRequestMerged :: string where "ActionPullRequestMerged = ''pull_request.merged''"
definition BranchLifecycleActive :: string where "BranchLifecycleActive = ''active''"
definition LifecycleReopened :: string where "LifecycleReopened = ''reopened''"
definition defaultAttempts :: nat where "defaultAttempts = 3"

record MergeInput =
  in_Project :: string
  in_Number :: int
  in_Message :: string
  in_IdempotencyKey :: "string option"

record ConflictResolution =
  rc_TargetKind :: string
  rc_TargetID :: string
  rc_Code :: string
  rc_Fields :: "string list"
  rc_PayloadKeys :: "string list"
  rc_OtherObjectID :: "string option"
  rc_ResolutionKind :: string
  rc_Note :: string
  rc_DecidedBy :: string

record DiffParams =
  dp_ProjectID :: string
  dp_BaseStateID :: string
  dp_SourceStateID :: string
  dp_TargetStateID :: string

record GitMergeRequest =
  gr_ProjectID :: string
  gr_Number :: int
  gr_TargetRef :: string
  gr_SourceRef :: string
  gr_TargetSHA :: string
  gr_SourceSHA :: string

record GitMergeResult =
  gm_SHA :: string
  gm_Actor :: string

text \<open>A membership read answers the role, or none for a caller who is no member.\<close>

record ('c, 'p) MergeDeps =
  md_pg :: pg
  md_sha :: "raw \<Rightarrow> string"
  md_renum :: "string \<Rightarrow> string option"
  md_guard :: "'c Validator option"
  md_Diffs :: "(DiffParams \<Rightarrow> database \<Rightarrow> go_error + DiffInputs) option"
  md_Plans :: "(DiffParams \<Rightarrow> database \<Rightarrow> go_error + ConflictResolution list) option"
  md_Aborts :: "(string \<Rightarrow> database \<Rightarrow> go_error + AbortRecord option) option"
  md_Reopens :: "(string \<Rightarrow> database \<Rightarrow> go_error + ReopenRecord option) option"
  md_Projects :: "(string \<Rightarrow> string \<Rightarrow> database \<Rightarrow> go_error + ProjectRole option) option"
  md_Authz :: "(AuthzRequest \<Rightarrow> AuthzDecision) option"
  md_Forks :: "(string \<Rightarrow> string \<Rightarrow> string \<Rightarrow> database \<Rightarrow> go_error + bool) option"
  md_Checks :: "(string \<Rightarrow> int \<Rightarrow> database \<Rightarrow> go_error + integrity_Report) option"
  md_Policies :: "(string \<Rightarrow> string \<Rightarrow> database \<Rightarrow> go_error + 'p) option"
  md_Rules :: "('p \<Rightarrow> string \<Rightarrow> go_error + PolicyDecision) option"
  md_Events :: "(CallCtx \<Rightarrow> Event \<Rightarrow> unit tx) option"
  md_Git :: "(GitMergeRequest \<Rightarrow> go_error + GitMergeResult) option"
  md_MergeService :: string
  md_MaxAttempts :: int
  md_plan_json :: "Plan \<Rightarrow> raw option"
  md_plan_read :: "raw \<Rightarrow> Plan option"
  md_error_text :: "go_error \<Rightarrow> string"
  md_detail_text :: "Detail \<Rightarrow> string"

datatype policy_reason = PolicyUnreadable go_error | PolicyUnevaluable go_error | RuleAbsent | RuleFalse

text \<open>The outcomes of the service: an error of the store or of a port, a blocked plan, a plan the
  engine refused to compute, the integrity refusal and the policy refusal.\<close>

datatype merge_refusal =
    MergeFailed go_error
  | MergeBlocked Plan
  | MergePlanError merge_error
  | GateRefused integrity_Report
  | PolicyRefused bool bool policy_reason

record WrittenVersion =
  wv_TargetKind :: string
  wv_TargetID :: string
  wv_VersionID :: string
  wv_VersionNo :: int

record MergeResult =
  mr_Number :: int
  mr_Merge :: SemanticMerge
  mr_State :: "ProjectState option"
  mr_Commit :: "StateCommit option"
  mr_Plan :: "Plan option"
  mr_Written :: "WrittenVersion list"
  mr_SourceBranchClosed :: bool
  mr_Replayed :: bool

record prepared =
  pp_input :: MergeInput
  pp_plan :: Plan
  pp_planJS :: raw
  pp_digest :: string
  pp_pr :: PullRequest
  pp_sourceBranch :: Branch
  pp_targetBranch :: Branch
  pp_sourceProjectID :: string
  pp_baseStateID :: string
  pp_sourceStateID :: string
  pp_targetStateID :: string

abbreviation store_failure :: merge_refusal where
  "store_failure \<equiv> MergeFailed (Errorf (Sentinel merge_ErrStore))"

section \<open>Refusals before the transaction\<close>

definition merge_validateInput :: "MergeInput \<Rightarrow> string \<Rightarrow> merge_refusal option" where
  "merge_validateInput inp actorID =
     (if in_Project inp = [] \<or> in_Number inp < 1 \<or> actorID = []
      then Some (MergeFailed (Errorf (Sentinel merge_ErrValidation))) else None)"

definition requireMerge :: "('c, 'p) MergeDeps \<Rightarrow> string \<Rightarrow> string \<Rightarrow> database \<Rightarrow> merge_refusal option" where
  "requireMerge md actorID projectID db =
     (case (md_Projects md, md_Authz md) of
        (Some membership, Some authorize) \<Rightarrow>
          (case membership actorID projectID db of
             Inl e \<Rightarrow> Some (MergeFailed e)
           | Inr role \<Rightarrow>
               if \<not> decision_Permits (authorize \<lparr>rq_Action = ActionMergeMain, rq_Class = ClassOf True role False\<rparr>)
               then Some (MergeFailed (Sentinel merge_ErrForbidden)) else None)
      | _ \<Rightarrow> Some store_failure)"

definition requirePolicy :: "('c, 'p) MergeDeps \<Rightarrow> string \<Rightarrow> string \<Rightarrow> database \<Rightarrow> merge_refusal option" where
  "requirePolicy md actorID projectID db =
     (case (md_Policies md, md_Rules md) of
        (Some effective, Some evaluate) \<Rightarrow>
          (case effective actorID projectID db of
             Inl e \<Rightarrow> Some (PolicyRefused False False (PolicyUnreadable e))
           | Inr policy \<Rightarrow>
               (case evaluate policy RuleMainProtected of
                  Inl e \<Rightarrow> Some (PolicyRefused False False (PolicyUnevaluable e))
                | Inr d \<Rightarrow>
                    if \<not> pd_Found d then Some (PolicyRefused False False RuleAbsent)
                    else if \<not> pd_Bool d then Some (PolicyRefused True False RuleFalse) else None))
      | _ \<Rightarrow> Some store_failure)"

definition requireIntegrity :: "('c, 'p) MergeDeps \<Rightarrow> MergeInput \<Rightarrow> database \<Rightarrow> merge_refusal option" where
  "requireIntegrity md inp db =
     (case md_Checks md of
        None \<Rightarrow> Some store_failure
      | Some check \<Rightarrow>
          (case check (in_Project inp) (in_Number inp) db of
             Inl e \<Rightarrow> Some (MergeFailed e)
           | Inr report \<Rightarrow>
               if list_ex (\<lambda>f. ir_Severity f = SeverityBlocking) (integrity_Failures report)
               then Some (GateRefused report) else None))"

section \<open>Planning\<close>

definition merge_branch :: "(database \<Rightarrow> go_error + Branch) \<Rightarrow> database \<Rightarrow> merge_refusal + Branch" where
  "merge_branch read db =
     map_sum (\<lambda>e. if errors_Is e merge_ErrBranchNotFound then MergeFailed (Sentinel merge_ErrBranchNotFound) else store_failure)
       (\<lambda>b. b) (read db)"

definition isAuthorsForkOfPRProject :: "('c, 'p) MergeDeps \<Rightarrow> PullRequest \<Rightarrow> Branch \<Rightarrow> database \<Rightarrow> merge_refusal + bool" where
  "isAuthorsForkOfPRProject md pr source db =
     (case md_Forks md of
        None \<Rightarrow> Inl store_failure
      | Some isForkOf \<Rightarrow> map_sum (\<lambda>_. store_failure) (\<lambda>b. b) (isForkOf (bn_ProjectID source) (pq_ProjectID pr) (pq_CreatedBy pr) db))"

definition merge_sourceBranch :: "('c, 'p) MergeDeps \<Rightarrow> PullRequest \<Rightarrow> database \<Rightarrow> merge_refusal + Branch" where
  "merge_sourceBranch md pr db =
     (case merge_branch (mergestore_GetBranchByID (md_pg md) (pq_SourceBranchID pr)) db of
        Inl e \<Rightarrow> Inl e
      | Inr source \<Rightarrow>
          if bn_ProjectID source = pq_ProjectID pr then Inr source
          else (case isAuthorsForkOfPRProject md pr source db of
                  Inl e \<Rightarrow> Inl e
                | Inr ok \<Rightarrow> if \<not> ok then Inl (MergeFailed (Sentinel merge_ErrBranchNotFound)) else Inr source))"

definition decisionOf :: "ConflictResolution \<Rightarrow> Decision" where
  "decisionOf r = \<lparr>de_TargetKind = rc_TargetKind r, de_TargetID = rc_TargetID r, de_Code = rc_Code r,
     de_Fields = rc_Fields r, de_PayloadKeys = rc_PayloadKeys r,
     de_OtherObjectID = (case rc_OtherObjectID r of None \<Rightarrow> [] | Some i \<Rightarrow> i),
     de_Kind = rc_ResolutionKind r, de_DecidedBy = rc_DecidedBy r, de_Note = rc_Note r\<rparr>"

definition decisionsOf :: "ConflictResolution list \<Rightarrow> Decision list" where
  "decisionsOf recorded = map decisionOf recorded"

text \<open>The plan of a PR over its pinned triple.\<close>

definition plan_triple :: "('c, 'p) MergeDeps \<Rightarrow> (DiffParams \<Rightarrow> database \<Rightarrow> go_error + DiffInputs) \<Rightarrow>
    (DiffParams \<Rightarrow> database \<Rightarrow> go_error + ConflictResolution list) \<Rightarrow> DiffParams \<Rightarrow> Branch \<Rightarrow> Branch \<Rightarrow> database \<Rightarrow> merge_refusal + Plan" where
  "plan_triple md diffs plans dp source target db =
     (case diffs dp db of
        Inl e \<Rightarrow> Inl (MergeFailed e)
      | Inr inputs \<Rightarrow>
          (case plans dp db of
             Inl e \<Rightarrow> Inl (MergeFailed e)
           | Inr recorded \<Rightarrow>
               (case MergePlan.Merge \<lparr>mi_ProjectID = dp_ProjectID dp, mi_Diff = inputs, mi_Decisions = decisionsOf recorded,
                        mi_SourceVisibility = bn_Visibility source, mi_TargetVisibility = bn_Visibility target\<rparr> of
                  Inl e \<Rightarrow> Inl (MergePlanError e)
                | Inr plan \<Rightarrow> if \<not> pl_Executable plan then Inl (MergeBlocked plan) else Inr plan)))"

definition triple_of :: "MergeInput \<Rightarrow> PullRequest \<Rightarrow> string \<Rightarrow> DiffParams" where
  "triple_of inp pr head = \<lparr>dp_ProjectID = in_Project inp, dp_BaseStateID = pq_BaseStateID pr,
     dp_SourceStateID = pq_ProposedStateID pr, dp_TargetStateID = head\<rparr>"

definition prepare_with :: "('c, 'p) MergeDeps \<Rightarrow> (DiffParams \<Rightarrow> database \<Rightarrow> go_error + DiffInputs) \<Rightarrow>
    (DiffParams \<Rightarrow> database \<Rightarrow> go_error + ConflictResolution list) \<Rightarrow> MergeInput \<Rightarrow> PullRequest \<Rightarrow> database \<Rightarrow> merge_refusal + prepared" where
  "prepare_with md diffs plans inp pr db =
     (if pq_State pr \<noteq> PullRequestStateMergeReady then Inl (MergeFailed (NotMergeableError (pq_Number pr) (pq_State pr)))
      else case merge_sourceBranch md pr db of
        Inl e \<Rightarrow> Inl e
      | Inr source \<Rightarrow>
          (case merge_branch (mergestore_GetBranch (md_pg md) (in_Project inp) (pq_TargetBranchID pr)) db of
             Inl e \<Rightarrow> Inl e
           | Inr target \<Rightarrow>
               if bn_Lifecycle source \<noteq> BranchLifecycleActive then Inl (MergeFailed (MergeBranchNotActiveError (bn_ID source)))
               else if bn_Lifecycle target \<noteq> BranchLifecycleActive then Inl (MergeFailed (MergeBranchNotActiveError (bn_ID target)))
               else (case bn_BaseStateID target of
                  None \<Rightarrow> Inl (MergeFailed (Errorf (Sentinel merge_ErrValidation)))
                | Some head \<Rightarrow>
                    (case plan_triple md diffs plans (triple_of inp pr head) source target db of
                       Inl e \<Rightarrow> Inl e
                     | Inr plan \<Rightarrow>
                         (case md_plan_json md plan of
                            None \<Rightarrow> Inl store_failure
                          | Some js \<Rightarrow> Inr \<lparr>pp_input = inp, pp_plan = plan, pp_planJS = js, pp_digest = md_sha md js,
                              pp_pr = pr, pp_sourceBranch = source, pp_targetBranch = target,
                              pp_sourceProjectID = bn_ProjectID source, pp_baseStateID = pq_BaseStateID pr,
                              pp_sourceStateID = pq_ProposedStateID pr, pp_targetStateID = head\<rparr>)))))"

definition prepare :: "('c, 'p) MergeDeps \<Rightarrow> MergeInput \<Rightarrow> database \<Rightarrow> merge_refusal + prepared" where
  "prepare md inp db =
     (case (md_Diffs md, md_Plans md) of
        (Some diffs, Some plans) \<Rightarrow>
          (case mergestore_GetPullRequest (md_pg md) (in_Project inp) (in_Number inp) db of
             Inl e \<Rightarrow> Inl (if errors_Is e merge_ErrPullRequestNotFound
                           then MergeFailed (Sentinel merge_ErrPullRequestNotFound) else store_failure)
           | Inr pr \<Rightarrow> prepare_with md diffs plans inp pr db)
      | _ \<Rightarrow> Inl store_failure)"

section \<open>What a merge writes\<close>

definition materializedContainers :: "Plan \<Rightarrow> string list \<times> string list" where
  "materializedContainers plan =
     (map ch_TargetID (filter (\<lambda>c. ch_TargetKind c = TargetObject) (Materialized plan)),
      map ch_TargetID (filter (\<lambda>c. ch_TargetKind c = TargetRelation) (Materialized plan)))"

definition objectDetail :: "string \<Rightarrow> raw" where
  "objectDetail objectType = (if objectType = [] then [] else obj_toks [(''object_type'', str_tok objectType)])"

definition operation_for :: "VersionHeads \<Rightarrow> Change \<Rightarrow> go_error + StateOperation list" where
  "operation_for heads c =
     (if ch_TargetKind c = TargetObject
      then (case map_of (vh_Objects heads) (ch_TargetID c) of
              None \<Rightarrow> Inl (MissingEntityError ''object'' (ch_TargetID c))
            | Some head \<Rightarrow> Inr [\<lparr>op_Kind = OperationObjectVersionCreated, op_EntityID = ch_TargetID c,
                op_VersionNo = head + 1, op_Detail = objectDetail (ch_ObjectType c)\<rparr>])
      else if ch_TargetKind c = TargetRelation
      then (case map_of (vh_Relations heads) (ch_TargetID c) of
              None \<Rightarrow> Inl (MissingEntityError ''relation'' (ch_TargetID c))
            | Some head \<Rightarrow> Inr [\<lparr>op_Kind = OperationRelationVersionCreated, op_EntityID = ch_TargetID c,
                op_VersionNo = head + 1, op_Detail = []\<rparr>])
      else Inr [])"

definition operationsFor :: "Plan \<Rightarrow> VersionHeads \<Rightarrow> go_error + StateOperation list" where
  "operationsFor plan heads = map_sum (\<lambda>e. e) concat (map_err (operation_for heads) (Materialized plan))"

text \<open>The governance records of a version, read from the pool.\<close>

definition AbortRecordOf :: "pg \<Rightarrow> string \<Rightarrow> database \<Rightarrow> go_error + AbortRecord option" where
  "AbortRecordOf pg versionID db =
     (case textUUID pg versionID of
        None \<Rightarrow> Inr None
      | Some i \<Rightarrow>
          (case pool_query pg (GetScientificObjectVersionByID i) db of
             Inl e \<Rightarrow> if errors_Is e pgx_ErrNoRows \<or> isInvalidText e then Inr None else Inl (Errorf (Sentinel sciobjects_ErrStore))
           | Inr row \<Rightarrow> Inr (sv_Abort (vr_version row))))"

definition ReopenRecordOf :: "pg \<Rightarrow> string \<Rightarrow> database \<Rightarrow> go_error + ReopenRecord option" where
  "ReopenRecordOf pg versionID db =
     (case textUUID pg versionID of
        None \<Rightarrow> Inr None
      | Some i \<Rightarrow>
          (case pool_query pg (GetScientificObjectVersionByID i) db of
             Inl e \<Rightarrow> if errors_Is e pgx_ErrNoRows \<or> isInvalidText e then Inr None else Inl (Errorf (Sentinel sciobjects_ErrStore))
           | Inr row \<Rightarrow> Inr (sv_Reopen (vr_version row))))"

definition abortRecordFor :: "('c, 'p) MergeDeps \<Rightarrow> ObjectVersion \<Rightarrow> database \<Rightarrow> go_error + AbortRecord option" where
  "abortRecordFor md src pool =
     (if ov_LifecycleState src \<noteq> LifecycleAborted then Inr None
      else case md_Aborts md of
        None \<Rightarrow> Inl (Errorf (Sentinel merge_ErrStore))
      | Some read \<Rightarrow>
          (case read (ov_ID src) pool of
             Inl e \<Rightarrow> Inl e
           | Inr None \<Rightarrow> Inl (Errorf (Sentinel merge_ErrStore))
           | Inr (Some r) \<Rightarrow> Inr (Some r)))"

definition reopenRecordFor :: "('c, 'p) MergeDeps \<Rightarrow> ObjectVersion \<Rightarrow> database \<Rightarrow> go_error + ReopenRecord option" where
  "reopenRecordFor md src pool =
     (if ov_LifecycleState src \<noteq> LifecycleReopened then Inr None
      else case md_Reopens md of None \<Rightarrow> Inr None | Some read \<Rightarrow> read (ov_ID src) pool)"

definition objectVersionsOf :: "Plan \<Rightarrow> (string \<times> ObjectVersion) list" where
  "objectVersionsOf plan = fold (\<lambda>c m. AList.update (oc_ObjectID c) (oc_SourceVersion c) m)
     (df_ObjectChanges (rp_Diff (pl_Report plan))) []"

definition relationVersionsOf :: "Plan \<Rightarrow> (string \<times> RelationVersion) list" where
  "relationVersionsOf plan = fold (\<lambda>c m. AList.update (rc_RelationID c) (rc_SourceVersion c) m)
     (df_RelationChanges (rp_Diff (pl_Report plan))) []"

definition repin :: "Change \<Rightarrow> string \<Rightarrow> (string \<times> string) list \<Rightarrow> go_error + string" where
  "repin c pin writtenByObject =
     (case map_of (ch_EndpointRewrites c) pin of
        None \<Rightarrow> Inr pin
      | Some objectID \<Rightarrow>
          (case map_of writtenByObject objectID of
             None \<Rightarrow> Inl (Errorf (Sentinel merge_ErrStore))
           | Some versionID \<Rightarrow> Inr versionID))"

text \<open>The source version's content as the version the accepted state carries.\<close>

definition object_content :: "string \<Rightarrow> string \<Rightarrow> string \<Rightarrow> ObjectVersion \<Rightarrow> AbortRecord option \<Rightarrow> ReopenRecord option \<Rightarrow> VersionParams" where
  "object_content stateID branchID actorID src abort reopen =
     \<lparr>vp_StateID = stateID, vp_BranchID = Some branchID, vp_SchemaID = sr_ID (ov_SchemaRef src),
      vp_SchemaVersion = sr_Version (ov_SchemaRef src), vp_Title = ov_Title src,
      vp_LifecycleState = ov_LifecycleState src, vp_Payload = ov_Payload src,
      vp_VisibilityPolicyID = ov_VisibilityPolicyID src, vp_CreatedBy = actorID,
      vp_Abort = abort, vp_AbortRequestKey = [], vp_Reopen = reopen, vp_ReopenRequestKey = []\<rparr>"

definition relation_content :: "string \<Rightarrow> string \<Rightarrow> RelationVersion \<Rightarrow> string \<Rightarrow> string \<Rightarrow> RelationVersionParams" where
  "relation_content stateID actorID src sourcePin targetPin =
     \<lparr>rp_StateID = stateID, rp_RelationType = rv_RelationType src, rp_SourceObjectVersionID = sourcePin,
      rp_TargetObjectVersionID = targetPin, rp_Payload = rv_Payload src, rp_CreatedBy = actorID\<rparr>"

type_synonym written = "(string \<times> string) list \<times> WrittenVersion list"

definition tx_lift :: "go_error + 'a \<Rightarrow> 'a tx" where
  "tx_lift r = (case r of Inl e \<Rightarrow> tx_raise e | Inr x \<Rightarrow> tx_return x)"

definition head_of :: "(string \<times> int) list \<Rightarrow> string \<Rightarrow> int" where
  "head_of m i = (case map_of m i of None \<Rightarrow> 0 | Some n \<Rightarrow> n)"

definition materialize_object :: "('c, 'p) MergeDeps \<Rightarrow> database \<Rightarrow> string \<Rightarrow> prepared \<Rightarrow> VersionHeads \<Rightarrow> string \<Rightarrow> Change \<Rightarrow> written \<Rightarrow> written tx" where
  "materialize_object md pool stateID p heads actorID c acc =
     (case map_of (objectVersionsOf (pp_plan p)) (ch_TargetID c) of
        None \<Rightarrow> tx_raise (Errorf (Sentinel merge_ErrStore))
      | Some src \<Rightarrow>
          tx_bind (tx_lift (abortRecordFor md src pool)) (\<lambda>abort.
          tx_bind (tx_lift (reopenRecordFor md src pool)) (\<lambda>reopen.
          tx_bind (CreateVersionInTx (md_pg md) (ch_TargetID c) (head_of (vh_Objects heads) (ch_TargetID c))
                     (object_content stateID (bn_ID (pp_targetBranch p)) actorID src abort reopen)) (\<lambda>v.
            tx_return (AList.update (ch_TargetID c) (sv_ID v) (fst acc),
              snd acc @ [\<lparr>wv_TargetKind = ch_TargetKind c, wv_TargetID = ch_TargetID c,
                 wv_VersionID = sv_ID v, wv_VersionNo = sv_VersionNo v\<rparr>])))))"

definition materialize_relation :: "('c, 'p) MergeDeps \<Rightarrow> string \<Rightarrow> prepared \<Rightarrow> VersionHeads \<Rightarrow> string \<Rightarrow> Change \<Rightarrow> written \<Rightarrow> written tx" where
  "materialize_relation md stateID p heads actorID c acc =
     (case map_of (relationVersionsOf (pp_plan p)) (ch_TargetID c) of
        None \<Rightarrow> tx_raise (Errorf (Sentinel merge_ErrStore))
      | Some src \<Rightarrow>
          tx_bind (tx_lift (repin c (rv_SourceObjectVersionID src) (fst acc))) (\<lambda>sourcePin.
          tx_bind (tx_lift (repin c (rv_TargetObjectVersionID src) (fst acc))) (\<lambda>targetPin.
          tx_bind (AppendRelationVersionInTx (md_pg md) (ch_TargetID c) (head_of (vh_Relations heads) (ch_TargetID c))
                     (relation_content stateID actorID src sourcePin targetPin)) (\<lambda>v.
            tx_return (fst acc,
              snd acc @ [\<lparr>wv_TargetKind = ch_TargetKind c, wv_TargetID = ch_TargetID c,
                 wv_VersionID = rv_ID v, wv_VersionNo = rv_VersionNo v\<rparr>])))))"

definition materialize_change :: "('c, 'p) MergeDeps \<Rightarrow> database \<Rightarrow> string \<Rightarrow> prepared \<Rightarrow> VersionHeads \<Rightarrow> string \<Rightarrow> Change \<Rightarrow> written \<Rightarrow> written tx" where
  "materialize_change md pool stateID p heads actorID c acc =
     (if ch_TargetKind c = TargetObject then materialize_object md pool stateID p heads actorID c acc
      else if ch_TargetKind c = TargetRelation then materialize_relation md stateID p heads actorID c acc
      else tx_return acc)"

fun tx_fold :: "('a \<Rightarrow> 's \<Rightarrow> 's tx) \<Rightarrow> 'a list \<Rightarrow> 's \<Rightarrow> 's tx" where
  "tx_fold f [] s = tx_return s"
| "tx_fold f (x # xs) s = tx_bind (f x s) (tx_fold f xs)"

definition materialize :: "('c, 'p) MergeDeps \<Rightarrow> database \<Rightarrow> string \<Rightarrow> prepared \<Rightarrow> VersionHeads \<Rightarrow> string \<Rightarrow> WrittenVersion list tx" where
  "materialize md pool stateID p heads actorID =
     tx_bind (tx_fold (materialize_change md pool stateID p heads actorID) (Materialized (pp_plan p)) ([], []))
       (\<lambda>acc. tx_return (snd acc))"

definition gitRefOf :: "Branch \<Rightarrow> string option" where
  "gitRefOf target =
     (if bn_GitRef target \<noteq> [] then Some (bn_GitRef target)
      else if bn_Name target = [] then None
      else Some (''refs/heads/'' @ bn_Name target))"

definition optional :: "string \<Rightarrow> string option" where
  "optional s = (if s = [] then None else Some s)"

definition carried_row :: "('c, 'p) MergeDeps \<Rightarrow> Carried \<Rightarrow> CarriedConflict" where
  "carried_row md c = \<lparr>wc_TargetKind = ca_TargetKind c, wc_TargetID = ca_TargetID c, wc_Code = ca_Code c,
     wc_Category = category_wire (ca_Category c), wc_Fields = ca_Fields c, wc_PayloadKeys = ca_PayloadKeys c,
     wc_OtherObjectID = optional (ca_OtherObjectID c), wc_Detail = md_detail_text md (ca_Detail c),
     wc_Decision = ca_Decision c, wc_DecidedBy = ca_DecidedBy c, wc_Note = ca_Note c,
     wc_SourceVersionID = ca_SourceVersionID c, wc_TargetVersionID = optional (ca_TargetVersionID c)\<rparr>"

text \<open>\<open>json.Marshal\<close> of the summary map sorts its keys, as \<open>marshal\<close> does.\<close>

definition audit_summary :: "prepared \<Rightarrow> string \<Rightarrow> jval" where
  "audit_summary p resultStateID =
     (let n = (\<lambda>i. JNum (show_int i)); summary = pl_Summary (pp_plan p) in
      JObj [(''pull_request_id'', JStr (pq_ID (pp_pr p))), (''pull_request_number'', n (pq_Number (pp_pr p))),
        (''source_branch_id'', JStr (bn_ID (pp_sourceBranch p))), (''target_branch_id'', JStr (bn_ID (pp_targetBranch p))),
        (''base_state_id'', JStr (pp_baseStateID p)), (''source_state_id'', JStr (pp_sourceStateID p)),
        (''target_state_id'', JStr (pp_targetStateID p)), (''state_id'', JStr resultStateID),
        (''plan_version'', JStr (pl_FormatVersion (pp_plan p))), (''plan_digest'', JStr (pp_digest p)),
        (''applied'', n (sm_Applied summary)), (''kept_target'', n (sm_KeptTarget summary)),
        (''carried'', n (sm_Carried summary)), (''aborted'', n (sm_Aborted summary)),
        (''withheld'', n (sm_Withheld summary))])"

definition auditEntry :: "prepared \<Rightarrow> string \<Rightarrow> string \<Rightarrow> AuditEntry" where
  "auditEntry p actorID resultStateID =
     \<lparr>ae_ActorID = actorID, ae_Via = ViaSession, ae_Action = ActionPullRequestMerged, ae_TargetRef = [],
      ae_ProjectID = in_Project (pp_input p), ae_OrganizationID = [], ae_CorrelationID = [],
      ae_BeforeSummary = None, ae_AfterSummary = Some (marshal (audit_summary p resultStateID)), ae_Metadata = None\<rparr>"

definition mergeParams :: "('c, 'p) MergeDeps \<Rightarrow> prepared \<Rightarrow> string \<Rightarrow> string \<Rightarrow> WriteMergeParams" where
  "mergeParams md p resultStateID actorID =
     (let summary = pl_Summary (pp_plan p) in
      \<lparr>wm_ProjectID = in_Project (pp_input p), wm_PullRequestID = pq_ID (pp_pr p),
       wm_SourceBranchID = bn_ID (pp_sourceBranch p), wm_TargetBranchID = bn_ID (pp_targetBranch p),
       wm_BaseStateID = pp_baseStateID p, wm_SourceStateID = pp_sourceStateID p, wm_TargetStateID = pp_targetStateID p,
       wm_ResultStateID = resultStateID, wm_ActorID = actorID, wm_PlanVersion = pl_FormatVersion (pp_plan p),
       wm_PlanJSON = pp_planJS p, wm_PlanDigest = pp_digest p, wm_Applied = sm_Applied summary,
       wm_KeptTarget = sm_KeptTarget summary, wm_Carried = sm_Carried summary, wm_Aborted = sm_Aborted summary,
       wm_Withheld = sm_Withheld summary, wm_CarriedConflicts = map (carried_row md) (pl_Carried (pp_plan p)),
       wm_GitRef = gitRefOf (pp_targetBranch p), wm_GitState = GitStatePending,
       wm_IdempotencyKey = in_IdempotencyKey (pp_input p), wm_Audit = auditEntry p actorID resultStateID\<rparr>)"

definition eventVisibility :: "string \<Rightarrow> string" where
  "eventVisibility v = (if v = BranchVisibilityPublic then VisibilityPublic else VisibilityPrivate)"

definition mergeEventPayload :: "prepared \<Rightarrow> string \<Rightarrow> string \<Rightarrow> raw" where
  "mergeEventPayload p mergeID stateID = obj_toks
     [(''payload_version'', int_tok 1), (''merge_id'', str_tok mergeID), (''pull_request_id'', str_tok (pq_ID (pp_pr p))),
      (''pull_request_number'', int_tok (pq_Number (pp_pr p))), (''state_id'', str_tok stateID),
      (''target_branch_id'', str_tok (bn_ID (pp_targetBranch p))), (''plan_digest'', str_tok (pp_digest p))]"

definition recordMergeEvent :: "('c, 'p) MergeDeps \<Rightarrow> CallCtx \<Rightarrow> prepared \<Rightarrow> string \<Rightarrow> string \<Rightarrow> string \<Rightarrow> unit tx" where
  "recordMergeEvent md cx p actorID mergeID stateID =
     (case md_Events md of
        None \<Rightarrow> tx_raise (Errorf (Sentinel merge_ErrStore))
      | Some record_event \<Rightarrow> record_event cx
          \<lparr>ev_EventType = eventPullRequestMerged, ev_ActorID = actorID, ev_ProjectID = in_Project (pp_input p),
           ev_Visibility = eventVisibility (bn_Visibility (pp_targetBranch p)), ev_Via = mergeVia, ev_CorrelationID = [],
           ev_Payload = mergeEventPayload p mergeID stateID\<rparr>)"

section \<open>The write fence\<close>

text \<open>Go ranges over a map in any order; of several disagreements the model reports the first in the
  order the heads were read.\<close>

definition head_disagrees :: "string \<Rightarrow> (string \<times> int) list \<Rightarrow> string \<times> int \<Rightarrow> go_error option" where
  "head_disagrees kind actual want =
     (case map_of actual (fst want) of
        None \<Rightarrow> Some (MissingEntityError kind (fst want))
      | Some got \<Rightarrow> if got \<noteq> snd want then Some (versionHeadsMovedError kind (fst want) (snd want) got) else None)"

definition headsEqual :: "string \<Rightarrow> (string \<times> int) list \<Rightarrow> (string \<times> int) list \<Rightarrow> go_error option" where
  "headsEqual kind predicted actual =
     (case List.map_filter (head_disagrees kind actual) predicted of [] \<Rightarrow> None | e # _ \<Rightarrow> Some e)"

definition VersionHeads_Equal :: "VersionHeads \<Rightarrow> VersionHeads \<Rightarrow> go_error option" where
  "VersionHeads_Equal h other =
     (case headsEqual ''object'' (vh_Objects h) (vh_Objects other) of
        Some e \<Rightarrow> Some e
      | None \<Rightarrow> headsEqual ''relation'' (vh_Relations h) (vh_Relations other))"

definition verifyScope :: "MergeScope \<Rightarrow> prepared \<Rightarrow> string \<Rightarrow> go_error option" where
  "verifyScope scope p stateID =
     (let pr = ms_PullRequest scope; source = ms_Source scope; target = ms_Target scope in
      if pq_ID pr \<noteq> pq_ID (pp_pr p) then Some (StaleMergeError AnotherPullRequest)
      else if pq_State pr \<noteq> PullRequestStateMergeReady then Some (StaleMergeError (NotMergeReady (pq_State pr)))
      else if pq_ProposedStateID pr \<noteq> pp_sourceStateID p then Some (StaleMergeError ProposedStateMoved)
      else if pq_BaseStateID pr \<noteq> pp_baseStateID p then Some (StaleMergeError BaseStateMoved)
      else if bn_ID target \<noteq> bn_ID (pp_targetBranch p) then Some (StaleMergeError AnotherTarget)
      else if bn_BaseStateID target = None then Some (StaleMergeError TargetWithoutHead)
      else if bn_BaseStateID target \<noteq> Some stateID then Some (StaleMergeError TargetAdvanced)
      else if bn_Lifecycle source \<noteq> BranchLifecycleActive then Some (StaleMergeError SourceClosed)
      else if bn_Lifecycle target \<noteq> BranchLifecycleActive then Some (StaleMergeError TargetClosed)
      else None)"

definition closeSourceBranch :: "('c, 'p) MergeDeps \<Rightarrow> prepared \<Rightarrow> MergeScope \<Rightarrow> bool tx" where
  "closeSourceBranch md p scope =
     (if IsMain (pp_sourceBranch p) then tx_return False
      else if bn_BaseStateID (ms_Source scope) \<noteq> Some (pp_sourceStateID p) then tx_return False
      else tx_bind (MarkBranchMerged (md_pg md) (bn_ID (pp_sourceBranch p))) (\<lambda>_. tx_return True))"

section \<open>The commit\<close>

type_synonym captured = "WrittenVersion list \<times> SemanticMerge \<times> bool"

text \<open>The write callback with the variables it assigns.  \<open>pool\<close> is the database the pool reads
  while the transaction runs.\<close>

definition lock_params :: "prepared \<Rightarrow> LockScopeParams" where
  "lock_params p = \<lparr>ls_ProjectID = in_Project (pp_input p), ls_SourceProjectID = pp_sourceProjectID p,
     ls_PRNumber = in_Number (pp_input p), ls_SourceBranchID = bn_ID (pp_sourceBranch p),
     ls_TargetBranchID = bn_ID (pp_targetBranch p)\<rparr>"

definition refuse_if :: "go_error option \<Rightarrow> unit tx" where
  "refuse_if e = (case e of None \<Rightarrow> tx_return () | Some err \<Rightarrow> tx_raise err)"

definition merge_write :: "('c, 'p) MergeDeps \<Rightarrow> CallCtx \<Rightarrow> string \<Rightarrow> prepared \<Rightarrow> VersionHeads \<Rightarrow> database \<Rightarrow> string \<Rightarrow> captured tx" where
  "merge_write md cx actorID p heads pool stateID =
     (let (objectIDs, relationIDs) = materializedContainers (pp_plan p) in
      tx_bind (LockMergeScope (md_pg md) (lock_params p)) (\<lambda>scope.
      tx_bind (refuse_if (verifyScope scope p stateID)) (\<lambda>_.
      tx_bind (LockVersionHeads (md_pg md) objectIDs relationIDs) (\<lambda>locked.
      tx_bind (refuse_if (VersionHeads_Equal heads locked)) (\<lambda>_.
      tx_bind (materialize md pool stateID p heads actorID) (\<lambda>written.
      tx_bind (WriteMerge (md_pg md) (md_renum md) cx (mergeParams md p stateID actorID)) (\<lambda>mergeRow.
      tx_bind (recordMergeEvent md cx p actorID (sg_ID mergeRow) stateID) (\<lambda>_.
      tx_bind (MarkPullRequestMerged (md_pg md) (in_Project (pp_input p)) (pq_ID (pp_pr p))) (\<lambda>_.
      tx_bind (closeSourceBranch md p scope) (\<lambda>closed.
        tx_return (written, mergeRow, closed)))))))))))"

definition gateFor :: "Branch \<Rightarrow> Gate" where
  "gateFor target = (if IsMain target then GateMain else GatePR)"

definition merge_message :: "prepared \<Rightarrow> string" where
  "merge_message p =
     (if TrimSpace (in_Message (pp_input p)) = []
      then ''merge PR #'' @ show_int (pq_Number (pp_pr p)) @ '' ('' @ bn_Name (pp_sourceBranch p) @ '' ''
             @ arrow @ '' '' @ bn_Name (pp_targetBranch p) @ '')''
      else in_Message (pp_input p))"

definition merge_commit_params :: "prepared \<Rightarrow> StateOperation list \<Rightarrow> string \<Rightarrow> CommitParams" where
  "merge_commit_params p operations actorID =
     \<lparr>cp_ProjectID = in_Project (pp_input p), cp_BranchID = bn_ID (pp_targetBranch p), cp_ActorID = actorID,
      cp_Via = mergeVia, cp_Message = merge_message p, cp_Operations = operations,
      cp_BaseStateID = Some (pp_targetStateID p), cp_GitCommitSHA = None, cp_ManifestVersion = FormatV1,
      cp_Gate = gateFor (pp_targetBranch p), cp_ResearchPRMerge = True\<rparr>"

text \<open>The rows the callback runs on: the transaction has created the state and moved the head of the
  branch.  The variables the callback assigned are its result there.\<close>

definition callback_rows :: "pg \<Rightarrow> CommitParams \<Rightarrow> ProjectState \<Rightarrow> database \<Rightarrow> database" where
  "callback_rows pg cp s db =
     (case commit_ids pg cp of
        None \<Rightarrow> db
      | Some (p, i, a, base) \<Rightarrow>
          db\<lparr>db_states := db_states db @ [s], db_branches := advance_head i p base (ps_ID s) (db_branches db),
             db_seq := Suc (db_seq db)\<rparr>)"

definition assigned :: "captured tx \<Rightarrow> database \<Rightarrow> captured option" where
  "assigned f db = (case f db of Inl _ \<Rightarrow> None | Inr (x, _) \<Rightarrow> Some x)"

definition unwrapWriteError :: "go_error \<Rightarrow> go_error" where
  "unwrapWriteError e = (case as_CommitWriteError e of Some w \<Rightarrow> w | None \<Rightarrow> e)"

text \<open>One attempt.  The heads are read on \<open>db\<close>; the transaction runs on \<open>pool\<close>, what the environment
  made of it.\<close>

definition commit_with ::
  "('c, 'p) MergeDeps \<Rightarrow> CallCtx \<Rightarrow> string \<Rightarrow> prepared \<Rightarrow> VersionHeads \<Rightarrow> StateOperation list \<Rightarrow> database
   \<Rightarrow> (go_error + MergeResult) \<times> database" where
  "commit_with md cx actorID p heads operations pool =
     (let cp = merge_commit_params p operations actorID;
          f = merge_write md cx actorID p heads pool in
      case Commit (md_pg md) (md_sha md) (md_renum md) (md_guard md) cp
             (Some (\<lambda>stateID. tx_bind (f stateID) (\<lambda>_. tx_return ()))) pool of
        (Inl e, db') \<Rightarrow> (Inl (unwrapWriteError e), db')
      | (Inr (s, c), db') \<Rightarrow>
          (case assigned (f (ps_ID s)) (callback_rows (md_pg md) cp s pool) of
             None \<Rightarrow> (Inl (Sentinel merge_ErrStore), db')
           | Some (written, mergeRow, closed) \<Rightarrow>
               (Inr \<lparr>mr_Number = in_Number (pp_input p), mr_Merge = mergeRow, mr_State = Some s, mr_Commit = Some c,
                  mr_Plan = Some (pp_plan p), mr_Written = written, mr_SourceBranchClosed = closed, mr_Replayed = False\<rparr>, db')))"

definition merge_commit ::
  "('c, 'p) MergeDeps \<Rightarrow> CallCtx \<Rightarrow> string \<Rightarrow> prepared \<Rightarrow> (database \<Rightarrow> database) \<Rightarrow> database \<Rightarrow> (go_error + MergeResult) \<times> database" where
  "merge_commit md cx actorID p between db =
     (let (objectIDs, relationIDs) = materializedContainers (pp_plan p) in
      case mergestore_VersionHeads (md_pg md) objectIDs relationIDs db of
        Inl e \<Rightarrow> (Inl (Errorf (Sentinel merge_ErrStore)), db)
      | Inr heads \<Rightarrow>
          (case operationsFor (pp_plan p) heads of
             Inl e \<Rightarrow> (Inl e, db)
           | Inr operations \<Rightarrow> commit_with md cx actorID p heads operations (between db)))"

section \<open>The Git step\<close>

definition MainRef :: string where "MainRef = ''refs/heads/main''"
definition zeroSHA :: string where "zeroSHA = replicate 40 (CHR ''0'')"

record RefUpdate =
  ru_Ref :: string
  ru_OldSHA :: string
  ru_NewSHA :: string
  ru_Actor :: string
  ru_ViaMerge :: bool

datatype ref_violation = ErrMainDirectPush | ErrMainDelete

definition TrimPrefix :: "string \<Rightarrow> string \<Rightarrow> string" where
  "TrimPrefix s pre = (if take (length pre) s = pre then drop (length pre) s else s)"

definition RefGuard_Check :: "string \<Rightarrow> RefUpdate \<Rightarrow> ref_violation option" where
  "RefGuard_Check mergeService u =
     (if TrimPrefix (ru_Ref u) ''refs/heads/'' \<noteq> ''main'' then None
      else if ru_NewSHA u = [] \<or> ru_NewSHA u = zeroSHA then Some ErrMainDelete
      else if ru_Actor u \<noteq> mergeService then Some ErrMainDirectPush
      else None)"

definition violation_text :: "ref_violation \<Rightarrow> string" where
  "violation_text v = (case v of
      ErrMainDirectPush \<Rightarrow> ''gitprovider: direct push to protected main''
    | ErrMainDelete \<Rightarrow> ''gitprovider: deletion of protected main'')"

definition deref :: "string option \<Rightarrow> string" where
  "deref s = (case s of None \<Rightarrow> [] | Some t \<Rightarrow> t)"

text \<open>The source branch of a stored merge; \<open>None\<close> is the zero branch of a row that names none.\<close>

definition sourceBranchOf :: "('c, 'p) MergeDeps \<Rightarrow> SemanticMerge \<Rightarrow> database \<Rightarrow> go_error + Branch option" where
  "sourceBranchOf md m db =
     (if sg_SourceBranchID m = [] then Inr None
      else map_sum (\<lambda>e. if errors_Is e merge_ErrBranchNotFound then Sentinel merge_ErrBranchNotFound else Errorf (Sentinel merge_ErrStore))
             Some (mergestore_GetBranchByID (md_pg md) (sg_SourceBranchID m) db))"

definition git_request :: "MergeResult \<Rightarrow> Branch option \<Rightarrow> Plan \<Rightarrow> GitMergeRequest" where
  "git_request res source plan =
     \<lparr>gr_ProjectID = sg_ProjectID (mr_Merge res), gr_Number = mr_Number res,
      gr_TargetRef = deref (sg_GitRef (mr_Merge res)),
      gr_SourceRef = (case source of None \<Rightarrow> [] | Some b \<Rightarrow> deref (gitRefOf b)),
      gr_TargetSHA = deref (st_GitRef (pl_Target plan)), gr_SourceSHA = deref (st_GitRef (pl_Source plan))\<rparr>"

definition judged_update :: "('c, 'p) MergeDeps \<Rightarrow> MergeResult \<Rightarrow> Plan \<Rightarrow> GitMergeResult \<Rightarrow> GitStepParams \<Rightarrow> GitStepParams" where
  "judged_update md res plan result step =
     (case RefGuard_Check (md_MergeService md) \<lparr>ru_Ref = deref (sg_GitRef (mr_Merge res)),
              ru_OldSHA = deref (st_GitRef (pl_Target plan)), ru_NewSHA = gm_SHA result, ru_Actor = gm_Actor result, ru_ViaMerge = True\<rparr> of
        Some v \<Rightarrow> step\<lparr>gs_State := GitStateFailed, gs_Error := violation_text v\<rparr>
      | None \<Rightarrow> step\<lparr>gs_State := GitStateUpdated, gs_SHA := gm_SHA result\<rparr>)"

definition git_step :: "('c, 'p) MergeDeps \<Rightarrow> MergeResult \<Rightarrow> Plan \<Rightarrow> database \<Rightarrow> GitStepParams" where
  "git_step md res plan db =
     (let step = \<lparr>gs_MergeID = sg_ID (mr_Merge res), gs_Ref = sg_GitRef (mr_Merge res), gs_SHA = [],
                   gs_State = GitStatePending, gs_Error = []\<rparr> in
      case md_Git md of
        None \<Rightarrow> step\<lparr>gs_Error := ''no provider merge adapter is wired''\<rparr>
      | Some git \<Rightarrow>
          (case sourceBranchOf md (mr_Merge res) db of
             Inl e \<Rightarrow> step\<lparr>gs_State := GitStateFailed, gs_Error := ''resolve the merge's source ref: '' @ md_error_text md e\<rparr>
           | Inr source \<Rightarrow>
               if (case source of None \<Rightarrow> False | Some b \<Rightarrow> bn_ID b \<noteq> [] \<and> bn_ProjectID b \<noteq> sg_ProjectID (mr_Merge res))
               then step\<lparr>gs_State := GitStateFailed, gs_Error := ''the source branch lives in another project''\<rparr>
               else (case git (git_request res source plan) of
                       Inl e \<Rightarrow> step\<lparr>gs_State := GitStateFailed, gs_Error := md_error_text md e\<rparr>
                     | Inr result \<Rightarrow> judged_update md res plan result step)))"

definition runGitStep :: "('c, 'p) MergeDeps \<Rightarrow> MergeResult \<Rightarrow> Plan \<Rightarrow> database \<Rightarrow> MergeResult \<times> database" where
  "runGitStep md res plan db =
     (let step = git_step md res plan db in
      case (if gs_State step = GitStateUpdated then CompleteGitStep (md_pg md) step db
            else RecordGitAttempt (md_pg md) step db) of
        (Inl _, db') \<Rightarrow> (res, db')
      | (Inr updated, db') \<Rightarrow> (res\<lparr>mr_Merge := updated\<rparr>, db'))"

definition retryGitStep :: "('c, 'p) MergeDeps \<Rightarrow> MergeResult \<Rightarrow> database \<Rightarrow> MergeResult \<times> database" where
  "retryGitStep md res db =
     (if sg_Plan (mr_Merge res) = [] then (res, db)
      else case md_plan_read md (sg_Plan (mr_Merge res)) of
        None \<Rightarrow> (res, db)
      | Some plan \<Rightarrow> runGitStep md (res\<lparr>mr_Plan := Some plan\<rparr>) plan db)"

section \<open>The command\<close>

text \<open>\<open>Inr None\<close> proceeds to a fresh merge.\<close>

definition replay :: "('c, 'p) MergeDeps \<Rightarrow> MergeInput \<Rightarrow> database \<Rightarrow> (merge_refusal + MergeResult option) \<times> database" where
  "replay md inp db =
     (case in_IdempotencyKey inp of
        None \<Rightarrow> (Inr None, db)
      | Some key \<Rightarrow>
          (case LookupMergeCreation (md_pg md) (in_Project inp) key db of
             Inl e \<Rightarrow> (Inl store_failure, db)
           | Inr None \<Rightarrow> (Inr None, db)
           | Inr (Some stored) \<Rightarrow>
               (let res = \<lparr>mr_Number = in_Number inp, mr_Merge = stored, mr_State = None, mr_Commit = None, mr_Plan = None,
                       mr_Written = [], mr_SourceBranchClosed = False, mr_Replayed = True\<rparr> in
                if sg_GitState stored \<noteq> GitStateUpdated then map_prod (\<lambda>r. Inr (Some r)) (\<lambda>d. d) (retryGitStep md res db)
                else (Inr (Some res), db))))"

definition as_versionHeadsMoved :: "go_error \<Rightarrow> bool" where
  "as_versionHeadsMoved e \<longleftrightarrow> list_ex (\<lambda>x. case x of versionHeadsMovedError _ _ _ _ \<Rightarrow> True | _ \<Rightarrow> False) (error_chain e)"

text \<open>The retry loop with \<open>n\<close> attempts left; the environment acts between the reads and the
  transaction of an attempt, between two attempts and before the Git step.\<close>

fun merge_attempts ::
  "('c, 'p) MergeDeps \<Rightarrow> CallCtx \<Rightarrow> string \<Rightarrow> prepared \<Rightarrow> (nat \<Rightarrow> database \<Rightarrow> database) \<Rightarrow> nat \<Rightarrow> nat \<Rightarrow> database
   \<Rightarrow> (merge_refusal + MergeResult) \<times> database" where
  "merge_attempts md cx actorID p env i 0 db = (Inl store_failure, db)"
| "merge_attempts md cx actorID p env i (Suc n) db =
     (case merge_commit md cx actorID p (env i) db of
        (Inr res, db') \<Rightarrow> map_prod Inr (\<lambda>d. d) (runGitStep md res (pp_plan p) (env (i + 1) db'))
      | (Inl e, db') \<Rightarrow>
          if as_versionHeadsMoved e then merge_attempts md cx actorID p env (i + 2) n (env (i + 1) db')
          else (Inl (MergeFailed e), db'))"

definition max_attempts :: "('c, 'p) MergeDeps \<Rightarrow> nat" where
  "max_attempts md = (if md_MaxAttempts md \<le> 0 then defaultAttempts else nat (md_MaxAttempts md))"

definition service_Merge ::
  "('c, 'p) MergeDeps \<Rightarrow> (nat \<Rightarrow> database \<Rightarrow> database) \<Rightarrow> CallCtx \<Rightarrow> string \<Rightarrow> MergeInput \<Rightarrow> database
   \<Rightarrow> (merge_refusal + MergeResult) \<times> database" where
  "service_Merge md env cx actorID inp db =
     (case merge_validateInput inp actorID of
        Some e \<Rightarrow> (Inl e, db)
      | None \<Rightarrow>
          (case requireMerge md actorID (in_Project inp) db of
             Some e \<Rightarrow> (Inl e, db)
           | None \<Rightarrow>
               (case replay md inp db of
                  (Inl e, db1) \<Rightarrow> (Inl e, db1)
                | (Inr (Some res), db1) \<Rightarrow> (Inr res, db1)
                | (Inr None, db1) \<Rightarrow>
                    (case prepare md inp db1 of
                       Inl e \<Rightarrow> (Inl e, db1)
                     | Inr p \<Rightarrow>
                         let db2 = env 0 db1 in
                         (case requirePolicy md actorID (in_Project inp) db2 of
                            Some e \<Rightarrow> (Inl e, db2)
                          | None \<Rightarrow>
                              let db3 = env 1 db2 in
                              (case requireIntegrity md inp db3 of
                                 Some e \<Rightarrow> (Inl e, db3)
                               | None \<Rightarrow> merge_attempts md cx actorID p env 2 (max_attempts md) db3))))))"

end
