(* ===== verification/MergeProtocol.thy ===== *)
theory MergeProtocol
  imports MergeExec CommitProtocol
begin

text \<open>
  The properties of the merge command: what its transaction leaves behind, what the write fence
  guarantees about the triple a human decided, that a PR merges once, and what a replay does.
\<close>

section \<open>Effects of the merge store\<close>

lemma insertCarriedConflict_effect:
  assumes "insertCarriedConflict pg m p r c db = Inr ((), db')"
  obtains row where "db' = db\<lparr>db_merge_conflicts := db_merge_conflicts db @ [row], db_seq := Suc (db_seq db)\<rparr>"
    and "mc_MergeID row = m" and "mc_Kind row = wc_Decision c" and "textUUID pg (wc_TargetID c) = Some (mc_TargetID row)"
  using assms by (auto simp: insertCarriedConflict_def tx_raise_def intro!: that split: option.splits)

lemma insertCarriedConflicts_effect:
  assumes "insertCarriedConflicts pg m p r cs db = Inr ((), db')"
  obtains rows where "db' = db\<lparr>db_merge_conflicts := db_merge_conflicts db @ rows, db_seq := db_seq db + length cs\<rparr>"
    and "map mc_Kind rows = map wc_Decision cs" and "\<forall>row \<in> set rows. mc_MergeID row = m"
  using assms
proof (induction cs arbitrary: db thesis)
  case Nil
  then show ?case by (simp add: tx_return_def)
next
  case (Cons c cs)
  from Cons.prems(2) obtain db1 where 1: "insertCarriedConflict pg m p r c db = Inr ((), db1)"
    and 2: "insertCarriedConflicts pg m p r cs db1 = Inr ((), db')" by (auto simp: tx_bind_Inr)
  obtain row where row: "db1 = db\<lparr>db_merge_conflicts := db_merge_conflicts db @ [row], db_seq := Suc (db_seq db)\<rparr>"
    "mc_MergeID row = m" "mc_Kind row = wc_Decision c"
    using 1 by (rule insertCarriedConflict_effect)
  obtain rows where rows: "db' = db1\<lparr>db_merge_conflicts := db_merge_conflicts db1 @ rows, db_seq := db_seq db1 + length cs\<rparr>"
    "map mc_Kind rows = map wc_Decision cs" "\<forall>row \<in> set rows. mc_MergeID row = m"
    by (rule Cons.IH [OF _ 2])
  show ?case by (rule Cons.prems(1) [of "row # rows"]) (use row rows in simp_all)
qed

text \<open>The stored row of a merge.\<close>

definition merge_row_of :: "pg \<Rightarrow> WriteMergeParams \<Rightarrow> SemanticMerge \<Rightarrow> bool" where
  "merge_row_of pg inp row \<longleftrightarrow>
     textUUID pg (wm_ProjectID inp) = Some (sg_ProjectID row) \<and> textUUID pg (wm_PullRequestID inp) = Some (sg_PullRequestID row)
     \<and> textUUID pg (wm_SourceBranchID inp) = Some (sg_SourceBranchID row)
     \<and> textUUID pg (wm_TargetBranchID inp) = Some (sg_TargetBranchID row)
     \<and> textUUID pg (wm_BaseStateID inp) = Some (sg_BaseStateID row)
     \<and> textUUID pg (wm_SourceStateID inp) = Some (sg_SourceStateID row)
     \<and> textUUID pg (wm_TargetStateID inp) = Some (sg_TargetStateID row)
     \<and> textUUID pg (wm_ResultStateID inp) = Some (sg_ResultStateID row)
     \<and> textUUID pg (wm_ActorID inp) = Some (sg_ActorID row)
     \<and> sg_PlanDigest row = wm_PlanDigest inp \<and> sg_GitState row = wm_GitState inp"

lemma merge_uuids_row:
  assumes "merge_uuids pg inp = Some row" and "textUUID pg (wm_ProjectID inp) = Some project"
  shows "merge_row_of pg inp (row\<lparr>sg_ProjectID := project\<rparr>)"
  using assms by (auto simp: merge_uuids_def merge_row_of_def split: list.splits option.splits)

lemma merge_row_update:
  "merge_row_of pg inp (row\<lparr>sg_ID := a, sg_Plan := b, sg_CreatedAt := c, sg_UpdatedAt := d\<rparr>) = merge_row_of pg inp row"
  by (simp add: merge_row_of_def)

lemma insert_merge_effect:
  assumes "insert_merge pg row plan db = Inr (r, db')"
  shows "db' = db\<lparr>db_merges := db_merges db @ [r], db_seq := Suc (db_seq db)\<rparr>"
    and "sg_PullRequestID r \<notin> sg_PullRequestID ` set (db_merges db)" and "sg_ID r \<notin> sg_ID ` set (db_merges db)"
    and "merge_row_of pg inp row \<Longrightarrow> merge_row_of pg inp r"
proof -
  from assms obtain s where "Option.bind plan (pg_jsonb pg) = Some s" by (auto simp: insert_merge_def split: option.splits)
  note * = assms [unfolded insert_merge_def Let_def this option.case violation_guard violation_ok]
  then show "db' = db\<lparr>db_merges := db_merges db @ [r], db_seq := Suc (db_seq db)\<rparr>"
    and "sg_PullRequestID r \<notin> sg_PullRequestID ` set (db_merges db)" "sg_ID r \<notin> sg_ID ` set (db_merges db)" by auto
  from * have "r = row\<lparr>sg_ID := sg_ID r, sg_Plan := sg_Plan r, sg_CreatedAt := sg_CreatedAt r, sg_UpdatedAt := sg_UpdatedAt r\<rparr>" by auto
  then show "merge_row_of pg inp row \<Longrightarrow> merge_row_of pg inp r" by (metis merge_row_update)
qed

definition unused_key :: "merge_creation \<Rightarrow> merge_creation list \<Rightarrow> bool" where
  "unused_key k ledger \<longleftrightarrow> (\<forall>r \<in> set ledger. \<not> (mk_ProjectID r = mk_ProjectID k \<and> mk_IdempotencyKey r = mk_IdempotencyKey k))"

lemma WriteMerge_effect:
  assumes "WriteMerge pg renum cx inp db = Inr (m, db')"
  obtains row conflicts keys audit n where
    "db' = db\<lparr>db_merges := db_merges db @ [row], db_merge_conflicts := db_merge_conflicts db @ conflicts,
      db_merge_creations := db_merge_creations db @ keys, db_audit := db_audit db @ audit, db_seq := n\<rparr>"
    and "merge_row_of pg inp row" and "sg_PullRequestID row \<notin> sg_PullRequestID ` set (db_merges db)"
    and "sg_ID row \<notin> sg_ID ` set (db_merges db)"
    and "m = returned_merge (sg_ID row) inp"
    and "map mc_Kind conflicts = map wc_Decision (wm_CarriedConflicts inp)"
    and "\<forall>c \<in> set conflicts. mc_MergeID c = sg_ID row"
    and "map mk_IdempotencyKey keys = (case wm_IdempotencyKey inp of None \<Rightarrow> [] | Some k \<Rightarrow> [k])"
    and "\<forall>k \<in> set keys. mk_MergeID k = sg_ID row \<and> mk_ProjectID k = sg_ProjectID row \<and> unused_key k (db_merge_creations db)"
    and "ae_Action (wm_Audit inp) \<noteq> [] \<longrightarrow> map au_Action audit = [ae_Action (wm_Audit inp)]"
proof -
  from assms obtain project plan row0 where p: "textUUID pg (wm_ProjectID inp) = Some project"
    and u: "merge_uuids pg inp = Some row0"
    and b: "tx_bind (mapping_errors (\<lambda>e. case as_PgError e of
                       Some (code, _) \<Rightarrow> if code = ''23505'' then AlreadyMergedError (wm_PullRequestID inp) else Errorf e
                     | None \<Rightarrow> Errorf e)
                   (insert_merge pg (row0\<lparr>sg_ProjectID := project\<rparr>) plan)) (\<lambda>r.
                 tx_bind (insertCarriedConflicts pg (sg_ID r) project (sg_ResultStateID r) (wm_CarriedConflicts inp)) (\<lambda>_.
                 tx_bind (case wm_IdempotencyKey inp of
                     None \<Rightarrow> tx_return ()
                   | Some key \<Rightarrow> mapping_errors Errorf (CreateMergeCreation project key (sg_ID r))) (\<lambda>_.
                 tx_bind (if ae_Action (wm_Audit inp) \<noteq> []
                          then appendAudit pg cx ((wm_Audit inp)\<lparr>ae_TargetRef := ''merge:'' @ sg_ID r\<rparr>)
                          else tx_return ()) (\<lambda>_.
                   tx_return (returned_merge (sg_ID r) inp))))) db = Inr (m, db')"
    unfolding WriteMerge_def by (auto simp: tx_raise_def split: option.splits if_splits)
  from b obtain row db1 db2 db3 where 1: "insert_merge pg (row0\<lparr>sg_ProjectID := project\<rparr>) plan db = Inr (row, db1)"
    and 2: "insertCarriedConflicts pg (sg_ID row) project (sg_ResultStateID row) (wm_CarriedConflicts inp) db1 = Inr ((), db2)"
    and 3: "(case wm_IdempotencyKey inp of None \<Rightarrow> tx_return ()
        | Some key \<Rightarrow> mapping_errors Errorf (CreateMergeCreation project key (sg_ID row))) db2 = Inr ((), db3)"
    and 4: "(if ae_Action (wm_Audit inp) \<noteq> [] then appendAudit pg cx ((wm_Audit inp)\<lparr>ae_TargetRef := ''merge:'' @ sg_ID row\<rparr>)
        else tx_return ()) db3 = Inr ((), db')"
    and m: "m = returned_merge (sg_ID row) inp"
    unfolding tx_bind_Inr mapping_errors_Inr by (auto simp: tx_return_def)
  note e1 = insert_merge_effect [OF 1]
  have r: "merge_row_of pg inp row" by (rule e1(4) [OF merge_uuids_row [OF u p]])
  obtain cs where e2: "db2 = db1\<lparr>db_merge_conflicts := db_merge_conflicts db1 @ cs, db_seq := db_seq db1 + length (wm_CarriedConflicts inp)\<rparr>"
    "map mc_Kind cs = map wc_Decision (wm_CarriedConflicts inp)" "\<forall>c \<in> set cs. mc_MergeID c = sg_ID row"
    using 2 by (rule insertCarriedConflicts_effect)
  obtain ks where e3: "db3 = db2\<lparr>db_merge_creations := db_merge_creations db2 @ ks\<rparr>"
    "map mk_IdempotencyKey ks = (case wm_IdempotencyKey inp of None \<Rightarrow> [] | Some k \<Rightarrow> [k])"
    "\<forall>k \<in> set ks. mk_MergeID k = sg_ID row \<and> mk_ProjectID k = project \<and> unused_key k (db_merge_creations db2)"
  proof (cases "wm_IdempotencyKey inp")
    case None
    then show ?thesis using 3 that [of "[]"] by (simp add: tx_return_def)
  next
    case (Some key)
    then show ?thesis using 3 that [of "[\<lparr>mk_ProjectID = project, mk_IdempotencyKey = key, mk_MergeID = sg_ID row\<rparr>]"]
      by (auto simp: mapping_errors_Inr CreateMergeCreation_def unused_key_def list_ex_iff split: option.splits if_splits)
  qed
  obtain as where e4: "db' = db3\<lparr>db_audit := db_audit db3 @ as\<rparr>"
    "ae_Action (wm_Audit inp) \<noteq> [] \<Longrightarrow> map au_Action as = [ae_Action (wm_Audit inp)]"
  proof (cases "ae_Action (wm_Audit inp) = []")
    case True
    then show ?thesis using 4 that [of "[]"] by (simp add: tx_return_def)
  next
    case False
    then have "appendAudit pg cx ((wm_Audit inp)\<lparr>ae_TargetRef := ''merge:'' @ sg_ID row\<rparr>) db3 = Inr ((), db')" using 4 by simp
    then obtain a where "db' = db3\<lparr>db_audit := db_audit db3 @ [a]\<rparr>" "au_Action a = ae_Action (wm_Audit inp)"
      by (rule appendAudit_effect) simp
    then show ?thesis using that [of "[a]"] by simp
  qed
  have pr: "sg_ProjectID row = project" using r p by (simp add: merge_row_of_def)
  show ?thesis
    by (rule that [where row = row and conflicts = cs and keys = ks and audit = as and n = "db_seq db'"])
      (use e1(1-3) e2 e3 e4 r m pr in simp_all)
qed

lemma MarkPullRequestMerged_effect:
  assumes "MarkPullRequestMerged pg projectID prID db = Inr ((), db')"
  obtains p i where "textUUID pg projectID = Some p" and "textUUID pg prID = Some i"
    and "length (filter (merge_ready_row i p) (db_pull_requests db)) = 1"
    and "db' = db\<lparr>db_pull_requests := map (\<lambda>r. if merge_ready_row i p r
        then r\<lparr>pq_State := PullRequestStateMerged, pq_MergedAt := Some (pg_now pg)\<rparr> else r) (db_pull_requests db)\<rparr>"
  using assms by (auto simp: MarkPullRequestMerged_def tx_raise_def split: option.splits if_splits)

lemma MarkBranchMerged_effect:
  assumes "MarkBranchMerged pg branchID db = Inr ((), db')"
  obtains i where "textUUID pg branchID = Some i" and "length (filter (closable i) (db_branches db)) = 1"
    and "db' = db\<lparr>db_branches := map (\<lambda>b. if closable i b then b\<lparr>bn_Lifecycle := ''merged''\<rparr> else b) (db_branches db)\<rparr>"
  using assms by (auto simp: MarkBranchMerged_def tx_raise_def split: option.splits if_splits)

section \<open>Effects of the write callback\<close>

lemma lock_side_effect:
  assumes "lock_side pg side db = Inr (b, db')"
  shows "db' = db" and "b \<in> set (db_branches db)" and "textUUID pg (snd side) = Some (bn_ID b)"
  using assms
  by (auto simp: lock_side_def GetBranchByProjectAndID_def mapping_errors_Inr tx_raise_def find_Some_iff
      split: option.splits)

lemma LockMergeScope_effect:
  assumes "LockMergeScope pg inp db = Inr (scope, db')"
  shows "db' = db" and "ms_Source scope \<in> set (db_branches db)" and "ms_Target scope \<in> set (db_branches db)"
    and "textUUID pg (ls_SourceBranchID inp) = Some (bn_ID (ms_Source scope))"
    and "textUUID pg (ls_TargetBranchID inp) = Some (bn_ID (ms_Target scope))"
    and "ms_PullRequest scope \<in> set (db_pull_requests db)"
    and "textUUID pg (ls_ProjectID inp) = Some (pq_ProjectID (ms_PullRequest scope))"
    and "pq_Number (ms_PullRequest scope) = ls_PRNumber inp"
    and "find (\<lambda>r. pq_ProjectID r = pq_ProjectID (ms_PullRequest scope) \<and> pq_Number r = ls_PRNumber inp) (db_pull_requests db)
           = Some (ms_PullRequest scope)"
proof -
  define s1 s2 where "s1 = (the (textUUID pg (ls_SourceProjectID inp)), ls_SourceBranchID inp)"
    and "s2 = (the (textUUID pg (ls_ProjectID inp)), ls_TargetBranchID inp)"
  from assms obtain p sp where p: "textUUID pg (ls_ProjectID inp) = Some p" "textUUID pg (ls_SourceProjectID inp) = Some sp"
    by (auto simp: LockMergeScope_def tx_raise_def split: option.splits)
  obtain side1 side2 where o: "(if snd s2 < snd s1 then (s2, s1) else (s1, s2)) = (side1, side2)" by (metis surj_pair)
  then have sides: "{side1, side2} = {s1, s2}" by (auto split: if_splits)
  obtain b1 b2 pr db1 db2 where b1: "lock_side pg side1 db = Inr (b1, db1)" and b2: "lock_side pg side2 db1 = Inr (b2, db2)"
    and pr: "GetPullRequestByProjectAndNumber p (ls_PRNumber inp) db2 = Inr (pr, db')"
    and sc: "scope = \<lparr>ms_PullRequest = pr,
        ms_Source = the (map_of (AList.update (snd side2) b2 [(snd side1, b1)]) (ls_SourceBranchID inp)),
        ms_Target = the (map_of (AList.update (snd side2) b2 [(snd side1, b1)]) (ls_TargetBranchID inp))\<rparr>"
    using assms o unfolding LockMergeScope_def p s1_def s2_def option.sel option.case Let_def
    by (auto simp: tx_bind_Inr mapping_errors_Inr tx_return_def)
  note l1 = lock_side_effect [OF b1] and l2 = lock_side_effect [OF b2]
  define pick where "pick = (\<lambda>k. the (map_of (AList.update (snd side2) b2 [(snd side1, b1)]) k))"
  have sc': "ms_Source scope = pick (ls_SourceBranchID inp)" "ms_Target scope = pick (ls_TargetBranchID inp)"
    by (simp_all add: sc pick_def del: map_of_update)
  have m: "pick k \<in> {b1, b2}" "textUUID pg k = Some (bn_ID (pick k))" if "k = snd side1 \<or> k = snd side2" for k
    using that l1(3) l2(3) unfolding pick_def by auto
  have b: "b1 \<in> set (db_branches db)" "b2 \<in> set (db_branches db)" using l1(1,2) l2(1,2) by simp_all
  have k: "ls_SourceBranchID inp = snd side1 \<or> ls_SourceBranchID inp = snd side2"
    "ls_TargetBranchID inp = snd side1 \<or> ls_TargetBranchID inp = snd side2"
    using sides by (auto simp: s1_def s2_def doubleton_eq_iff)
  show "db' = db" using l1(1) l2(1) pr by (auto simp: GetPullRequestByProjectAndNumber_def split: option.splits)
  show "ms_Source scope \<in> set (db_branches db)" "textUUID pg (ls_SourceBranchID inp) = Some (bn_ID (ms_Source scope))"
    unfolding sc' using m [OF k(1)] b by auto
  show "ms_Target scope \<in> set (db_branches db)" "textUUID pg (ls_TargetBranchID inp) = Some (bn_ID (ms_Target scope))"
    unfolding sc' using m [OF k(2)] b by auto
  have f: "find (\<lambda>r. pq_ProjectID r = p \<and> pq_Number r = ls_PRNumber inp) (db_pull_requests db) = Some (ms_PullRequest scope)"
    using pr l1(1) l2(1) by (auto simp: sc GetPullRequestByProjectAndNumber_def split: option.splits)
  then show m: "ms_PullRequest scope \<in> set (db_pull_requests db)"
    and t: "textUUID pg (ls_ProjectID inp) = Some (pq_ProjectID (ms_PullRequest scope))"
    and "pq_Number (ms_PullRequest scope) = ls_PRNumber inp"
    using p(1) by (auto simp: find_Some_iff)
  show "find (\<lambda>r. pq_ProjectID r = pq_ProjectID (ms_PullRequest scope) \<and> pq_Number r = ls_PRNumber inp) (db_pull_requests db)
      = Some (ms_PullRequest scope)"
    using f t p(1) by simp
qed

lemma LockVersionHeads_effect:
  "LockVersionHeads pg os rs db = Inr (heads, db') \<longleftrightarrow>
     db' = db \<and> readVersionHeads pg (\<lambda>q. map_sum (\<lambda>e. e) fst (q db)) os rs = Inr heads"
  by (auto simp: LockVersionHeads_def split: sum.splits)

lemma refuse_if_Inr: "refuse_if e db = Inr (u, db') \<longleftrightarrow> e = None \<and> db' = db"
  by (cases e) (auto simp: refuse_if_def tx_return_def tx_raise_def)

lemma tx_lift_Inr: "tx_lift r db = Inr (x, db') \<longleftrightarrow> r = Inr x \<and> db' = db"
  by (cases r) (auto simp: tx_lift_def tx_return_def tx_raise_def)

lemma tx_fold_steps:
  assumes "\<And>x s db s' db'. x \<in> set xs \<Longrightarrow> f x s db = Inr (s', db') \<Longrightarrow> R\<^sup>*\<^sup>* db db'"
    and "tx_fold f xs s db = Inr (s', db')"
  shows "R\<^sup>*\<^sup>* db db'"
  using assms
proof (induction xs arbitrary: s db)
  case Nil
  then show ?case by (simp add: tx_return_def)
next
  case (Cons x xs)
  then obtain s1 db1 where 1: "f x s db = Inr (s1, db1)" and 2: "tx_fold f xs s1 db1 = Inr (s', db')"
    by (auto simp: tx_bind_Inr)
  have "R\<^sup>*\<^sup>* db db1" by (rule Cons.prems(1) [OF _ 1]) simp
  moreover have "R\<^sup>*\<^sup>* db1 db'" by (rule Cons.IH [OF Cons.prems(1) 2]) simp_all
  ultimately show ?case by (rule rtranclp_trans)
qed

lemma materialize_change_write:
  assumes "materialize_change md pool sid p heads actor c acc db = Inr (acc', db')"
  shows "semantic_write\<^sup>*\<^sup>* db db'"
proof -
  have "db' = db \<or> semantic_write db db'"
    using assms
    by (auto simp: materialize_change_def materialize_object_def materialize_relation_def tx_bind_Inr tx_lift_Inr
        tx_return_def tx_raise_def split: if_splits option.splits dest: semantic_write.intros(2,4))
  then show ?thesis by blast
qed

lemma materialize_write:
  assumes "materialize md pool sid p heads actor db = Inr (written, db')"
  shows "semantic_write\<^sup>*\<^sup>* db db'"
proof -
  from assms obtain acc where "tx_fold (materialize_change md pool sid p heads actor) (Materialized (pp_plan p)) ([], []) db = Inr (acc, db')"
    by (auto simp: materialize_def tx_bind_Inr tx_return_def)
  then show ?thesis by (rule tx_fold_steps [rotated]) (rule materialize_change_write)
qed

lemma closeSourceBranch_effect:
  assumes "closeSourceBranch md p scope db = Inr (closed, db')"
  shows "closed \<longleftrightarrow> \<not> IsMain (pp_sourceBranch p) \<and> bn_BaseStateID (ms_Source scope) = Some (pp_sourceStateID p)"
    and "\<not> closed \<Longrightarrow> db' = db"
    and "closed \<Longrightarrow> MarkBranchMerged (md_pg md) (bn_ID (pp_sourceBranch p)) db = Inr ((), db')"
  using assms by (auto simp: closeSourceBranch_def tx_bind_Inr tx_return_def split: if_splits)

text \<open>The recorder a deployment wires.\<close>

definition records_events :: "('c, 'p) MergeDeps \<Rightarrow> bool" where
  "records_events md \<longleftrightarrow> (\<forall>f. md_Events md = Some f \<longrightarrow> f = Record (md_pg md) (md_renum md))"

lemma merge_writeE:
  assumes "merge_write md cx actor p heads pool sid db = Inr ((written, row, closed), db')" and "records_events md"
  obtains scope locked db1 db2 db3 db4 where "LockMergeScope (md_pg md) (lock_params p) db = Inr (scope, db)"
    and "verifyScope scope p sid = None"
    and "LockVersionHeads (md_pg md) (fst (materializedContainers (pp_plan p))) (snd (materializedContainers (pp_plan p))) db = Inr (locked, db)"
    and "VersionHeads_Equal heads locked = None"
    and "materialize md pool sid p heads actor db = Inr (written, db1)"
    and "WriteMerge (md_pg md) (md_renum md) cx (mergeParams md p sid actor) db1 = Inr (row, db2)"
    and "Record (md_pg md) (md_renum md) cx
          \<lparr>ev_EventType = eventPullRequestMerged, ev_ActorID = actor, ev_ProjectID = in_Project (pp_input p),
           ev_Visibility = eventVisibility (bn_Visibility (pp_targetBranch p)), ev_Via = mergeVia, ev_CorrelationID = [],
           ev_Payload = mergeEventPayload p (sg_ID row) sid\<rparr> db2 = Inr ((), db3)"
    and "MarkPullRequestMerged (md_pg md) (in_Project (pp_input p)) (pq_ID (pp_pr p)) db3 = Inr ((), db4)"
    and "closeSourceBranch md p scope db4 = Inr (closed, db')"
proof -
  obtain os rs where c: "materializedContainers (pp_plan p) = (os, rs)" by (cases "materializedContainers (pp_plan p)")
  from assms(1) obtain scope db0 locked dbl db1 db2 db3 db4 where
    1: "LockMergeScope (md_pg md) (lock_params p) db = Inr (scope, db0)" and v: "verifyScope scope p sid = None"
    and l: "LockVersionHeads (md_pg md) os rs db0 = Inr (locked, dbl)" and q: "VersionHeads_Equal heads locked = None"
    and m: "materialize md pool sid p heads actor dbl = Inr (written, db1)"
    and w: "WriteMerge (md_pg md) (md_renum md) cx (mergeParams md p sid actor) db1 = Inr (row, db2)"
    and r: "recordMergeEvent md cx p actor (sg_ID row) sid db2 = Inr ((), db3)"
    and k: "MarkPullRequestMerged (md_pg md) (in_Project (pp_input p)) (pq_ID (pp_pr p)) db3 = Inr ((), db4)"
    and s: "closeSourceBranch md p scope db4 = Inr (closed, db')"
    unfolding merge_write_def c Let_def prod.case tx_bind_Inr refuse_if_Inr by (auto simp: tx_return_def)
  have e: "db0 = db" "dbl = db" using LockMergeScope_effect(1) [OF 1] l by (simp_all add: LockVersionHeads_effect)
  have rr: "Record (md_pg md) (md_renum md) cx
          \<lparr>ev_EventType = eventPullRequestMerged, ev_ActorID = actor, ev_ProjectID = in_Project (pp_input p),
           ev_Visibility = eventVisibility (bn_Visibility (pp_targetBranch p)), ev_Via = mergeVia, ev_CorrelationID = [],
           ev_Payload = mergeEventPayload p (sg_ID row) sid\<rparr> db2 = Inr ((), db3)"
    using r assms(2) by (auto simp: recordMergeEvent_def records_events_def tx_raise_def split: option.splits)
  show ?thesis by (rule that [OF _ v _ q _ w rr k s]) (use 1 l m e c in simp_all)
qed

section \<open>What is materialized\<close>

text \<open>A version row of the accepted state that carries the content of a source version.\<close>

definition object_landed ::
  "('c, 'p) MergeDeps \<Rightarrow> string \<Rightarrow> prepared \<Rightarrow> VersionHeads \<Rightarrow> string \<Rightarrow> Change \<Rightarrow> version_row \<Rightarrow> bool" where
  "object_landed md sid p heads actor c row \<longleftrightarrow>
     (\<exists>src canonical. map_of (objectVersionsOf (pp_plan p)) (ch_TargetID c) = Some src
        \<and> pg_jsonb (md_pg md) (ov_Payload src) = Some canonical
        \<and> pg_jsonb (md_pg md) canonical = Some (sv_Payload (vr_version row))
        \<and> textUUID (md_pg md) (ch_TargetID c) = Some (sv_ObjectID (vr_version row))
        \<and> sv_VersionNo (vr_version row) = int32 (head_of (vh_Objects heads) (ch_TargetID c)) + 1
        \<and> textUUID (md_pg md) sid = Some (sv_StateID (vr_version row))
        \<and> textUUID (md_pg md) actor = Some (sv_CreatedBy (vr_version row))
        \<and> sv_SchemaID (vr_version row) = sr_ID (ov_SchemaRef src)
        \<and> sv_SchemaVersion (vr_version row) = sr_Version (ov_SchemaRef src)
        \<and> sv_Title (vr_version row) = ov_Title src \<and> sv_LifecycleState (vr_version row) = ov_LifecycleState src
        \<and> ptr_uuid (md_pg md) (ov_VisibilityPolicyID src) = Some (sv_VisibilityPolicyID (vr_version row))
        \<and> (ov_LifecycleState src = LifecycleAborted \<longrightarrow> sv_Abort (vr_version row) \<noteq> None))"

text \<open>A pin of a landed edge: as the source names it, or, where the plan rewrote it to an object of
  the same merge, the version of that object this merge has written (\<open>landed\<close>).\<close>

definition pin_landed ::
  "('c, 'p) MergeDeps \<Rightarrow> version_row list \<Rightarrow> Change \<Rightarrow> string \<Rightarrow> string \<Rightarrow> bool" where
  "pin_landed md landed c pin stored \<longleftrightarrow>
     (case map_of (ch_EndpointRewrites c) pin of
        None \<Rightarrow> textUUID (md_pg md) pin = Some stored
      | Some objectID \<Rightarrow> \<exists>r \<in> set landed. textUUID (md_pg md) objectID = Some (sv_ObjectID (vr_version r))
          \<and> textUUID (md_pg md) (sv_ID (vr_version r)) = Some stored)"

definition relation_landed ::
  "('c, 'p) MergeDeps \<Rightarrow> string \<Rightarrow> prepared \<Rightarrow> VersionHeads \<Rightarrow> string \<Rightarrow> version_row list \<Rightarrow> Change \<Rightarrow> RelationVersion \<Rightarrow> bool" where
  "relation_landed md sid p heads actor landed c row \<longleftrightarrow>
     (\<exists>src canonical. map_of (relationVersionsOf (pp_plan p)) (ch_TargetID c) = Some src
        \<and> pg_jsonb (md_pg md) (rv_Payload src) = Some canonical
        \<and> pg_jsonb (md_pg md) canonical = Some (rv_Payload row)
        \<and> textUUID (md_pg md) (ch_TargetID c) = Some (rv_RelationID row)
        \<and> rv_VersionNo row = int32 (head_of (vh_Relations heads) (ch_TargetID c)) + 1
        \<and> textUUID (md_pg md) sid = Some (rv_StateID row)
        \<and> textUUID (md_pg md) actor = Some (rv_CreatedBy row)
        \<and> rv_RelationType row = rv_RelationType src
        \<and> pin_landed md landed c (rv_SourceObjectVersionID src) (rv_SourceObjectVersionID row)
        \<and> pin_landed md landed c (rv_TargetObjectVersionID src) (rv_TargetObjectVersionID row))"

text \<open>The version ids the writer remembers are those of the rows it has written.\<close>

definition remembers :: "('c, 'p) MergeDeps \<Rightarrow> version_row list \<Rightarrow> (string \<times> string) list \<Rightarrow> bool" where
  "remembers md landed m \<longleftrightarrow>
     (\<forall>o' v. map_of m o' = Some v \<longrightarrow> (\<exists>r \<in> set landed. textUUID (md_pg md) o' = Some (sv_ObjectID (vr_version r)) \<and> sv_ID (vr_version r) = v))"

lemma CreateVersionInTx_effect:
  assumes "CreateVersionInTx pg objectID expected vp db = Inr (v, db')"
  obtains i arg row where "textUUID pg objectID = Some i" and "versionInsertParams pg objectID 0 vp = Some arg"
    and "vr_version row = v" and "stored_as pg (on_version (\<lambda>v. v\<lparr>sv_VersionNo := int32 expected + 1\<rparr>) arg) row"
    and "db' = db\<lparr>db_objects := map (\<lambda>r. if so_ID r = i \<and> so_CurrentVersionNo r = int32 expected
            then r\<lparr>so_CurrentVersionNo := int32 expected + 1\<rparr> else r) (db_objects db),
      db_object_versions := db_object_versions db @ [row], db_seq := Suc (db_seq db)\<rparr>"
proof -
  from assms obtain i arg n db1 ins db2 row where i: "textUUID pg objectID = Some i"
    and arg: "versionInsertParams pg objectID 0 vp = Some arg"
    and b: "bump_object mapObjectTxWriteError objectID i expected db = Inr (n, db1)"
    and h: "canonicalizeAndHash pg (on_version (\<lambda>v. v\<lparr>sv_VersionNo := n\<rparr>) arg) db1 = Inr (ins, db2)"
    and r: "CreateScientificObjectVersion pg ins db2 = Inr (row, db')" and v: "v = vr_version row"
    by (auto simp: CreateVersionInTx_def tx_simps split: option.splits)
  show ?thesis by (rule that [OF i arg v [symmetric] append_version_effect(3,2) [OF b h r]])
qed

lemma AppendRelationVersionInTx_effect:
  assumes "AppendRelationVersionInTx pg relationID expected rp db = Inr (v, db')"
  obtains i arg where "textUUID pg relationID = Some i" and "relationInsertParams pg relationID 0 rp = Some arg"
    and "relation_stored_as pg (arg\<lparr>rv_VersionNo := int32 expected + 1\<rparr>) v"
    and "db' = db\<lparr>db_relations := map (\<lambda>r. if rn_ID r = i \<and> rn_CurrentVersionNo r = int32 expected
            then r\<lparr>rn_CurrentVersionNo := int32 expected + 1\<rparr> else r) (db_relations db),
      db_relation_versions := db_relation_versions db @ [v], db_seq := Suc (db_seq db)\<rparr>"
proof -
  define wrap where "wrap = mapRelationTxWriteError (rp_SourceObjectVersionID rp) (rp_TargetObjectVersionID rp)"
  from assms obtain i arg n db1 ins db2 where i: "textUUID pg relationID = Some i"
    and arg: "relationInsertParams pg relationID 0 rp = Some arg"
    and b: "bump_relation wrap relationID i expected db = Inr (n, db1)"
    and h: "canonicalizeRelationAndHash pg (arg\<lparr>rv_VersionNo := n\<rparr>) db1 = Inr (ins, db2)"
    and r: "CreateRelationVersion pg ins db2 = Inr (v, db')"
    by (auto simp: AppendRelationVersionInTx_def wrap_def tx_simps Let_def split: option.splits)
  show ?thesis by (rule that [OF i arg append_relation_effect(3,2) [OF b h r]])
qed

lemma versionInsertParams_content:
  assumes "versionInsertParams pg objectID n vp = Some arg" and "textUUID pg objectID = Some i"
  shows "sv_ObjectID (vr_version arg) = i" and "textUUID pg (vp_StateID vp) = Some (sv_StateID (vr_version arg))"
    and "textUUID pg (vp_CreatedBy vp) = Some (sv_CreatedBy (vr_version arg))"
    and "ptr_uuid pg (vp_VisibilityPolicyID vp) = Some (sv_VisibilityPolicyID (vr_version arg))"
    and "sv_SchemaID (vr_version arg) = vp_SchemaID vp" "sv_SchemaVersion (vr_version arg) = vp_SchemaVersion vp"
    and "sv_Title (vr_version arg) = vp_Title vp" "sv_LifecycleState (vr_version arg) = vp_LifecycleState vp"
    and "sv_Payload (vr_version arg) = vp_Payload vp"
    and "vp_Abort vp \<noteq> None \<Longrightarrow> sv_Abort (vr_version arg) \<noteq> None"
proof -
  have ne: "objectID \<noteq> []" using assms(2) by (auto simp: textUUID_def)
  from assms(1) obtain ab key where a: "abortInsertParams pg vp = Some (ab, key)"
    by (auto simp: versionInsertParams_def split: Option.bind_splits)
  note * = assms(1) [unfolded versionInsertParams_def if_not_P [OF ne] assms(2) a Option.bind.bind_lunit prod.case]
  from * show "sv_ObjectID (vr_version arg) = i" "textUUID pg (vp_StateID vp) = Some (sv_StateID (vr_version arg))"
    "textUUID pg (vp_CreatedBy vp) = Some (sv_CreatedBy (vr_version arg))"
    "ptr_uuid pg (vp_VisibilityPolicyID vp) = Some (sv_VisibilityPolicyID (vr_version arg))"
    "sv_SchemaID (vr_version arg) = vp_SchemaID vp" "sv_SchemaVersion (vr_version arg) = vp_SchemaVersion vp"
    "sv_Title (vr_version arg) = vp_Title vp" "sv_LifecycleState (vr_version arg) = vp_LifecycleState vp"
    "sv_Payload (vr_version arg) = vp_Payload vp"
    by (auto split: Option.bind_splits)
  from * have "sv_Abort (vr_version arg) = ab" by (auto split: Option.bind_splits)
  moreover have "vp_Abort vp \<noteq> None \<Longrightarrow> ab \<noteq> None"
    using a by (auto simp: abortInsertParams_def Let_def split: if_splits option.splits)
  ultimately show "vp_Abort vp \<noteq> None \<Longrightarrow> sv_Abort (vr_version arg) \<noteq> None" by simp
qed

lemma relationInsertParams_content:
  assumes "relationInsertParams pg relationID n rp = Some arg" and "textUUID pg relationID = Some i"
  shows "rv_RelationID arg = i" and "textUUID pg (rp_StateID rp) = Some (rv_StateID arg)"
    and "textUUID pg (rp_SourceObjectVersionID rp) = Some (rv_SourceObjectVersionID arg)"
    and "textUUID pg (rp_TargetObjectVersionID rp) = Some (rv_TargetObjectVersionID arg)"
    and "rv_RelationType arg = rp_RelationType rp" "rv_Payload arg = rp_Payload rp"
    and "textUUID pg (rp_CreatedBy rp) = Some (rv_CreatedBy arg)"
  using assms by (auto simp: relationInsertParams_def textUUID_def split: Option.bind_splits if_splits)

lemma materialize_object_landed:
  assumes "materialize_object md pool sid p heads actor c acc db = Inr (acc', db')"
  obtains row objs n where "object_landed md sid p heads actor c row"
    and "db' = db\<lparr>db_objects := objs, db_object_versions := db_object_versions db @ [row], db_seq := n\<rparr>"
    and "snd acc' = snd acc @ [\<lparr>wv_TargetKind = ch_TargetKind c, wv_TargetID = ch_TargetID c,
           wv_VersionID = sv_ID (vr_version row), wv_VersionNo = sv_VersionNo (vr_version row)\<rparr>]"
    and "fst acc' = AList.update (ch_TargetID c) (sv_ID (vr_version row)) (fst acc)"
proof -
  from assms obtain src abort reopen v where s: "map_of (objectVersionsOf (pp_plan p)) (ch_TargetID c) = Some src"
    and a: "abortRecordFor md src pool = Inr abort"
    and c: "CreateVersionInTx (md_pg md) (ch_TargetID c) (head_of (vh_Objects heads) (ch_TargetID c))
         (object_content sid (bn_ID (pp_targetBranch p)) actor src abort reopen) db = Inr (v, db')"
    and acc: "acc' = (AList.update (ch_TargetID c) (sv_ID v) (fst acc), snd acc @ [\<lparr>wv_TargetKind = ch_TargetKind c,
         wv_TargetID = ch_TargetID c, wv_VersionID = sv_ID v, wv_VersionNo = sv_VersionNo v\<rparr>])"
    by (auto simp: materialize_object_def tx_bind_Inr tx_lift_Inr tx_return_def tx_raise_def split: option.splits)
  have ab: "ov_LifecycleState src = LifecycleAborted \<Longrightarrow> abort \<noteq> None"
    using a by (auto simp: abortRecordFor_def split: option.splits sum.splits)
  obtain i arg row where i: "textUUID (md_pg md) (ch_TargetID c) = Some i"
    and arg: "versionInsertParams (md_pg md) (ch_TargetID c) 0
        (object_content sid (bn_ID (pp_targetBranch p)) actor src abort reopen) = Some arg"
    and v: "vr_version row = v"
    and st: "stored_as (md_pg md) (on_version (\<lambda>v. v\<lparr>sv_VersionNo := int32 (head_of (vh_Objects heads) (ch_TargetID c)) + 1\<rparr>) arg) row"
    and db': "db' = db\<lparr>db_objects := map (\<lambda>r. if so_ID r = i \<and> so_CurrentVersionNo r = int32 (head_of (vh_Objects heads) (ch_TargetID c))
            then r\<lparr>so_CurrentVersionNo := int32 (head_of (vh_Objects heads) (ch_TargetID c)) + 1\<rparr> else r) (db_objects db),
      db_object_versions := db_object_versions db @ [row], db_seq := Suc (db_seq db)\<rparr>"
    using c by (rule CreateVersionInTx_effect)
  note C = versionInsertParams_content [OF arg i, unfolded object_content_def VersionParams.simps]
  obtain canonical stored k where j: "pg_jsonb (md_pg md) (ov_Payload src) = Some canonical"
    "pg_jsonb (md_pg md) canonical = Some stored"
    and row: "row = on_version (\<lambda>v. v\<lparr>sv_VersionNo := int32 (head_of (vh_Objects heads) (ch_TargetID c)) + 1, sv_ID := k,
        sv_Payload := stored, sv_IntegrityHash := pg_sha (md_pg md) canonical, sv_CreatedAt := pg_now (md_pg md)\<rparr>) arg"
    using st by (auto simp: stored_as_def C(9))
  have "object_landed md sid p heads actor c row"
    unfolding object_landed_def
    by (intro exI [of _ src] exI [of _ canonical]) (use s j i C ab in \<open>simp add: row\<close>)
  then show ?thesis by (rule that) (use db' acc v in simp_all)
qed

lemma pin_landedI:
  assumes "repin c pin (fst acc) = Inr p'" and "textUUID (md_pg md) p' = Some stored" and "remembers md landed (fst acc)"
  shows "pin_landed md landed c pin stored"
proof (cases "map_of (ch_EndpointRewrites c) pin")
  case None
  then show ?thesis using assms(1,2) by (simp add: pin_landed_def repin_def)
next
  case (Some o')
  then have "map_of (fst acc) o' = Some p'" using assms(1) by (simp add: repin_def split: option.splits)
  then obtain r where "r \<in> set landed" "textUUID (md_pg md) o' = Some (sv_ObjectID (vr_version r))" "sv_ID (vr_version r) = p'"
    using assms(3) unfolding remembers_def by blast
  then show ?thesis using assms(2) Some unfolding pin_landed_def by auto
qed

lemma materialize_relation_landed:
  assumes "materialize_relation md sid p heads actor c acc db = Inr (acc', db')" and "remembers md landed (fst acc)"
  obtains row rels n where "relation_landed md sid p heads actor landed c row"
    and "db' = db\<lparr>db_relations := rels, db_relation_versions := db_relation_versions db @ [row], db_seq := n\<rparr>"
    and "snd acc' = snd acc @ [\<lparr>wv_TargetKind = ch_TargetKind c, wv_TargetID = ch_TargetID c,
           wv_VersionID = rv_ID row, wv_VersionNo = rv_VersionNo row\<rparr>]"
    and "fst acc' = fst acc"
proof -
  from assms(1) obtain src sp tp v where s: "map_of (relationVersionsOf (pp_plan p)) (ch_TargetID c) = Some src"
    and pins: "repin c (rv_SourceObjectVersionID src) (fst acc) = Inr sp" "repin c (rv_TargetObjectVersionID src) (fst acc) = Inr tp"
    and c: "AppendRelationVersionInTx (md_pg md) (ch_TargetID c) (head_of (vh_Relations heads) (ch_TargetID c))
         (relation_content sid actor src sp tp) db = Inr (v, db')"
    and acc: "acc' = (fst acc, snd acc @ [\<lparr>wv_TargetKind = ch_TargetKind c,
         wv_TargetID = ch_TargetID c, wv_VersionID = rv_ID v, wv_VersionNo = rv_VersionNo v\<rparr>])"
    by (auto simp: materialize_relation_def tx_bind_Inr tx_lift_Inr tx_return_def tx_raise_def split: option.splits)
  obtain i arg where i: "textUUID (md_pg md) (ch_TargetID c) = Some i"
    and arg: "relationInsertParams (md_pg md) (ch_TargetID c) 0 (relation_content sid actor src sp tp) = Some arg"
    and st: "relation_stored_as (md_pg md) (arg\<lparr>rv_VersionNo := int32 (head_of (vh_Relations heads) (ch_TargetID c)) + 1\<rparr>) v"
    and db': "db' = db\<lparr>db_relations := map (\<lambda>r. if rn_ID r = i \<and> rn_CurrentVersionNo r = int32 (head_of (vh_Relations heads) (ch_TargetID c))
            then r\<lparr>rn_CurrentVersionNo := int32 (head_of (vh_Relations heads) (ch_TargetID c)) + 1\<rparr> else r) (db_relations db),
      db_relation_versions := db_relation_versions db @ [v], db_seq := Suc (db_seq db)\<rparr>"
    using c by (rule AppendRelationVersionInTx_effect)
  note C = relationInsertParams_content [OF arg i, unfolded relation_content_def RelationVersionParams.simps]
  have V: "rv_SourceObjectVersionID v = rv_SourceObjectVersionID arg" "rv_TargetObjectVersionID v = rv_TargetObjectVersionID arg"
    using st by (auto simp: relation_stored_as_def)
  have "pin_landed md landed c (rv_SourceObjectVersionID src) (rv_SourceObjectVersionID v)"
    and "pin_landed md landed c (rv_TargetObjectVersionID src) (rv_TargetObjectVersionID v)"
    unfolding V by (rule pin_landedI [OF pins(1) C(3) assms(2)], rule pin_landedI [OF pins(2) C(4) assms(2)])
  then have "relation_landed md sid p heads actor landed c v"
    using st s i C unfolding relation_landed_def by (auto simp: relation_stored_as_def)
  then show ?thesis by (rule that) (use db' acc in simp_all)
qed

text \<open>The whole loop.\<close>

abbreviation is_object :: "Change \<Rightarrow> bool" where "is_object c \<equiv> ch_TargetKind c = TargetObject"
abbreviation is_relation :: "Change \<Rightarrow> bool" where "is_relation c \<equiv> ch_TargetKind c = TargetRelation"

definition landing :: "WrittenVersion \<Rightarrow> string \<times> string" where
  "landing w = (wv_TargetKind w, wv_TargetID w)"

lemma landing_simp:
  "landing \<lparr>wv_TargetKind = k, wv_TargetID = i, wv_VersionID = v, wv_VersionNo = n\<rparr> = (k, i)"
  by (simp add: landing_def)

lemma relation_landed_mono:
  "relation_landed md sid p heads actor landed c row \<Longrightarrow> set landed \<subseteq> set landed' \<Longrightarrow> relation_landed md sid p heads actor landed' c row"
  unfolding relation_landed_def pin_landed_def by (fastforce split: option.splits)

lemma materialize_fold:
  assumes "tx_fold (materialize_change md pool sid p heads actor) cs acc db = Inr (acc', db')" and "remembers md landed (fst acc)"
  obtains rows rels objs cons n where "list_all2 (object_landed md sid p heads actor) (filter is_object cs) rows"
    and "list_all2 (relation_landed md sid p heads actor (landed @ rows)) (filter is_relation cs) rels"
    and "db' = db\<lparr>db_objects := objs, db_object_versions := db_object_versions db @ rows, db_relations := cons,
           db_relation_versions := db_relation_versions db @ rels, db_seq := n\<rparr>"
    and "map landing (snd acc') = map landing (snd acc)
           @ map (\<lambda>c. (ch_TargetKind c, ch_TargetID c)) (filter (\<lambda>c. is_object c \<or> is_relation c) cs)"
  using assms
proof (induction cs arbitrary: acc db landed thesis)
  case Nil
  then show ?case by (cases db) (auto simp: tx_return_def intro: Nil.prems(1) [where rows = "[]" and rels = "[]"])
next
  case (Cons c cs)
  from Cons.prems(2) obtain acc1 db1 where 1: "materialize_change md pool sid p heads actor c acc db = Inr (acc1, db1)"
    and 2: "tx_fold (materialize_change md pool sid p heads actor) cs acc1 db1 = Inr (acc', db')"
    by (auto simp: tx_bind_Inr)
  have ne: "TargetObject \<noteq> TargetRelation" by (simp add: TargetObject_def TargetRelation_def)
  consider "is_object c" | "is_relation c" | "\<not> is_object c" "\<not> is_relation c" by blast
  then show ?case
  proof cases
    case O: 1
    have "materialize_object md pool sid p heads actor c acc db = Inr (acc1, db1)" using 1 O by (simp add: materialize_change_def)
    then obtain row objs n where row: "object_landed md sid p heads actor c row"
      and d: "db1 = db\<lparr>db_objects := objs, db_object_versions := db_object_versions db @ [row], db_seq := n\<rparr>"
      and w: "snd acc1 = snd acc @ [\<lparr>wv_TargetKind = ch_TargetKind c, wv_TargetID = ch_TargetID c,
           wv_VersionID = sv_ID (vr_version row), wv_VersionNo = sv_VersionNo (vr_version row)\<rparr>]"
      and m: "fst acc1 = AList.update (ch_TargetID c) (sv_ID (vr_version row)) (fst acc)"
      by (rule materialize_object_landed)
    have rm: "remembers md (landed @ [row]) (fst acc1)"
      using Cons.prems(3) row unfolding m remembers_def by (auto simp: object_landed_def)
    show ?thesis
    proof (rule Cons.IH [OF _ 2 rm])
      fix rows rels objs' cons n'
      assume R: "list_all2 (object_landed md sid p heads actor) (filter is_object cs) rows"
        and L: "list_all2 (relation_landed md sid p heads actor ((landed @ [row]) @ rows)) (filter is_relation cs) rels"
        and D: "db' = db1\<lparr>db_objects := objs', db_object_versions := db_object_versions db1 @ rows, db_relations := cons,
           db_relation_versions := db_relation_versions db1 @ rels, db_seq := n'\<rparr>"
        and W: "map landing (snd acc') = map landing (snd acc1)
           @ map (\<lambda>c. (ch_TargetKind c, ch_TargetID c)) (filter (\<lambda>c. is_object c \<or> is_relation c) cs)"
      show ?thesis
        by (rule Cons.prems(1) [where rows = "row # rows" and rels = rels and objs = objs' and cons = cons and n = n'])
          (use R L D W O ne row in \<open>simp_all add: d w landing_simp\<close>)
    qed
  next
    case E: 2
    have "materialize_relation md sid p heads actor c acc db = Inr (acc1, db1)" using 1 E ne by (simp add: materialize_change_def)
    then obtain row cons0 n where row: "relation_landed md sid p heads actor landed c row"
      and d: "db1 = db\<lparr>db_relations := cons0, db_relation_versions := db_relation_versions db @ [row], db_seq := n\<rparr>"
      and w: "snd acc1 = snd acc @ [\<lparr>wv_TargetKind = ch_TargetKind c, wv_TargetID = ch_TargetID c,
           wv_VersionID = rv_ID row, wv_VersionNo = rv_VersionNo row\<rparr>]"
      and m: "fst acc1 = fst acc"
      using Cons.prems(3) by (rule materialize_relation_landed)
    have rm: "remembers md landed (fst acc1)" using Cons.prems(3) by (simp add: m)
    show ?thesis
    proof (rule Cons.IH [OF _ 2 rm])
      fix rows rels objs' cons n'
      assume R: "list_all2 (object_landed md sid p heads actor) (filter is_object cs) rows"
        and L: "list_all2 (relation_landed md sid p heads actor (landed @ rows)) (filter is_relation cs) rels"
        and D: "db' = db1\<lparr>db_objects := objs', db_object_versions := db_object_versions db1 @ rows, db_relations := cons,
           db_relation_versions := db_relation_versions db1 @ rels, db_seq := n'\<rparr>"
        and W: "map landing (snd acc') = map landing (snd acc1)
           @ map (\<lambda>c. (ch_TargetKind c, ch_TargetID c)) (filter (\<lambda>c. is_object c \<or> is_relation c) cs)"
      have "relation_landed md sid p heads actor (landed @ rows) c row" using row by (rule relation_landed_mono) simp
      then show ?thesis
        by (intro Cons.prems(1) [where rows = rows and rels = "row # rels" and objs = objs' and cons = cons and n = n'])
          (use R L D W E ne in \<open>simp_all add: d w landing_simp\<close>)
    qed
  next
    case N: 3
    then have e: "acc1 = acc" "db1 = db" using 1 by (simp_all add: materialize_change_def tx_return_def)
    show ?thesis
      by (rule Cons.IH [OF _ 2 [unfolded e] Cons.prems(3)]) (rule Cons.prems(1); simp add: N)
  qed
qed

lemma materialize_lands:
  assumes "materialize md pool sid p heads actor db = Inr (written, db')"
  obtains rows rels objs cons n
  where "list_all2 (object_landed md sid p heads actor) (filter is_object (Materialized (pp_plan p))) rows"
    and "list_all2 (relation_landed md sid p heads actor rows) (filter is_relation (Materialized (pp_plan p))) rels"
    and "db' = db\<lparr>db_objects := objs, db_object_versions := db_object_versions db @ rows, db_relations := cons,
           db_relation_versions := db_relation_versions db @ rels, db_seq := n\<rparr>"
    and "map landing written
           = map (\<lambda>c. (ch_TargetKind c, ch_TargetID c)) (filter (\<lambda>c. is_object c \<or> is_relation c) (Materialized (pp_plan p)))"
proof -
  from assms obtain acc where f: "tx_fold (materialize_change md pool sid p heads actor) (Materialized (pp_plan p)) ([], []) db = Inr (acc, db')"
    and w: "written = snd acc"
    by (auto simp: materialize_def tx_bind_Inr tx_return_def)
  have "remembers md [] (fst ([], []))" by (simp add: remembers_def)
  with f show ?thesis by (rule materialize_fold) (rule that; simp add: w)
qed

section \<open>The callback is well behaved\<close>

lemma record_rowI:
  assumes "db' = db\<lparr>db_pull_requests := db_pull_requests db', db_merges := db_merges db',
    db_merge_conflicts := db_merge_conflicts db', db_merge_creations := db_merge_creations db', db_audit := db_audit db',
    db_outbox := db_outbox db', db_seq := db_seq db'\<rparr>"
  shows "callback_step db db'"
  by (subst assms) (rule record_row)

lemma mark_merged_closing: "closing (\<lambda>b. if closable i b then b\<lparr>bn_Lifecycle := ''merged''\<rparr> else b)"
  by (auto simp: closing_def closable_def)

lemma merge_write_callback:
  assumes "merge_write md cx actor p heads pool sid db = Inr (x, db')" and "records_events md"
  shows "callback_step\<^sup>*\<^sup>* db db'"
proof -
  obtain written row closed where x: "x = (written, row, closed)" by (cases x)
  from assms(1) [unfolded x] assms(2) obtain scope db1 db2 db3 db4 where
    m: "materialize md pool sid p heads actor db = Inr (written, db1)"
    and w: "WriteMerge (md_pg md) (md_renum md) cx (mergeParams md p sid actor) db1 = Inr (row, db2)"
    and r: "Record (md_pg md) (md_renum md) cx
          \<lparr>ev_EventType = eventPullRequestMerged, ev_ActorID = actor, ev_ProjectID = in_Project (pp_input p),
           ev_Visibility = eventVisibility (bn_Visibility (pp_targetBranch p)), ev_Via = mergeVia, ev_CorrelationID = [],
           ev_Payload = mergeEventPayload p (sg_ID row) sid\<rparr> db2 = Inr ((), db3)"
    and k: "MarkPullRequestMerged (md_pg md) (in_Project (pp_input p)) (pq_ID (pp_pr p)) db3 = Inr ((), db4)"
    and s: "closeSourceBranch md p scope db4 = Inr (closed, db')"
    by (rule merge_writeE)
  have "semantic_write \<le> callback_step" by (auto intro: write_row)
  then have 1: "callback_step\<^sup>*\<^sup>* db db1" using materialize_write [OF m] rtranclp_mono by blast
  have 2: "callback_step db1 db2"
    using w by (rule WriteMerge_effect) (rule record_rowI, cases db1, simp)
  have 3: "callback_step db2 db3"
    using r by (rule Record_effect) (rule record_rowI, cases db2, simp)
  have 4: "callback_step db3 db4"
    using k by (rule MarkPullRequestMerged_effect) (rule record_rowI, cases db3, simp)
  have 5: "callback_step\<^sup>*\<^sup>* db4 db'"
  proof (cases closed)
    case True
    then have "MarkBranchMerged (md_pg md) (bn_ID (pp_sourceBranch p)) db4 = Inr ((), db')"
      using closeSourceBranch_effect(3) [OF s] by simp
    then have "callback_step db4 db'"
      by (rule MarkBranchMerged_effect) (simp add: close_branch [OF mark_merged_closing])
    then show ?thesis by blast
  next
    case False
    then show ?thesis using closeSourceBranch_effect(2) [OF s] by simp
  qed
  show ?thesis using 1 2 3 4 5 by (meson rtranclp.rtrancl_into_rtrancl rtranclp_trans)
qed

lemma merge_write_well_behaved:
  assumes "records_events md"
  shows "well_behaved (\<lambda>sid. tx_bind (merge_write md cx actor p heads pool sid) (\<lambda>_. tx_return ()))"
  unfolding well_behaved_def tx_bind_Inr using merge_write_callback [OF _ assms] by (auto simp: tx_return_def)

section \<open>The callback as one effect\<close>

definition marked_merged :: "pg \<Rightarrow> PullRequest \<Rightarrow> PullRequest" where
  "marked_merged pg r = r\<lparr>pq_State := PullRequestStateMerged, pq_MergedAt := Some (pg_now pg)\<rparr>"

lemma merge_write_effect:
  assumes "merge_write md cx actor p heads pool sid db = Inr ((written, m, closed), db')" and "records_events md"
  obtains scope rows rels row event audit where
    "verifyScope scope p sid = None"
    and "ms_PullRequest scope \<in> set (db_pull_requests db)" and "ms_Source scope \<in> set (db_branches db)"
    and "ms_Target scope \<in> set (db_branches db)"
    and "textUUID (md_pg md) (bn_ID (pp_sourceBranch p)) = Some (bn_ID (ms_Source scope))"
    and "textUUID (md_pg md) (bn_ID (pp_targetBranch p)) = Some (bn_ID (ms_Target scope))"
    and "textUUID (md_pg md) (in_Project (pp_input p)) = Some (pq_ProjectID (ms_PullRequest scope))"
    and "pq_Number (ms_PullRequest scope) = in_Number (pp_input p)"
    and "find (\<lambda>r. pq_ProjectID r = pq_ProjectID (ms_PullRequest scope) \<and> pq_Number r = in_Number (pp_input p)) (db_pull_requests db)
           = Some (ms_PullRequest scope)"
    and "list_all2 (object_landed md sid p heads actor) (filter is_object (Materialized (pp_plan p))) rows"
    and "list_all2 (relation_landed md sid p heads actor rows) (filter is_relation (Materialized (pp_plan p))) rels"
    and "map landing written
           = map (\<lambda>c. (ch_TargetKind c, ch_TargetID c)) (filter (\<lambda>c. is_object c \<or> is_relation c) (Materialized (pp_plan p)))"
    and "db_object_versions db' = db_object_versions db @ rows" and "db_relation_versions db' = db_relation_versions db @ rels"
    and "db_merges db' = db_merges db @ [row]" and "merge_row_of (md_pg md) (mergeParams md p sid actor) row"
    and "sg_PullRequestID row \<notin> sg_PullRequestID ` set (db_merges db)" and "sg_ID row \<notin> sg_ID ` set (db_merges db)"
    and "m = returned_merge (sg_ID row) (mergeParams md p sid actor)"
    and "\<exists>cs. db_merge_conflicts db' = db_merge_conflicts db @ cs \<and> map mc_Kind cs = map ca_Decision (pl_Carried (pp_plan p))
           \<and> (\<forall>c \<in> set cs. mc_MergeID c = sg_ID row)"
    and "\<exists>ks. db_merge_creations db' = db_merge_creations db @ ks
           \<and> map mk_IdempotencyKey ks = (case in_IdempotencyKey (pp_input p) of None \<Rightarrow> [] | Some k \<Rightarrow> [k])
           \<and> (\<forall>k \<in> set ks. mk_MergeID k = sg_ID row \<and> mk_ProjectID k = sg_ProjectID row \<and> unused_key k (db_merge_creations db))"
    and "db_audit db' = db_audit db @ [audit]" and "au_Action audit = ActionPullRequestMerged"
    and "db_outbox db' = db_outbox db @ [event]" and "ob_EventType event = eventPullRequestMerged"
    and "\<exists>i q. textUUID (md_pg md) (in_Project (pp_input p)) = Some q \<and> textUUID (md_pg md) (pq_ID (pp_pr p)) = Some i
           \<and> length (filter (merge_ready_row i q) (db_pull_requests db)) = 1
           \<and> db_pull_requests db' = map (\<lambda>r. if merge_ready_row i q r then marked_merged (md_pg md) r else r) (db_pull_requests db)"
    and "closed \<longleftrightarrow> \<not> IsMain (pp_sourceBranch p) \<and> bn_BaseStateID (ms_Source scope) = Some (pp_sourceStateID p)"
    and "\<exists>i. textUUID (md_pg md) (bn_ID (pp_sourceBranch p)) = Some i
           \<and> (closed \<longrightarrow> length (filter (closable i) (db_branches db)) = 1)
           \<and> db_branches db' = (if closed then map (\<lambda>b. if closable i b then b\<lparr>bn_Lifecycle := ''merged''\<rparr> else b) (db_branches db) else db_branches db)"
    and "db_states db' = db_states db" and "db_commits db' = db_commits db"
proof -
  from assms obtain scope db1 db2 db3 db4 where
    l: "LockMergeScope (md_pg md) (lock_params p) db = Inr (scope, db)" and v: "verifyScope scope p sid = None"
    and mt: "materialize md pool sid p heads actor db = Inr (written, db1)"
    and w: "WriteMerge (md_pg md) (md_renum md) cx (mergeParams md p sid actor) db1 = Inr (m, db2)"
    and r: "Record (md_pg md) (md_renum md) cx
          \<lparr>ev_EventType = eventPullRequestMerged, ev_ActorID = actor, ev_ProjectID = in_Project (pp_input p),
           ev_Visibility = eventVisibility (bn_Visibility (pp_targetBranch p)), ev_Via = mergeVia, ev_CorrelationID = [],
           ev_Payload = mergeEventPayload p (sg_ID m) sid\<rparr> db2 = Inr ((), db3)"
    and k: "MarkPullRequestMerged (md_pg md) (in_Project (pp_input p)) (pq_ID (pp_pr p)) db3 = Inr ((), db4)"
    and s: "closeSourceBranch md p scope db4 = Inr (closed, db')"
    by (rule merge_writeE)
  note L = LockMergeScope_effect [OF l, unfolded lock_params_def LockScopeParams.simps]
  obtain rows rels objs cons n where ma: "list_all2 (object_landed md sid p heads actor) (filter is_object (Materialized (pp_plan p))) rows"
    "list_all2 (relation_landed md sid p heads actor rows) (filter is_relation (Materialized (pp_plan p))) rels"
    "map landing written = map (\<lambda>c. (ch_TargetKind c, ch_TargetID c)) (filter (\<lambda>c. is_object c \<or> is_relation c) (Materialized (pp_plan p)))"
    and d1: "db1 = db\<lparr>db_objects := objs, db_object_versions := db_object_versions db @ rows, db_relations := cons,
           db_relation_versions := db_relation_versions db @ rels, db_seq := n\<rparr>"
    using mt by (rule materialize_lands)
  obtain row cs ks as n2 where
    d2: "db2 = db1\<lparr>db_merges := db_merges db1 @ [row], db_merge_conflicts := db_merge_conflicts db1 @ cs,
      db_merge_creations := db_merge_creations db1 @ ks, db_audit := db_audit db1 @ as, db_seq := n2\<rparr>"
    and wm: "merge_row_of (md_pg md) (mergeParams md p sid actor) row" "sg_PullRequestID row \<notin> sg_PullRequestID ` set (db_merges db1)"
      "sg_ID row \<notin> sg_ID ` set (db_merges db1)"
      "m = returned_merge (sg_ID row) (mergeParams md p sid actor)"
      "map mc_Kind cs = map wc_Decision (wm_CarriedConflicts (mergeParams md p sid actor))" "\<forall>c \<in> set cs. mc_MergeID c = sg_ID row"
      "map mk_IdempotencyKey ks = (case wm_IdempotencyKey (mergeParams md p sid actor) of None \<Rightarrow> [] | Some k \<Rightarrow> [k])"
      "\<forall>k \<in> set ks. mk_MergeID k = sg_ID row \<and> mk_ProjectID k = sg_ProjectID row \<and> unused_key k (db_merge_creations db1)"
      "ae_Action (wm_Audit (mergeParams md p sid actor)) \<noteq> [] \<longrightarrow> map au_Action as = [ae_Action (wm_Audit (mergeParams md p sid actor))]"
    using w by (rule WriteMerge_effect)
  have prm: "wm_CarriedConflicts (mergeParams md p sid actor) = map (carried_row md) (pl_Carried (pp_plan p))"
    "wm_IdempotencyKey (mergeParams md p sid actor) = in_IdempotencyKey (pp_input p)"
    "ae_Action (wm_Audit (mergeParams md p sid actor)) = ActionPullRequestMerged"
    by (simp_all add: mergeParams_def Let_def auditEntry_def)
  have "map au_Action as = [ActionPullRequestMerged]" using wm(9) by (simp add: prm ActionPullRequestMerged_def)
  then obtain audit where au: "as = [audit]" "au_Action audit = ActionPullRequestMerged" by auto
  obtain event where d3: "db3 = db2\<lparr>db_outbox := db_outbox db2 @ [event]\<rparr>" and ev: "ob_EventType event = eventPullRequestMerged"
    using r by (rule Record_effect) simp
  obtain q i where pr: "textUUID (md_pg md) (in_Project (pp_input p)) = Some q" "textUUID (md_pg md) (pq_ID (pp_pr p)) = Some i"
    "length (filter (merge_ready_row i q) (db_pull_requests db3)) = 1"
    and d4: "db4 = db3\<lparr>db_pull_requests := map (\<lambda>r. if merge_ready_row i q r
        then r\<lparr>pq_State := PullRequestStateMerged, pq_MergedAt := Some (pg_now (md_pg md))\<rparr> else r) (db_pull_requests db3)\<rparr>"
    using k by (rule MarkPullRequestMerged_effect)
  note C = closeSourceBranch_effect [OF s]
  obtain j where j: "textUUID (md_pg md) (bn_ID (pp_sourceBranch p)) = Some j"
    and d5: "db' = db4\<lparr>db_branches := if closed
        then map (\<lambda>b. if closable j b then b\<lparr>bn_Lifecycle := ''merged''\<rparr> else b) (db_branches db4) else db_branches db4\<rparr>"
    and one: "closed \<longrightarrow> length (filter (closable j) (db_branches db4)) = 1"
  proof (cases closed)
    case True
    with C(3) have "MarkBranchMerged (md_pg md) (bn_ID (pp_sourceBranch p)) db4 = Inr ((), db')" by simp
    then show ?thesis by (rule MarkBranchMerged_effect) (rule that; simp add: True)
  next
    case False
    then show ?thesis using C(2) L(4) by (intro that) simp_all
  qed
  note D = d5 d4 d3 d2 d1
  have "map wc_Decision (map (carried_row md) xs) = map ca_Decision xs" for xs by (simp add: carried_row_def)
  then have kinds: "map mc_Kind cs = map ca_Decision (pl_Carried (pp_plan p))" using wm(5) prm(1) by simp
  have 1: "db_object_versions db' = db_object_versions db @ rows" "db_relation_versions db' = db_relation_versions db @ rels"
    "db_merges db' = db_merges db @ [row]" "db_merges db1 = db_merges db" "db_merge_creations db1 = db_merge_creations db" "db_merge_conflicts db' = db_merge_conflicts db @ cs"
    "db_merge_creations db' = db_merge_creations db @ ks" "db_audit db' = db_audit db @ [audit]"
    "db_outbox db' = db_outbox db @ [event]" "db_pull_requests db3 = db_pull_requests db"
    "db_pull_requests db' = map (\<lambda>r. if merge_ready_row i q r then marked_merged (md_pg md) r else r) (db_pull_requests db)"
    "db_branches db4 = db_branches db" "db_states db' = db_states db" "db_commits db' = db_commits db"
    by (simp_all add: D au marked_merged_def)
  have br: "db_branches db' = (if closed then map (\<lambda>b. if closable j b then b\<lparr>bn_Lifecycle := ''merged''\<rparr> else b) (db_branches db) else db_branches db)"
    by (simp add: d5 1)
  have one: "closed \<longrightarrow> length (filter (closable j) (db_branches db)) = 1" using one 1(12) by simp
  have fresh: "sg_PullRequestID row \<notin> sg_PullRequestID ` set (db_merges db)" "sg_ID row \<notin> sg_ID ` set (db_merges db)"
    using wm(2,3) unfolding 1(4) by simp_all
  have cs': "\<exists>cs. db_merge_conflicts db' = db_merge_conflicts db @ cs \<and> map mc_Kind cs = map ca_Decision (pl_Carried (pp_plan p))
           \<and> (\<forall>c \<in> set cs. mc_MergeID c = sg_ID row)"
    by (intro exI [of _ cs] conjI) (rule 1(6), rule kinds, rule wm(6))
  have ks': "\<exists>ks. db_merge_creations db' = db_merge_creations db @ ks
           \<and> map mk_IdempotencyKey ks = (case in_IdempotencyKey (pp_input p) of None \<Rightarrow> [] | Some k \<Rightarrow> [k])
           \<and> (\<forall>k \<in> set ks. mk_MergeID k = sg_ID row \<and> mk_ProjectID k = sg_ProjectID row \<and> unused_key k (db_merge_creations db))"
    by (intro exI [of _ ks] conjI) (rule 1(7), rule wm(7) [unfolded prm(2)], rule wm(8) [unfolded 1(5)])
  have pr': "\<exists>i q. textUUID (md_pg md) (in_Project (pp_input p)) = Some q \<and> textUUID (md_pg md) (pq_ID (pp_pr p)) = Some i
           \<and> length (filter (merge_ready_row i q) (db_pull_requests db)) = 1
           \<and> db_pull_requests db' = map (\<lambda>r. if merge_ready_row i q r then marked_merged (md_pg md) r else r) (db_pull_requests db)"
    by (intro exI [of _ i] exI [of _ q] conjI) (rule pr(1), rule pr(2), rule pr(3) [unfolded 1(10)], rule 1(11))
  have br': "\<exists>i. textUUID (md_pg md) (bn_ID (pp_sourceBranch p)) = Some i
           \<and> (closed \<longrightarrow> length (filter (closable i) (db_branches db)) = 1)
           \<and> db_branches db' = (if closed then map (\<lambda>b. if closable i b then b\<lparr>bn_Lifecycle := ''merged''\<rparr> else b) (db_branches db) else db_branches db)"
    by (intro exI [of _ j] conjI) (rule j, rule one, rule br)
  show ?thesis
    by (rule that [OF v L(6) L(2) L(3) L(4) L(5) L(7) L(8) L(9) ma 1(1) 1(2) 1(3) wm(1) fresh wm(4) cs' ks' 1(8) au(2) 1(9) ev
      pr' C(1) br' 1(13) 1(14)])
qed

end
