(* ===== verification/MergeSample.thy ===== *)
theory MergeSample
  imports MergeProtocol CommitProtocol
begin

text \<open>
  A concrete project with one pull request into a frozen main, on which the merge command runs to
  its end: the input at which the properties of the merge are instantiated.
\<close>

definition work_branch :: Branch where
  "work_branch = sample_branch\<lparr>bn_ID := ''c'', bn_Name := ''work'', bn_GitRef := ''refs/heads/work'', bn_BaseStateID := Some ''s2''\<rparr>"

definition proposed_version :: ScientificObjectVersion where
  "proposed_version = sample_version\<lparr>sv_ID := ''ov2'', sv_VersionNo := 2, sv_StateID := ''s2''\<rparr>"

definition ready_request :: PullRequest where
  "ready_request = \<lparr>pq_ID = ''pr'', pq_ProjectID = ''p'', pq_Number = 1,
     pq_SourceBranchID = ''c'', pq_TargetBranchID = ''b'', pq_BaseStateID = ''s1'', pq_ProposedStateID = ''s2'',
     pq_Title = ''t'', pq_Body = [], pq_State = PullRequestStateMergeReady, pq_CreatedBy = ''u'',
     pq_CreatedAt = \<lparr>instant = 1, zone = 0\<rparr>, pq_MergedAt = None\<rparr>"

definition merge_db :: database where
  "merge_db = sample_db\<lparr>db_projects := [\<lparr>pj_ID = ''p'', pj_Visibility = ''public'', pj_MainFrozen = True\<rparr>],
     db_branches := [sample_branch, work_branch],
     db_states := db_states sample_db @ [(sample_state_row ''s2'' (Some ''s1''))\<lparr>ps_BranchID := Some ''c''\<rparr>],
     db_commits := [sample_commit\<lparr>cm_BranchID := ''c''\<rparr>],
     db_objects := [\<lparr>so_ID = ''o'', so_ProjectID = ''p'', so_ObjectType = ''claim'', so_CurrentVersionNo = 2, so_CreatedBy = ''u'',
       so_CreatedAt = \<lparr>instant = 1, zone = 0\<rparr>\<rparr>],
     db_object_versions := db_object_versions sample_db
       @ [\<lparr>vr_version = proposed_version, vr_AbortRequestKey = None, vr_ReopenRequestKey = None\<rparr>],
     db_pull_requests := [ready_request]\<rparr>"

text \<open>The rows of the two versions as the diff reads them.\<close>

definition diff_row :: "string \<Rightarrow> int \<Rightarrow> string \<Rightarrow> raw \<Rightarrow> ObjectVersion" where
  "diff_row i n title payload =
     \<lparr>ov_ID = i, ov_ObjectID = ''o'', ov_ObjectType = ''claim'', ov_VersionNo = n, ov_StateID = ''s'',
      ov_BranchID = None, ov_SchemaRef = \<lparr>sr_ID = ''lab:x'', sr_Version = ''2''\<rparr>, ov_Title = title,
      ov_LifecycleState = ''active'', ov_Payload = payload, ov_VisibilityPolicyID = None,
      ov_IntegrityHash = ''h'', ov_CreatedBy = ''u'', ov_CreatedAt = \<lparr>instant = 0, zone = 0\<rparr>\<rparr>"

text \<open>A schema of the claim type, and a payload with the fields the main gate requires of claims.\<close>

definition claim_schema :: "unit Schema" where
  "claim_schema = sample_ext\<lparr>sc_raw := ''claim''\<rparr>"

definition claim_lx :: "string \<Rightarrow> raw" where
  "claim_lx doc = (if doc = ''claim''
     then [TLBrace, TStr ''properties'', TColon, TLBrace, TStr ''type'', TColon, TLBrace, TStr ''const'', TColon, TStr ''claim'',
       TRBrace, TRBrace, TRBrace] else sample_lx doc)"

definition claim_payload :: raw where
  "claim_payload = [TLBrace, TStr ''subject_ref'', TColon, TStr ''x'', TComma, TStr ''property'', TColon, TStr ''y'', TComma,
     TStr ''scope'', TColon, TStr ''z'', TComma, TStr ''assessment'', TColon, TStr ''w'', TRBrace]"

definition claim_validator :: "unit Validator" where
  "claim_validator = sample_validator\<lparr>vd_reg := [(\<lparr>rf_ID = ''lab:x'', rf_Version = ''2''\<rparr>, claim_schema), (coreRef, claim_schema)],
     vd_lx := claim_lx\<rparr>"

definition merge_inputs :: DiffInputs where
  "merge_inputs = sample_inputs (sample_snapshot [diff_row ''ov'' 1 ''t'' [TLBrace, TRBrace]] [])
     (sample_snapshot [diff_row ''ov'' 1 ''t'' [TLBrace, TRBrace], diff_row ''ov2'' 2 ''t2'' claim_payload] [])
     (sample_snapshot [diff_row ''ov'' 1 ''t'' [TLBrace, TRBrace]] [])"

definition protecting_decision :: PolicyDecision where
  "protecting_decision = no_decision\<lparr>pd_Found := True, pd_Bool := True, pd_Raw := [TTrue]\<rparr>"

definition merge_md :: "(unit, unit) MergeDeps" where
  "merge_md = \<lparr>md_pg = sample_pg, md_sha = (\<lambda>_. ''d''), md_renum = Some, md_guard = Some claim_validator,
     md_Diffs = Some (\<lambda>_ _. Inr merge_inputs), md_Plans = Some (\<lambda>_ _. Inr []), md_Aborts = Some (AbortRecordOf sample_pg),
     md_Reopens = Some (ReopenRecordOf sample_pg), md_Projects = Some (\<lambda>_ _ _. Inr (Some ProjectRoleOwner)),
     md_Authz = Some Authorize, md_Forks = None,
     md_Checks = Some (\<lambda>project number db. map_sum (\<lambda>x. x) (integrity_Check sample_validator) (Inr (sample_proposal [] []))),
     md_Policies = Some (\<lambda>_ _ _. Inr ()), md_Rules = Some (\<lambda>_ _. Inr protecting_decision),
     md_Events = Some (Record sample_pg Some), md_Git = None, md_MergeService = ''svc'', md_MaxAttempts = 0,
     md_plan_json = (\<lambda>_. Some [TLBrace, TRBrace]), md_plan_read = (\<lambda>_. None),
     md_error_text = (\<lambda>_. ''e''), md_detail_text = (\<lambda>_. ''d'')\<rparr>"

definition merge_input :: MergeInput where
  "merge_input = \<lparr>in_Project = ''p'', in_Number = 1, in_Message = [], in_IdempotencyKey = Some ''merge-key''\<rparr>"

definition merge_ctx :: CallCtx where
  "merge_ctx = \<lparr>cx_request = None, cx_newUUID = Some ''id''\<rparr>"

definition calm :: "nat \<Rightarrow> database \<Rightarrow> database" where "calm = (\<lambda>_ db. db)"

text \<open>What the command prepares from these rows, its first attempt, and the whole command.\<close>

definition merge_prepared :: prepared where
  "merge_prepared = projr (prepare merge_md merge_input merge_db)"

definition merge_attempt :: "(go_error + MergeResult) \<times> database" where
  "merge_attempt = merge_commit merge_md merge_ctx ''u'' merge_prepared (\<lambda>db. db) merge_db"

definition merge_run :: "(merge_refusal + MergeResult) \<times> database" where
  "merge_run = service_Merge merge_md calm merge_ctx ''u'' merge_input merge_db"

definition merge_done :: MergeResult where "merge_done = projr (fst merge_run)"
definition merge_after :: database where "merge_after = snd merge_run"

text \<open>Another merge moves the target's head after the command has planned.\<close>

definition moving :: "nat \<Rightarrow> database \<Rightarrow> database" where
  "moving i db = (if i = 2 then db\<lparr>db_states := db_states db @ [sample_state_row ''s9'' (Some ''s1'')],
     db_branches := map (\<lambda>b. if bn_ID b = ''b'' then b\<lparr>bn_BaseStateID := Some ''s9''\<rparr> else b) (db_branches db)\<rparr> else db)"

text \<open>A gate whose schema declares no type for the claims of the project.\<close>

definition typeless_md :: "(unit, unit) MergeDeps" where
  "typeless_md = merge_md\<lparr>md_guard := Some accepting_validator\<rparr>"

lemma merge_evaluates:
  "case prepare merge_md merge_input merge_db of
     Inl _ \<Rightarrow> False
   | Inr p \<Rightarrow> (case fst (merge_commit merge_md merge_ctx ''u'' p (\<lambda>db. db) merge_db) of
         Inl _ \<Rightarrow> False | Inr r \<Rightarrow> sg_ID (mr_Merge r) \<noteq> [])
       \<and> length (filter (\<lambda>c. ch_TargetKind c = TargetObject) (Materialized (pp_plan p))) = 1"
  by code_simp

lemma refusals_evaluate:
  "case prepare merge_md merge_input merge_db of
     Inl _ \<Rightarrow> False
   | Inr p \<Rightarrow> (case fst (merge_commit merge_md merge_ctx ''u'' p (moving 2) merge_db) of
         Inl (StateConflictError _ _ _) \<Rightarrow> True | _ \<Rightarrow> False)
       \<and> (case fst (merge_commit typeless_md merge_ctx ''u'' p (\<lambda>db. db) merge_db) of Inl (GateBlockedError _) \<Rightarrow> True | _ \<Rightarrow> False)"
  by code_simp

lemma merge_prepared_eq: "prepare merge_md merge_input merge_db = Inr merge_prepared"
  using merge_evaluates by (simp add: merge_prepared_def split: sum.splits)

lemma merge_attempt_ok: "\<not> isl (fst merge_attempt)"
  and merge_id: "sg_ID (mr_Merge (projr (fst merge_attempt))) \<noteq> []"
  and merge_objects: "length (filter (\<lambda>c. ch_TargetKind c = TargetObject) (Materialized (pp_plan merge_prepared))) = 1"
  using merge_evaluates unfolding merge_prepared_eq merge_attempt_def by (auto split: sum.splits)

lemma moved_attempt:
  obtains b expected actual where "fst (merge_commit merge_md merge_ctx ''u'' merge_prepared (moving 2) merge_db)
    = Inl (StateConflictError b expected actual)"
  using refusals_evaluate unfolding merge_prepared_eq by (auto split: sum.splits go_error.splits)

lemma typeless_attempt:
  obtains report where "fst (merge_commit typeless_md merge_ctx ''u'' merge_prepared (\<lambda>db. db) merge_db) = Inl (GateBlockedError report)"
  using refusals_evaluate unfolding merge_prepared_eq by (auto split: sum.splits go_error.splits)

lemma typeless_prepared: "prepare typeless_md merge_input merge_db = Inr merge_prepared"
proof -
  have "prepare (md\<lparr>md_guard := g\<rparr>) inp db = prepare md inp db" for md :: "(unit, unit) MergeDeps" and g inp db
    by (simp add: prepare_def prepare_with_def merge_sourceBranch_def isAuthorsForkOfPRProject_def plan_triple_def
        cong: sum.case_cong option.case_cong if_cong)
  then show ?thesis by (simp add: typeless_md_def merge_prepared_eq)
qed

text \<open>All that stands before the attempts lets the sample request through.\<close>

lemma sample_checks:
  "decision_Permits (Authorize \<lparr>rq_Action = ActionMergeMain, rq_Class = ActorOwner\<rparr>)"
  "\<not> list_ex (\<lambda>f. ir_Severity f = SeverityBlocking) (integrity_Failures (integrity_Check sample_validator (sample_proposal [] [])))"
  by code_simp+

lemma sample_run:
  assumes "md = merge_md \<or> md = typeless_md" and "env 0 merge_db = merge_db" and "env 1 merge_db = merge_db"
  shows "service_Merge md env merge_ctx ''u'' merge_input merge_db
     = merge_attempts md merge_ctx ''u'' merge_prepared env 2 (Suc 2) merge_db"
proof -
  have p: "prepare md merge_input merge_db = Inr merge_prepared" using assms(1) merge_prepared_eq typeless_prepared by auto
  have f: "md_Projects md = Some (\<lambda>_ _ _. Inr (Some ProjectRoleOwner))" "md_Authz md = Some Authorize"
    "md_Checks md = Some (\<lambda>project number db. map_sum (\<lambda>x. x) (integrity_Check sample_validator) (Inr (sample_proposal [] [])))"
    "md_Policies md = Some (\<lambda>_ _ _. Inr ())" "md_Rules md = Some (\<lambda>_ _. Inr protecting_decision)"
    "md_pg md = sample_pg" "md_MaxAttempts md = 0"
    using assms(1) by (auto simp: merge_md_def typeless_md_def)
  have "merge_validateInput merge_input ''u'' = None" by (simp add: merge_validateInput_def merge_input_def)
  moreover have "requireMerge md ''u'' (in_Project merge_input) merge_db = None" by (simp add: requireMerge_def f sample_checks)
  moreover have "db_merge_creations merge_db = []" by (simp add: merge_db_def sample_db_def)
  then have "replay md merge_input merge_db = (Inr None, merge_db)"
    by (simp add: replay_def merge_input_def LookupMergeCreation_def f pool_query_def pool_exec_def GetMergeCreation_def
        errors_Is_def sample_pg_def textUUID_def)
  moreover have "requirePolicy md ''u'' (in_Project merge_input) merge_db = None" by (simp add: requirePolicy_def f protecting_decision_def)
  moreover have "requireIntegrity md merge_input merge_db = None" by (simp add: requireIntegrity_def f sample_checks)
  ultimately show ?thesis using assms(3) by (simp add: service_Merge_def p assms(2) max_attempts_def f defaultAttempts_def Let_def)
qed

lemma merge_keys: "keys_ok merge_db"
  by (simp add: keys_ok_def merge_db_def sample_db_def sample_branch_def work_branch_def sample_state_row_def sample_commit_def
    sample_version_def proposed_version_def)

lemma merge_chains: "chains_ok merge_db"
  by (auto simp: chains_ok_def keys_ok_def references_ok_def chain_of_def own_states_def own_commits_def branch_heads_def
    merge_db_def sample_db_def sample_branch_def work_branch_def sample_state_row_def sample_commit_def
    sample_version_def proposed_version_def)

lemma merge_events: "records_events merge_md"
  by (simp add: records_events_def merge_md_def)

lemma merge_attempt_eq:
  "merge_commit merge_md merge_ctx ''u'' merge_prepared (\<lambda>db. db) merge_db = (Inr (projr (fst merge_attempt)), snd merge_attempt)"
  using merge_attempt_ok by (cases merge_attempt; cases "fst merge_attempt") (auto simp: merge_attempt_def)

lemma merge_run_eq: "service_Merge merge_md calm merge_ctx ''u'' merge_input merge_db = (Inr merge_done, merge_after)"
  and merge_run_fresh: "\<not> mr_Replayed merge_done"
proof -
  have c: "calm i db = db" for i db by (simp add: calm_def)
  have a: "merge_commit merge_md merge_ctx ''u'' merge_prepared (calm 2) merge_db = (Inr (projr (fst merge_attempt)), snd merge_attempt)"
    using merge_attempt_eq by (simp add: calm_def)
  have "service_Merge merge_md calm merge_ctx ''u'' merge_input merge_db
      = merge_attempts merge_md merge_ctx ''u'' merge_prepared calm 2 (Suc 2) merge_db"
    by (rule sample_run) (simp_all add: c)
  also have "\<dots> = map_prod Inr (\<lambda>d. d) (runGitStep merge_md (projr (fst merge_attempt)) (pp_plan merge_prepared) (snd merge_attempt))"
    by (simp only: merge_attempts.simps a prod.case sum.case c)
  finally have r: "service_Merge merge_md calm merge_ctx ''u'' merge_input merge_db
      = map_prod Inr (\<lambda>d. d) (runGitStep merge_md (projr (fst merge_attempt)) (pp_plan merge_prepared) (snd merge_attempt))" .
  have "\<not> mr_Replayed x" if "merge_commit merge_md merge_ctx ''u'' merge_prepared (\<lambda>db. db) merge_db = (Inr x, d)" for x d
    using that by (auto simp: merge_commit_def commit_with_def Let_def split: prod.splits sum.splits option.splits)
  then have n: "\<not> mr_Replayed (projr (fst merge_attempt))" using merge_attempt_eq by blast
  show "service_Merge merge_md calm merge_ctx ''u'' merge_input merge_db = (Inr merge_done, merge_after)"
    by (simp add: merge_done_def merge_after_def merge_run_def r map_prod_def case_prod_beta)
  show "\<not> mr_Replayed merge_done"
    using n by (auto simp: merge_done_def merge_run_def r runGitStep_def Let_def split: prod.splits sum.splits)
qed

lemma attempts_refused:
  assumes "merge_commit md cx a p (env i) db = (Inl e, d)" and "\<not> as_versionHeadsMoved e"
  shows "merge_attempts md cx a p env i (Suc n) db = (Inl (MergeFailed e), d)"
  using assms by simp

lemma moved_run:
  obtains b expected actual d where "service_Merge merge_md moving merge_ctx ''u'' merge_input merge_db
    = (Inl (MergeFailed (StateConflictError b expected actual)), d)"
proof -
  obtain b expected actual where m: "fst (merge_commit merge_md merge_ctx ''u'' merge_prepared (moving 2) merge_db)
    = Inl (StateConflictError b expected actual)" by (rule moved_attempt)
  then have "merge_commit merge_md merge_ctx ''u'' merge_prepared (moving 2) merge_db = (Inl (StateConflictError b expected actual),
      snd (merge_commit merge_md merge_ctx ''u'' merge_prepared (moving 2) merge_db))" by (metis prod.collapse)
  note e = this
  have "service_Merge merge_md moving merge_ctx ''u'' merge_input merge_db
      = merge_attempts merge_md merge_ctx ''u'' merge_prepared moving 2 (Suc 2) merge_db"
    by (rule sample_run) (simp_all add: moving_def)
  also have "\<dots> = (Inl (MergeFailed (StateConflictError b expected actual)),
      snd (merge_commit merge_md merge_ctx ''u'' merge_prepared (moving 2) merge_db))"
    by (rule attempts_refused, rule e) (simp add: as_versionHeadsMoved_def)
  finally show ?thesis by (rule that)
qed

lemma typeless_run:
  obtains report d where "service_Merge typeless_md calm merge_ctx ''u'' merge_input merge_db = (Inl (MergeFailed (GateBlockedError report)), d)"
proof -
  obtain report where "fst (merge_commit typeless_md merge_ctx ''u'' merge_prepared (calm 2) merge_db) = Inl (GateBlockedError report)"
    using typeless_attempt by (auto simp: calm_def)
  then have "merge_commit typeless_md merge_ctx ''u'' merge_prepared (calm 2) merge_db = (Inl (GateBlockedError report),
      snd (merge_commit typeless_md merge_ctx ''u'' merge_prepared (calm 2) merge_db))" by (metis prod.collapse)
  note e = this
  have "service_Merge typeless_md calm merge_ctx ''u'' merge_input merge_db
      = merge_attempts typeless_md merge_ctx ''u'' merge_prepared calm 2 (Suc 2) merge_db"
    by (rule sample_run) (simp_all add: calm_def)
  also have "\<dots> = (Inl (MergeFailed (GateBlockedError report)),
      snd (merge_commit typeless_md merge_ctx ''u'' merge_prepared (calm 2) merge_db))"
    by (rule attempts_refused, rule e) (simp add: as_versionHeadsMoved_def)
  finally show ?thesis by (rule that)
qed

end
