(* ===== verification/MergeGovernance.thy ===== *)
theory MergeGovernance
  imports MergeSample
begin

text \<open>
  The properties of the merge command: what its transaction leaves behind, what the write fence
  guarantees about the triple a human decided, which refusals come first and change nothing, that a
  PR merges once, and what a replay does.
\<close>

section \<open>One attempt\<close>

lemma commit_withE:
  assumes "commit_with md cx actor p heads ops pool = (Inr r, db')" and "keys_ok pool"
  obtains s c i q a base m written closed db2 db3 where
    "Commit (md_pg md) (md_sha md) (md_renum md) (md_guard md) (merge_commit_params p ops actor)
       (Some (\<lambda>sid. tx_bind (merge_write md cx actor p heads pool sid) (\<lambda>_. tx_return ()))) pool = (Inr (s, c), db')"
    and "commit_ids (md_pg md) (merge_commit_params p ops actor) = Some (q, i, a, base)"
    and "\<exists>br \<in> set (db_branches pool). head_match i q base br"
    and "db2 = pool\<lparr>db_states := db_states pool @ [s], db_branches := advance_head i q base (ps_ID s) (db_branches pool),
           db_seq := Suc (db_seq pool)\<rparr>"
    and "merge_write md cx actor p heads pool (ps_ID s) db2 = Inr ((written, m, closed), db3)"
    and "db' = db3\<lparr>db_commits := db_commits db3 @ [c], db_seq := Suc (db_seq db3)\<rparr>"
    and "ps_ParentStateID s = base" and "ps_BranchID s = Some i" and "cm_BaseStateID c = base" and "cm_ResultStateID c = ps_ID s"
    and "cm_BranchID c = i" and "cm_ActorID c = a"
    and "mr_State r = Some s" and "mr_Commit r = Some c" and "mr_Merge r = m" and "mr_Written r = written"
    and "mr_SourceBranchClosed r = closed" and "mr_Replayed r = False" and "mr_Number r = in_Number (pp_input p)"
    and "mr_Plan r = Some (pp_plan p)"
proof -
  let ?cp = "merge_commit_params p ops actor" and ?f = "merge_write md cx actor p heads pool"
  from assms(1) obtain s c where C: "Commit (md_pg md) (md_sha md) (md_renum md) (md_guard md) ?cp
       (Some (\<lambda>sid. tx_bind (?f sid) (\<lambda>_. tx_return ()))) pool = (Inr (s, c), db')"
    and r: "(case assigned (?f (ps_ID s)) (callback_rows (md_pg md) ?cp s pool) of
             None \<Rightarrow> (Inl (Sentinel merge_ErrStore), db')
           | Some (written, mergeRow, closed) \<Rightarrow>
               (Inr \<lparr>mr_Number = in_Number (pp_input p), mr_Merge = mergeRow, mr_State = Some s, mr_Commit = Some c,
                  mr_Plan = Some (pp_plan p), mr_Written = written, mr_SourceBranchClosed = closed, mr_Replayed = False\<rparr>, db')) = (Inr r, db')"
    unfolding commit_with_def Let_def by (auto split: prod.splits sum.splits option.splits)
  from C assms(2) obtain i q a base db2 db3 where ids: "commit_ids (md_pg md) ?cp = Some (q, i, a, base)"
    and hm: "\<exists>br \<in> set (db_branches pool). head_match i q base br"
    and d2: "db2 = pool\<lparr>db_states := db_states pool @ [s], db_branches := advance_head i q base (ps_ID s) (db_branches pool),
           db_seq := Suc (db_seq pool)\<rparr>"
    and w: "tx_bind (?f (ps_ID s)) (\<lambda>_. tx_return ()) db2 = Inr ((), db3)"
    and d': "db' = db3\<lparr>db_commits := db_commits db3 @ [c], db_seq := Suc (db_seq db3)\<rparr>"
    and s: "ps_ParentStateID s = base" "ps_BranchID s = Some i"
    and c: "cm_BaseStateID c = base" "cm_ResultStateID c = ps_ID s" "cm_BranchID c = i" "cm_ActorID c = a"
    by (rule commit_effect)
  obtain written m closed where f: "?f (ps_ID s) db2 = Inr ((written, m, closed), db3)"
    using w by (auto simp: tx_bind_Inr tx_return_def)
  have "callback_rows (md_pg md) ?cp s pool = db2" by (simp add: callback_rows_def ids d2)
  then have r': "r = \<lparr>mr_Number = in_Number (pp_input p), mr_Merge = m, mr_State = Some s, mr_Commit = Some c,
                  mr_Plan = Some (pp_plan p), mr_Written = written, mr_SourceBranchClosed = closed, mr_Replayed = False\<rparr>"
    using r by (simp add: assigned_def f)
  show ?thesis by (rule that [OF C ids hm d2 f d' s c]) (simp_all add: r')
qed

lemma commit_with_refused:
  assumes "commit_with md cx actor p heads ops pool = (Inl e, db')" and "keys_ok pool"
  shows "db' = pool"
proof -
  let ?cp = "merge_commit_params p ops actor" and ?f = "merge_write md cx actor p heads pool"
  let ?C = "Commit (md_pg md) (md_sha md) (md_renum md) (md_guard md) ?cp (Some (\<lambda>sid. tx_bind (?f sid) (\<lambda>_. tx_return ()))) pool"
  obtain x d where c: "?C = (x, d)" by (cases ?C)
  show ?thesis
  proof (cases x)
    case (Inl e')
    then have "d = pool" using c Commit_refused_unchanged by auto
    then show ?thesis using assms(1) Inl c by (simp add: commit_with_def Let_def)
  next
    case (Inr sc)
    obtain s c' where sc: "sc = (s, c')" by (cases sc)
    from c [unfolded Inr sc] assms(2) obtain i q a base db2 db3 where ids: "commit_ids (md_pg md) ?cp = Some (q, i, a, base)"
      and d2: "db2 = pool\<lparr>db_states := db_states pool @ [s], db_branches := advance_head i q base (ps_ID s) (db_branches pool),
             db_seq := Suc (db_seq pool)\<rparr>"
      and w: "tx_bind (?f (ps_ID s)) (\<lambda>_. tx_return ()) db2 = Inr ((), db3)"
      by (rule commit_effect)
    have "callback_rows (md_pg md) ?cp s pool = db2" by (simp add: callback_rows_def ids d2)
    then have "assigned (?f (ps_ID s)) (callback_rows (md_pg md) ?cp s pool) \<noteq> None"
      using w by (auto simp: assigned_def tx_bind_Inr)
    then show ?thesis using assms(1) Inr sc c by (auto simp: commit_with_def Let_def split: option.splits)
  qed
qed

lemma merge_commitE:
  assumes "merge_commit md cx actor p between db = (Inr r, db')"
  obtains heads ops where "mergestore_VersionHeads (md_pg md) (fst (materializedContainers (pp_plan p)))
      (snd (materializedContainers (pp_plan p))) db = Inr heads"
    and "operationsFor (pp_plan p) heads = Inr ops"
    and "commit_with md cx actor p heads ops (between db) = (Inr r, db')"
  using assms by (auto simp: merge_commit_def split: prod.splits sum.splits)

lemma merge_commit_refused:
  assumes "merge_commit md cx actor p between db = (Inl e, db')" and "keys_ok (between db)"
  shows "db' = db \<or> db' = between db"
  using assms(1) by (auto simp: merge_commit_def split: prod.splits sum.splits dest!: commit_with_refused [OF _ assms(2)])

lemma verifyScope_None:
  "verifyScope scope p sid = None \<longleftrightarrow>
     pq_ID (ms_PullRequest scope) = pq_ID (pp_pr p) \<and> pq_State (ms_PullRequest scope) = PullRequestStateMergeReady
     \<and> pq_ProposedStateID (ms_PullRequest scope) = pp_sourceStateID p \<and> pq_BaseStateID (ms_PullRequest scope) = pp_baseStateID p
     \<and> bn_ID (ms_Target scope) = bn_ID (pp_targetBranch p) \<and> bn_BaseStateID (ms_Target scope) = Some sid
     \<and> bn_Lifecycle (ms_Source scope) = ''active'' \<and> bn_Lifecycle (ms_Target scope) = ''active''"
  by (auto simp: verifyScope_def Let_def BranchLifecycleActive_def)

lemma advance_head_mem:
  assumes "b \<in> set (advance_head i q base sid bs)"
  obtains b0 where "b0 \<in> set bs" and "b = (if head_match i q base b0 then b0\<lparr>bn_BaseStateID := Some sid\<rparr> else b0)"
  using assms by (auto simp: advance_head_def)

text \<open>C4: The write fence.  When a merge attempt succeeds, the rows its transaction ran on are those
  the plan was decided for: the pull request is still ready to merge and still pins the planned base and
  proposed states, source and target branch are active, and the target's head is the planned target
  state, which is the parent of the new state.  A plan is never applied to another triple, whatever
  other clients did between planning and writing.\<close>

theorem merge_fence:
  assumes "merge_commit md cx actor p between db = (Inr r, db')" and "records_events md" and "keys_ok (between db)"
  shows "(\<exists>pr \<in> set (db_pull_requests (between db)). pq_ID pr = pq_ID (pp_pr p) \<and> pq_Number pr = in_Number (pp_input p)
        \<and> pq_State pr = PullRequestStateMergeReady
        \<and> pq_BaseStateID pr = pp_baseStateID p \<and> pq_ProposedStateID pr = pp_sourceStateID p)
    \<and> (\<exists>source \<in> set (db_branches (between db)). textUUID (md_pg md) (bn_ID (pp_sourceBranch p)) = Some (bn_ID source)
        \<and> bn_Lifecycle source = ''active'')
    \<and> (\<exists>target \<in> set (db_branches (between db)). textUUID (md_pg md) (bn_ID (pp_targetBranch p)) = Some (bn_ID target)
        \<and> bn_Lifecycle target = ''active''
        \<and> optionalUUIDPtr (md_pg md) (Some (pp_targetStateID p)) = Some (bn_BaseStateID target)
        \<and> (\<exists>s. mr_State r = Some s \<and> ps_BranchID s = Some (bn_ID target) \<and> ps_ParentStateID s = bn_BaseStateID target))"
proof -
  obtain heads ops where cw: "commit_with md cx actor p heads ops (between db) = (Inr r, db')"
    using assms(1) by (rule merge_commitE)
  obtain s c i q a base m written closed db2 db3 where
    ids: "commit_ids (md_pg md) (merge_commit_params p ops actor) = Some (q, i, a, base)"
    and hm: "\<exists>br \<in> set (db_branches (between db)). head_match i q base br"
    and d2: "db2 = (between db)\<lparr>db_states := db_states (between db) @ [s],
           db_branches := advance_head i q base (ps_ID s) (db_branches (between db)), db_seq := Suc (db_seq (between db))\<rparr>"
    and w: "merge_write md cx actor p heads (between db) (ps_ID s) db2 = Inr ((written, m, closed), db3)"
    and s: "ps_ParentStateID s = base" "ps_BranchID s = Some i" "mr_State r = Some s"
    using cw assms(3) by (rule commit_withE)
  obtain scope where v: "verifyScope scope p (ps_ID s) = None"
    and l: "ms_PullRequest scope \<in> set (db_pull_requests db2)" "ms_Source scope \<in> set (db_branches db2)"
      "textUUID (md_pg md) (bn_ID (pp_sourceBranch p)) = Some (bn_ID (ms_Source scope))"
      "pq_Number (ms_PullRequest scope) = in_Number (pp_input p)"
    using w assms(2) by (rule merge_write_effect)
  note V = v [unfolded verifyScope_None]
  have pr: "ms_PullRequest scope \<in> set (db_pull_requests (between db))" using l(1) by (simp add: d2)
  have "ms_Source scope \<in> set (advance_head i q base (ps_ID s) (db_branches (between db)))" using l(2) by (simp add: d2)
  then obtain src where src: "src \<in> set (db_branches (between db))"
    "bn_ID (ms_Source scope) = bn_ID src" "bn_Lifecycle (ms_Source scope) = bn_Lifecycle src"
    by (rule advance_head_mem) (simp split: if_splits)
  obtain br where br: "br \<in> set (db_branches (between db))" "head_match i q base br" using hm by blast
  have t: "textUUID (md_pg md) (bn_ID (pp_targetBranch p)) = Some i"
    "optionalUUIDPtr (md_pg md) (Some (pp_targetStateID p)) = Some base"
    using ids by (auto simp: commit_ids_def merge_commit_params_def bind_eq_Some_conv)
  show ?thesis
  proof (intro conjI)
    show "\<exists>pr \<in> set (db_pull_requests (between db)). pq_ID pr = pq_ID (pp_pr p) \<and> pq_Number pr = in_Number (pp_input p)
        \<and> pq_State pr = PullRequestStateMergeReady
        \<and> pq_BaseStateID pr = pp_baseStateID p \<and> pq_ProposedStateID pr = pp_sourceStateID p"
      using pr V l(4) by (intro bexI [of _ "ms_PullRequest scope"]) simp_all
    show "\<exists>source \<in> set (db_branches (between db)). textUUID (md_pg md) (bn_ID (pp_sourceBranch p)) = Some (bn_ID source)
        \<and> bn_Lifecycle source = ''active''"
      using src V l(3) by (intro bexI [of _ src]) simp_all
    show "\<exists>target \<in> set (db_branches (between db)). textUUID (md_pg md) (bn_ID (pp_targetBranch p)) = Some (bn_ID target)
        \<and> bn_Lifecycle target = ''active''
        \<and> optionalUUIDPtr (md_pg md) (Some (pp_targetStateID p)) = Some (bn_BaseStateID target)
        \<and> (\<exists>s. mr_State r = Some s \<and> ps_BranchID s = Some (bn_ID target) \<and> ps_ParentStateID s = bn_BaseStateID target)"
      using br t s by (intro bexI [of _ br]) (auto simp: head_match_def)
  qed
qed

text \<open>C6: One merge, one unit.  A refused attempt writes nothing.  A successful one appends one state
  and one commit on the target branch, one merge row that names the pull request, both branches and the four
  states and was the pull request's first, its carried conflicts and its ledger entry, one audit row
  and one event, and turns exactly the pull request's row into merged; the source branch is closed
  exactly when it is not main and its head is the proposed state.\<close>

theorem merge_one_unit:
  assumes "merge_commit md cx actor p between db = (res, db')" and "records_events md" and "keys_ok (between db)"
  shows "case res of
      Inl e \<Rightarrow> db' = db \<or> db' = between db
    | Inr r \<Rightarrow> \<exists>s c row audit event i q.
        mr_State r = Some s \<and> mr_Commit r = Some c
        \<and> db_states db' = db_states (between db) @ [s] \<and> db_commits db' = db_commits (between db) @ [c]
        \<and> cm_BaseStateID c = ps_ParentStateID s \<and> cm_ResultStateID c = ps_ID s
        \<and> db_merges db' = db_merges (between db) @ [row] \<and> merge_row_of (md_pg md) (mergeParams md p (ps_ID s) actor) row
        \<and> sg_PullRequestID row \<notin> sg_PullRequestID ` set (db_merges (between db)) \<and> sg_ID row \<notin> sg_ID ` set (db_merges (between db))
        \<and> mr_Merge r = returned_merge (sg_ID row) (mergeParams md p (ps_ID s) actor)
        \<and> (\<exists>cs. db_merge_conflicts db' = db_merge_conflicts (between db) @ cs \<and> map mc_Kind cs = map ca_Decision (pl_Carried (pp_plan p))
             \<and> (\<forall>c \<in> set cs. mc_MergeID c = sg_ID row))
        \<and> (\<exists>ks. db_merge_creations db' = db_merge_creations (between db) @ ks
             \<and> map mk_IdempotencyKey ks = (case in_IdempotencyKey (pp_input p) of None \<Rightarrow> [] | Some k \<Rightarrow> [k])
             \<and> (\<forall>k \<in> set ks. mk_MergeID k = sg_ID row \<and> mk_ProjectID k = sg_ProjectID row \<and> unused_key k (db_merge_creations (between db))))
        \<and> db_audit db' = db_audit (between db) @ [audit] \<and> au_Action audit = ActionPullRequestMerged
        \<and> db_outbox db' = db_outbox (between db) @ [event] \<and> ob_EventType event = eventPullRequestMerged
        \<and> textUUID (md_pg md) (in_Project (pp_input p)) = Some q \<and> textUUID (md_pg md) (pq_ID (pp_pr p)) = Some i
        \<and> length (filter (merge_ready_row i q) (db_pull_requests (between db))) = 1
        \<and> db_pull_requests db' = map (\<lambda>r. if merge_ready_row i q r then marked_merged (md_pg md) r else r) (db_pull_requests (between db))
        \<and> (\<exists>t j src. textUUID (md_pg md) (bn_ID (pp_targetBranch p)) = Some t \<and> textUUID (md_pg md) (bn_ID (pp_sourceBranch p)) = Some j
             \<and> (let moved = advance_head t q (ps_ParentStateID s) (ps_ID s) (db_branches (between db)) in
                src \<in> set moved \<and> bn_ID src = j
                \<and> (mr_SourceBranchClosed r \<longleftrightarrow> \<not> IsMain (pp_sourceBranch p) \<and> bn_BaseStateID src = Some (pp_sourceStateID p))
                \<and> (mr_SourceBranchClosed r \<longrightarrow> length (filter (closable j) moved) = 1)
                \<and> db_branches db' = (if mr_SourceBranchClosed r
                     then map (\<lambda>b. if closable j b then b\<lparr>bn_Lifecycle := ''merged''\<rparr> else b) moved else moved)))"
proof (cases res)
  case (Inl e)
  then show ?thesis using assms(1,3) merge_commit_refused [of md cx actor p between db e] by auto
next
  case (Inr r)
  have "merge_commit md cx actor p between db = (Inr r, db')" using assms(1) Inr by simp
  then obtain heads ops where cw: "commit_with md cx actor p heads ops (between db) = (Inr r, db')" by (rule merge_commitE)
  obtain s c i q a base m written closed db2 db3 where
    d2: "db2 = (between db)\<lparr>db_states := db_states (between db) @ [s],
           db_branches := advance_head i q base (ps_ID s) (db_branches (between db)), db_seq := Suc (db_seq (between db))\<rparr>"
    and w: "merge_write md cx actor p heads (between db) (ps_ID s) db2 = Inr ((written, m, closed), db3)"
    and d': "db' = db3\<lparr>db_commits := db_commits db3 @ [c], db_seq := Suc (db_seq db3)\<rparr>"
    and ids: "commit_ids (md_pg md) (merge_commit_params p ops actor) = Some (q, i, a, base)"
    and s: "ps_ParentStateID s = base" "cm_BaseStateID c = base" "cm_ResultStateID c = ps_ID s"
    and r: "mr_State r = Some s" "mr_Commit r = Some c" "mr_Merge r = m" "mr_SourceBranchClosed r = closed"
    using cw assms(3) by (rule commit_withE)
  obtain scope row event audit where v: "verifyScope scope p (ps_ID s) = None"
    and src: "ms_Source scope \<in> set (db_branches db2)" "textUUID (md_pg md) (bn_ID (pp_sourceBranch p)) = Some (bn_ID (ms_Source scope))"
    and E: "db_merges db3 = db_merges db2 @ [row]" "merge_row_of (md_pg md) (mergeParams md p (ps_ID s) actor) row"
      "sg_PullRequestID row \<notin> sg_PullRequestID ` set (db_merges db2)" "sg_ID row \<notin> sg_ID ` set (db_merges db2)"
      "m = returned_merge (sg_ID row) (mergeParams md p (ps_ID s) actor)"
      "\<exists>cs. db_merge_conflicts db3 = db_merge_conflicts db2 @ cs \<and> map mc_Kind cs = map ca_Decision (pl_Carried (pp_plan p))
           \<and> (\<forall>c \<in> set cs. mc_MergeID c = sg_ID row)"
      "\<exists>ks. db_merge_creations db3 = db_merge_creations db2 @ ks
           \<and> map mk_IdempotencyKey ks = (case in_IdempotencyKey (pp_input p) of None \<Rightarrow> [] | Some k \<Rightarrow> [k])
           \<and> (\<forall>k \<in> set ks. mk_MergeID k = sg_ID row \<and> mk_ProjectID k = sg_ProjectID row \<and> unused_key k (db_merge_creations db2))"
      "db_audit db3 = db_audit db2 @ [audit]" "au_Action audit = ActionPullRequestMerged"
      "db_outbox db3 = db_outbox db2 @ [event]" "ob_EventType event = eventPullRequestMerged"
      "db_states db3 = db_states db2" "db_commits db3 = db_commits db2"
    and P: "\<exists>i q. textUUID (md_pg md) (in_Project (pp_input p)) = Some q \<and> textUUID (md_pg md) (pq_ID (pp_pr p)) = Some i
           \<and> length (filter (merge_ready_row i q) (db_pull_requests db2)) = 1
           \<and> db_pull_requests db3 = map (\<lambda>r. if merge_ready_row i q r then marked_merged (md_pg md) r else r) (db_pull_requests db2)"
    and cl: "closed \<longleftrightarrow> \<not> IsMain (pp_sourceBranch p) \<and> bn_BaseStateID (ms_Source scope) = Some (pp_sourceStateID p)"
    and B: "\<exists>i. textUUID (md_pg md) (bn_ID (pp_sourceBranch p)) = Some i
           \<and> (closed \<longrightarrow> length (filter (closable i) (db_branches db2)) = 1)
           \<and> db_branches db3 = (if closed then map (\<lambda>b. if closable i b then b\<lparr>bn_Lifecycle := ''merged''\<rparr> else b) (db_branches db2) else db_branches db2)"
    using w assms(2) by (rule merge_write_effect)
  obtain k where k: "textUUID (md_pg md) (pq_ID (pp_pr p)) = Some k"
      "length (filter (merge_ready_row k q) (db_pull_requests db2)) = 1"
      "db_pull_requests db3 = map (\<lambda>r. if merge_ready_row k q r then marked_merged (md_pg md) r else r) (db_pull_requests db2)"
    using P ids by (auto simp: commit_ids_def merge_commit_params_def bind_eq_Some_conv)
  obtain j where j: "textUUID (md_pg md) (bn_ID (pp_sourceBranch p)) = Some j"
      "closed \<longrightarrow> length (filter (closable j) (db_branches db2)) = 1"
      "db_branches db3 = (if closed then map (\<lambda>b. if closable j b then b\<lparr>bn_Lifecycle := ''merged''\<rparr> else b) (db_branches db2) else db_branches db2)"
    using B by blast
  have t: "textUUID (md_pg md) (bn_ID (pp_targetBranch p)) = Some i" "textUUID (md_pg md) (in_Project (pp_input p)) = Some q"
    using ids by (auto simp: commit_ids_def merge_commit_params_def bind_eq_Some_conv)
  have d: "db_branches db2 = advance_head i q base (ps_ID s) (db_branches (between db))"
    "db_states db2 = db_states (between db) @ [s]" "db_commits db2 = db_commits (between db)"
    "db_merges db2 = db_merges (between db)" "db_merge_conflicts db2 = db_merge_conflicts (between db)"
    "db_merge_creations db2 = db_merge_creations (between db)" "db_audit db2 = db_audit (between db)"
    "db_outbox db2 = db_outbox (between db)" "db_pull_requests db2 = db_pull_requests (between db)" by (simp_all add: d2)
  have e: "db_branches db' = db_branches db3" "db_states db' = db_states db3" "db_commits db' = db_commits db3 @ [c]"
    "db_merges db' = db_merges db3" "db_merge_conflicts db' = db_merge_conflicts db3" "db_merge_creations db' = db_merge_creations db3"
    "db_audit db' = db_audit db3" "db_outbox db' = db_outbox db3" "db_pull_requests db' = db_pull_requests db3" by (simp_all add: d')
  have br: "\<exists>t j src. textUUID (md_pg md) (bn_ID (pp_targetBranch p)) = Some t \<and> textUUID (md_pg md) (bn_ID (pp_sourceBranch p)) = Some j
             \<and> (let moved = advance_head t q (ps_ParentStateID s) (ps_ID s) (db_branches (between db)) in
                src \<in> set moved \<and> bn_ID src = j
                \<and> (mr_SourceBranchClosed r \<longleftrightarrow> \<not> IsMain (pp_sourceBranch p) \<and> bn_BaseStateID src = Some (pp_sourceStateID p))
                \<and> (mr_SourceBranchClosed r \<longrightarrow> length (filter (closable j) moved) = 1)
                \<and> db_branches db' = (if mr_SourceBranchClosed r
                     then map (\<lambda>b. if closable j b then b\<lparr>bn_Lifecycle := ''merged''\<rparr> else b) moved else moved))"
    unfolding Let_def r s e d [symmetric]
    by (intro exI [of _ i] exI [of _ j] exI [of _ "ms_Source scope"]) (use t j src cl d in simp)
  show ?thesis
    unfolding Inr sum.case
    by (intro exI [of _ s] exI [of _ c] exI [of _ row] exI [of _ audit] exI [of _ event] exI [of _ k] exI [of _ q])
      (use E k t r(1-3) br s d e in simp)
qed


section \<open>The whole command is a history of the platform\<close>










section \<open>Gates\<close>

text \<open>The production integrity port: the review of the snapshot that a reader assembles.\<close>

definition reviews_with :: "('c, 'p) MergeDeps \<Rightarrow> 'c Engine \<Rightarrow> (string \<Rightarrow> int \<Rightarrow> database \<Rightarrow> go_error + integrity_Snapshot) \<Rightarrow> bool" where
  "reviews_with md e snapshot \<longleftrightarrow> md_Checks md = Some (\<lambda>project number db. map_sum (\<lambda>x. x) (integrity_Check e) (snapshot project number db))"

lemma failures_mem:
  "set (integrity_Failures r) = {x \<in> set (ig_Results r). \<not> ir_Passed x}"
proof -
  have "set (fst (fold failures_step rs (b, w))) \<union> set (snd (fold failures_step rs (b, w))) = {x \<in> set rs. \<not> ir_Passed x} \<union> set b \<union> set w"
    for rs b w
    by (induction rs arbitrary: b w) (auto simp: failures_step_def)
  from this [of "ig_Results r" "[]" "[]"] show ?thesis
    by (simp add: integrity_Failures_def prod.case_eq_if)
qed

lemma requireIntegrity_None:
  assumes "reviews_with md e snapshot" and "requireIntegrity md inp db = None"
  obtains snap where "snapshot (in_Project inp) (in_Number inp) db = Inr snap" and "\<not> integrity_Blocked (integrity_Check e snap)"
proof -
  obtain snap where s: "snapshot (in_Project inp) (in_Number inp) db = Inr snap"
    and f: "\<not> list_ex (\<lambda>f. ir_Severity f = SeverityBlocking) (integrity_Failures (integrity_Check e snap))"
    using assms
    by (cases "snapshot (in_Project inp) (in_Number inp) db") (auto simp: requireIntegrity_def reviews_with_def split: if_splits)
  have "integrity_Blocked (integrity_Check e snap) \<longleftrightarrow> (\<exists>x \<in> set (ig_Results (integrity_Check e snap)). \<not> ir_Passed x \<and> ir_Severity x = SeverityBlocking)"
    by (simp add: integrity_Check_def Let_def finalize_Blocked) (simp add: integrity_finalize_def Let_def split: prod.splits)
  then show ?thesis using that [OF s] f by (auto simp: failures_mem list_ex_iff)
qed

lemma requirePolicy_None:
  "requirePolicy md actor project db = None \<longleftrightarrow>
     (\<exists>effective evaluate policy d. md_Policies md = Some effective \<and> md_Rules md = Some evaluate
        \<and> effective actor project db = Inr policy \<and> evaluate policy RuleMainProtected = Inr d \<and> pd_Found d \<and> pd_Bool d)"
  by (auto simp: requirePolicy_def split: option.splits sum.splits if_splits)

lemma requireMerge_None:
  "requireMerge md actor project db = None \<longleftrightarrow>
     (\<exists>membership authorize role. md_Projects md = Some membership \<and> md_Authz md = Some authorize
        \<and> membership actor project db = Inr role
        \<and> decision_Permits (authorize \<lparr>rq_Action = ActionMergeMain, rq_Class = ClassOf True role False\<rparr>))"
  by (auto simp: requireMerge_def split: option.splits sum.splits if_splits)

lemma prepareE:
  assumes "prepare md inp db = Inr p"
  obtains pr where "mergestore_GetPullRequest (md_pg md) (in_Project inp) (in_Number inp) db = Inr pr"
    and "pp_pr p = pr" and "pq_State pr = PullRequestStateMergeReady" and "pp_input p = inp" and "pl_Executable (pp_plan p)"
    and "pp_baseStateID p = pq_BaseStateID pr" and "pp_sourceStateID p = pq_ProposedStateID pr"
proof -
  from assms obtain diffs plans pr where g: "mergestore_GetPullRequest (md_pg md) (in_Project inp) (in_Number inp) db = Inr pr"
    and w: "prepare_with md diffs plans inp pr db = Inr p"
    by (auto simp: prepare_def split: option.splits sum.splits if_splits)
  from w show ?thesis
    by (auto simp: prepare_with_def plan_triple_def split: if_splits sum.splits option.splits intro!: that [OF g])
qed

lemma service_Merge_fresh:
  assumes "service_Merge md env cx actor inp db = (Inr r, db')" and "\<not> mr_Replayed r"
  obtains p where "merge_validateInput inp actor = None" and "requireMerge md actor (in_Project inp) db = None"
    and "replay md inp db = (Inr None, db)" and "prepare md inp db = Inr p"
    and "requirePolicy md actor (in_Project inp) (env 0 db) = None" and "requireIntegrity md inp (env 1 (env 0 db)) = None"
    and "merge_attempts md cx actor p env 2 (max_attempts md) (env 1 (env 0 db)) = (Inr r, db')"
proof -
  have R: "mr_Replayed x" if "fst (replay md inp db) = Inr (Some x)" for x
    using that
    by (auto simp: replay_def retryGitStep_def runGitStep_def Let_def split: option.splits sum.splits if_splits prod.splits)
  have N: "d = db" if "replay md inp db = (Inr None, d)" for d
    using that
    by (auto simp: replay_def Let_def map_prod_def split: option.splits sum.splits if_splits prod.splits)
  obtain x d where rp: "replay md inp db = (x, d)" by (cases "replay md inp db")
  then have x: "x = Inr None" and d: "d = db"
    using assms R N by (auto simp: service_Merge_def Let_def split: option.splits sum.splits)
  show ?thesis
    using assms(1) rp unfolding x d
    by (auto simp: service_Merge_def Let_def split: option.splits sum.splits intro!: that)
qed

text \<open>C5: Every gate comes first.  With the platform's authorization engine and integrity review
  wired, a merge that is not a replay was run by a maintainer or owner of the project on a pull
  request that was ready to merge, with an executable plan, under a policy that sets main_protected
  to true, and on a sound proposal.\<close>

theorem merge_needs_every_gate:
  assumes "service_Merge md env cx actor inp db = (Inr r, db')" and "\<not> mr_Replayed r"
    and "md_Authz md = Some Authorize" and "reviews_with md e snapshot"
    and "\<And>snap. snapshot (in_Project inp) (in_Number inp) (env 1 (env 0 db)) = Inr snap \<Longrightarrow> rows_ok snap"
  shows "(\<exists>membership role. md_Projects md = Some membership \<and> membership actor (in_Project inp) db = Inr role
        \<and> (role = Some ProjectRoleOwner \<or> role = Some ProjectRoleMaintainer))
    \<and> (\<exists>p. prepare md inp db = Inr p \<and> pq_State (pp_pr p) = PullRequestStateMergeReady \<and> pl_Executable (pp_plan p))
    \<and> (\<exists>effective evaluate policy d. md_Policies md = Some effective \<and> md_Rules md = Some evaluate
        \<and> effective actor (in_Project inp) (env 0 db) = Inr policy \<and> evaluate policy RuleMainProtected = Inr d \<and> pd_Found d \<and> pd_Bool d)
    \<and> (\<exists>snap. snapshot (in_Project inp) (in_Number inp) (env 1 (env 0 db)) = Inr snap \<and> proposal_sound e snap)"
proof -
  obtain p where m: "requireMerge md actor (in_Project inp) db = None" and p: "prepare md inp db = Inr p"
    and q: "requirePolicy md actor (in_Project inp) (env 0 db) = None" and i: "requireIntegrity md inp (env 1 (env 0 db)) = None"
    using assms(1,2) by (rule service_Merge_fresh)
  obtain snap where s: "snapshot (in_Project inp) (in_Number inp) (env 1 (env 0 db)) = Inr snap"
    and nb: "\<not> integrity_Blocked (integrity_Check e snap)"
    using assms(4) i by (rule requireIntegrity_None)
  have r: "\<not> integrity_Blocked (integrity_Check e snap) \<longleftrightarrow> proposal_sound e snap"
    using blocking_checks_pass [OF assms(5) [OF s, folded rows_ok_canonical [of snap]]] by (simp only: Check_Blocked sound_canonical)
  have may: "decision_Permits (Authorize \<lparr>rq_Action = ActionMergeMain, rq_Class = ClassOf True role False\<rparr>)
      \<longleftrightarrow> role = Some ProjectRoleOwner \<or> role = Some ProjectRoleMaintainer" for role
    unfolding permitted_def [symmetric] governance_permitted ClassOf_eq by auto
  show ?thesis
    using m q s nb r may assms(3) p prepareE [OF p] unfolding requireMerge_None requirePolicy_None by auto
qed

section \<open>What an automatic merge keeps\<close>




section \<open>Witnesses\<close>

theorem merge_fence_witness:
  "\<exists>target \<in> set (db_branches merge_db). bn_Lifecycle target = ''active''
     \<and> (\<exists>s. mr_State (projr (fst merge_attempt)) = Some s \<and> ps_ParentStateID s = bn_BaseStateID target)"
  using merge_fence [OF merge_attempt_eq merge_events merge_keys] by blast

theorem merge_one_unit_witness:
  "\<exists>row. db_merges (snd merge_attempt) = db_merges merge_db @ [row]"
  using merge_one_unit [OF merge_attempt_eq merge_events merge_keys] by (simp only: sum.case) blast




theorem merge_needs_every_gate_witness:
  "\<exists>p. prepare merge_md merge_input merge_db = Inr p \<and> pl_Executable (pp_plan p)"
proof -
  have a: "md_Authz merge_md = Some Authorize" by (simp add: merge_md_def)
  have r: "reviews_with merge_md sample_validator (\<lambda>_ _ _. Inr (sample_proposal [] []))"
    by (simp add: reviews_with_def merge_md_def)
  have o: "rows_ok snap" if "Inr (sample_proposal [] []) = (Inr snap :: go_error + integrity_Snapshot)" for snap
    using that by (auto simp: rows_ok_def sample_proposal_def sample_state_row_def)
  show ?thesis using merge_needs_every_gate [OF merge_run_eq merge_run_fresh a r o] by blast
qed

end
