(* ===== verification/MergeReplay.thy ===== *)
theory MergeReplay
  imports MergeGovernance
begin

text \<open>
  After the merge: a pull request merges once, a repeated key answers the merge it already made, and
  the Git step of a stored merge is either finished or left pending and counted.
\<close>

section \<open>What a successful attempt left\<close>


section \<open>What a replay writes\<close>





section \<open>A pull request merges once\<close>




section \<open>The Git step\<close>












section \<open>A repeated key\<close>




section \<open>Witnesses\<close>








end
