(* ===== verification/MergeWire.thy ===== *)
theory MergeWire
  imports MergeReplay
begin

text \<open>
  The merge route (\<open>cmd/api/mergehttp\<close>): how a request becomes the input of the merge command and how
  the outcome of the command becomes a status, a code and a message.  The server has matched the
  route; the session middleware and the project read gate are arguments.
\<close>

section \<open>Requests and replies\<close>

definition mergeVerb :: string where "mergeVerb = '':merge''"
definition RequestReviewVerb :: string where "RequestReviewVerb = '':request-review''"
definition minIdempotencyKeyLen :: nat where "minIdempotencyKeyLen = 8"

text \<open>The last path segment, the project, the header (empty when absent), the body as the limited
  reader yields it (nothing when there is none; cut bytes end in an invalid token) and the user of the
  session.\<close>

record http_request =
  hr_number :: string
  hr_projectId :: string
  hr_key :: string
  hr_body :: "raw option"
  hr_user :: "string option"

record mergedVersionRow =
  my_TargetKind :: string
  my_TargetID :: string
  my_VersionID :: string
  my_VersionNo :: int

record mergePayload =
  mp_Number :: int
  mp_MergeID :: string
  mp_StateID :: string
  mp_CommitID :: string
  mp_PlanDigest :: string
  mp_TargetBranchID :: string
  mp_GitState :: string
  mp_GitSHA :: "string option"
  mp_GitError :: string
  mp_Applied :: int
  mp_KeptTarget :: int
  mp_Carried :: int
  mp_Aborted :: int
  mp_Withheld :: int
  mp_SourceClosed :: bool
  mp_WrittenVersions :: "mergedVersionRow list"
  mp_Replayed :: bool
  mp_MergedAt :: gotime

text \<open>A message is a fixed line of the transport, the text of the error, or the explanation of the
  integrity report.\<close>

datatype wire_message = FixedLine | TextOf merge_refusal | ExplanationOf integrity_Report

datatype reply =
    NotFoundPage
  | WriteError nat string wire_message
  | WriteJSON mergePayload

definition payloadFromResult :: "MergeResult \<Rightarrow> mergePayload" where
  "payloadFromResult res =
     (let m = mr_Merge res in
      \<lparr>mp_Number = mr_Number res, mp_MergeID = sg_ID m,
       mp_StateID = (if sg_ResultStateID m = [] then (case mr_State res of None \<Rightarrow> [] | Some s \<Rightarrow> ps_ID s) else sg_ResultStateID m),
       mp_CommitID = (case mr_Commit res of None \<Rightarrow> [] | Some c \<Rightarrow> cm_ID c), mp_PlanDigest = sg_PlanDigest m,
       mp_TargetBranchID = sg_TargetBranchID m, mp_GitState = sg_GitState m, mp_GitSHA = sg_GitSHA m,
       mp_GitError = sg_GitError m, mp_Applied = sg_Applied m, mp_KeptTarget = sg_KeptTarget m, mp_Carried = sg_Carried m,
       mp_Aborted = sg_Aborted m, mp_Withheld = sg_Withheld m, mp_SourceClosed = mr_SourceBranchClosed res,
       mp_WrittenVersions = map (\<lambda>w. \<lparr>my_TargetKind = wv_TargetKind w, my_TargetID = wv_TargetID w,
         my_VersionID = wv_VersionID w, my_VersionNo = wv_VersionNo w\<rparr>) (mr_Written res),
       mp_Replayed = mr_Replayed res, mp_MergedAt = sg_CreatedAt m\<rparr>)"

section \<open>Reading the request\<close>

definition HasSuffix :: "string \<Rightarrow> string \<Rightarrow> bool" where
  "HasSuffix s suf \<longleftrightarrow> length suf \<le> length s \<and> drop (length s - length suf) s = suf"

text \<open>\<open>strconv.ParseInt\<close> with base 10 and 64 bits: an optional sign and digits.\<close>

definition parse_int64 :: "string \<Rightarrow> int option" where
  "parse_int64 s = (if s \<noteq> [] \<and> hd s = CHR ''+'' then (if tl s \<noteq> [] \<and> hd (tl s) = CHR ''-'' then None else int_literal (tl s))
     else int_literal s)"

definition pathNumber :: "string \<Rightarrow> reply + int" where
  "pathNumber segment =
     (if \<not> HasSuffix segment mergeVerb then Inl NotFoundPage
      else let raw = TrimSuffix segment mergeVerb in
        if raw = [] \<or> CHR ''/'' \<in> set raw then Inl NotFoundPage
        else (case parse_int64 raw of
                None \<Rightarrow> Inl (WriteError 400 ''VALIDATION_FAILED'' FixedLine)
              | Some n \<Rightarrow> if n < 1 then Inl (WriteError 400 ''VALIDATION_FAILED'' FixedLine) else Inr n))"

text \<open>The decoder reads the first value of the body; what follows it is not looked at.\<close>

definition decodeMessage :: "raw option \<Rightarrow> reply + string" where
  "decodeMessage body =
     (case body of
        None \<Rightarrow> Inr []
      | Some [] \<Rightarrow> Inr []
      | Some ts \<Rightarrow>
          (case decode ts of
             None \<Rightarrow> Inl (WriteError 400 ''VALIDATION_FAILED'' FixedLine)
           | Some (v, rest) \<Rightarrow>
               (case decode_struct [(''message'', string_field)] (take (length ts - length rest) ts) [] of
                  (message, err) \<Rightarrow> if err then Inl (WriteError 400 ''VALIDATION_FAILED'' FixedLine) else Inr message)))"

definition mergeKey :: "string \<Rightarrow> reply + string" where
  "mergeKey key =
     (if key = [] then Inl (WriteError 400 ''VALIDATION_FAILED'' FixedLine)
      else if length key < minIdempotencyKeyLen then Inl (WriteError 400 ''VALIDATION_FAILED'' FixedLine)
      else Inr key)"

section \<open>Errors on the wire\<close>

text \<open>The stable code of an error that has one.\<close>

definition wire_code_text :: "wire_code \<Rightarrow> string" where
  "wire_code_text c = (case c of
      SCHEMA_VALIDATION_FAILED \<Rightarrow> ''SCHEMA_VALIDATION_FAILED''
    | PROVENANCE_INCOMPLETE \<Rightarrow> ''PROVENANCE_INCOMPLETE''
    | RSG_VALIDATION_FAILED \<Rightarrow> ''RSG_VALIDATION_FAILED'')"

fun error_Code :: "go_error \<Rightarrow> string option" where
  "error_Code (StateConflictError _ _ _) = Some ''BRANCH_STATE_CONFLICT''"
| "error_Code (BranchNotActiveError _ _) = Some ''BRANCH_NOT_ACTIVE''"
| "error_Code (MainFrozenDirectWriteError _ _) = Some ''MAIN_FROZEN_DIRECT_WRITE_FORBIDDEN''"
| "error_Code (NotActiveError _ _) = Some ''BRANCH_NOT_ACTIVE''"
| "error_Code (ObjectVersionConflictError _ _ _) = Some ''EXPECTED_VERSION_MISMATCH''"
| "error_Code (RelationVersionConflictError _ _ _) = Some ''EXPECTED_VERSION_MISMATCH''"
| "error_Code (ReferencedVersionNotFoundError _ _) = Some ''OBJECT_VERSION_NOT_FOUND''"
| "error_Code (UnknownRelationTypeError _) = Some ''RSG_VALIDATION_FAILED''"
| "error_Code (GateBlockedError r) = Some (wire_code_text (GateBlockedError_Code r))"
| "error_Code (StaleMergeError _) = Some ''MERGE_STALE''"
| "error_Code (AlreadyMergedError _) = Some ''PR_ALREADY_MERGED''"
| "error_Code (PullRequestNotMergeableError _) = Some ''PR_NOT_MERGEABLE''"
| "error_Code (MergeBranchNotActiveError _) = Some ''BRANCH_NOT_ACTIVE''"
| "error_Code (MissingEntityError _ _) = Some ''SERVICE_UNAVAILABLE''"
| "error_Code (NotMergeableError _ _) = Some ''PR_NOT_MERGEABLE''"
| "error_Code _ = None"

text \<open>\<open>errors.Is\<close> and \<open>errors.As(err, &coded)\<close> on the outcomes of the command.  A policy refusal
  unwraps to its sentinel and to what made the policy unreadable.\<close>

definition refusal_Is :: "merge_refusal \<Rightarrow> sentinel \<Rightarrow> bool" where
  "refusal_Is e s \<longleftrightarrow> (case e of
      MergeFailed g \<Rightarrow> errors_Is g s
    | PolicyRefused _ _ (PolicyUnreadable g) \<Rightarrow> errors_Is g s
    | PolicyRefused _ _ (PolicyUnevaluable g) \<Rightarrow> errors_Is g s
    | _ \<Rightarrow> False)"

definition refusal_Code :: "merge_refusal \<Rightarrow> string option" where
  "refusal_Code e = (case e of
      MergeFailed g \<Rightarrow> (case filter (\<lambda>c. c \<noteq> None) (map error_Code (error_chain g)) of [] \<Rightarrow> None | c # _ \<Rightarrow> c)
    | MergeBlocked _ \<Rightarrow> Some ''MERGE_BLOCKED''
    | MergePlanError _ \<Rightarrow> None
    | GateRefused _ \<Rightarrow> Some ''PR_INTEGRITY_BLOCKED''
    | PolicyRefused _ _ _ \<Rightarrow> Some ''MERGE_POLICY_REFUSED'')"

definition wireStatus :: "(string \<times> nat) list" where
  "wireStatus =
     [(''AUTH_FORBIDDEN'', 403), (''VALIDATION_FAILED'', 400), (''PULL_REQUEST_NOT_FOUND'', 404), (''BRANCH_NOT_FOUND'', 404),
      (''PR_NOT_MERGEABLE'', 409), (''MERGE_BLOCKED'', 409), (''MERGE_STALE'', 409), (''PR_ALREADY_MERGED'', 409),
      (''BRANCH_NOT_ACTIVE'', 409), (''PR_INTEGRITY_BLOCKED'', 409), (''MERGE_POLICY_REFUSED'', 403),
      (''SERVICE_UNAVAILABLE'', 503), (''PROJECT_NOT_FOUND'', 404)]"

definition as_GateRefused :: "merge_refusal \<Rightarrow> integrity_Report option" where
  "as_GateRefused e = (case e of GateRefused report \<Rightarrow> Some report | _ \<Rightarrow> None)"

definition writeMergeError :: "merge_refusal \<Rightarrow> reply" where
  "writeMergeError e =
     (case as_GateRefused e of
        Some report \<Rightarrow> WriteError 409 ''PR_INTEGRITY_BLOCKED''
          (if ig_Explanation report = None then TextOf e else ExplanationOf report)
      | None \<Rightarrow>
        if refusal_Is e merge_ErrValidation then WriteError 400 ''VALIDATION_FAILED'' (TextOf e)
        else if refusal_Is e merge_ErrForbidden then WriteError 403 ''AUTH_FORBIDDEN'' FixedLine
        else if refusal_Is e merge_ErrPullRequestNotFound then WriteError 404 ''PULL_REQUEST_NOT_FOUND'' FixedLine
        else if refusal_Is e merge_ErrBranchNotFound then WriteError 404 ''BRANCH_NOT_FOUND'' FixedLine
        else if refusal_Is e projects_ErrProjectNotFound then WriteError 404 ''PROJECT_NOT_FOUND'' FixedLine
        else if refusal_Is e merge_ErrStore then WriteError 503 ''SERVICE_UNAVAILABLE'' FixedLine
        else (case refusal_Code e of
                None \<Rightarrow> WriteError 500 ''INTERNAL_ERROR'' FixedLine
              | Some code \<Rightarrow>
                  (case map_of wireStatus code of
                     None \<Rightarrow> WriteError 500 ''INTERNAL_ERROR'' FixedLine
                   | Some status \<Rightarrow> WriteError status code (if code = ''SERVICE_UNAVAILABLE'' then FixedLine else TextOf e))))"

section \<open>The route\<close>

text \<open>\<open>get\<close> is the project read gate for the reader of the session, \<open>None\<close> when it is not wired.\<close>

type_synonym project_gate = "(string option \<Rightarrow> string \<Rightarrow> database \<Rightarrow> go_error option) option"

definition readable :: "project_gate \<Rightarrow> string option \<Rightarrow> string \<Rightarrow> database \<Rightarrow> reply option" where
  "readable gate user projectID db =
     (case gate of
        None \<Rightarrow> Some (WriteError 503 ''SERVICE_UNAVAILABLE'' FixedLine)
      | Some get \<Rightarrow>
          (case get user projectID db of
             None \<Rightarrow> None
           | Some e \<Rightarrow> Some (if errors_Is e projects_ErrProjectNotFound then WriteError 404 ''PROJECT_NOT_FOUND'' FixedLine
                            else WriteError 503 ''SERVICE_UNAVAILABLE'' FixedLine)))"

definition handleMerge ::
  "('c, 'p) MergeDeps \<Rightarrow> (nat \<Rightarrow> database \<Rightarrow> database) \<Rightarrow> CallCtx \<Rightarrow> project_gate \<Rightarrow> http_request \<Rightarrow> database \<Rightarrow> reply \<times> database" where
  "handleMerge md env cx gate r db =
     (case pathNumber (hr_number r) of
        Inl x \<Rightarrow> (x, db)
      | Inr number \<Rightarrow>
          (case mergeKey (hr_key r) of
             Inl x \<Rightarrow> (x, db)
           | Inr key \<Rightarrow>
               (case decodeMessage (hr_body r) of
                  Inl x \<Rightarrow> (x, db)
                | Inr message \<Rightarrow>
                    (case hr_user r of
                       None \<Rightarrow> (WriteError 401 ''AUTH_UNAUTHENTICATED'' FixedLine, db)
                     | Some user \<Rightarrow>
                         (case readable gate (Some user) (hr_projectId r) db of
                            Some x \<Rightarrow> (x, db)
                          | None \<Rightarrow>
                              (case service_Merge md env cx user
                                 \<lparr>in_Project = hr_projectId r, in_Number = number, in_Message = message, in_IdempotencyKey = Some key\<rparr> db of
                                 (Inl e, db') \<Rightarrow> (writeMergeError e, db')
                               | (Inr res, db') \<Rightarrow> (WriteJSON (payloadFromResult res), db')))))))"

definition handlePullRequestVerb ::
  "('c, 'p) MergeDeps \<Rightarrow> (nat \<Rightarrow> database \<Rightarrow> database) \<Rightarrow> CallCtx \<Rightarrow> project_gate
   \<Rightarrow> (http_request \<Rightarrow> database \<Rightarrow> reply \<times> database) option \<Rightarrow> http_request \<Rightarrow> database \<Rightarrow> reply \<times> database" where
  "handlePullRequestVerb md env cx gate review r db =
     (if HasSuffix (hr_number r) RequestReviewVerb
      then (case review of None \<Rightarrow> (WriteError 503 ''SERVICE_UNAVAILABLE'' FixedLine, db) | Some f \<Rightarrow> f r db)
      else if HasSuffix (hr_number r) mergeVerb then handleMerge md env cx gate r db
      else (NotFoundPage, db))"

section \<open>Properties\<close>

lemma wireStatus_range:
  "map_of wireStatus c = Some n \<Longrightarrow> n \<in> {400, 403, 404, 409, 503} \<and> (n = 503 \<longleftrightarrow> c = ''SERVICE_UNAVAILABLE'')"
proof -
  have "list_all (\<lambda>(c, n). n \<in> {400, 403, 404, 409, 503} \<and> (n = 503 \<longleftrightarrow> c = ''SERVICE_UNAVAILABLE'')) wireStatus"
    by code_simp
  then show "map_of wireStatus c = Some n \<Longrightarrow> n \<in> {400, 403, 404, 409, 503} \<and> (n = 503 \<longleftrightarrow> c = ''SERVICE_UNAVAILABLE'')"
    by (auto simp: list_all_iff dest: map_of_SomeD)
qed

text \<open>A reply with one of six statuses, in which an outage or an internal error says nothing but a fixed
  line.\<close>

definition discreet_reply :: "reply \<Rightarrow> bool" where
  "discreet_reply r = (case r of
      WriteError status code message \<Rightarrow> status \<in> {400, 403, 404, 409, 500, 503}
        \<and> (status = 500 \<longleftrightarrow> code = ''INTERNAL_ERROR'') \<and> (status = 503 \<longleftrightarrow> code = ''SERVICE_UNAVAILABLE'')
        \<and> (status \<in> {500, 503} \<longrightarrow> message = FixedLine)
    | _ \<Rightarrow> False)"

lemma coded_reply_discreet:
  "discreet_reply (case c of
      None \<Rightarrow> WriteError 500 ''INTERNAL_ERROR'' FixedLine
    | Some code \<Rightarrow>
        (case map_of wireStatus code of
           None \<Rightarrow> WriteError 500 ''INTERNAL_ERROR'' FixedLine
         | Some status \<Rightarrow> WriteError status code (if code = ''SERVICE_UNAVAILABLE'' then FixedLine else TextOf e)))"
proof (cases c)
  case None
  then show ?thesis by (simp add: discreet_reply_def)
next
  case (Some code)
  show ?thesis
  proof (cases "map_of wireStatus code")
    case None
    then show ?thesis using Some by (simp add: discreet_reply_def)
  next
    case S: (Some status)
    have "map_of wireStatus ''INTERNAL_ERROR'' = None" by code_simp
    then have "code \<noteq> ''INTERNAL_ERROR''" using S by auto
    then show ?thesis using wireStatus_range [OF S] Some S by (auto simp: discreet_reply_def)
  qed
qed

text \<open>C15: The shape of a refusal.  Every refusal of the merge command is answered with one of six
  statuses, an outage and an internal error with a fixed line and never with the text of the error,
  and a refused integrity review with 409 and the explanation of its report.\<close>

theorem refusal_reply:
  "discreet_reply (writeMergeError e)
   \<and> writeMergeError (GateRefused report) = WriteError 409 ''PR_INTEGRITY_BLOCKED''
         (if ig_Explanation report = None then TextOf (GateRefused report) else ExplanationOf report)"
proof (rule conjI)
  show "writeMergeError (GateRefused report) = WriteError 409 ''PR_INTEGRITY_BLOCKED''
      (if ig_Explanation report = None then TextOf (GateRefused report) else ExplanationOf report)"
    by (simp add: writeMergeError_def as_GateRefused_def)
  show "discreet_reply (writeMergeError e)"
  proof (cases "as_GateRefused e")
    case None
    have t: "discreet_reply (WriteError 400 ''VALIDATION_FAILED'' (TextOf e))" by (simp add: discreet_reply_def)
    have s: "discreet_reply (WriteError 403 ''AUTH_FORBIDDEN'' FixedLine)"
      "discreet_reply (WriteError 404 ''PULL_REQUEST_NOT_FOUND'' FixedLine)" "discreet_reply (WriteError 404 ''BRANCH_NOT_FOUND'' FixedLine)"
      "discreet_reply (WriteError 404 ''PROJECT_NOT_FOUND'' FixedLine)" "discreet_reply (WriteError 503 ''SERVICE_UNAVAILABLE'' FixedLine)"
      by code_simp+
    show ?thesis unfolding writeMergeError_def None option.case by (simp add: s t coded_reply_discreet)
  qed (simp add: writeMergeError_def discreet_reply_def)
qed

text \<open>C14: What the route asks for.  A request to the collection that merges anything or changes any row
  named a positive 64-bit pull request number, carried an idempotency key of at least eight bytes and
  a body that decodes, had a signed-in user who may read the project, and is answered by what the
  merge command did for that user under that key.  Every other request leaves the rows as they are.\<close>

theorem merge_route_guarded:
  assumes "handlePullRequestVerb md env cx gate None r db = (reply, db')"
    and "db' \<noteq> db \<or> (\<exists>payload. reply = WriteJSON payload)"
  shows "\<exists>number user message get res. pathNumber (hr_number r) = Inr number \<and> 1 \<le> number \<and> number < 2 ^ 63
    \<and> 8 \<le> length (hr_key r) \<and> decodeMessage (hr_body r) = Inr message
    \<and> hr_user r = Some user \<and> gate = Some get \<and> get (Some user) (hr_projectId r) db = None
    \<and> service_Merge md env cx user \<lparr>in_Project = hr_projectId r, in_Number = number, in_Message = message,
         in_IdempotencyKey = Some (hr_key r)\<rparr> db = (res, db')
    \<and> reply = (case res of Inl e \<Rightarrow> writeMergeError e | Inr x \<Rightarrow> WriteJSON (payloadFromResult x))"
proof -
  have "handleMerge md env cx gate r db = (reply, db')"
    using assms by (auto simp: handlePullRequestVerb_def split: if_splits)
  note c = this [unfolded handleMerge_def]
  obtain number where n: "pathNumber (hr_number r) = Inr number"
    using c assms(2) by (cases "pathNumber (hr_number r)") (auto simp: pathNumber_def Let_def split: if_splits option.splits)
  obtain key where k: "mergeKey (hr_key r) = Inr key"
    using c assms(2) by (cases "mergeKey (hr_key r)") (auto simp: n mergeKey_def split: if_splits)
  then have k: "mergeKey (hr_key r) = Inr (hr_key r)" by (auto simp: mergeKey_def split: if_splits)
  obtain message where m: "decodeMessage (hr_body r) = Inr message"
    using c assms(2) by (cases "decodeMessage (hr_body r)") (auto simp: n k decodeMessage_def split: option.splits list.splits prod.splits if_splits)
  obtain user where u: "hr_user r = Some user" using c assms(2) by (cases "hr_user r") (auto simp: n k m)
  have g: "readable gate (Some user) (hr_projectId r) db = None"
    using c assms(2) by (cases "readable gate (Some user) (hr_projectId r) db") (auto simp: n k m u readable_def split: option.splits if_splits)
  obtain res d where s: "service_Merge md env cx user \<lparr>in_Project = hr_projectId r, in_Number = number, in_Message = message,
      in_IdempotencyKey = Some (hr_key r)\<rparr> db = (res, d)" by fastforce
  have h: "\<exists>number user message get res. pathNumber (hr_number r) = Inr number \<and> mergeKey (hr_key r) = Inr (hr_key r)
      \<and> decodeMessage (hr_body r) = Inr message \<and> hr_user r = Some user \<and> gate = Some get \<and> get (Some user) (hr_projectId r) db = None
      \<and> service_Merge md env cx user \<lparr>in_Project = hr_projectId r, in_Number = number, in_Message = message,
         in_IdempotencyKey = Some (hr_key r)\<rparr> db = (res, db')
      \<and> reply = (case res of Inl e \<Rightarrow> writeMergeError e | Inr x \<Rightarrow> WriteJSON (payloadFromResult x))"
  proof -
    have "(case res of Inl e \<Rightarrow> (writeMergeError e, d) | Inr x \<Rightarrow> (WriteJSON (payloadFromResult x), d)) = (reply, db')"
      using c by (simp add: n k m u g s)
    then have "d = db'" "reply = (case res of Inl e \<Rightarrow> writeMergeError e | Inr x \<Rightarrow> WriteJSON (payloadFromResult x))"
      by (cases res; simp)+
    moreover obtain get where "gate = Some get" "get (Some user) (hr_projectId r) db = None"
      using g by (auto simp: readable_def split: option.splits)
    ultimately show ?thesis using n k m u s by blast
  qed
  have "1 \<le> number \<and> number < 2 ^ 63" if "pathNumber s = Inr number" for s number
    using that by (auto simp: pathNumber_def parse_int64_def int_literal_def Let_def split: if_splits option.splits)
  moreover have "8 \<le> length key" if "mergeKey key = Inr key" for key
    using that by (auto simp: mergeKey_def minIdempotencyKeyLen_def split: if_splits)
  ultimately show ?thesis using h by blast
qed

section \<open>Path numbers\<close>

lemma digits_value_append: "digits_value n (xs @ ys) = Option.bind (digits_value n xs) (\<lambda>m. digits_value m ys)"
  by (induction xs arbitrary: n) auto

lemma digit_char:
  assumes "d < 10"
  shows "digits_value m [char_of (48 + d)] = Some (10 * m + d)"
    and "char_of (48 + d) \<notin> {CHR ''+'', CHR ''-'', CHR ''/''}"
proof -
  have c: "(of_char (char_of (48 + d) :: char) :: nat) = 48 + d" using assms by simp
  show "digits_value m [char_of (48 + d)] = Some (10 * m + d)" using assms c by simp
  have "(of_char x :: nat) < 48" if "x \<in> {CHR ''+'', CHR ''-'', CHR ''/''}" for x using that by auto
  then show "char_of (48 + d) \<notin> {CHR ''+'', CHR ''-'', CHR ''/''}" using c by fastforce
qed

lemma show_nat_digits:
  "digits_value 0 (show_nat n) = Some n \<and> show_nat n \<noteq> [] \<and> set (show_nat n) \<inter> {CHR ''+'', CHR ''-'', CHR ''/''} = {}"
proof (induction n rule: show_nat.induct)
  case (1 n)
  show ?case
  proof (cases "n < 10")
    case True
    then have "show_nat n = [char_of (48 + n)]" by (simp add: show_nat.simps)
    then show ?thesis using digit_char [OF True] by (simp del: digits_value.simps)
  next
    case False
    then have s: "show_nat n = show_nat (n div 10) @ [char_of (48 + n mod 10)]" by (subst show_nat.simps) simp
    have d: "n mod 10 < 10" by simp
    have "10 * (n div 10) + n mod 10 = n" by simp
    then show ?thesis
      using "1.IH" False digit_char [OF d] unfolding s digits_value_append by (simp del: digits_value.simps)
  qed
qed

lemma int_literal_show:
  assumes "1 \<le> n" and "n < 2 ^ 63"
  shows "int_literal (show_int n) = Some n" and "show_int n \<noteq> []" and "hd (show_int n) \<noteq> CHR ''+''" and "CHR ''/'' \<notin> set (show_int n)"
proof -
  have s: "show_int n = show_nat (nat n)" using assms(1) by (simp add: show_int_def)
  note D = show_nat_digits [of "nat n"]
  then have h: "hd (show_nat (nat n)) \<notin> {CHR ''+'', CHR ''-''}" by (cases "show_nat (nat n)") auto
  show "show_int n \<noteq> []" "hd (show_int n) \<noteq> CHR ''+''" "CHR ''/'' \<notin> set (show_int n)" unfolding s using D h by auto
  show "int_literal (show_int n) = Some n" unfolding s int_literal_def Let_def using D h assms by simp
qed

text \<open>C17: Addresses round-trip.  The path segment a client builds from a number the platform issued
  is read back as that number, for every number a 64-bit column can hold.\<close>

theorem path_number_roundtrip:
  assumes "1 \<le> n" and "n < 2 ^ 63"
  shows "pathNumber (show_int n @ mergeVerb) = Inr n"
  using assms int_literal_show [OF assms]
  by (simp add: pathNumber_def HasSuffix_def TrimSuffix_def parse_int64_def)

section \<open>A sample request\<close>

definition wire_request :: http_request where
  "wire_request = \<lparr>hr_number = ''1:merge'', hr_projectId = ''p'', hr_key = ''merge-key'', hr_body = None, hr_user = Some ''u''\<rparr>"

definition open_gate :: project_gate where "open_gate = Some (\<lambda>_ _ _. None)"

lemma sample_route:
  "handleMerge md env merge_ctx open_gate wire_request db =
     (case service_Merge md env merge_ctx ''u'' merge_input db of
        (Inl e, db') \<Rightarrow> (writeMergeError e, db') | (Inr res, db') \<Rightarrow> (WriteJSON (payloadFromResult res), db'))"
proof -
  have "pathNumber ''1:merge'' = Inr 1" by code_simp
  then show ?thesis
    by (simp add: handleMerge_def wire_request_def mergeKey_def minIdempotencyKeyLen_def decodeMessage_def
        readable_def open_gate_def merge_input_def)
qed

text \<open>C16: Two refusals without a status.  The codes of a target branch that advanced after planning
  and of a refused commit gate are missing from the status table: the author of a perfectly ordinary
  request whose target moved, or whose claim misses a field the main gate requires, is answered 500
  INTERNAL\_ERROR.\<close>

theorem codes_without_status:
  "writeMergeError (MergeFailed (StateConflictError b expected actual)) = WriteError 500 ''INTERNAL_ERROR'' FixedLine
   \<and> writeMergeError (MergeFailed (GateBlockedError report)) = WriteError 500 ''INTERNAL_ERROR'' FixedLine
   \<and> fst (handleMerge merge_md moving merge_ctx open_gate wire_request merge_db) = WriteError 500 ''INTERNAL_ERROR'' FixedLine
   \<and> fst (handleMerge typeless_md calm merge_ctx open_gate wire_request merge_db) = WriteError 500 ''INTERNAL_ERROR'' FixedLine"
proof -
  have c: "writeMergeError (MergeFailed (StateConflictError b expected actual)) = WriteError 500 ''INTERNAL_ERROR'' FixedLine" for b expected actual
    by (simp add: writeMergeError_def as_GateRefused_def refusal_Is_def errors_Is_def refusal_Code_def wireStatus_def)
  have g: "writeMergeError (MergeFailed (GateBlockedError report)) = WriteError 500 ''INTERNAL_ERROR'' FixedLine" for report
    by (cases "GateBlockedError_Code report")
      (simp_all add: writeMergeError_def as_GateRefused_def refusal_Is_def errors_Is_def refusal_Code_def wireStatus_def wire_code_text_def)
  have "fst (handleMerge merge_md moving merge_ctx open_gate wire_request merge_db) = WriteError 500 ''INTERNAL_ERROR'' FixedLine"
    by (rule moved_run) (simp add: sample_route c)
  moreover have "fst (handleMerge typeless_md calm merge_ctx open_gate wire_request merge_db) = WriteError 500 ''INTERNAL_ERROR'' FixedLine"
    by (rule typeless_run) (simp add: sample_route g)
  ultimately show ?thesis using c g by blast
qed

theorem merge_route_guarded_witness:
  "service_Merge merge_md calm merge_ctx ''u'' merge_input merge_db = (Inr merge_done, merge_after) \<and> 8 \<le> length (hr_key wire_request)"
proof -
  have v: "\<not> HasSuffix ''1:merge'' RequestReviewVerb" "HasSuffix ''1:merge'' mergeVerb" by code_simp+
  have h: "handlePullRequestVerb merge_md calm merge_ctx open_gate None wire_request merge_db
      = (WriteJSON (payloadFromResult merge_done), merge_after)"
    using v by (simp add: handlePullRequestVerb_def sample_route merge_run_eq) (simp add: wire_request_def)
  have "merge_after \<noteq> merge_db \<or> (\<exists>payload. WriteJSON (payloadFromResult merge_done) = WriteJSON payload)" by blast
  then show ?thesis using merge_route_guarded [OF h] merge_run_eq by blast
qed

theorem path_number_roundtrip_witness: "pathNumber (show_int 12 @ mergeVerb) = Inr 12"
  by (rule path_number_roundtrip) simp_all

end
