(* ===== verification/PolicyStore.thy ===== *)
theory PolicyStore
  imports Outbox Policy Authz SemanticWrites
begin

text \<open>
  The version lines of policies (internal/persistence/policy_store.go, sqlc/policy.sql.go and migrations
  00003, 00014 and 00033): every write appends a version row of an organization or of a project together
  with its audit row, and the latest row of a line is the policy in force.

  The policy tables are a record beside the database of theory Store, which keeps the users, the projects
  and the audit log.  The write transactions of one organization are serialized by the lock on its row, so
  a transaction is one step here; its time stamp is \<open>pg_now\<close>, the time it began, which is not the time
  it got the lock.
\<close>

section \<open>Rows and errors\<close>

record PolicyScope =
  px_OrganizationID :: string
  px_ProjectID :: string

definition PolicyScope_Valid :: "PolicyScope \<Rightarrow> bool" where
  "PolicyScope_Valid s \<longleftrightarrow> (px_OrganizationID s = []) \<noteq> (px_ProjectID s = [])"

record PolicyVersion =
  pv_ID :: string
  pv_Scope :: PolicyScope
  pv_Version :: string
  pv_Policy :: Policy
  pv_CreatedBy :: string
  pv_CreatedAt :: gotime

record policy_row =
  qr_ID :: string
  qr_OrganizationID :: "string option"
  qr_ProjectID :: "string option"
  qr_Version :: string
  qr_PolicyJson :: raw
  qr_CreatedBy :: string
  qr_CreatedAt :: gotime

record policy_db =
  pt_database :: database
  pt_organizations :: "string list"
  pt_versions :: "policy_row list"
  pt_seq :: nat

text \<open>The sentinels of the policy service, what its errors wrap with \<open>%w\<close>, and the panic of
  \<open>mustPolicyJSON\<close>.  \<open>policy_ErrValidation\<close> and \<open>policy_ErrStore\<close> carry their cause as text only.\<close>

datatype policy_error =
    policy_ErrPolicyNotFound | policy_ErrVersionTaken | policy_ErrOrgNotFound | policy_ErrOrgDeactivated
  | policy_ErrProjectNotFound | policy_ErrForbidden
  | policy_ErrProjectRelaxesOrg "PolicyViolation list"
  | policy_ErrValidation | policy_ErrStore
  | InvalidStoredPolicy policy_fault
  | DriverError go_error
  | WrappedPolicyError policy_error
  | PolicyPanic

primrec policy_leaf :: "policy_error \<Rightarrow> policy_error" where
  "policy_leaf policy_ErrPolicyNotFound = policy_ErrPolicyNotFound"
| "policy_leaf policy_ErrVersionTaken = policy_ErrVersionTaken"
| "policy_leaf policy_ErrOrgNotFound = policy_ErrOrgNotFound"
| "policy_leaf policy_ErrOrgDeactivated = policy_ErrOrgDeactivated"
| "policy_leaf policy_ErrProjectNotFound = policy_ErrProjectNotFound"
| "policy_leaf policy_ErrForbidden = policy_ErrForbidden"
| "policy_leaf (policy_ErrProjectRelaxesOrg vs) = policy_ErrProjectRelaxesOrg vs"
| "policy_leaf policy_ErrValidation = policy_ErrValidation"
| "policy_leaf policy_ErrStore = policy_ErrStore"
| "policy_leaf (InvalidStoredPolicy f) = InvalidStoredPolicy f"
| "policy_leaf (DriverError g) = DriverError g"
| "policy_leaf (WrappedPolicyError e) = policy_leaf e"
| "policy_leaf PolicyPanic = PolicyPanic"

definition is_relaxation :: "policy_error \<Rightarrow> bool" where
  "is_relaxation e \<longleftrightarrow> (case e of policy_ErrProjectRelaxesOrg _ \<Rightarrow> True | _ \<Rightarrow> False)"

section \<open>Transactions and queries\<close>

type_synonym 'a ptx = "policy_db \<Rightarrow> policy_error + 'a \<times> policy_db"

text \<open>\<open>WithTx\<close> over the policy tables, as in theory Store.\<close>

definition PolicyTx :: "pg \<Rightarrow> 'a ptx \<Rightarrow> policy_db \<Rightarrow> (policy_error + 'a) \<times> policy_db" where
  "PolicyTx pg fn pt =
     (case pg_begin pg of
        Some e \<Rightarrow> (Inl (WrappedPolicyError (DriverError e)), pt)
      | None \<Rightarrow>
          (case fn pt of
             Inl e \<Rightarrow> (Inl (case pg_rollback pg of Some rb \<Rightarrow> WrappedPolicyError (DriverError rb) | None \<Rightarrow> e), pt)
           | Inr (x, pt') \<Rightarrow>
               (case pg_commit pg (pt_database pt') of
                  Some e \<Rightarrow> (Inl (WrappedPolicyError (DriverError e)), pt)
                | None \<Rightarrow> (Inr x, pt'))))"

definition char_length :: "string \<Rightarrow> nat" where
  "char_length s = length (filter (\<lambda>c. (of_char c :: nat) < 128 \<or> 192 \<le> (of_char c :: nat)) s)"

definition CreatePolicyVersion ::
  "pg \<Rightarrow> string option \<Rightarrow> string option \<Rightarrow> string \<Rightarrow> raw \<Rightarrow> string \<Rightarrow> policy_db \<Rightarrow> go_error + policy_row \<times> policy_db" where
  "CreatePolicyVersion pg org project version json createdBy pt =
     (case pg_jsonb pg json of
        None \<Rightarrow> Inl (PgError ''22P02'' [])
      | Some stored \<Rightarrow>
          let row = \<lparr>qr_ID = pg_uuid pg (pt_seq pt), qr_OrganizationID = org, qr_ProjectID = project, qr_Version = version,
                     qr_PolicyJson = stored, qr_CreatedBy = createdBy, qr_CreatedAt = pg_now pg\<rparr> in
          (case violation
            [(1 \<le> char_length version \<and> char_length version \<le> 64, ''23514'', ''policy_versions_version_check''),
             ((org \<noteq> None) \<noteq> (project \<noteq> None), ''23514'', ''policy_versions_check''),
             (qr_ID row \<notin> set (map qr_ID (pt_versions pt)), ''23505'', ''policy_versions_pkey''),
             (\<not> (org \<noteq> None \<and> list_ex (\<lambda>r. qr_OrganizationID r = org \<and> qr_Version r = version) (pt_versions pt)),
                ''23505'', ''policy_versions_org_version_idx''),
             (\<not> (project \<noteq> None \<and> list_ex (\<lambda>r. qr_ProjectID r = project \<and> qr_Version r = version) (pt_versions pt)),
                ''23505'', ''policy_versions_project_version_idx''),
             (references org (pt_organizations pt), ''23503'', ''policy_versions_organization_id_fkey''),
             (references project (map pj_ID (db_projects (pt_database pt))), ''23503'', ''policy_versions_project_id_fkey''),
             (createdBy \<in> set (db_users (pt_database pt)), ''23503'', ''policy_versions_created_by_fkey'')]
           of Some e \<Rightarrow> Inl e
            | None \<Rightarrow> Inr (row, pt\<lparr>pt_versions := pt_versions pt @ [row], pt_seq := Suc (pt_seq pt)\<rparr>)))"

text \<open>\<open>ORDER BY created_at DESC, id DESC\<close>.\<close>

definition newest_first :: "policy_row list \<Rightarrow> policy_row list" where
  "newest_first rows = rev (order_rows qr_CreatedAt qr_ID rows)"

definition ListPolicyVersionsByOrg :: "string \<Rightarrow> policy_db \<Rightarrow> policy_row list" where
  "ListPolicyVersionsByOrg i pt = newest_first (filter (\<lambda>r. qr_OrganizationID r = Some i) (pt_versions pt))"

definition ListPolicyVersionsByProject :: "string \<Rightarrow> policy_db \<Rightarrow> policy_row list" where
  "ListPolicyVersionsByProject i pt = newest_first (filter (\<lambda>r. qr_ProjectID r = Some i) (pt_versions pt))"

definition first_row :: "policy_row list \<Rightarrow> policy_row option" where
  "first_row rows = (case rows of [] \<Rightarrow> None | r # _ \<Rightarrow> Some r)"

definition LatestPolicyVersionByOrg :: "string \<Rightarrow> policy_db \<Rightarrow> policy_row option" where
  "LatestPolicyVersionByOrg i pt = first_row (ListPolicyVersionsByOrg i pt)"

definition LatestPolicyVersionByProject :: "string \<Rightarrow> policy_db \<Rightarrow> policy_row option" where
  "LatestPolicyVersionByProject i pt = first_row (ListPolicyVersionsByProject i pt)"

definition GetPolicyVersion :: "string \<Rightarrow> policy_db \<Rightarrow> policy_row option" where
  "GetPolicyVersion i pt = find (\<lambda>r. qr_ID r = i) (pt_versions pt)"

section \<open>The store\<close>

definition text_of :: "string option \<Rightarrow> string" where
  "text_of s = (case s of None \<Rightarrow> [] | Some t \<Rightarrow> t)"

definition policyVersionFromRow :: "(string \<Rightarrow> string option) \<Rightarrow> policy_row \<Rightarrow> policy_error + PolicyVersion" where
  "policyVersionFromRow renum row =
     (case PolicyFromJSON renum (qr_PolicyJson row) of
        Inl f \<Rightarrow> Inl (InvalidStoredPolicy f)
      | Inr p \<Rightarrow> Inr \<lparr>pv_ID = qr_ID row,
          pv_Scope = \<lparr>px_OrganizationID = text_of (qr_OrganizationID row), px_ProjectID = text_of (qr_ProjectID row)\<rparr>,
          pv_Version = qr_Version row, pv_Policy = p, pv_CreatedBy = qr_CreatedBy row, pv_CreatedAt = qr_CreatedAt row\<rparr>)"

definition contains_text :: "string \<Rightarrow> string \<Rightarrow> bool" where
  "contains_text s sub \<longleftrightarrow> list_ex (\<lambda>i. take (length sub) (drop i s) = sub) [0..<Suc (length s)]"

definition mapPolicyWriteError :: "policy_error \<Rightarrow> policy_error" where
  "mapPolicyWriteError e =
     (let leaf = policy_leaf e in
      if leaf = policy_ErrPolicyNotFound \<or> leaf = policy_ErrOrgNotFound \<or> leaf = policy_ErrProjectNotFound \<or> is_relaxation leaf then e
      else case (case leaf of DriverError g \<Rightarrow> as_PgError g | _ \<Rightarrow> None) of
             Some (code, con) \<Rightarrow>
               if code = ''23505'' \<and> (contains_text con ''policy_versions_org_version_idx'' \<or> contains_text con ''policy_versions_project_version_idx'')
               then policy_ErrVersionTaken
               else if code = ''23514'' \<and> contains_text con ''policy_versions'' then policy_ErrValidation
               else if code = ''23503'' \<and> contains_text con ''organization_id'' then policy_ErrOrgNotFound
               else if code = ''23503'' \<and> contains_text con ''project_id'' then policy_ErrProjectNotFound
               else WrappedPolicyError e
           | None \<Rightarrow> WrappedPolicyError e)"

text \<open>The insert and the audit row, at the end of both write transactions.\<close>

definition insert_policy_version ::
  "pg \<Rightarrow> (string \<Rightarrow> string option) \<Rightarrow> CallCtx \<Rightarrow> string option \<Rightarrow> string option \<Rightarrow> PolicyVersion \<Rightarrow> string \<Rightarrow> AuditEntry
   \<Rightarrow> PolicyVersion ptx" where
  "insert_policy_version pg renum cx org project v createdBy audit pt =
     (case policy_MarshalJSON (pv_Policy v) of
        None \<Rightarrow> Inl PolicyPanic
      | Some json \<Rightarrow>
          (case CreatePolicyVersion pg org project (pv_Version v) json createdBy pt of
             Inl e \<Rightarrow> Inl (DriverError e)
           | Inr (row, pt1) \<Rightarrow>
               (case policyVersionFromRow renum row of
                  Inl e \<Rightarrow> Inl e
                | Inr created \<Rightarrow>
                    (case appendAudit pg cx audit (pt_database pt1) of
                       Inl e \<Rightarrow> Inl (DriverError e)
                     | Inr (_, db) \<Rightarrow> Inr (created, pt1\<lparr>pt_database := db\<rparr>)))))"

definition run_write :: "pg \<Rightarrow> PolicyVersion ptx \<Rightarrow> policy_db \<Rightarrow> (policy_error + PolicyVersion) \<times> policy_db" where
  "run_write pg fn pt = map_prod (map_sum mapPolicyWriteError (\<lambda>v. v)) (\<lambda>x. x) (PolicyTx pg fn pt)"

definition CreateOrgVersion ::
  "pg \<Rightarrow> (string \<Rightarrow> string option) \<Rightarrow> CallCtx \<Rightarrow> PolicyVersion \<Rightarrow> AuditEntry \<Rightarrow> policy_db
   \<Rightarrow> (policy_error + PolicyVersion) \<times> policy_db" where
  "CreateOrgVersion pg renum cx v audit pt =
     (case textUUID pg (px_OrganizationID (pv_Scope v)) of
        None \<Rightarrow> (Inl policy_ErrOrgNotFound, pt)
      | Some oID \<Rightarrow>
          (case textUUID pg (pv_CreatedBy v) of
             None \<Rightarrow> (Inl (WrappedPolicyError (DriverError (ErrorText ''invalid uuid''))), pt)
           | Some createdBy \<Rightarrow>
               run_write pg (\<lambda>pt. if oID \<notin> set (pt_organizations pt) then Inl policy_ErrOrgNotFound
                                  else insert_policy_version pg renum cx (Some oID) None v createdBy audit pt) pt))"

definition org_bound ::
  "pg \<Rightarrow> (string \<Rightarrow> string option) \<Rightarrow> string option \<Rightarrow> (Policy option \<Rightarrow> policy_error option) \<Rightarrow> policy_db \<Rightarrow> policy_error option" where
  "org_bound pg renum orgID againstOrg pt =
     (case orgID of
        None \<Rightarrow> againstOrg None
      | Some o' \<Rightarrow>
          (case textUUID pg o' of
             None \<Rightarrow> Some policy_ErrOrgNotFound
           | Some oID \<Rightarrow>
               if oID \<notin> set (pt_organizations pt) then Some policy_ErrOrgNotFound
               else (case LatestPolicyVersionByOrg oID pt of
                       None \<Rightarrow> againstOrg None
                     | Some row \<Rightarrow>
                         (case policyVersionFromRow renum row of
                            Inl e \<Rightarrow> Some e
                          | Inr latest \<Rightarrow> againstOrg (Some (pv_Policy latest))))))"

definition CreateProjectVersion ::
  "pg \<Rightarrow> (string \<Rightarrow> string option) \<Rightarrow> CallCtx \<Rightarrow> PolicyVersion \<Rightarrow> string option \<Rightarrow> (Policy option \<Rightarrow> policy_error option)
   \<Rightarrow> AuditEntry \<Rightarrow> policy_db \<Rightarrow> (policy_error + PolicyVersion) \<times> policy_db" where
  "CreateProjectVersion pg renum cx v orgID againstOrg audit pt =
     (case textUUID pg (px_ProjectID (pv_Scope v)) of
        None \<Rightarrow> (Inl policy_ErrProjectNotFound, pt)
      | Some pID \<Rightarrow>
          (case textUUID pg (pv_CreatedBy v) of
             None \<Rightarrow> (Inl (WrappedPolicyError (DriverError (ErrorText ''invalid uuid''))), pt)
           | Some createdBy \<Rightarrow>
               run_write pg (\<lambda>pt. case org_bound pg renum orgID againstOrg pt of
                   Some e \<Rightarrow> Inl e
                 | None \<Rightarrow> insert_policy_version pg renum cx None (Some pID) v createdBy audit pt) pt))"

definition policystore_GetVersion :: "pg \<Rightarrow> (string \<Rightarrow> string option) \<Rightarrow> string \<Rightarrow> policy_db \<Rightarrow> policy_error + PolicyVersion" where
  "policystore_GetVersion pg renum i pt =
     (case textUUID pg i of
        None \<Rightarrow> Inl policy_ErrPolicyNotFound
      | Some u \<Rightarrow>
          (case pg_read pg of
             Some e \<Rightarrow> Inl (WrappedPolicyError (DriverError e))
           | None \<Rightarrow>
               (case GetPolicyVersion u pt of
                  None \<Rightarrow> Inl policy_ErrPolicyNotFound
                | Some row \<Rightarrow> policyVersionFromRow renum row)))"

text \<open>\<open>list\<close>: the rows of the scope, all of them or the newest.\<close>

definition scope_rows :: "pg \<Rightarrow> PolicyScope \<Rightarrow> bool \<Rightarrow> policy_db \<Rightarrow> policy_error + policy_row list" where
  "scope_rows pg scope latest pt =
     (let read = (\<lambda>rows newest.
            case pg_read pg of
              Some e \<Rightarrow> Inl (WrappedPolicyError (DriverError e))
            | None \<Rightarrow> if latest then (case newest of None \<Rightarrow> Inl policy_ErrPolicyNotFound | Some r \<Rightarrow> Inr [r]) else Inr rows) in
      if px_OrganizationID scope \<noteq> [] then
        (case textUUID pg (px_OrganizationID scope) of
           None \<Rightarrow> Inl policy_ErrPolicyNotFound
         | Some oID \<Rightarrow> read (ListPolicyVersionsByOrg oID pt) (LatestPolicyVersionByOrg oID pt))
      else if px_ProjectID scope \<noteq> [] then
        (case textUUID pg (px_ProjectID scope) of
           None \<Rightarrow> Inl policy_ErrPolicyNotFound
         | Some pID \<Rightarrow> read (ListPolicyVersionsByProject pID pt) (LatestPolicyVersionByProject pID pt))
      else Inl policy_ErrPolicyNotFound)"

definition policystore_list :: "pg \<Rightarrow> (string \<Rightarrow> string option) \<Rightarrow> PolicyScope \<Rightarrow> bool \<Rightarrow> policy_db \<Rightarrow> policy_error + PolicyVersion list" where
  "policystore_list pg renum scope latest pt =
     (case scope_rows pg scope latest pt of Inl e \<Rightarrow> Inl e | Inr rows \<Rightarrow> map_err (policyVersionFromRow renum) rows)"

definition policystore_Latest :: "pg \<Rightarrow> (string \<Rightarrow> string option) \<Rightarrow> PolicyScope \<Rightarrow> policy_db \<Rightarrow> policy_error + PolicyVersion" where
  "policystore_Latest pg renum scope pt =
     (case policystore_list pg renum scope True pt of
        Inl e \<Rightarrow> Inl e
      | Inr [] \<Rightarrow> Inl policy_ErrPolicyNotFound
      | Inr (v # _) \<Rightarrow> Inr v)"

definition policystore_List :: "pg \<Rightarrow> (string \<Rightarrow> string option) \<Rightarrow> PolicyScope \<Rightarrow> policy_db \<Rightarrow> policy_error + PolicyVersion list" where
  "policystore_List pg renum scope pt = policystore_list pg renum scope False pt"

section \<open>Effects\<close>

definition row_key :: "policy_row \<Rightarrow> int \<times> string" where
  "row_key r = (instant (qr_CreatedAt r), qr_ID r)"

text \<open>What the keys and checks of the table keep.\<close>

definition lines_ok :: "policy_db \<Rightarrow> bool" where
  "lines_ok pt \<longleftrightarrow> distinct (map qr_ID (pt_versions pt))
     \<and> (\<forall>r \<in> set (pt_versions pt). (qr_OrganizationID r \<noteq> None) \<noteq> (qr_ProjectID r \<noteq> None))
     \<and> distinct (map (\<lambda>r. (qr_OrganizationID r, qr_ProjectID r, qr_Version r)) (pt_versions pt))"

lemma CreatePolicyVersion_effect:
  assumes "CreatePolicyVersion pg org project version json createdBy pt = Inr (row, pt')"
  shows "pt' = pt\<lparr>pt_versions := pt_versions pt @ [row], pt_seq := Suc (pt_seq pt)\<rparr>"
    and "qr_OrganizationID row = org" "qr_ProjectID row = project" "qr_Version row = version" "qr_CreatedBy row = createdBy"
      "qr_CreatedAt row = pg_now pg" "pg_jsonb pg json = Some (qr_PolicyJson row)"
    and "lines_ok pt \<Longrightarrow> lines_ok pt'"
proof -
  from assms obtain x where x: "pg_jsonb pg json = Some x" by (auto simp: CreatePolicyVersion_def split: option.splits)
  note * = assms [unfolded CreatePolicyVersion_def Let_def x option.case violation_guard violation_ok]
  from * have row: "row = \<lparr>qr_ID = pg_uuid pg (pt_seq pt), qr_OrganizationID = org, qr_ProjectID = project, qr_Version = version,
      qr_PolicyJson = x, qr_CreatedBy = createdBy, qr_CreatedAt = pg_now pg\<rparr>" by simp
  from * show pt': "pt' = pt\<lparr>pt_versions := pt_versions pt @ [row], pt_seq := Suc (pt_seq pt)\<rparr>" unfolding row by simp
  show "qr_OrganizationID row = org" "qr_ProjectID row = project" "qr_Version row = version" "qr_CreatedBy row = createdBy"
    "qr_CreatedAt row = pg_now pg" "pg_jsonb pg json = Some (qr_PolicyJson row)"
    by (simp_all add: row x)
  from * have fresh: "qr_ID row \<notin> set (map qr_ID (pt_versions pt))" and xor: "(org \<noteq> None) \<noteq> (project \<noteq> None)"
    and uo: "\<not> (org \<noteq> None \<and> list_ex (\<lambda>r. qr_OrganizationID r = org \<and> qr_Version r = version) (pt_versions pt))"
    and up: "\<not> (project \<noteq> None \<and> list_ex (\<lambda>r. qr_ProjectID r = project \<and> qr_Version r = version) (pt_versions pt))"
    by (auto simp: row)
  show "lines_ok pt \<Longrightarrow> lines_ok pt'"
    using fresh xor uo up unfolding lines_ok_def pt' row by (auto simp: list_ex_iff)
qed

lemma insert_policy_version_effect:
  assumes "insert_policy_version pg renum cx org project v createdBy audit pt = Inr (created, pt')"
  obtains json row db where "policy_MarshalJSON (pv_Policy v) = Some json" and "pg_jsonb pg json = Some (qr_PolicyJson row)"
    and "policyVersionFromRow renum row = Inr created" and "appendAudit pg cx audit (pt_database pt) = Inr ((), db)"
    and "pt' = pt\<lparr>pt_versions := pt_versions pt @ [row], pt_seq := Suc (pt_seq pt), pt_database := db\<rparr>"
    and "qr_OrganizationID row = org" "qr_ProjectID row = project" "qr_Version row = pv_Version v" "qr_CreatedBy row = createdBy"
      "qr_CreatedAt row = pg_now pg"
    and "lines_ok pt \<Longrightarrow> lines_ok pt'"
proof -
  from assms obtain json row pt1 db where j: "policy_MarshalJSON (pv_Policy v) = Some json"
    and c: "CreatePolicyVersion pg org project (pv_Version v) json createdBy pt = Inr (row, pt1)"
    and f: "policyVersionFromRow renum row = Inr created" and a: "appendAudit pg cx audit (pt_database pt1) = Inr ((), db)"
    and pt': "pt' = pt1\<lparr>pt_database := db\<rparr>"
    by (auto simp: insert_policy_version_def split: option.splits sum.splits)
  note e = CreatePolicyVersion_effect [OF c]
  have "lines_ok pt \<Longrightarrow> lines_ok pt'" using e(8) unfolding pt' by (simp add: lines_ok_def)
  then show ?thesis using that [OF j e(7) f, of db] a e(1-6) pt' by simp
qed

lemma run_write_Inr:
  "run_write pg fn pt = (Inr v, pt') \<Longrightarrow> fn pt = Inr (v, pt')"
  by (auto simp: run_write_def PolicyTx_def map_prod_def split: option.splits sum.splits prod.splits)

lemma run_write_Inl:
  "run_write pg fn pt = (Inl e, pt') \<Longrightarrow> pt' = pt"
  by (auto simp: run_write_def PolicyTx_def map_prod_def split: option.splits sum.splits prod.splits)

lemma CreateOrgVersion_Inr:
  assumes "CreateOrgVersion pg renum cx v audit pt = (Inr created, pt')"
  obtains oID createdBy where "textUUID pg (px_OrganizationID (pv_Scope v)) = Some oID" and "textUUID pg (pv_CreatedBy v) = Some createdBy"
    and "oID \<in> set (pt_organizations pt)"
    and "insert_policy_version pg renum cx (Some oID) None v createdBy audit pt = Inr (created, pt')"
  using assms by (auto simp: CreateOrgVersion_def split: option.splits if_splits dest!: run_write_Inr)

lemma CreateProjectVersion_Inr:
  assumes "CreateProjectVersion pg renum cx v orgID against audit pt = (Inr created, pt')"
  obtains pID createdBy where "textUUID pg (px_ProjectID (pv_Scope v)) = Some pID" and "textUUID pg (pv_CreatedBy v) = Some createdBy"
    and "org_bound pg renum orgID against pt = None"
    and "insert_policy_version pg renum cx None (Some pID) v createdBy audit pt = Inr (created, pt')"
  using assms by (auto simp: CreateProjectVersion_def split: option.splits if_splits dest!: run_write_Inr)

lemma failed_version_write:
  "CreateOrgVersion pg renum cx v audit pt = (Inl e, pt') \<Longrightarrow> pt' = pt"
  "CreateProjectVersion pg renum cx v orgID against audit pt = (Inl e, pt') \<Longrightarrow> pt' = pt"
  by (auto simp: CreateOrgVersion_def CreateProjectVersion_def split: option.splits dest: run_write_Inl)

text \<open>The newest row of a line is the one with the largest time stamp, the id deciding a tie.\<close>

lemma last_sorted: "sorted (map k xs) \<Longrightarrow> x \<in> set xs \<Longrightarrow> k x \<le> k (last xs)"
  by (induction xs rule: rev_induct) (auto simp: sorted_append)

lemma first_row_iff:
  assumes "distinct (map qr_ID rows)"
  shows "first_row (newest_first rows) = Some r \<longleftrightarrow> r \<in> set rows \<and> (\<forall>x \<in> set rows. row_key x \<le> row_key r)"
proof (cases "rows = []")
  case False
  let ?s = "sort_key row_key rows"
  have ne: "?s \<noteq> []" using False by (metis set_empty set_sort)
  have f: "first_row (newest_first rows) = Some (last ?s)"
    using ne by (cases ?s rule: rev_cases) (auto simp: first_row_def newest_first_def order_rows_def row_key_def [abs_def])
  have l: "last ?s \<in> set rows" using last_in_set [OF ne] by simp
  have m: "row_key x \<le> row_key (last ?s)" if "x \<in> set rows" for x
    using last_sorted [of row_key ?s x] that by simp
  have "inj_on qr_ID (set rows)" using assms by (simp add: distinct_map)
  then have "row_key x = row_key y \<Longrightarrow> x \<in> set rows \<Longrightarrow> y \<in> set rows \<Longrightarrow> x = y" for x y
    by (auto simp: row_key_def dest: inj_onD)
  with f l m show ?thesis by (metis antisym option.inject)
qed (simp add: first_row_def newest_first_def order_rows_def)

section \<open>Histories\<close>

text \<open>A step of the policy tables: a write of either kind, by whatever caller, succeeding or not, or
  anything that leaves the version rows alone.\<close>

inductive policy_step :: "policy_db \<Rightarrow> policy_db \<Rightarrow> bool" where
  org_write: "CreateOrgVersion pg renum cx v audit pt = (res, pt') \<Longrightarrow> policy_step pt pt'"
| project_write: "CreateProjectVersion pg renum cx v orgID against audit pt = (res, pt') \<Longrightarrow> policy_step pt pt'"
| elsewhere: "pt_versions pt' = pt_versions pt \<Longrightarrow> policy_step pt pt'"

lemma policy_step_appends:
  assumes "policy_step pt pt'"
  shows "prefix (pt_versions pt) (pt_versions pt')" and "lines_ok pt \<Longrightarrow> lines_ok pt'"
proof -
  have "prefix (pt_versions pt) (pt_versions pt') \<and> (lines_ok pt \<longrightarrow> lines_ok pt')"
    using assms
  proof cases
    case (org_write pg renum cx v audit res)
    then show ?thesis
      by (cases res) (auto dest: failed_version_write elim!: CreateOrgVersion_Inr insert_policy_version_effect)
  next
    case (project_write pg renum cx v orgID against audit res)
    then show ?thesis
      by (cases res) (auto dest: failed_version_write elim!: CreateProjectVersion_Inr insert_policy_version_effect)
  qed (simp add: lines_ok_def)
  then show "prefix (pt_versions pt) (pt_versions pt')" and "lines_ok pt \<Longrightarrow> lines_ok pt'" by simp_all
qed

lemma policy_steps_append:
  assumes "policy_step\<^sup>*\<^sup>* pt pt'"
  shows "prefix (pt_versions pt) (pt_versions pt') \<and> (lines_ok pt \<longrightarrow> lines_ok pt')"
  using assms
proof (induction rule: rtranclp_induct)
  case (step pt1 pt2)
  then show ?case using policy_step_appends [OF step.hyps(2)] by (metis prefix_order.trans)
qed simp

lemma find_in_prefix: "find P xs = Some x \<Longrightarrow> find P (xs @ ys) = Some x"
  by (induction xs) (auto split: if_splits)

text \<open>Policies are versioned and never change.  Whatever is written afterwards, a version that can
  be read by its id is read unchanged ever after, the lines only grow at their end, and no version string
  is used twice in a line.\<close>

theorem old_versions_stay:
  assumes "policy_step\<^sup>*\<^sup>* pt pt'" and "lines_ok pt" and "policystore_GetVersion pg renum i pt = Inr v"
  shows "policystore_GetVersion pg renum i pt' = Inr v \<and> prefix (pt_versions pt) (pt_versions pt') \<and> lines_ok pt'"
proof -
  have p: "prefix (pt_versions pt) (pt_versions pt')" and l: "lines_ok pt'"
    using policy_steps_append [OF assms(1)] assms(2) by auto
  obtain ext where e: "pt_versions pt' = pt_versions pt @ ext" using p by (auto simp: prefix_def)
  have "GetPolicyVersion u pt = Some row \<Longrightarrow> GetPolicyVersion u pt' = Some row" for u row
    unfolding GetPolicyVersion_def e by (rule find_in_prefix)
  then show ?thesis using assms(3) p l by (auto simp: policystore_GetVersion_def split: option.splits)
qed

text \<open>C21: When a published policy is in force.  A successful organization write adds its row to the line
  with the time its transaction began.  It is the policy in force from then on exactly when no row of the
  line is newer by that time stamp: a publication that waited for the lock behind a later-begun one is
  accepted, audited and never in force.\<close>

theorem publication_in_force_iff:
  assumes "CreateOrgVersion pg renum cx v audit pt = (Inr created, pt')" and "lines_ok pt"
    and "textUUID pg (px_OrganizationID (pv_Scope v)) = Some oID" and "LatestPolicyVersionByOrg oID pt = Some r"
  shows "\<exists>row. pt_versions pt' = pt_versions pt @ [row] \<and> policyVersionFromRow renum row = Inr created
    \<and> qr_CreatedAt row = pg_now pg
    \<and> LatestPolicyVersionByOrg oID pt' = Some (if row_key r \<le> row_key row then row else r)"
proof -
  from assms(1) obtain oID' createdBy where o: "textUUID pg (px_OrganizationID (pv_Scope v)) = Some oID'"
    and ins: "insert_policy_version pg renum cx (Some oID') None v createdBy audit pt = Inr (created, pt')"
    by (rule CreateOrgVersion_Inr)
  from ins obtain row db where pt': "pt' = pt\<lparr>pt_versions := pt_versions pt @ [row], pt_seq := Suc (pt_seq pt), pt_database := db\<rparr>"
    and f: "policyVersionFromRow renum row = Inr created" and t: "qr_CreatedAt row = pg_now pg"
    and org: "qr_OrganizationID row = Some oID'" and ok: "lines_ok pt \<Longrightarrow> lines_ok pt'"
    by (rule insert_policy_version_effect) (rule that)
  have oID: "oID' = oID" using o assms(3) by simp
  let ?line = "\<lambda>pt. filter (\<lambda>r. qr_OrganizationID r = Some oID) (pt_versions pt)"
  have d: "distinct (map qr_ID (?line pt))" "distinct (map qr_ID (?line pt'))"
    using assms(2) ok by (auto simp: lines_ok_def distinct_map_filter)
  have line: "?line pt' = ?line pt @ [row]" using org oID by (simp add: pt')
  have r: "r \<in> set (?line pt)" "\<forall>x \<in> set (?line pt). row_key x \<le> row_key r"
    using assms(4) first_row_iff [OF d(1), of r] by (auto simp: LatestPolicyVersionByOrg_def ListPolicyVersionsByOrg_def)
  have "first_row (newest_first (?line pt')) = Some (if row_key r \<le> row_key row then row else r)"
    unfolding first_row_iff [OF d(2)] unfolding line using r by (auto intro: order_trans)
  then show ?thesis using pt' f t by (intro exI [of _ row]) (simp add: LatestPolicyVersionByOrg_def ListPolicyVersionsByOrg_def)
qed

section \<open>A sample line\<close>

text \<open>One published version, from a transaction that began at time 5, and a publication that began at
  time 1.\<close>

definition sample_line_row :: policy_row where
  "sample_line_row = \<lparr>qr_ID = ''r1'', qr_OrganizationID = Some ''org'', qr_ProjectID = None, qr_Version = ''v1'',
     qr_PolicyJson = org_document, qr_CreatedBy = ''u'', qr_CreatedAt = \<lparr>instant = 5, zone = 0\<rparr>\<rparr>"

definition sample_tables :: policy_db where
  "sample_tables = \<lparr>pt_database = sample_db, pt_organizations = [''org''], pt_versions = [sample_line_row], pt_seq = 1\<rparr>"

definition sample_publication :: "(policy_error + PolicyVersion) \<times> policy_db" where
  "sample_publication = CreateOrgVersion sample_pg Some \<lparr>cx_request = None, cx_newUUID = None\<rparr>
     \<lparr>pv_ID = [], pv_Scope = \<lparr>px_OrganizationID = ''org'', px_ProjectID = []\<rparr>, pv_Version = ''v2'',
      pv_Policy = [(RuleMainProtected, [TTrue])], pv_CreatedBy = ''u'', pv_CreatedAt = \<lparr>instant = 0, zone = 0\<rparr>\<rparr>
     \<lparr>ae_ActorID = ''u'', ae_Via = ViaSession, ae_Action = ''policy.version_set'', ae_TargetRef = ''organization:org'', ae_ProjectID = [],
      ae_OrganizationID = ''org'', ae_CorrelationID = ''c'', ae_BeforeSummary = None, ae_AfterSummary = None, ae_Metadata = None\<rparr>
     sample_tables"

lemma sample_publication_evaluates:
  "\<not> isl (fst sample_publication)
   \<and> (case policystore_GetVersion sample_pg Some ''r1'' sample_tables of Inr v \<Rightarrow> pv_Version v = ''v1'' | _ \<Rightarrow> False)"
  by code_simp

lemma sample_lines_ok: "lines_ok sample_tables"
  by (simp add: lines_ok_def sample_tables_def sample_line_row_def)

theorem old_versions_stay_witness:
  "\<exists>v. policystore_GetVersion sample_pg Some ''r1'' (snd sample_publication) = Inr v \<and> pv_Version v = ''v1''"
proof -
  obtain v where v: "policystore_GetVersion sample_pg Some ''r1'' sample_tables = Inr v" "pv_Version v = ''v1''"
    using sample_publication_evaluates by (auto split: sum.splits)
  have "policy_step\<^sup>*\<^sup>* sample_tables (snd sample_publication)"
    by (rule r_into_rtranclp, rule org_write, unfold sample_publication_def, rule prod.collapse [symmetric])
  from old_versions_stay [OF this sample_lines_ok v(1)] v(2) show ?thesis by blast
qed

theorem publication_in_force_iff_witness:
  "LatestPolicyVersionByOrg ''org'' (snd sample_publication) = Some sample_line_row \<and> length (pt_versions (snd sample_publication)) = 2"
proof -
  obtain created where c: "fst sample_publication = Inr created"
    using sample_publication_evaluates by (cases "fst sample_publication") auto
  have l: "LatestPolicyVersionByOrg ''org'' sample_tables = Some sample_line_row"
    by (simp add: LatestPolicyVersionByOrg_def ListPolicyVersionsByOrg_def newest_first_def order_rows_def first_row_def
        sample_tables_def sample_line_row_def)
  have "sample_publication = (Inr created, snd sample_publication)" using c by (metis prod.collapse)
  from publication_in_force_iff [OF this [unfolded sample_publication_def] sample_lines_ok _ l, folded sample_publication_def]
  obtain row where r: "pt_versions (snd sample_publication) = pt_versions sample_tables @ [row]" "qr_CreatedAt row = pg_now sample_pg"
    "LatestPolicyVersionByOrg ''org'' (snd sample_publication) = Some (if row_key sample_line_row \<le> row_key row then row else sample_line_row)"
    by (auto simp: textUUID_def sample_pg_def)
  have "\<not> row_key sample_line_row \<le> row_key row" using r(2) by (simp add: row_key_def sample_line_row_def sample_pg_def)
  with r show ?thesis by (simp add: sample_tables_def)
qed

end
