(* ===== verification/PolicyService.thy ===== *)
theory PolicyService
  imports PolicyStore MergeGovernance
begin

text \<open>
  The policy service (internal/application/policy/service.go): who may publish a policy, the lower bound
  checked before and inside the write transaction, the reads, the effective policy of a project and the
  questions put to it; and how the merge command uses it.

  The two gates answer from tables this development does not model, so they are functions of the tables.
  \<open>env\<close> is what other clients do between two steps of one call; \<open>corr\<close> is the correlation id of
  the request context or a freshly minted one, \<open>None\<close> when minting fails.
\<close>

section \<open>The gates\<close>

datatype gate_fault = GateScopeNotFound | GateMemberNotFound | GateFailure

record org_membership =
  om_Active :: bool
  om_Role :: string

record policy_gates =
  gt_GetOrganization :: "string \<Rightarrow> policy_db \<Rightarrow> gate_fault + bool"
  gt_OrgMembership :: "string \<Rightarrow> string \<Rightarrow> policy_db \<Rightarrow> gate_fault + org_membership"
  gt_GetProject :: "string \<Rightarrow> policy_db \<Rightarrow> gate_fault + string option"
  gt_ProjectMembership :: "string \<Rightarrow> string \<Rightarrow> policy_db \<Rightarrow> gate_fault + ProjectRole"

definition OrgRoleOwner :: string where "OrgRoleOwner = ''owner''"

definition OrgRole_Governs :: "string \<Rightarrow> bool" where
  "OrgRole_Governs r \<longleftrightarrow> r = OrgRoleOwner"

definition wrapOrgGateError :: "gate_fault \<Rightarrow> policy_error" where
  "wrapOrgGateError e =
     (case e of GateScopeNotFound \<Rightarrow> policy_ErrOrgNotFound | GateMemberNotFound \<Rightarrow> policy_ErrForbidden | GateFailure \<Rightarrow> policy_ErrStore)"

definition wrapProjectGateError :: "gate_fault \<Rightarrow> policy_error" where
  "wrapProjectGateError e =
     (case e of GateScopeNotFound \<Rightarrow> policy_ErrProjectNotFound | GateMemberNotFound \<Rightarrow> policy_ErrProjectNotFound
      | GateFailure \<Rightarrow> policy_ErrStore)"

definition policy_wrapStoreError :: "policy_error \<Rightarrow> policy_error" where
  "policy_wrapStoreError e =
     (if policy_leaf e \<in> {policy_ErrPolicyNotFound, policy_ErrVersionTaken, policy_ErrOrgNotFound, policy_ErrProjectNotFound, policy_ErrValidation}
         \<or> is_relaxation (policy_leaf e)
      then e else policy_ErrStore)"

definition requireOrgGovernor :: "policy_gates \<Rightarrow> string \<Rightarrow> string \<Rightarrow> policy_db \<Rightarrow> policy_error option" where
  "requireOrgGovernor gt actorID orgID pt =
     (case gt_GetOrganization gt orgID pt of
        Inl e \<Rightarrow> Some (wrapOrgGateError e)
      | Inr active \<Rightarrow>
          if \<not> active then Some policy_ErrOrgDeactivated
          else (case gt_OrgMembership gt orgID actorID pt of
                  Inl e \<Rightarrow> Some (if e = GateMemberNotFound then policy_ErrForbidden else wrapOrgGateError e)
                | Inr m \<Rightarrow> if \<not> om_Active m \<or> \<not> OrgRole_Governs (om_Role m) then Some policy_ErrForbidden else None))"

definition requireOrgReader :: "policy_gates \<Rightarrow> string \<Rightarrow> string \<Rightarrow> policy_db \<Rightarrow> policy_error option" where
  "requireOrgReader gt actorID orgID pt =
     (case gt_GetOrganization gt orgID pt of
        Inl e \<Rightarrow> Some (wrapOrgGateError e)
      | Inr _ \<Rightarrow>
          (case gt_OrgMembership gt orgID actorID pt of
             Inl e \<Rightarrow> Some (if e = GateMemberNotFound then policy_ErrOrgNotFound else wrapOrgGateError e)
           | Inr m \<Rightarrow> if \<not> om_Active m then Some policy_ErrOrgNotFound else None))"

definition requireProjectOwner :: "policy_gates \<Rightarrow> string \<Rightarrow> string \<Rightarrow> policy_db \<Rightarrow> policy_error + string option" where
  "requireProjectOwner gt actorID projectID pt =
     (case gt_GetProject gt projectID pt of
        Inl e \<Rightarrow> Inl (wrapProjectGateError e)
      | Inr org \<Rightarrow>
          (case gt_ProjectMembership gt projectID actorID pt of
             Inl e \<Rightarrow> Inl (if e = GateMemberNotFound then policy_ErrForbidden else wrapProjectGateError e)
           | Inr role \<Rightarrow> if role \<noteq> ProjectRoleOwner then Inl policy_ErrForbidden else Inr org))"

definition requireProjectReader :: "policy_gates \<Rightarrow> string \<Rightarrow> string \<Rightarrow> policy_db \<Rightarrow> policy_error option" where
  "requireProjectReader gt actorID projectID pt =
     (case gt_ProjectMembership gt projectID actorID pt of
        Inl e \<Rightarrow> Some (if e = GateMemberNotFound then policy_ErrProjectNotFound else wrapProjectGateError e)
      | Inr _ \<Rightarrow> None)"

section \<open>Writes\<close>

definition parsePolicyInput :: "(string \<Rightarrow> string option) \<Rightarrow> string \<Rightarrow> raw \<Rightarrow> policy_error + Policy" where
  "parsePolicyInput renum version doc =
     (if \<not> ValidPolicyVersion version then Inl policy_ErrValidation
      else if doc = [] then Inl policy_ErrValidation
      else (case PolicyFromJSON renum doc of Inl _ \<Rightarrow> Inl policy_ErrValidation | Inr p \<Rightarrow> Inr p))"

definition validateAgainstOrg :: "(string \<Rightarrow> string option) \<Rightarrow> Policy \<Rightarrow> Policy \<Rightarrow> policy_error option" where
  "validateAgainstOrg renum orgPolicy projectPolicy =
     (case ValidateProjectPolicy renum orgPolicy projectPolicy of [] \<Rightarrow> None | vs \<Rightarrow> Some (policy_ErrProjectRelaxesOrg vs))"

definition againstOrg :: "(string \<Rightarrow> string option) \<Rightarrow> Policy \<Rightarrow> Policy option \<Rightarrow> policy_error option" where
  "againstOrg renum p orgPolicy = (case orgPolicy of None \<Rightarrow> None | Some o' \<Rightarrow> validateAgainstOrg renum o' p)"

definition ActionPolicyVersionSet :: string where "ActionPolicyVersionSet = ''policy.version_set''"

definition policyAudit :: "string option \<Rightarrow> string \<Rightarrow> PolicyScope \<Rightarrow> string \<Rightarrow> Policy \<Rightarrow> policy_error + AuditEntry" where
  "policyAudit corr actorID scope version p =
     (case corr of
        None \<Rightarrow> Inl policy_ErrStore
      | Some c \<Rightarrow>
          (let org = (px_OrganizationID scope \<noteq> []) in
           Inr \<lparr>ae_ActorID = actorID, ae_Via = ViaSession, ae_Action = ActionPolicyVersionSet,
             ae_TargetRef = (if org then ''organization:'' @ px_OrganizationID scope else ''project:'' @ px_ProjectID scope),
             ae_ProjectID = (if org then [] else px_ProjectID scope), ae_OrganizationID = px_OrganizationID scope,
             ae_CorrelationID = c, ae_BeforeSummary = None,
             ae_AfterSummary = map_option (\<lambda>doc. object_text [(''policy'', doc), (''version'', [TStr version])]) (policy_MarshalJSON p),
             ae_Metadata = None\<rparr>))"

definition new_version :: "PolicyScope \<Rightarrow> string \<Rightarrow> Policy \<Rightarrow> string \<Rightarrow> PolicyVersion" where
  "new_version scope version p actorID =
     \<lparr>pv_ID = [], pv_Scope = scope, pv_Version = version, pv_Policy = p, pv_CreatedBy = actorID, pv_CreatedAt = \<lparr>instant = 0, zone = 0\<rparr>\<rparr>"

definition SetOrgPolicy ::
  "pg \<Rightarrow> (string \<Rightarrow> string option) \<Rightarrow> policy_gates \<Rightarrow> (nat \<Rightarrow> policy_db \<Rightarrow> policy_db) \<Rightarrow> CallCtx \<Rightarrow> string option
   \<Rightarrow> string \<Rightarrow> string \<Rightarrow> string \<Rightarrow> raw \<Rightarrow> policy_db \<Rightarrow> (policy_error + PolicyVersion) \<times> policy_db" where
  "SetOrgPolicy pg renum gt env cx corr actorID orgID version doc pt =
     (case parsePolicyInput renum version doc of
        Inl e \<Rightarrow> (Inl e, pt)
      | Inr p \<Rightarrow>
          (let version = TrimSpace version; scope = \<lparr>px_OrganizationID = orgID, px_ProjectID = []\<rparr> in
           case requireOrgGovernor gt actorID orgID pt of
             Some e \<Rightarrow> (Inl e, pt)
           | None \<Rightarrow>
               (case policyAudit corr actorID scope version p of
                  Inl e \<Rightarrow> (Inl e, pt)
                | Inr audit \<Rightarrow>
                    map_prod (map_sum policy_wrapStoreError (\<lambda>v. v)) (\<lambda>x. x)
                      (CreateOrgVersion pg renum cx (new_version scope version p actorID) audit (env 0 pt)))))"

definition precheck :: "pg \<Rightarrow> (string \<Rightarrow> string option) \<Rightarrow> string option \<Rightarrow> Policy \<Rightarrow> policy_db \<Rightarrow> policy_error option" where
  "precheck pg renum org p pt =
     (case org of
        None \<Rightarrow> None
      | Some orgID \<Rightarrow>
          (case policystore_Latest pg renum \<lparr>px_OrganizationID = orgID, px_ProjectID = []\<rparr> pt of
             Inl e \<Rightarrow> if policy_leaf e \<noteq> policy_ErrPolicyNotFound then Some (policy_wrapStoreError e) else None
           | Inr latest \<Rightarrow> validateAgainstOrg renum (pv_Policy latest) p))"

definition SetProjectPolicy ::
  "pg \<Rightarrow> (string \<Rightarrow> string option) \<Rightarrow> policy_gates \<Rightarrow> (nat \<Rightarrow> policy_db \<Rightarrow> policy_db) \<Rightarrow> CallCtx \<Rightarrow> string option
   \<Rightarrow> string \<Rightarrow> string \<Rightarrow> string \<Rightarrow> raw \<Rightarrow> policy_db \<Rightarrow> (policy_error + PolicyVersion) \<times> policy_db" where
  "SetProjectPolicy pg renum gt env cx corr actorID projectID version doc pt =
     (case parsePolicyInput renum version doc of
        Inl e \<Rightarrow> (Inl e, pt)
      | Inr p \<Rightarrow>
          (let version = TrimSpace version; scope = \<lparr>px_OrganizationID = [], px_ProjectID = projectID\<rparr> in
           case requireProjectOwner gt actorID projectID pt of
             Inl e \<Rightarrow> (Inl e, pt)
           | Inr org \<Rightarrow>
               (let pt1 = env 0 pt in
                case precheck pg renum org p pt1 of
                  Some e \<Rightarrow> (Inl e, pt1)
                | None \<Rightarrow>
                    (case policyAudit corr actorID scope version p of
                       Inl e \<Rightarrow> (Inl e, pt1)
                     | Inr audit \<Rightarrow>
                         map_prod (map_sum policy_wrapStoreError (\<lambda>v. v)) (\<lambda>x. x)
                           (CreateProjectVersion pg renum cx (new_version scope version p actorID) org (againstOrg renum p) audit
                              (env 1 pt1))))))"

section \<open>Reads\<close>

definition GetOrgPolicy ::
  "pg \<Rightarrow> (string \<Rightarrow> string option) \<Rightarrow> policy_gates \<Rightarrow> string \<Rightarrow> string \<Rightarrow> policy_db \<Rightarrow> policy_error + PolicyVersion" where
  "GetOrgPolicy pg renum gt actorID orgID pt =
     (case requireOrgReader gt actorID orgID pt of
        Some e \<Rightarrow> Inl e
      | None \<Rightarrow> map_sum policy_wrapStoreError (\<lambda>v. v) (policystore_Latest pg renum \<lparr>px_OrganizationID = orgID, px_ProjectID = []\<rparr> pt))"

definition GetProjectPolicy ::
  "pg \<Rightarrow> (string \<Rightarrow> string option) \<Rightarrow> policy_gates \<Rightarrow> string \<Rightarrow> string \<Rightarrow> policy_db \<Rightarrow> policy_error + PolicyVersion" where
  "GetProjectPolicy pg renum gt actorID projectID pt =
     (case requireProjectReader gt actorID projectID pt of
        Some e \<Rightarrow> Inl e
      | None \<Rightarrow> map_sum policy_wrapStoreError (\<lambda>v. v) (policystore_Latest pg renum \<lparr>px_OrganizationID = [], px_ProjectID = projectID\<rparr> pt))"

record EffectivePolicyView =
  ef_Org :: "PolicyVersion option"
  ef_Project :: "PolicyVersion option"
  ef_Effective :: Policy

text \<open>An optional version: a scope without a policy is no error.\<close>

definition latest_or_none :: "policy_error + PolicyVersion \<Rightarrow> policy_error + PolicyVersion option" where
  "latest_or_none r =
     (case r of
        Inl e \<Rightarrow> if policy_leaf e \<noteq> policy_ErrPolicyNotFound then Inl (policy_wrapStoreError e) else Inr None
      | Inr v \<Rightarrow> Inr (Some v))"

definition document_of :: "PolicyVersion option \<Rightarrow> Policy" where
  "document_of v = (case v of None \<Rightarrow> EmptyPolicy | Some x \<Rightarrow> pv_Policy x)"

text \<open>The organization's line and the project's line are read one after the other, on \<open>pt\<close> and on
  \<open>pt'\<close>.\<close>

definition EffectivePolicy ::
  "pg \<Rightarrow> (string \<Rightarrow> string option) \<Rightarrow> policy_gates \<Rightarrow> string \<Rightarrow> string \<Rightarrow> policy_db \<Rightarrow> policy_db \<Rightarrow> policy_error + EffectivePolicyView" where
  "EffectivePolicy pg renum gt actorID projectID pt pt' =
     (case requireProjectReader gt actorID projectID pt of
        Some e \<Rightarrow> Inl e
      | None \<Rightarrow>
          (case gt_GetProject gt projectID pt of
             Inl e \<Rightarrow> Inl (wrapProjectGateError e)
           | Inr org \<Rightarrow>
               (case (case org of None \<Rightarrow> Inr None
                      | Some orgID \<Rightarrow> latest_or_none (policystore_Latest pg renum \<lparr>px_OrganizationID = orgID, px_ProjectID = []\<rparr> pt)) of
                  Inl e \<Rightarrow> Inl e
                | Inr orgVersion \<Rightarrow>
                    (case latest_or_none (policystore_Latest pg renum \<lparr>px_OrganizationID = [], px_ProjectID = projectID\<rparr> pt') of
                       Inl e \<Rightarrow> Inl e
                     | Inr projectVersion \<Rightarrow>
                         Inr \<lparr>ef_Org = orgVersion, ef_Project = projectVersion,
                           ef_Effective = MergeEffective renum (document_of orgVersion) (document_of projectVersion)\<rparr>))))"

definition policy_ListVersions ::
  "pg \<Rightarrow> (string \<Rightarrow> string option) \<Rightarrow> policy_gates \<Rightarrow> string \<Rightarrow> PolicyScope \<Rightarrow> policy_db \<Rightarrow> policy_error + PolicyVersion list" where
  "policy_ListVersions pg renum gt actorID scope pt =
     (if \<not> PolicyScope_Valid scope then Inl policy_ErrValidation
      else case (if px_OrganizationID scope \<noteq> [] then requireOrgReader gt actorID (px_OrganizationID scope) pt
                 else requireProjectReader gt actorID (px_ProjectID scope) pt) of
        Some e \<Rightarrow> Inl e
      | None \<Rightarrow> map_sum policy_wrapStoreError (\<lambda>v. v) (policystore_List pg renum scope pt))"

definition policy_GetVersion ::
  "pg \<Rightarrow> (string \<Rightarrow> string option) \<Rightarrow> policy_gates \<Rightarrow> string \<Rightarrow> string \<Rightarrow> policy_db \<Rightarrow> policy_error + PolicyVersion" where
  "policy_GetVersion pg renum gt actorID versionID pt =
     (case policystore_GetVersion pg renum versionID pt of
        Inl e \<Rightarrow> Inl (policy_wrapStoreError e)
      | Inr v \<Rightarrow>
          (case (if px_OrganizationID (pv_Scope v) \<noteq> [] then requireOrgReader gt actorID (px_OrganizationID (pv_Scope v)) pt
                 else requireProjectReader gt actorID (px_ProjectID (pv_Scope v)) pt) of
             Some e \<Rightarrow> Inl e
           | None \<Rightarrow> Inr v))"

datatype question_error = PolicyFailed policy_error | RuleFailed evaluate_error

definition EvaluateEffective ::
  "pg \<Rightarrow> (string \<Rightarrow> string option) \<Rightarrow> policy_gates \<Rightarrow> string \<Rightarrow> string \<Rightarrow> string \<Rightarrow> policy_db \<Rightarrow> policy_db
   \<Rightarrow> question_error + PolicyDecision" where
  "EvaluateEffective pg renum gt actorID projectID rule pt pt' =
     (case EffectivePolicy pg renum gt actorID projectID pt pt' of
        Inl e \<Rightarrow> Inl (PolicyFailed e)
      | Inr eff \<Rightarrow> map_sum RuleFailed (\<lambda>d. d) (Evaluate (ef_Effective eff) rule))"

definition EvaluateVersion ::
  "pg \<Rightarrow> (string \<Rightarrow> string option) \<Rightarrow> policy_gates \<Rightarrow> string \<Rightarrow> string \<Rightarrow> string \<Rightarrow> policy_db \<Rightarrow> question_error + PolicyDecision" where
  "EvaluateVersion pg renum gt actorID versionID rule pt =
     (case policy_GetVersion pg renum gt actorID versionID pt of
        Inl e \<Rightarrow> Inl (PolicyFailed e)
      | Inr v \<Rightarrow> map_sum RuleFailed (\<lambda>d. d) (Evaluate (pv_Policy v) rule))"

section \<open>Properties\<close>

lemma stored_policy_valid: "policyVersionFromRow renum row = Inr v \<Longrightarrow> valid_policy renum (pv_Policy v)"
  by (auto simp: policyVersionFromRow_def dest: PolicyFromJSON_valid split: sum.splits)

lemma latest_valid:
  assumes "policystore_Latest pg renum scope pt = Inr v"
  shows "valid_policy renum (pv_Policy v)"
proof -
  from assms obtain vs where "policystore_list pg renum scope True pt = Inr (v # vs)"
    by (auto simp: policystore_Latest_def split: sum.splits list.splits)
  then obtain rows where m: "map_err (policyVersionFromRow renum) rows = Inr (v # vs)"
    by (auto simp: policystore_list_def split: sum.splits)
  then obtain row rest where "rows = row # rest" by (cases rows) auto
  with m have "policyVersionFromRow renum row = Inr v" by (auto split: sum.splits)
  then show ?thesis by (rule stored_policy_valid)
qed

lemma wrapped_result:
  "map_sum f (\<lambda>v. v) r = Inr v \<longleftrightarrow> r = Inr v" "map_sum f (\<lambda>v. v) r = Inl e \<longleftrightarrow> (\<exists>e0. r = Inl e0 \<and> e = f e0)"
  by (cases r; auto)+




text \<open>A refused write leaves the version rows as the other clients left them.\<close>

lemma refused_policy_write:
  "SetProjectPolicy pg renum gt env cx corr actor project version doc pt = (Inl e, pt') \<Longrightarrow> pt' \<in> {pt, env 0 pt, env 1 (env 0 pt)}"
  "SetOrgPolicy pg renum gt env cx corr actor org version doc pt = (Inl e, pt') \<Longrightarrow> pt' \<in> {pt, env 0 pt}"
  by (auto simp: SetProjectPolicy_def SetOrgPolicy_def Let_def map_prod_def wrapped_result dest: failed_version_write
      split: sum.splits option.splits prod.splits)

section \<open>The merge command under the policy in force\<close>

text \<open>The ports of the merge command as the platform wires them: the service's effective policy and the
  rule evaluator.  \<open>tables\<close> and \<open>tables'\<close> are what the two reads of one call find.\<close>

definition policy_wired ::
  "('c, EffectivePolicyView) MergeDeps \<Rightarrow> pg \<Rightarrow> (string \<Rightarrow> string option) \<Rightarrow> policy_gates
   \<Rightarrow> (database \<Rightarrow> policy_db) \<Rightarrow> (database \<Rightarrow> policy_db) \<Rightarrow> bool" where
  "policy_wired md pg renum gt tables tables' \<longleftrightarrow>
     md_Policies md = Some (\<lambda>actor project db. map_sum (\<lambda>_. ErrorText ''policy'') (\<lambda>x. x)
       (EffectivePolicy pg renum gt actor project (tables db) (tables' db)))
     \<and> md_Rules md = Some (\<lambda>eff rule. map_sum (\<lambda>_. ErrorText ''rule'') (\<lambda>x. x) (Evaluate (ef_Effective eff) rule))"

definition protects_main :: "PolicyVersion option \<Rightarrow> bool" where
  "protects_main v \<longleftrightarrow> Option.bind (policy_Rule (document_of v) RuleMainProtected) unmarshal_bool = Some True"

lemma effective_view:
  assumes "EffectivePolicy pg renum gt actor project pt pt' = Inr eff"
  shows "ef_Effective eff = MergeEffective renum (document_of (ef_Org eff)) (document_of (ef_Project eff))"
    and "valid_policy renum (document_of (ef_Org eff))" and "valid_policy renum (document_of (ef_Project eff))"
proof -
  have ok: "valid_policy renum (document_of v)" if "latest_or_none (policystore_Latest pg renum scope x) = Inr v" for v scope x
    using that latest_valid [of pg renum scope x]
    by (auto simp: latest_or_none_def document_of_def valid_policy_def EmptyPolicy_def policy_Validate_def List.map_filter_simps
        split: sum.splits if_splits)
  have "valid_policy renum []" by (simp add: valid_policy_def policy_Validate_def List.map_filter_simps)
  then show "ef_Effective eff = MergeEffective renum (document_of (ef_Org eff)) (document_of (ef_Project eff))"
    and "valid_policy renum (document_of (ef_Org eff))" and "valid_policy renum (document_of (ef_Project eff))"
    using assms by (auto simp: EffectivePolicy_def document_of_def [of None] EmptyPolicy_def split: option.splits sum.splits dest!: ok)
qed

text \<open>C20: The policy gate of a merge.  With the policy service wired, a merge passes the gate exactly
  when the caller may read the project's policy and the policy in force of the organization or of the
  project sets main_protected to true.  A project cannot switch off what its organization switched on,
  a value the other overrides does not count, and silence on both sides refuses.\<close>

theorem merge_policy_gate:
  assumes "policy_wired md pg renum gt tables tables'"
  shows "requirePolicy md actor project db = None \<longleftrightarrow>
    (\<exists>eff. EffectivePolicy pg renum gt actor project (tables db) (tables' db) = Inr eff
       \<and> (protects_main (ef_Org eff) \<or> protects_main (ef_Project eff)))"
proof -
  have k: "RuleKindOf RuleMainProtected = RuleKindBool" by (simp add: RuleKindOf_def)
  have gate: "(\<exists>d. Evaluate (ef_Effective eff) RuleMainProtected = Inr d \<and> pd_Found d \<and> pd_Bool d)
      \<longleftrightarrow> protects_main (ef_Org eff) \<or> protects_main (ef_Project eff)"
    if "EffectivePolicy pg renum gt actor project (tables db) (tables' db) = Inr eff" for eff
  proof -
    note e = effective_view [OF that]
    let ?org = "document_of (ef_Org eff)" and ?project = "document_of (ef_Project eff)"
    have d: "distinct (map fst ?org)" "distinct (map fst ?project)" using e(2,3) by (simp_all add: valid_policy_def)
    have b: "unmarshal_bool x \<noteq> None" if "policy_Rule ?org RuleMainProtected = Some x \<or> policy_Rule ?project RuleMainProtected = Some x" for x
      using that valid_rule(1) [OF e(2)] valid_rule(1) [OF e(3)] k by (fastforce simp: parseRuleValue_def)
    have "(\<exists>d. Evaluate (ef_Effective eff) RuleMainProtected = Inr d \<and> pd_Found d \<and> pd_Bool d)
        \<longleftrightarrow> Option.bind (policy_Rule (ef_Effective eff) RuleMainProtected) unmarshal_bool = Some True"
      by (auto simp: Evaluate_def k no_decision_def split: option.splits)
    also have "\<dots> \<longleftrightarrow> protects_main (ef_Org eff) \<or> protects_main (ef_Project eff)"
      unfolding e(1) rule_MergeEffective [OF d] protects_main_def using b
      by (auto simp: at_least_def k split: option.splits)
    finally show ?thesis .
  qed
  show ?thesis
    using assms gate unfolding policy_wired_def requirePolicy_None
    by (cases "EffectivePolicy pg renum gt actor project (tables db) (tables' db)") (auto simp: wrapped_result)
qed

section \<open>Witnesses\<close>

definition open_gates :: policy_gates where
  "open_gates = \<lparr>gt_GetOrganization = (\<lambda>_ _. Inr True), gt_OrgMembership = (\<lambda>_ _ _. Inr \<lparr>om_Active = True, om_Role = OrgRoleOwner\<rparr>),
     gt_GetProject = (\<lambda>_ _. Inr (Some ''org'')), gt_ProjectMembership = (\<lambda>_ _ _. Inr ProjectRoleOwner)\<rparr>"





definition governed_md :: "(unit, EffectivePolicyView) MergeDeps" where
  "governed_md = \<lparr>md_pg = sample_pg, md_sha = md_sha merge_md, md_renum = Some, md_guard = md_guard merge_md,
     md_Diffs = md_Diffs merge_md, md_Plans = md_Plans merge_md, md_Aborts = md_Aborts merge_md, md_Reopens = md_Reopens merge_md,
     md_Projects = md_Projects merge_md, md_Authz = md_Authz merge_md, md_Forks = None, md_Checks = md_Checks merge_md,
     md_Policies = Some (\<lambda>actor project db. map_sum (\<lambda>_. ErrorText ''policy'') (\<lambda>x. x)
       (EffectivePolicy sample_pg Some open_gates actor project sample_tables sample_tables)),
     md_Rules = Some (\<lambda>eff rule. map_sum (\<lambda>_. ErrorText ''rule'') (\<lambda>x. x) (Evaluate (ef_Effective eff) rule)),
     md_Events = md_Events merge_md, md_Git = None, md_MergeService = ''svc'', md_MaxAttempts = 0,
     md_plan_json = md_plan_json merge_md, md_plan_read = md_plan_read merge_md,
     md_error_text = md_error_text merge_md, md_detail_text = md_detail_text merge_md\<rparr>"

lemma sample_effective:
  "case EffectivePolicy sample_pg Some open_gates ''u'' ''p'' sample_tables sample_tables of
     Inr eff \<Rightarrow> protects_main (ef_Org eff) | _ \<Rightarrow> False"
  by code_simp

theorem merge_policy_gate_witness: "requirePolicy governed_md ''u'' ''p'' merge_db = None"
proof -
  have w: "policy_wired governed_md sample_pg Some open_gates (\<lambda>_. sample_tables) (\<lambda>_. sample_tables)"
    by (simp add: policy_wired_def governed_md_def)
  show ?thesis using sample_effective unfolding merge_policy_gate [OF w] by (auto split: sum.splits)
qed

end
