(* ===== verification/Spec2Isabelle.thy ===== *)
theory Spec2Isabelle
  imports MergePlan Validation Provenance Authz CommitProtocol MergeWire PolicyService
begin

text \<open>
  POST, a platform for versioned research state: a verification development of its core.
\<close>

end
